(* ===== verification/Gateway_Prelude.thy ===== *)
theory Gateway_Prelude
  imports Complex_Main "HOL-Library.AList" "HOL-Library.Char_ord" "HOL-Library.List_Lexorder"
    "HOL-Library.Product_Lexorder" "HOL-Library.Option_ord"
begin

text \<open>
  Shared vocabulary of the development. It fixes how Python values are represented and holds the
  generic facts the component theories use.

  \<^item> A Python \<open>str\<close> is its UTF-8 encoding, a \<open>string\<close>; a \<open>bytes\<close> value is a
    \<open>string\<close> as well. So \<open>encode()\<close> is the identity and \<open>len(s.encode())\<close> is \<open>length\<close>, while
    \<open>len(s)\<close>, the number of code points, is \<open>py_len\<close>.
  \<^item> An exception is a value of \<open>exn\<close>, and fallible code returns \<open>exn + 'a\<close>, sequenced by
    \<open>bind_r\<close>. A database transaction that raises is rolled back, so the left side carries no
    state.
  \<^item> A database table is an association list from primary keys to rows, in insertion order.
  \<^item> A run of a component is a path of a labelled step relation (\<open>run\<close>); the locales at the end
    state what an invariant and an at-most-once claim need of such a relation.
\<close>

section \<open>Types\<close>

type_synonym bytes = string
type_synonym time = int

text \<open>A value as \<open>json.loads\<close> yields it. An object keeps its key order; a float keeps its literal.\<close>

datatype json =
    JNull
  | JBool bool
  | JInt int
  | JFloat string
  | JStr string
  | JList "json list"
  | JObj "(string \<times> json) list"

datatype exn =
    BrokerError (code: string) (message: string) (status: int) (details: "json option")
  | ValueError string
  | KeyError string
  | TypeError
  | AttributeError
  | OSError
  | AssertionError
  | PsycopgError string
  | InvalidToken
  | HTTPError
  | ClientValidationError string string string
  | NativeUnsupported
  | NativeOutcomeUnknown
  | A2AError (a2a_code: string) (a2a_message: string) (a2a_retryable: bool) (rpc_code: json)
  | CancelledError
  | RuntimeError string

section \<open>Named collections\<close>

named_theorems table_simps \<open>rewriting of table lookups after an update\<close>
named_theorems op_defs \<open>definitions of component operations\<close>

section \<open>Fallible code\<close>

definition bind_r :: "'e + 'a \<Rightarrow> ('a \<Rightarrow> 'e + 'b) \<Rightarrow> 'e + 'b" where
  "bind_r m f = (case m of Inl e \<Rightarrow> Inl e | Inr x \<Rightarrow> f x)"

lemma bind_r_simps [simp]: "bind_r (Inl e) f = Inl e" "bind_r (Inr x) f = f x"
  by (simp_all add: bind_r_def)

lemma bind_r_Inr_iff [simp]: "bind_r m f = Inr y \<longleftrightarrow> (\<exists>x. m = Inr x \<and> f x = Inr y)"
  by (cases m) auto

lemma bind_r_Inl_iff:
  "bind_r m f = Inl e \<longleftrightarrow> m = Inl e \<or> (\<exists>x. m = Inr x \<and> f x = Inl e)"
  by (cases m) auto

definition raise_if :: "bool \<Rightarrow> 'e \<Rightarrow> 'e + unit" where
  "raise_if b e = (if b then Inl e else Inr ())"

lemma raise_if_simps [simp]: "raise_if True e = Inl e" "raise_if False e = Inr ()"
  by (simp_all add: raise_if_def)

lemma raise_if_Inr [simp]: "raise_if b e = Inr u \<longleftrightarrow> \<not> b"
  by (simp add: raise_if_def)

lemma raise_if_Inl [simp]: "raise_if b e = Inl e' \<longleftrightarrow> b \<and> e = e'"
  by (simp add: raise_if_def)

fun map_r :: "('a \<Rightarrow> 'e + 'b) \<Rightarrow> 'a list \<Rightarrow> 'e + 'b list" where
  "map_r f [] = Inr []"
| "map_r f (x # xs) = bind_r (f x) (\<lambda>y. bind_r (map_r f xs) (\<lambda>ys. Inr (y # ys)))"

lemma map_r_Inr_iff: "map_r f xs = Inr ys \<longleftrightarrow> list_all2 (\<lambda>x y. f x = Inr y) xs ys"
  by (induction xs arbitrary: ys) (auto simp: list_all2_Cons1)

section \<open>Coroutines\<close>

text \<open>Code that keeps the state it has reached when it raises: a function from a world to an exception or a
  value, with the new world. In contrast to a transaction nothing is rolled back.\<close>

type_synonym ('a, 'w) coroutine = "'w \<Rightarrow> (exn + 'a) \<times> 'w"

definition return_p :: "'a \<Rightarrow> ('a, 'w) coroutine" where
  "return_p x = (\<lambda>w. (Inr x, w))"

definition raise_p :: "exn \<Rightarrow> ('a, 'w) coroutine" where
  "raise_p e = (\<lambda>w. (Inl e, w))"

definition bind_p :: "('a, 'w) coroutine \<Rightarrow> ('a \<Rightarrow> ('b, 'w) coroutine) \<Rightarrow> ('b, 'w) coroutine" where
  "bind_p m f = (\<lambda>w. case m w of (Inl e, w1) \<Rightarrow> (Inl e, w1) | (Inr x, w1) \<Rightarrow> f x w1)"

definition catch_p :: "('a, 'w) coroutine \<Rightarrow> (exn \<Rightarrow> ('a, 'w) coroutine) \<Rightarrow> ('a, 'w) coroutine" where
  "catch_p m h = (\<lambda>w. case m w of (Inl e, w1) \<Rightarrow> h e w1 | (Inr x, w1) \<Rightarrow> (Inr x, w1))"

text \<open>\<open>for x in xs: body(x)\<close>.\<close>

fun each_p :: "('x \<Rightarrow> (unit, 'w) coroutine) \<Rightarrow> 'x list \<Rightarrow> (unit, 'w) coroutine" where
  "each_p body [] = return_p ()"
| "each_p body (x # xs) = bind_p (body x) (\<lambda>_. each_p body xs)"

lemma prog_simps [simp]: "return_p x w = (Inr x, w)" "raise_p e w = (Inl e, w)"
  by (simp_all add: return_p_def raise_p_def)

lemma bind_p_Inr: "bind_p p f w = (Inr y, w2) \<longleftrightarrow> (\<exists>x w1. p w = (Inr x, w1) \<and> f x w1 = (Inr y, w2))"
  by (auto simp: bind_p_def split: sum.splits prod.splits)

section \<open>Tables\<close>

text \<open>
  \<open>INSERT\<close> raises on a duplicate primary key, \<open>INSERT ... ON CONFLICT DO NOTHING\<close> keeps the old
  row, \<open>UPDATE ... WHERE key\<close> rewrites the row in place, \<open>DELETE ... WHERE p\<close> is a filter.
\<close>

definition insert_row :: "'k \<Rightarrow> 'v \<Rightarrow> ('k \<times> 'v) list \<Rightarrow> exn + ('k \<times> 'v) list" where
  "insert_row k v t = (if map_of t k = None then Inr (t @ [(k, v)])
                       else Inl (PsycopgError ''UniqueViolation''))"

definition insert_ignore :: "'k \<Rightarrow> 'v \<Rightarrow> ('k \<times> 'v) list \<Rightarrow> ('k \<times> 'v) list" where
  "insert_ignore k v t = (if map_of t k = None then t @ [(k, v)] else t)"

abbreviation update_row :: "'k \<Rightarrow> ('v \<Rightarrow> 'v) \<Rightarrow> ('k \<times> 'v) list \<Rightarrow> ('k \<times> 'v) list" where
  "update_row \<equiv> AList.map_entry"

definition delete_where :: "('k \<Rightarrow> 'v \<Rightarrow> bool) \<Rightarrow> ('k \<times> 'v) list \<Rightarrow> ('k \<times> 'v) list" where
  "delete_where p t = filter (\<lambda>(k, v). \<not> p k v) t"

definition update_where :: "('k \<Rightarrow> 'v \<Rightarrow> bool) \<Rightarrow> ('v \<Rightarrow> 'v) \<Rightarrow> ('k \<times> 'v) list \<Rightarrow> ('k \<times> 'v) list" where
  "update_where p f t = map (\<lambda>(k, v). (k, if p k v then f v else v)) t"

definition select_where :: "('k \<Rightarrow> 'v \<Rightarrow> bool) \<Rightarrow> ('k \<times> 'v) list \<Rightarrow> ('k \<times> 'v) list" where
  "select_where p t = filter (\<lambda>(k, v). p k v) t"

definition keys_ok :: "('k \<times> 'v) list \<Rightarrow> bool" where
  "keys_ok t \<longleftrightarrow> distinct (map fst t)"

lemma map_of_snoc: "map_of (t @ [(k, v)]) k' =
    (case map_of t k' of None \<Rightarrow> if k' = k then Some v else None | Some w \<Rightarrow> Some w)"
  by (simp add: map_add_def split: option.splits)

lemma insert_row_Inr [simp]:
  "insert_row k v t = Inr t' \<longleftrightarrow> map_of t k = None \<and> t' = t @ [(k, v)]"
  by (auto simp: insert_row_def)

lemma map_of_insert_row [table_simps]:
  "insert_row k v t = Inr t' \<Longrightarrow> map_of t' = (map_of t)(k \<mapsto> v)"
  by (auto simp: map_of_snoc fun_eq_iff simp del: map_of_append split: option.splits)

lemma map_of_insert_ignore [table_simps]:
  "map_of (insert_ignore k v t) k' =
     (if k' = k \<and> map_of t k = None then Some v else map_of t k')"
  by (auto simp: insert_ignore_def map_of_snoc simp del: map_of_append split: option.splits)

lemma map_of_update_row [table_simps]:
  "map_of (update_row k f t) k' = (if k' = k then map_option f (map_of t k) else map_of t k')"
  by (simp add: AList.map_of_map_entry split: option.splits)

lemma map_of_delete_where [table_simps]:
  assumes "keys_ok t"
  shows "map_of (delete_where p t) k =
    (case map_of t k of None \<Rightarrow> None | Some v \<Rightarrow> if p k v then None else Some v)"
  using assms
proof (induction t)
  case (Cons a t)
  obtain k0 v0 where a: "a = (k0, v0)" by (cases a)
  from Cons.prems a have fresh: "k0 \<notin> fst ` set t" and ok: "keys_ok t"
    by (auto simp: keys_ok_def)
  have "map_of (delete_where p t) k0 = None"
    using fresh by (auto simp: delete_where_def map_of_eq_None_iff image_iff)
  with Cons.IH [OF ok] show ?case
    by (auto simp: a delete_where_def)
qed (simp add: delete_where_def)

lemma map_of_update_where [table_simps]:
  "map_of (update_where p f t) k =
     map_option (\<lambda>v. if p k v then f v else v) (map_of t k)"
  by (induction t) (auto simp: update_where_def)

lemma map_of_delete_key [simp]:
  "map_of (delete_where (\<lambda>k' _. k' = k) t) k'' = (if k'' = k then None else map_of t k'')"
  by (induction t) (auto simp: delete_where_def)

lemma map_of_delete_where_SomeD: "map_of (delete_where p t) k = Some v \<Longrightarrow> keys_ok t \<Longrightarrow> map_of t k = Some v \<and> \<not> p k v"
  by (simp add: map_of_delete_where split: option.splits if_splits)

lemma dom_update_row [simp]: "dom (map_of (update_row k f t)) = dom (map_of t)"
  by (auto simp: map_of_update_row split: if_splits)

lemma dom_update_where [simp]: "dom (map_of (update_where p f t)) = dom (map_of t)"
  by (auto simp: map_of_update_where)

lemma dom_insert_ignore [simp]: "dom (map_of (insert_ignore k v t)) = insert k (dom (map_of t))"
  by (auto simp: map_of_insert_ignore split: if_splits)

lemma dom_delete_where: "dom (map_of (delete_where p t)) \<subseteq> dom (map_of t)"
  by (auto simp: delete_where_def map_of_eq_None_iff dom_map_of_conv_image_fst)

lemma keys_ok_Nil [simp]: "keys_ok []"
  by (simp add: keys_ok_def)

lemma keys_ok_insert_row: "keys_ok t \<Longrightarrow> insert_row k v t = Inr t' \<Longrightarrow> keys_ok t'"
  by (auto simp: keys_ok_def map_of_eq_None_iff)

lemma keys_ok_snoc [simp]: "keys_ok (t @ [(k, v)]) \<longleftrightarrow> keys_ok t \<and> map_of t k = None"
  by (auto simp: keys_ok_def map_of_eq_None_iff)

lemma keys_ok_insert_ignore [simp]: "keys_ok t \<Longrightarrow> keys_ok (insert_ignore k v t)"
  by (auto simp: keys_ok_def insert_ignore_def map_of_eq_None_iff)

lemma keys_ok_update_row [simp]: "keys_ok (update_row k f t) = keys_ok t"
  unfolding keys_ok_def by (induction t) (auto split: if_splits simp: AList.dom_map_entry)

lemma keys_ok_delete_where [simp]: "keys_ok t \<Longrightarrow> keys_ok (delete_where p t)"
  by (simp add: keys_ok_def delete_where_def distinct_map_filter)

lemma keys_ok_update_where [simp]: "keys_ok (update_where p f t) = keys_ok t"
  by (simp add: keys_ok_def update_where_def comp_def case_prod_beta)

lemma select_where_lookup:
  "keys_ok t \<Longrightarrow> (k, v) \<in> set (select_where p t) \<longleftrightarrow> map_of t k = Some v \<and> p k v"
  by (auto simp: select_where_def keys_ok_def)

lemma in_table_iff: "keys_ok t \<Longrightarrow> (k, v) \<in> set t \<longleftrightarrow> map_of t k = Some v"
  by (auto simp: keys_ok_def)

section \<open>Python text\<close>

definition is_digit :: "char \<Rightarrow> bool" where
  "is_digit c \<longleftrightarrow> 48 \<le> (of_char c :: nat) \<and> of_char c \<le> (57 :: nat)"

definition is_space :: "char \<Rightarrow> bool" where
  "is_space c \<longleftrightarrow> c \<in> {CHR 0x20, CHR 0x09, CHR 0x0A, CHR 0x0B, CHR 0x0C, CHR 0x0D,
                      CHR 0x1C, CHR 0x1D, CHR 0x1E, CHR 0x1F}"

text \<open>\<open>len\<close> of a \<open>str\<close>: UTF-8 continuation bytes \<open>10xxxxxx\<close> belong to the code point before them.\<close>

definition py_len :: "string \<Rightarrow> nat" where
  "py_len s = length (filter (\<lambda>c. \<not> (128 \<le> (of_char c :: nat) \<and> of_char c < (192 :: nat))) s)"

definition lower_char :: "char \<Rightarrow> char" where
  "lower_char c = (if 65 \<le> (of_char c :: nat) \<and> of_char c \<le> (90 :: nat)
                   then char_of (of_char c + 32 :: nat) else c)"

definition lower :: "string \<Rightarrow> string" where
  "lower = map lower_char"

definition lstrip :: "string \<Rightarrow> string" where
  "lstrip = dropWhile is_space"

definition rstrip_chars :: "(char \<Rightarrow> bool) \<Rightarrow> string \<Rightarrow> string" where
  "rstrip_chars p s = rev (dropWhile p (rev s))"

definition strip :: "string \<Rightarrow> string" where
  "strip s = rstrip_chars is_space (lstrip s)"

definition starts_with :: "string \<Rightarrow> string \<Rightarrow> bool" where
  "starts_with p s \<longleftrightarrow> take (length p) s = p"

fun contains :: "string \<Rightarrow> string \<Rightarrow> bool" where
  "contains p [] = (p = [])"
| "contains p (c # s) = (starts_with p (c # s) \<or> contains p s)"

definition before_char :: "char \<Rightarrow> string \<Rightarrow> string" where
  "before_char c = takeWhile (\<lambda>x. x \<noteq> c)"

fun join :: "string \<Rightarrow> string list \<Rightarrow> string" where
  "join sep [] = []"
| "join sep [x] = x"
| "join sep (x # y # xs) = x @ sep @ join sep (y # xs)"

lemma starts_with_iff: "starts_with p s \<longleftrightarrow> (\<exists>r. s = p @ r)"
  unfolding starts_with_def by (metis append_eq_conv_conj append_take_drop_id)

lemma contains_iff: "contains p s \<longleftrightarrow> (\<exists>a b. s = a @ p @ b)"
proof (induction s)
  case (Cons c s)
  show ?case
    by (auto simp: Cons.IH starts_with_iff Cons_eq_append_conv)
qed simp

text \<open>Strict UTF-8 as \<open>bytes.decode("utf-8")\<close> checks it: no overlong form, no surrogate, no code
  point above \<open>U+10FFFF\<close>.\<close>

definition cont_byte :: "char \<Rightarrow> bool" where
  "cont_byte c \<longleftrightarrow> 128 \<le> (of_char c :: nat) \<and> of_char c < (192 :: nat)"

fun utf8_valid :: "bytes \<Rightarrow> bool" where
  "utf8_valid [] = True"
| "utf8_valid (a # r) =
     (let n = (of_char a :: nat) in
      if n < 128 then utf8_valid r
      else if 194 \<le> n \<and> n \<le> 223 then
        (case r of b # r1 \<Rightarrow> cont_byte b \<and> utf8_valid r1 | _ \<Rightarrow> False)
      else if 224 \<le> n \<and> n \<le> 239 then
        (case r of b # c # r2 \<Rightarrow> cont_byte b \<and> cont_byte c
            \<and> (n = 224 \<longrightarrow> 160 \<le> (of_char b :: nat)) \<and> (n = 237 \<longrightarrow> of_char b < (160 :: nat))
            \<and> utf8_valid r2
         | _ \<Rightarrow> False)
      else if 240 \<le> n \<and> n \<le> 244 then
        (case r of b # c # d # r3 \<Rightarrow> cont_byte b \<and> cont_byte c \<and> cont_byte d
            \<and> (n = 240 \<longrightarrow> 144 \<le> (of_char b :: nat)) \<and> (n = 244 \<longrightarrow> of_char b < (144 :: nat))
            \<and> utf8_valid r3
         | _ \<Rightarrow> False)
      else False)"

text \<open>\<open>not s.strip()\<close>: the text consists of Unicode whitespace only, in UTF-8.\<close>

fun py_blank :: "string \<Rightarrow> bool" where
  "py_blank [] = True"
| "py_blank (a # r) =
     (if is_space a then py_blank r
      else case r of
        b # r1 \<Rightarrow>
          if a = CHR 0xC2 \<and> b \<in> {CHR 0x85, CHR 0xA0} then py_blank r1
          else (case r1 of
            c # r2 \<Rightarrow>
              (a = CHR 0xE1 \<and> b = CHR 0x9A \<and> c = CHR 0x80
               \<or> a = CHR 0xE2 \<and> b = CHR 0x80 \<and> (cont_byte c \<and> of_char c \<le> (0x8A :: nat) \<or> c \<in> {CHR 0xA8, CHR 0xA9, CHR 0xAF})
               \<or> a = CHR 0xE2 \<and> b = CHR 0x81 \<and> c = CHR 0x9F
               \<or> a = CHR 0xE3 \<and> b = CHR 0x80 \<and> c = CHR 0x80) \<and> py_blank r2
          | [] \<Rightarrow> False)
      | [] \<Rightarrow> False)"

text \<open>\<open>s.replace(p, "")\<close> for a nonempty \<open>p\<close>.\<close>

function remove_all :: "string \<Rightarrow> string \<Rightarrow> string" where
  "remove_all p [] = []"
| "remove_all p (c # s) =
     (if p \<noteq> [] \<and> starts_with p (c # s) then remove_all p (drop (length p) (c # s)) else c # remove_all p s)"
  by pat_completeness auto
termination
  by (relation "measure (length \<circ> snd)") (auto simp: neq_Nil_conv)

definition is_hex :: "char \<Rightarrow> bool" where
  "is_hex c \<longleftrightarrow> is_digit c \<or> c \<in> set ''abcdefABCDEF''"

text \<open>
  \<open>str(uuid.UUID(s))\<close>. \<open>int(text, 16)\<close> also accepts signs, underscores and blanks among the 32
  characters; these never survive the comparison with the text itself that the callers make or are
  refused by the database column, and are left out.
\<close>

definition uuid_text :: "string \<Rightarrow> string option" where
  "uuid_text s =
     (let h = filter (\<lambda>c. c \<noteq> CHR ''-'') (rstrip_chars (\<lambda>c. c \<in> set ''{}'') (dropWhile (\<lambda>c. c \<in> set ''{}'')
                (remove_all ''uuid:'' (remove_all ''urn:'' s))))
      in if length h = 32 \<and> list_all is_hex h
         then Some (let x = lower h in take 8 x @ ''-'' @ take 4 (drop 8 x) @ ''-'' @ take 4 (drop 12 x) @ ''-''
                     @ take 4 (drop 16 x) @ ''-'' @ drop 20 x)
         else None)"

section \<open>Decimal and ISO 8601 text\<close>

function dec_nat :: "nat \<Rightarrow> string" where
  "dec_nat n = (if n < 10 then [char_of (48 + n)] else dec_nat (n div 10) @ [char_of (48 + n mod 10)])"
  by pat_completeness auto
termination
  by (relation "measure id") auto

declare dec_nat.simps [simp del]

definition dec_int :: "int \<Rightarrow> string" where
  "dec_int i = (if i < 0 then CHR ''-'' # dec_nat (nat (- i)) else dec_nat (nat i))"

definition pad :: "nat \<Rightarrow> string \<Rightarrow> string" where
  "pad w s = replicate (w - length s) (CHR ''0'') @ s"

text \<open>The proleptic Gregorian date of a day number counted from 1970-01-01.\<close>

definition civil_of_days :: "int \<Rightarrow> int \<times> int \<times> int" where
  "civil_of_days z0 =
     (let z = z0 + 719468; era = z div 146097; doe = z mod 146097;
          yoe = (doe - doe div 1460 + doe div 36524 - doe div 146096) div 365;
          doy = doe - (365 * yoe + yoe div 4 - yoe div 100);
          mp = (5 * doy + 2) div 153;
          d = doy - (153 * mp + 2) div 5 + 1;
          m = (if mp < 10 then mp + 3 else mp - 9);
          y = yoe + era * 400 + (if m \<le> 2 then 1 else 0)
      in (y, m, d))"

text \<open>\<open>broker_store.iso\<close>: a UTC instant in microseconds since the epoch; \<open>isoformat\<close> leaves out a
  zero fraction, and the offset \<open>+00:00\<close> is written \<open>Z\<close>.\<close>

definition iso :: "time \<Rightarrow> string" where
  "iso t =
     (let us = t mod 1000000; secs = t div 1000000; sod = secs mod 86400;
          (y, m, d) = civil_of_days (secs div 86400);
          two = (\<lambda>i. pad 2 (dec_int i))
      in pad 4 (dec_int y) @ ''-'' @ two m @ ''-'' @ two d @ ''T''
         @ two (sod div 3600) @ '':'' @ two (sod mod 3600 div 60) @ '':'' @ two (sod mod 60)
         @ (if us = 0 then [] else ''.'' @ pad 6 (dec_int us)) @ ''Z'')"

lemma iso_examples:
  "iso 0 = ''1970-01-01T00:00:00Z''"
  "iso 1582979696000007 = ''2020-02-29T12:34:56.000007Z''"
  by code_simp+

section \<open>JSON accessors\<close>

text \<open>\<open>isinstance(v, dict)\<close>, \<open>v.get(key)\<close> (absent and \<open>null\<close> are both \<open>None\<close>) and key presence.\<close>

fun is_obj :: "json \<Rightarrow> bool" where
  "is_obj (JObj kvs) = True"
| "is_obj _ = False"

fun is_str :: "json \<Rightarrow> bool" where
  "is_str (JStr s) = True"
| "is_str _ = False"

fun jget :: "json \<Rightarrow> string \<Rightarrow> json" where
  "jget (JObj kvs) k = (case map_of kvs k of Some v \<Rightarrow> v | None \<Rightarrow> JNull)"
| "jget _ k = JNull"

fun jhas :: "json \<Rightarrow> string \<Rightarrow> bool" where
  "jhas (JObj kvs) k = (map_of kvs k \<noteq> None)"
| "jhas _ k = False"

fun jput :: "string \<Rightarrow> json \<Rightarrow> json \<Rightarrow> json" where
  "jput k v (JObj kvs) = JObj (AList.update k v kvs)"
| "jput k v j = j"

text \<open>Python truthiness. A float literal is false when its digits are all zero.\<close>

fun truthy :: "json \<Rightarrow> bool" where
  "truthy JNull = False"
| "truthy (JBool b) = b"
| "truthy (JInt i) = (i \<noteq> 0)"
| "truthy (JFloat s) = (\<exists>c \<in> set (takeWhile (\<lambda>c. c \<noteq> CHR ''e'') s). c \<notin> {CHR ''0'', CHR ''.'', CHR ''-''})"
| "truthy (JStr s) = (s \<noteq> [])"
| "truthy (JList xs) = (xs \<noteq> [])"
| "truthy (JObj kvs) = (kvs \<noteq> [])"

fun jopt :: "string option \<Rightarrow> json" where
  "jopt None = JNull"
| "jopt (Some s) = JStr s"

text \<open>Python \<open>==\<close> on decoded JSON: objects compare without key order and \<open>True == 1\<close>.\<close>

fun pnorm :: "json \<Rightarrow> json" where
  "pnorm (JBool b) = JInt (if b then 1 else 0)"
| "pnorm (JList xs) = JList (map pnorm xs)"
| "pnorm (JObj kvs) = JObj (sort_key fst (map (\<lambda>(k, v). (k, pnorm v)) kvs))"
| "pnorm j = j"

definition py_eq :: "json \<Rightarrow> json \<Rightarrow> bool" where
  "py_eq a b \<longleftrightarrow> pnorm a = pnorm b"

lemma jget_Some [simp]: "map_of kvs k = Some v \<Longrightarrow> jget (JObj kvs) k = v"
  by simp

lemma jget_jput: "is_obj j \<Longrightarrow> jget (jput k v j) k' = (if k' = k then v else jget j k')"
  by (cases j) (auto simp: AList.update_conv)

lemma py_eq_refl [simp]: "py_eq a a"
  by (simp add: py_eq_def)

lemma py_eq_sym: "py_eq a b \<longleftrightarrow> py_eq b a"
  by (auto simp: py_eq_def)

section \<open>Lists\<close>

lemma hd_sort_key_in: "xs \<noteq> [] \<Longrightarrow> hd (sort_key f xs) \<in> set xs"
  by (metis hd_in_set set_sort length_0_conv length_sort)

lemma sort_key_Cons_in: "sort_key f xs = y # ys \<Longrightarrow> y \<in> set xs \<and> (\<forall>z \<in> set xs. f y \<le> f z)"
proof
  assume a: "sort_key f xs = y # ys"
  then have s: "set xs = insert y (set ys)" by (metis list.set(2) set_sort)
  then show "y \<in> set xs" by simp
  have "sorted (map f (y # ys))" using a by (metis sorted_sort_key)
  with s show "\<forall>z \<in> set xs. f y \<le> f z" by auto
qed

section \<open>Runs of a labelled step relation\<close>

inductive run :: "('s \<Rightarrow> 'e \<Rightarrow> 's \<Rightarrow> bool) \<Rightarrow> 's \<Rightarrow> 'e list \<Rightarrow> 's \<Rightarrow> bool" for step where
  run_Nil [simp, intro]: "run step s [] s"
| run_Cons: "step s e s1 \<Longrightarrow> run step s1 es s2 \<Longrightarrow> run step s (e # es) s2"

inductive_cases run_NilE [elim!]: "run step s [] t"
inductive_cases run_ConsE [elim!]: "run step s (e # es) t"

lemma run_append: "run step s as t \<Longrightarrow> run step t bs u \<Longrightarrow> run step s (as @ bs) u"
  by (induction rule: run.induct) (auto intro: run.intros)

lemma run_single: "step s e t \<Longrightarrow> run step s [e] t"
  by (erule run_Cons) (rule run_Nil)

text \<open>What an invariant needs: every step from a state that satisfies it leads to one that does.\<close>

locale invariant_system =
  fixes step :: "'s \<Rightarrow> 'e \<Rightarrow> 's \<Rightarrow> bool" and good :: "'s \<Rightarrow> bool"
  assumes step_good: "good s \<Longrightarrow> step s e t \<Longrightarrow> good t"
begin

lemma run_good: "run step s es t \<Longrightarrow> good s \<Longrightarrow> good t"
  by (induction rule: run.induct) (auto intro: step_good)

end

text \<open>
  At most once. In a good state a step whose label takes key \<open>k\<close> needs \<open>k\<close> unspent and leaves it
  spent, and no step makes a spent key unspent. Then no run takes a key twice.
\<close>

locale at_most_once = invariant_system step good
  for step :: "'s \<Rightarrow> 'e \<Rightarrow> 's \<Rightarrow> bool" and good :: "'s \<Rightarrow> bool" +
  fixes takes :: "'e \<Rightarrow> 'k option"
    and spent :: "'s \<Rightarrow> 'k \<Rightarrow> bool"
  assumes takes_unspent: "good s \<Longrightarrow> step s e t \<Longrightarrow> takes e = Some k \<Longrightarrow> \<not> spent s k"
    and takes_spends: "good s \<Longrightarrow> step s e t \<Longrightarrow> takes e = Some k \<Longrightarrow> spent t k"
    and spent_stays: "good s \<Longrightarrow> step s e t \<Longrightarrow> spent s k \<Longrightarrow> spent t k"
begin

lemma run_spent_not_taken:
  "run step s es t \<Longrightarrow> good s \<Longrightarrow> spent s k \<Longrightarrow> Some k \<notin> set (map takes es)"
proof (induction rule: run.induct)
  case (run_Cons s e s1 es s2)
  then have "Some k \<notin> set (map takes es)" using spent_stays step_good by blast
  moreover have "takes e \<noteq> Some k" using run_Cons.hyps(1) run_Cons.prems takes_unspent by blast
  ultimately show ?case by simp
qed simp

lemma run_spent_stays: "run step s es t \<Longrightarrow> good s \<Longrightarrow> spent s k \<Longrightarrow> spent t k"
  by (induction rule: run.induct) (auto intro: spent_stays step_good)

lemma run_takes_count:
  "run step s es t \<Longrightarrow> good s \<Longrightarrow> length (filter (\<lambda>e. takes e = Some k) es) \<le> 1"
proof (induction rule: run.induct)
  case (run_Cons s e s1 es s2)
  have good: "good s1" using run_Cons.hyps(1) run_Cons.prems step_good by blast
  show ?case
  proof (cases "takes e = Some k")
    case True
    then have "spent s1 k" using run_Cons.hyps(1) run_Cons.prems takes_spends by blast
    then have "Some k \<notin> set (map takes es)" using run_Cons.hyps(2) good run_spent_not_taken by blast
    then have "filter (\<lambda>e. takes e = Some k) es = []" by (auto simp: filter_empty_conv image_iff)
    then show ?thesis using True by simp
  qed (use run_Cons.IH [OF good] in simp)
qed simp

end

end
