(* ===== verification/Json_Codec.thy ===== *)
theory Json_Codec
  imports Gateway_Prelude
begin

text \<open>
  The JSON text layer. \<open>json_dumps\<close> is \<open>json.dumps(..., ensure_ascii=False)\<close> with its two
  separators as arguments; \<open>canonical\<close> is the function of that name in \<open>broker_store.py\<close> and
  \<open>client_store.py\<close> (sorted keys, compact separators); \<open>json_loads\<close> is \<open>json.loads\<close>. Parsing is
  by recursion on fuel, one unit per value or element; \<open>json_loads\<close> gives one unit more than the
  text has characters, and every value and every element takes at least one character, so fuel
  never decides the result on a printed text (\<open>loads_canonical\<close>).

  A float is carried as its literal, since no modelled code computes with one.
\<close>

section \<open>Printing\<close>

definition hex_digit :: "nat \<Rightarrow> char" where
  "hex_digit n = char_of (if n < 10 then 48 + n else 87 + n)"

definition escape_char :: "char \<Rightarrow> string" where
  "escape_char c =
     (if c = CHR 0x22 then [CHR 0x5C, CHR 0x22]
      else if c = CHR 0x5C then [CHR 0x5C, CHR 0x5C]
      else if c = CHR 0x0A then [CHR 0x5C, CHR ''n'']
      else if c = CHR 0x0D then [CHR 0x5C, CHR ''r'']
      else if c = CHR 0x09 then [CHR 0x5C, CHR ''t'']
      else if c = CHR 0x08 then [CHR 0x5C, CHR ''b'']
      else if c = CHR 0x0C then [CHR 0x5C, CHR ''f'']
      else if (of_char c :: nat) < 32 then
        [CHR 0x5C, CHR ''u'', CHR ''0'', CHR ''0'', hex_digit (of_char c div 16), hex_digit (of_char c mod 16)]
      else [c])"

definition quote :: "string \<Rightarrow> string" where
  "quote s = [CHR 0x22] @ concat (map escape_char s) @ [CHR 0x22]"

fun json_dumps :: "string \<Rightarrow> string \<Rightarrow> json \<Rightarrow> string" where
  "json_dumps isep ksep JNull = ''null''"
| "json_dumps isep ksep (JBool b) = (if b then ''true'' else ''false'')"
| "json_dumps isep ksep (JInt i) = dec_int i"
| "json_dumps isep ksep (JFloat t) = t"
| "json_dumps isep ksep (JStr s) = quote s"
| "json_dumps isep ksep (JList xs) = ''['' @ join isep (map (json_dumps isep ksep) xs) @ '']''"
| "json_dumps isep ksep (JObj kvs) =
     ''{'' @ join isep (map (\<lambda>(k, v). quote k @ ksep @ json_dumps isep ksep v) kvs) @ ''}''"

fun jsort :: "json \<Rightarrow> json" where
  "jsort (JList xs) = JList (map jsort xs)"
| "jsort (JObj kvs) = JObj (sort_key fst (map (\<lambda>(k, v). (k, jsort v)) kvs))"
| "jsort j = j"

definition canonical :: "json \<Rightarrow> bytes" where
  "canonical v = json_dumps '','' '':'' (jsort v)"

section \<open>Parsing\<close>

definition json_ws :: "char \<Rightarrow> bool" where
  "json_ws c \<longleftrightarrow> c \<in> {CHR 0x20, CHR 0x09, CHR 0x0A, CHR 0x0D}"

definition skip_ws :: "string \<Rightarrow> string" where
  "skip_ws = dropWhile json_ws"

definition hex_val :: "char \<Rightarrow> nat option" where
  "hex_val c = (let n = (of_char c :: nat) in
     if 48 \<le> n \<and> n \<le> 57 then Some (n - 48)
     else if 97 \<le> n \<and> n \<le> 102 then Some (n - 87)
     else if 65 \<le> n \<and> n \<le> 70 then Some (n - 55) else None)"

definition hex4 :: "char \<Rightarrow> char \<Rightarrow> char \<Rightarrow> char \<Rightarrow> nat option" where
  "hex4 a b c d = (case (hex_val a, hex_val b, hex_val c, hex_val d) of
     (Some p, Some q, Some r, Some s) \<Rightarrow> Some (((p * 16 + q) * 16 + r) * 16 + s)
   | _ \<Rightarrow> None)"

definition utf8_encode :: "nat \<Rightarrow> string" where
  "utf8_encode n =
     (if n < 128 then [char_of n]
      else if n < 2048 then [char_of (192 + n div 64), char_of (128 + n mod 64)]
      else if n < 65536 then
        [char_of (224 + n div 4096), char_of (128 + n div 64 mod 64), char_of (128 + n mod 64)]
      else [char_of (240 + n div 262144), char_of (128 + n div 4096 mod 64),
            char_of (128 + n div 64 mod 64), char_of (128 + n mod 64)])"

definition simple_escape :: "char \<Rightarrow> char option" where
  "simple_escape c = map_of [(CHR 0x22, CHR 0x22), (CHR 0x5C, CHR 0x5C), (CHR ''/'', CHR ''/''),
     (CHR ''b'', CHR 0x08), (CHR ''f'', CHR 0x0C), (CHR ''n'', CHR 0x0A), (CHR ''r'', CHR 0x0D),
     (CHR ''t'', CHR 0x09)] c"

definition prefix_text :: "string \<Rightarrow> (string \<times> string) option \<Rightarrow> (string \<times> string) option" where
  "prefix_text p = map_option (\<lambda>(t, r). (p @ t, r))"

text \<open>The characters after the opening quote; a \<open>\\uD800\<close>-style pair is one code point.\<close>

fun parse_string :: "nat \<Rightarrow> string \<Rightarrow> (string \<times> string) option" where
  "parse_string 0 s = None"
| "parse_string (Suc n) s =
     (case s of
        [] \<Rightarrow> None
      | c # r \<Rightarrow>
        if c = CHR 0x22 then Some ([], r)
        else if c = CHR 0x5C then
          (case r of
             [] \<Rightarrow> None
           | e # r1 \<Rightarrow>
             if e = CHR ''u'' then
               (case r1 of
                  a # b # x # y # r2 \<Rightarrow>
                  (case hex4 a b x y of
                     None \<Rightarrow> None
                   | Some hi \<Rightarrow>
                     (case (if 55296 \<le> hi \<and> hi \<le> 56319 then
                              (case r2 of
                                 p # q # a' # b' # x' # y' # r3 \<Rightarrow>
                                   (if p = CHR 0x5C \<and> q = CHR ''u'' then
                                      (case hex4 a' b' x' y' of
                                         Some lo \<Rightarrow> if 56320 \<le> lo \<and> lo \<le> 57343 then Some (lo, r3) else None
                                       | None \<Rightarrow> None)
                                    else None)
                               | _ \<Rightarrow> None)
                            else None) of
                        Some (lo, r3) \<Rightarrow>
                          prefix_text (utf8_encode (65536 + (hi - 55296) * 1024 + (lo - 56320))) (parse_string n r3)
                      | None \<Rightarrow> prefix_text (utf8_encode hi) (parse_string n r2)))
                | _ \<Rightarrow> None)
             else
               (case simple_escape e of
                  None \<Rightarrow> None
                | Some d \<Rightarrow> prefix_text [d] (parse_string n r1)))
        else if (of_char c :: nat) < 32 then None
        else prefix_text [c] (parse_string n r))"

definition digits_val :: "string \<Rightarrow> nat" where
  "digits_val = foldl (\<lambda>n c. n * 10 + (of_char c - 48)) 0"

definition frac_part :: "string \<Rightarrow> string \<times> string" where
  "frac_part s = (case s of
     c # d # r \<Rightarrow> if c = CHR ''.'' \<and> is_digit d
                  then (c # takeWhile is_digit (d # r), dropWhile is_digit (d # r)) else ([], s)
   | _ \<Rightarrow> ([], s))"

definition exp_part :: "string \<Rightarrow> string \<times> string" where
  "exp_part s = (case s of
     c # r \<Rightarrow>
       if c \<in> {CHR ''e'', CHR ''E''} then
         (let (sg, r1) = (case r of x # r' \<Rightarrow> if x \<in> {CHR ''+'', CHR ''-''} then ([x], r') else ([], r) | [] \<Rightarrow> ([], r))
          in if takeWhile is_digit r1 = [] then ([], s)
             else (c # sg @ takeWhile is_digit r1, dropWhile is_digit r1))
       else ([], s)
   | [] \<Rightarrow> ([], s))"

definition parse_number :: "string \<Rightarrow> (json \<times> string) option" where
  "parse_number s =
     (let neg = (s \<noteq> [] \<and> hd s = CHR ''-''); s1 = (if neg then tl s else s) in
      case s1 of
        [] \<Rightarrow> None
      | d # r \<Rightarrow>
        if \<not> is_digit d then None
        else
          let ip = (if d = CHR ''0'' then [d] else takeWhile is_digit s1);
              r1 = (if d = CHR ''0'' then r else dropWhile is_digit s1);
              (fp, r2) = frac_part r1; (ep, r3) = exp_part r2
          in if fp = [] \<and> ep = []
             then Some (JInt (if neg then - int (digits_val ip) else int (digits_val ip)), r1)
             else Some (JFloat ((if neg then ''-'' else []) @ ip @ fp @ ep), r3))"

definition literals :: "(string \<times> json) list" where
  "literals = [(''null'', JNull), (''true'', JBool True), (''false'', JBool False), (''NaN'', JFloat ''NaN''),
     (''Infinity'', JFloat ''Infinity''), (''-Infinity'', JFloat ''-Infinity'')]"

definition parse_literal :: "string \<Rightarrow> (json \<times> string) option" where
  "parse_literal s = (case filter (\<lambda>(w, v). starts_with w s) literals of
     (w, v) # _ \<Rightarrow> Some (v, drop (length w) s) | [] \<Rightarrow> None)"

fun parse_value :: "nat \<Rightarrow> string \<Rightarrow> (json \<times> string) option"
and parse_items :: "nat \<Rightarrow> string \<Rightarrow> (json list \<times> string) option"
and parse_members :: "nat \<Rightarrow> (string \<times> json) list \<Rightarrow> string \<Rightarrow> ((string \<times> json) list \<times> string) option" where
  "parse_value 0 s = None"
| "parse_value (Suc n) s =
     (case s of
        [] \<Rightarrow> None
      | c # r \<Rightarrow>
        if c = CHR 0x22 then map_option (\<lambda>(t, r'). (JStr t, r')) (parse_string (length s) r)
        else if c = CHR ''['' then
          (case skip_ws r of
             [] \<Rightarrow> None
           | d # r' \<Rightarrow> if d = CHR '']'' then Some (JList [], r')
                       else map_option (\<lambda>(xs, r''). (JList xs, r'')) (parse_items n (d # r')))
        else if c = CHR ''{'' then
          (case skip_ws r of
             [] \<Rightarrow> None
           | d # r' \<Rightarrow> if d = CHR ''}'' then Some (JObj [], r')
                       else map_option (\<lambda>(kvs, r''). (JObj kvs, r'')) (parse_members n [] (d # r')))
        else
          (case parse_literal s of
             Some x \<Rightarrow> Some x
           | None \<Rightarrow> parse_number s))"
| "parse_items 0 s = None"
| "parse_items (Suc n) s =
     (case parse_value n s of
        None \<Rightarrow> None
      | Some (x, r) \<Rightarrow>
        (case skip_ws r of
           [] \<Rightarrow> None
         | d # r' \<Rightarrow>
           if d = CHR '']'' then Some ([x], r')
           else if d = CHR '','' then map_option (\<lambda>(xs, r''). (x # xs, r'')) (parse_items n (skip_ws r'))
           else None))"
| "parse_members 0 acc s = None"
| "parse_members (Suc n) acc s =
     (case s of
        [] \<Rightarrow> None
      | q # r \<Rightarrow>
        if q \<noteq> CHR 0x22 then None
        else
          (case parse_string (length s) r of
             None \<Rightarrow> None
           | Some (k, r1) \<Rightarrow>
             (case skip_ws r1 of
                [] \<Rightarrow> None
              | d # r2 \<Rightarrow>
                if d \<noteq> CHR '':'' then None
                else
                  (case parse_value n (skip_ws r2) of
                     None \<Rightarrow> None
                   | Some (v, r3) \<Rightarrow>
                     (case skip_ws r3 of
                        [] \<Rightarrow> None
                      | e # r4 \<Rightarrow>
                        if e = CHR ''}'' then Some (AList.update k v acc, r4)
                        else if e = CHR '','' then parse_members n (AList.update k v acc) (skip_ws r4)
                        else None)))))"

definition json_loads :: "bytes \<Rightarrow> json option" where
  "json_loads s = (case parse_value (Suc (length s)) (skip_ws s) of
     Some (v, r) \<Rightarrow> if skip_ws r = [] then Some v else None
   | None \<Rightarrow> None)"

lemma loads_examples:
  "json_loads ''{\"a\": [1, -20, true], \"b\": null}'' =
     Some (JObj [(''a'', JList [JInt 1, JInt (-20), JBool True]), (''b'', JNull)])"
  "json_loads ''[1,]'' = None"
  "canonical (JObj [(''b'', JInt 12), (''a'', JStr ''x\<newline>y'')]) =
     ''{'' @ [CHR 0x22] @ ''a'' @ [CHR 0x22] @ '':'' @ [CHR 0x22] @ ''x'' @ [CHR 0x5C] @ ''ny'' @ [CHR 0x22] @ '',''
       @ [CHR 0x22] @ ''b'' @ [CHR 0x22] @ '':12}''"
  by code_simp+

section \<open>Round trip\<close>

text \<open>JSON values whose objects have distinct keys, as Python dictionaries do, and whose floats are finite: the text of a float is a
  number with a fraction or an exponent.\<close>

definition float_ok :: "string \<Rightarrow> bool" where
  "float_ok t \<longleftrightarrow> parse_number t = Some (JFloat t, [])"

fun json_ok :: "json \<Rightarrow> bool" where
  "json_ok (JFloat t) = float_ok t"
| "json_ok (JList xs) = list_all json_ok xs"
| "json_ok (JObj kvs) = (distinct (map fst kvs) \<and> list_all (\<lambda>(k, v). json_ok v) kvs)"
| "json_ok j = True"

definition stop :: "string \<Rightarrow> bool" where
  "stop r \<longleftrightarrow> (case r of [] \<Rightarrow> True | c # _ \<Rightarrow> c \<in> {CHR '','', CHR '']'', CHR ''}''})"

lemma hex_val_digit: "k < 16 \<Longrightarrow> hex_val (hex_digit k) = Some k"
  by (auto simp: hex_val_def hex_digit_def Let_def of_char_of)

lemma hex4_control:
  "(of_char c :: nat) < 32 \<Longrightarrow>
   hex4 (CHR ''0'') (CHR ''0'') (hex_digit (of_char c div 16)) (hex_digit (of_char c mod 16)) = Some (of_char c)"
  by (simp add: hex4_def hex_val_digit hex_val_def [of "CHR ''0''"])

lemma simple_escape_simps [simp]:
  "simple_escape CHR 0x22 = Some CHR 0x22" "simple_escape CHR 0x5C = Some CHR 0x5C"
  "simple_escape CHR ''n'' = Some CHR 0x0A" "simple_escape CHR ''r'' = Some CHR 0x0D"
  "simple_escape CHR ''t'' = Some CHR 0x09" "simple_escape CHR ''b'' = Some CHR 0x08"
  "simple_escape CHR ''f'' = Some CHR 0x0C"
  by (simp_all add: simple_escape_def)

lemma parse_string_escape_char:
  "parse_string (Suc n) (escape_char c @ r) = prefix_text [c] (parse_string n r)"
proof (cases "(of_char c :: nat) < 32")
  case True
  then show ?thesis
    by (auto simp: escape_char_def hex4_control utf8_encode_def)
next
  case False
  then show ?thesis by (auto simp: escape_char_def)
qed

lemma parse_string_quoted:
  "length s < n \<Longrightarrow> parse_string n (concat (map escape_char s) @ CHR 0x22 # r) = Some (s, r)"
proof (induction s arbitrary: n)
  case Nil
  then show ?case by (cases n) auto
next
  case (Cons c s)
  then obtain m where n: "n = Suc m" by (cases n) auto
  with Cons have IH: "parse_string m (concat (map escape_char s) @ CHR 0x22 # r) = Some (s, r)"
    by simp
  show ?case
    using IH by (simp add: n parse_string_escape_char prefix_text_def del: parse_string.simps)
qed

lemma length_escape: "length s \<le> length (concat (map escape_char s))"
  by (induction s) (auto simp: escape_char_def)

lemma is_digit_not_special:
  "is_digit c \<Longrightarrow> c \<notin> {CHR 0x20, CHR 0x09, CHR 0x0A, CHR 0x0D, CHR 0x22, CHR ''-'', CHR ''['', CHR '']'',
     CHR ''{'', CHR ''}'', CHR ''n'', CHR ''t'', CHR ''f'', CHR ''N'', CHR ''I''}"
  by (auto simp: is_digit_def)

lemma number_head:
  "is_digit c \<or> c = CHR ''-'' \<Longrightarrow> \<not> json_ws c \<and> c \<noteq> CHR '']'' \<and> c \<noteq> CHR ''}'' \<and> c \<noteq> CHR 0x22
     \<and> c \<noteq> CHR ''['' \<and> c \<noteq> CHR ''{''"
  by (erule disjE) (auto simp: is_digit_def json_ws_def)

lemma is_digit_of_nat: "(n :: nat) < 10 \<Longrightarrow> is_digit (char_of (48 + n))"
  by (simp add: is_digit_def of_char_of)

lemma dec_nat_digits: "list_all is_digit (dec_nat n)"
  by (induction n rule: dec_nat.induct) (subst dec_nat.simps, simp add: is_digit_of_nat)

lemma dec_nat_neq_Nil [simp]: "dec_nat n \<noteq> []"
  by (subst dec_nat.simps) simp

lemma digits_val_snoc: "digits_val (xs @ [c]) = digits_val xs * 10 + (of_char c - 48)"
  by (simp add: digits_val_def)

lemma digits_val_dec_nat: "digits_val (dec_nat n) = n"
proof (induction n rule: dec_nat.induct)
  case (1 n)
  show ?case
  proof (cases "n < 10")
    case True
    then show ?thesis by (subst dec_nat.simps) (simp add: digits_val_def of_char_of)
  next
    case False
    with 1 have IH: "digits_val (dec_nat (n div 10)) = n div 10" by simp
    have "of_char (char_of (48 + n mod 10 :: nat) :: char) - 48 = n mod 10"
      by (simp add: of_char_of)
    with False IH show ?thesis by (subst dec_nat.simps) (simp add: digits_val_snoc)
  qed
qed

lemma dec_nat_hd_zero: "hd (dec_nat n) = CHR ''0'' \<Longrightarrow> n = 0"
proof (induction n rule: dec_nat.induct)
  case (1 n)
  show ?case
  proof (cases "n < 10")
    case True
    have "(of_char (hd (dec_nat n)) :: nat) = 48 + n"
      using True by (subst dec_nat.simps) (simp add: of_char_of)
    with "1.prems" show ?thesis by simp
  next
    case False
    have "hd (dec_nat n) = hd (dec_nat (n div 10))"
      using False by (subst dec_nat.simps) simp
    with 1 False have "n div 10 = 0" by metis
    with False show ?thesis by simp
  qed
qed

lemma stop_not_digit: "stop r \<Longrightarrow> takeWhile is_digit r = [] \<and> dropWhile is_digit r = r"
  by (cases r) (auto simp: stop_def is_digit_def)

lemma stop_frac_exp: "stop r \<Longrightarrow> frac_part r = ([], r) \<and> exp_part r = ([], r)"
  by (auto simp: stop_def frac_part_def exp_part_def split: list.splits)

lemma takeWhile_digits:
  "list_all is_digit xs \<Longrightarrow> stop r \<Longrightarrow>
   takeWhile is_digit (xs @ r) = xs \<and> dropWhile is_digit (xs @ r) = r"
  using stop_not_digit by (induction xs) auto

lemma dec_nat_zero: "dec_nat 0 = ''0''"
  by code_simp

lemma parse_number_nat:
  assumes "stop r"
  shows "parse_number (dec_nat n @ r) = Some (JInt (int n), r)"
    and "parse_number (CHR ''-'' # dec_nat n @ r) = Some (JInt (- int n), r)"
proof -
  obtain c cs where d: "dec_nat n = c # cs" by (cases "dec_nat n") auto
  have dig: "list_all is_digit (c # cs)" using dec_nat_digits [of n] d by simp
  then have c: "is_digit c" "c \<noteq> CHR ''-''" by (auto simp: is_digit_def)
  have z: "cs = []" if "c = CHR ''0''"
    using that d dec_nat_hd_zero [of n] dec_nat_zero by auto
  have tw: "takeWhile is_digit (c # cs @ r) = c # cs" "dropWhile is_digit (c # cs @ r) = r"
    using takeWhile_digits [OF dig assms] by auto
  have v: "digits_val (c # cs) = n" using digits_val_dec_nat [of n] d by simp
  show "parse_number (dec_nat n @ r) = Some (JInt (int n), r)"
    using c z tw v stop_frac_exp [OF assms] by (auto simp: parse_number_def d Let_def)
  show "parse_number (CHR ''-'' # dec_nat n @ r) = Some (JInt (- int n), r)"
    using c z tw v stop_frac_exp [OF assms] by (auto simp: parse_number_def d Let_def)
qed

lemma parse_number_dec_int: "stop r \<Longrightarrow> parse_number (dec_int i @ r) = Some (JInt i, r)"
  by (auto simp: dec_int_def parse_number_nat)

lemma dec_int_head:
  obtains c cs where "dec_int i = c # cs" "is_digit c \<or> c = CHR ''-'' \<and> cs \<noteq> [] \<and> is_digit (hd cs)"
proof -
  obtain c cs where d: "dec_nat (nat \<bar>i\<bar>) = c # cs" by (cases "dec_nat (nat \<bar>i\<bar>)") auto
  have "is_digit c" using dec_nat_digits [of "nat \<bar>i\<bar>"] d by simp
  then show ?thesis using that d by (cases "i < 0") (auto simp: dec_int_def)
qed

lemma parse_literal_number:
  assumes "s = c # cs" "is_digit c \<or> c = CHR ''-'' \<and> cs \<noteq> [] \<and> is_digit (hd cs)"
  shows "parse_literal (s @ r) = None"
proof -
  have "\<not> starts_with w (s @ r)" if "(w, v) \<in> set literals" for w v
    using that assms is_digit_not_special [of c] is_digit_not_special [of "hd cs"]
    by (auto simp: literals_def starts_with_def neq_Nil_conv)
  then have "filter (\<lambda>(w, v). starts_with w (s @ r)) literals = []"
    by (auto simp: filter_empty_conv)
  then show ?thesis by (simp add: parse_literal_def)
qed

lemma span_stop:
  "stop r \<Longrightarrow> takeWhile is_digit (xs @ r) = takeWhile is_digit xs \<and> dropWhile is_digit (xs @ r) = dropWhile is_digit xs @ r"
  using stop_not_digit by (induction xs) auto

lemma frac_part_stop: "stop r \<Longrightarrow> frac_part (s @ r) = map_prod id (\<lambda>x. x @ r) (frac_part s)"
proof (cases s rule: remdups_adj.cases)
  case (2 c)
  assume "stop r"
  then show ?thesis using 2 by (cases r) (auto simp: frac_part_def stop_def is_digit_def)
next
  case (3 c d u)
  assume "stop r"
  then show ?thesis using 3 span_stop[of r u] by (auto simp: frac_part_def)
qed (use stop_frac_exp in \<open>auto simp: frac_part_def\<close>)

lemma exp_part_stop: "stop r \<Longrightarrow> exp_part (s @ r) = map_prod id (\<lambda>x. x @ r) (exp_part s)"
proof (cases s)
  case (Cons c u)
  assume r: "stop r"
  show ?thesis
  proof (cases u)
    case Nil
    then show ?thesis using r Cons by (cases r) (auto simp: exp_part_def stop_def is_digit_def)
  next
    case (Cons d v)
    then show ?thesis using \<open>s = c # u\<close> span_stop[OF r, of v] span_stop[OF r, of "d # v"] by (auto simp: exp_part_def Let_def)
  qed
qed (use stop_frac_exp in \<open>auto simp: exp_part_def\<close>)

text \<open>What follows a value does not change how a number is read.\<close>

lemma parse_number_stop:
  assumes r: "stop r"
  shows "parse_number (s @ r) = map_option (map_prod id (\<lambda>x. x @ r)) (parse_number s)"
proof -
  have none: "parse_number r = None" "parse_number (CHR ''-'' # r) = None"
    using r by (cases r; auto simp: stop_def parse_number_def is_digit_def)+
  have digits: "parse_number (m @ d # v @ r) = map_option (map_prod id (\<lambda>x. x @ r)) (parse_number (m @ d # v))"
    if "m = [] \<and> d \<noteq> CHR ''-'' \<or> m = ''-''" for m d v
    using that span_stop [OF r, of v] frac_part_stop [OF r] exp_part_stop [OF r]
    by (auto simp: parse_number_def Let_def split: prod.splits)
  show ?thesis
  proof (cases s)
    case (Cons c u)
    have minus: "parse_number ''-'' = None" by (simp add: parse_number_def)
    show ?thesis
      using Cons digits [of "[]" c u] digits [of "''-''" "hd u" "tl u"] none(2) minus by (cases "c = CHR ''-''"; cases u) simp_all
  qed (simp add: none(1) parse_number_def [of "[]"])
qed

lemma float_head:
  assumes "float_ok t"
  obtains c cs where "t = c # cs" "is_digit c \<or> c = CHR ''-'' \<and> cs \<noteq> [] \<and> is_digit (hd cs)"
  using assms by (cases t) (auto simp: float_ok_def parse_number_def Let_def split: if_splits list.splits)

lemma skip_ws_nonspace [simp]:
  "skip_ws (CHR '','' # r) = CHR '','' # r" "skip_ws (CHR '']'' # r) = CHR '']'' # r"
  "skip_ws (CHR ''}'' # r) = CHR ''}'' # r" "skip_ws (CHR '':'' # r) = CHR '':'' # r"
  "skip_ws (CHR 0x22 # r) = CHR 0x22 # r" "skip_ws [] = []"
  by (simp_all add: skip_ws_def json_ws_def)

lemma parse_value_quote:
  assumes "0 < n"
  shows "parse_value n (quote s @ r) = Some (JStr s, r)"
proof -
  obtain m where n: "n = Suc m" using assms by (cases n) auto
  have "length s < length (quote s @ r)" using length_escape [of s] by (simp add: quote_def)
  from parse_string_quoted [OF this, of r] show ?thesis
    by (simp add: n quote_def)
qed

lemma alist_update_fresh: "k \<notin> fst ` set acc \<Longrightarrow> AList.update k v acc = acc @ [(k, v)]"
  by (induction acc) auto

lemma skip_ws_append: "list_all json_ws ws \<Longrightarrow> skip_ws (ws @ r) = skip_ws r"
  by (induction ws) (simp_all add: skip_ws_def)

text \<open>The separators of \<open>json.dumps\<close> are a comma and a colon, each with white space after it.\<close>

locale separators =
  fixes isep ksep :: string
  assumes isep: "\<exists>ws. isep = CHR '','' # ws \<and> list_all json_ws ws"
    and ksep: "\<exists>ws. ksep = CHR '':'' # ws \<and> list_all json_ws ws"
begin

abbreviation printed :: "json \<Rightarrow> string" where
  "printed \<equiv> json_dumps isep ksep"

lemma isep_cases:
  obtains ws where "isep = CHR '','' # ws" "\<And>r. skip_ws (ws @ r) = skip_ws r"
  using isep skip_ws_append by metis

lemma ksep_cases:
  obtains ws where "ksep = CHR '':'' # ws" "\<And>r. skip_ws (ws @ r) = skip_ws r"
  using ksep skip_ws_append by metis

lemma dumps_head:
  assumes "json_ok j"
  obtains c cs where "printed j = c # cs" "\<not> json_ws c" "c \<noteq> CHR '']''" "c \<noteq> CHR ''}''"
proof (cases j)
  case (JInt i)
  obtain c cs where d: "dec_int i = c # cs" "is_digit c \<or> c = CHR ''-''" by (rule dec_int_head [of i]) auto
  with JInt that number_head [OF d(2)] show ?thesis by simp
next
  case (JFloat t)
  then obtain c cs where d: "t = c # cs" "is_digit c \<or> c = CHR ''-''" using assms by (auto elim: float_head)
  with JFloat that number_head [OF d(2)] show ?thesis by simp
next
  case (JBool b)
  then show ?thesis using that by (cases b) (auto simp: json_ws_def)
qed (use assms that in \<open>auto simp: quote_def json_ws_def\<close>)

lemma skip_ws_dumps: "json_ok j \<Longrightarrow> skip_ws (printed j @ r) = printed j @ r"
  by (rule dumps_head [of j]) (auto simp: skip_ws_def)

definition parses :: "json \<Rightarrow> bool" where
  "parses j \<longleftrightarrow> (\<forall>n r. stop r \<longrightarrow> length (printed j) \<le> n \<longrightarrow> parse_value n (printed j @ r) = Some (j, r))"

lemma parses_number:
  assumes p: "printed j = c # cs" "is_digit c \<or> c = CHR ''-'' \<and> cs \<noteq> [] \<and> is_digit (hd cs)"
    and num: "\<And>r. stop r \<Longrightarrow> parse_number (printed j @ r) = Some (j, r)"
  shows "parses j"
  unfolding parses_def
proof (intro allI impI)
  fix n r assume st: "stop r" and len: "length (printed j) \<le> n"
  obtain m where "n = Suc m" using len p(1) by (cases n) auto
  moreover have "\<not> json_ws c \<and> c \<noteq> CHR 0x22 \<and> c \<noteq> CHR ''['' \<and> c \<noteq> CHR ''{''" using number_head [of c] p(2) by blast
  ultimately show "parse_value n (printed j @ r) = Some (j, r)"
    using parse_literal_number [OF p, of r] num [OF st] by (simp add: p(1))
qed

lemma parse_items_join:
  assumes "\<And>x. x \<in> set xs \<Longrightarrow> parses x \<and> json_ok x" and "xs \<noteq> []"
    and "length (join isep (map printed xs)) < n"
  shows "parse_items n (join isep (map printed xs) @ CHR '']'' # r) = Some (xs, r)"
  using assms
proof (induction xs arbitrary: n)
  case (Cons x xs)
  then obtain m where n: "n = Suc m" by (cases n) auto
  have px: "parse_value m (printed x @ t) = Some (x, t)" if "stop t" for t
    using Cons.prems n that by (cases xs) (auto simp: parses_def)
  show ?case
  proof (cases xs)
    case Nil
    then show ?thesis using px [of "CHR '']'' # r"] by (simp add: n stop_def)
  next
    case (Cons y ys)
    obtain ws where ws: "isep = CHR '','' # ws" "\<And>r. skip_ws (ws @ r) = skip_ws r" using isep_cases by blast
    have len: "length (join isep (map printed xs)) < m"
      using Cons.prems(3) \<open>xs = y # ys\<close> n ws by simp
    have "parse_items m (join isep (map printed xs) @ CHR '']'' # r) = Some (xs, r)"
      using Cons.IH [OF _ _ len] Cons.prems(1) \<open>xs = y # ys\<close> by simp
    moreover have "skip_ws (join isep (map printed xs) @ CHR '']'' # r) = join isep (map printed xs) @ CHR '']'' # r"
      using skip_ws_dumps [of y] Cons.prems(1) \<open>xs = y # ys\<close> by (cases ys) auto
    ultimately show ?thesis
      using px [of "isep @ join isep (map printed xs) @ CHR '']'' # r"] \<open>xs = y # ys\<close> ws
      by (simp add: n stop_def)
  qed
qed simp

abbreviation printed_member :: "string \<times> json \<Rightarrow> string" where
  "printed_member \<equiv> (\<lambda>(k, v). quote k @ ksep @ printed v)"

lemma parse_members_join:
  assumes "\<And>k v. (k, v) \<in> set kvs \<Longrightarrow> parses v \<and> json_ok v" and "kvs \<noteq> []"
    and "distinct (map fst (acc @ kvs))"
    and "length (join isep (map printed_member kvs)) < n"
  shows "parse_members n acc (join isep (map printed_member kvs) @ CHR ''}'' # r) = Some (acc @ kvs, r)"
  using assms
proof (induction kvs arbitrary: n acc)
  case (Cons kv kvs)
  obtain k v where kv: "kv = (k, v)" by (cases kv)
  from Cons.prems obtain m where n: "n = Suc m" by (cases n) auto
  have pv: "parse_value m (printed v @ t) = Some (v, t)" if "stop t" for t
    using Cons.prems(1) [of k v] Cons.prems(4) n kv that by (cases kvs) (auto simp: parses_def)
  have ps: "parse_string (length (quote k @ t)) (concat (map escape_char k) @ CHR 0x22 # t) = Some (k, t)" for t
    using length_escape [of k] by (intro parse_string_quoted) (simp add: quote_def)
  have ws: "skip_ws (printed v @ t) = printed v @ t" for t
    using Cons.prems(1) [of k v] kv by (intro skip_ws_dumps) simp
  have fresh: "AList.update k v acc = acc @ [(k, v)]"
    using Cons.prems(3) kv by (intro alist_update_fresh) auto
  obtain kw where kw: "ksep = CHR '':'' # kw" "\<And>r. skip_ws (kw @ r) = skip_ws r" using ksep_cases by blast
  obtain iw where iw: "isep = CHR '','' # iw" "\<And>r. skip_ws (iw @ r) = skip_ws r" using isep_cases by blast
  show ?case
  proof (cases kvs)
    case Nil
    then show ?thesis
      using pv [of "CHR ''}'' # r"] ps [of "ksep @ printed v @ CHR ''}'' # r"] ws fresh kw
      by (simp add: n kv quote_def stop_def)
  next
    case (Cons p ps')
    let ?rest = "join isep (map printed_member kvs) @ CHR ''}'' # r"
    have len: "length (join isep (map printed_member kvs)) < m"
      using Cons.prems(4) Cons n kv iw by simp
    have IH: "parse_members m (acc @ [(k, v)]) ?rest = Some ((acc @ [(k, v)]) @ kvs, r)"
      using Cons.prems Cons kv len by (intro Cons.IH) auto
    have "skip_ws ?rest = ?rest"
      using Cons by (cases p; cases ps') (auto simp: quote_def)
    then show ?thesis
      using pv [of "isep @ ?rest"] ps [of "ksep @ printed v @ isep @ ?rest"] ws fresh IH Cons kw iw
      by (simp add: n kv quote_def stop_def)
  qed
qed simp

lemma json_parses: "json_ok j \<Longrightarrow> parses j"
proof (induction j)
  case (JList xs)
  have "parse_value n (printed (JList xs) @ r) = Some (JList xs, r)"
    if len: "length (printed (JList xs)) \<le> n" for n r
  proof (cases xs)
    case Nil
    with len show ?thesis by (cases n) auto
  next
    case (Cons x ys)
    from len obtain m where n: "n = Suc m" by (cases n) auto
    have ok: "parses z \<and> json_ok z" if "z \<in> set xs" for z
      using JList that by (auto simp: list_all_iff)
    have items: "parse_items m (join isep (map printed xs) @ CHR '']'' # r) = Some (xs, r)"
      using len n Cons by (intro parse_items_join ok) auto
    have jx: "json_ok x" using ok Cons by simp
    obtain c cs where h: "printed x = c # cs" "\<not> json_ws c" "c \<noteq> CHR '']''"
      using dumps_head [OF jx] by blast
    have shape: "\<exists>t. join isep (map printed xs) @ CHR '']'' # r = c # t"
      using Cons h by (cases ys) auto
    have "skip_ws (join isep (map printed xs) @ CHR '']'' # r) = join isep (map printed xs) @ CHR '']'' # r"
      using shape h by (auto simp: skip_ws_def)
    then show ?thesis using items h shape by (auto simp: n)
  qed
  then show ?case by (simp add: parses_def)
next
  case (JObj kvs)
  have "parse_value n (printed (JObj kvs) @ r) = Some (JObj kvs, r)"
    if len: "length (printed (JObj kvs)) \<le> n" for n r
  proof (cases kvs)
    case Nil
    with len show ?thesis by (cases n) auto
  next
    case (Cons p ps)
    from len obtain m where n: "n = Suc m" by (cases n) auto
    have ok: "parses v \<and> json_ok v" if "(k, v) \<in> set kvs" for k v
    proof -
      have "json_ok v" using JObj.prems that by (auto simp: list_all_iff)
      moreover have "v \<in> Basic_BNFs.snds (k, v)" by simp
      ultimately show ?thesis using JObj.IH [of "(k, v)" v] that by blast
    qed
    have members: "parse_members m [] (join isep (map printed_member kvs) @ CHR ''}'' # r) = Some ([] @ kvs, r)"
      using len n Cons JObj.prems by (intro parse_members_join ok) auto
    have shape: "\<exists>t. join isep (map printed_member kvs) @ CHR ''}'' # r = CHR 0x22 # t"
      using Cons by (cases p; cases ps) (auto simp: quote_def)
    then show ?thesis using members by (auto simp: n)
  qed
  then show ?case by (simp add: parses_def)
next
  case (JInt i)
  have num: "parse_number (printed (JInt i) @ r) = Some (JInt i, r)" if "stop r" for r
    using parse_number_dec_int [OF that] by simp
  show ?case by (rule dec_int_head [of i], rule parses_number [OF _ _ num]) simp_all
next
  case (JFloat t)
  then have t: "float_ok t" by simp
  then have num: "parse_number (printed (JFloat t) @ r) = Some (JFloat t, r)" if "stop r" for r
    using parse_number_stop [OF that, of t] by (simp add: float_ok_def)
  show ?case by (rule float_head [OF t], rule parses_number [OF _ _ num]) simp_all
next
  case (JStr s)
  have "0 < length (quote s)" by (simp add: quote_def)
  then show ?case unfolding parses_def json_dumps.simps using parse_value_quote by (metis less_le_trans)
next
  case (JBool b)
  show ?case
    by (auto simp: parses_def Suc_le_eq parse_literal_def literals_def starts_with_def elim!: less_natE)
next
  case JNull
  show ?case
    by (auto simp: parses_def Suc_le_eq parse_literal_def literals_def starts_with_def elim!: less_natE)
qed

lemma loads_printed: "json_ok j \<Longrightarrow> json_loads (printed j) = Some j"
proof -
  assume ok: "json_ok j"
  have "parse_value (Suc (length (printed j))) (printed j @ []) = Some (j, [])"
    using json_parses [OF ok, unfolded parses_def, rule_format, of "[]"] by (simp add: stop_def del: append_Nil2 parse_value.simps)
  then show ?thesis using skip_ws_dumps [OF ok, of "[]"] by (simp add: json_loads_def del: parse_value.simps)
qed

end

interpretation compact: separators "'',''" "'':''"
  by unfold_locales simp_all

interpretation spaced: separators "'', ''" "'': ''"
  by unfold_locales (simp_all add: json_ws_def)

abbreviation dumps :: "json \<Rightarrow> string" where
  "dumps \<equiv> json_dumps '','' '':''"

lemma json_ok_jsort: "json_ok j \<Longrightarrow> json_ok (jsort j)"
proof (induction j)
  case (JObj kvs)
  have "json_ok (jsort v)" if "(k, v) \<in> set kvs" for k v
    using JObj.IH [of "(k, v)" v] JObj.prems that by (auto simp: list_all_iff)
  moreover have "fst \<circ> (\<lambda>(k :: string, v). (k, jsort v)) = fst" by (auto simp: fun_eq_iff)
  moreover have "distinct (map fst (sort_key fst xs)) \<longleftrightarrow> distinct (map fst xs)" for xs :: "(string \<times> json) list"
    by (simp add: distinct_map)
  ultimately show ?case using JObj.prems by (auto simp: list_all_iff)
qed (auto simp: list_all_iff)

lemma loads_canonical: "json_ok j \<Longrightarrow> json_loads (canonical j) = Some (jsort j)"
  unfolding canonical_def by (rule compact.loads_printed) (rule json_ok_jsort)

end
