(* ===== verification/Py_Text.thy ===== *)
theory Py_Text
  imports Json_Codec
begin

text \<open>
  The parts of Python's text library that the peer and client code calls on foreign text:
  \<open>str.strip\<close> on Unicode white space, \<open>str(v)\<close> of a decoded JSON value, \<open>int(s)\<close>, base64, and
  \<open>datetime.fromisoformat\<close> with \<open>isoformat\<close> as CPython 3.11 implements them. Texts are UTF-8.
\<close>

section \<open>Code points and white space\<close>

function code_points :: "string \<Rightarrow> string list" where
  "code_points [] = []"
| "code_points (c # s) = (c # takeWhile cont_byte s) # code_points (dropWhile cont_byte s)"
  by pat_completeness auto
termination
  by (relation "measure length") (auto simp: le_imp_less_Suc length_dropWhile_le)

definition py_lstrip :: "string \<Rightarrow> string" where
  "py_lstrip s = concat (dropWhile py_blank (code_points s))"

definition py_strip :: "string \<Rightarrow> string" where
  "py_strip s = concat (rev (dropWhile py_blank (rev (dropWhile py_blank (code_points s)))))"

lemma concat_code_points [simp]: "concat (code_points s) = s"
  by (induction s rule: code_points.induct) simp_all

section \<open>Printing values\<close>

text \<open>\<open>repr\<close> of a \<open>str\<close>: double quotes only when the text has a single quote and no double quote.
  Code points outside ASCII are kept; CPython escapes the unprintable ones among them.\<close>

definition repr_char :: "char \<Rightarrow> char \<Rightarrow> string" where
  "repr_char q c =
     (if c = q \<or> c = CHR 0x5C then [CHR 0x5C, c]
      else if c = CHR 0x0A then [CHR 0x5C, CHR ''n'']
      else if c = CHR 0x0D then [CHR 0x5C, CHR ''r'']
      else if c = CHR 0x09 then [CHR 0x5C, CHR ''t'']
      else if (of_char c :: nat) < 32 \<or> c = CHR 0x7F then
        [CHR 0x5C, CHR ''x'', hex_digit (of_char c div 16), hex_digit (of_char c mod 16)]
      else [c])"

definition repr_str :: "string \<Rightarrow> string" where
  "repr_str s = (let q = (if CHR 0x27 \<in> set s \<and> CHR 0x22 \<notin> set s then CHR 0x22 else CHR 0x27)
     in [q] @ concat (map (repr_char q) s) @ [q])"

fun py_repr :: "json \<Rightarrow> string" where
  "py_repr JNull = ''None''"
| "py_repr (JBool b) = (if b then ''True'' else ''False'')"
| "py_repr (JInt i) = dec_int i"
| "py_repr (JFloat t) = t"
| "py_repr (JStr s) = repr_str s"
| "py_repr (JList xs) = ''['' @ join '', '' (map py_repr xs) @ '']''"
| "py_repr (JObj kvs) = ''{'' @ join '', '' (map (\<lambda>(k, v). repr_str k @ '': '' @ py_repr v) kvs) @ ''}''"

fun py_str :: "json \<Rightarrow> string" where
  "py_str (JStr s) = s"
| "py_str v = py_repr v"

text \<open>The truthy one of two values, \<open>a or b\<close>.\<close>

definition py_or :: "json \<Rightarrow> json \<Rightarrow> json" where
  "py_or a b = (if truthy a then a else b)"

text \<open>\<open>for x in v\<close> over a decoded value: an object yields its keys, a text its code points.\<close>

fun py_iter :: "json \<Rightarrow> exn + json list" where
  "py_iter (JList xs) = Inr xs"
| "py_iter (JObj kvs) = Inr (map (JStr \<circ> fst) kvs)"
| "py_iter (JStr s) = Inr (map JStr (code_points s))"
| "py_iter v = Inl TypeError"

text \<open>\<open>v.get(key, default)\<close>; only objects have \<open>get\<close>.\<close>

fun get_default :: "json \<Rightarrow> string \<Rightarrow> json \<Rightarrow> exn + json" where
  "get_default (JObj kvs) k d = Inr (case map_of kvs k of Some v \<Rightarrow> v | None \<Rightarrow> d)"
| "get_default v k d = Inl AttributeError"

text \<open>\<open>{**a, **b}\<close>.\<close>

fun jmerge :: "json \<Rightarrow> json \<Rightarrow> json" where
  "jmerge (JObj a) (JObj b) = JObj (fold (\<lambda>(k, v) acc. AList.update k v acc) b a)"
| "jmerge a b = a"

lemma py_str_example: "py_str (JObj [(''a'', JList [JInt (- 3), JBool True, JNull, JStr ''x'']), (''b'', JObj [])]) = ''{'' @ repr_str ''a'' @ '': [-3, True, None, '' @ repr_str ''x'' @ ''], '' @ repr_str ''b'' @ '': {}}''"
  by code_simp

section \<open>Integers\<close>

text \<open>\<open>int(s)\<close> on ASCII text: white space around, a sign, single underscores between digits. Digits of
  other scripts, which Python accepts too, do not occur in the sequences the modelled code parses.\<close>

fun digit_groups :: "bool \<Rightarrow> string \<Rightarrow> string option" where
  "digit_groups after [] = (if after then Some [] else None)"
| "digit_groups after (c # s) =
     (if is_digit c then map_option (\<lambda>t. c # t) (digit_groups True s)
      else if c = CHR ''_'' \<and> after then digit_groups False s
      else None)"

definition py_int :: "string \<Rightarrow> int option" where
  "py_int s =
     (case py_strip s of
        [] \<Rightarrow> None
      | c # t \<Rightarrow>
          if c = CHR ''-'' then map_option (\<lambda>d. - int (digits_val d)) (digit_groups False t)
          else if c = CHR ''+'' then map_option (\<lambda>d. int (digits_val d)) (digit_groups False t)
          else map_option (\<lambda>d. int (digits_val d)) (digit_groups False (c # t)))"

lemma py_int_examples:
  "py_int '' 1_000 '' = Some 1000" "py_int ''-7'' = Some (- 7)" "py_int ''1__0'' = None" "py_int ''_1'' = None" "py_int [] = None"
  by code_simp+

section \<open>Base64\<close>

text \<open>\<open>base64.b64decode(s, validate=True)\<close>: characters of the alphabet, then at most two pads. Two or three
  characters over a multiple of four need two pads, or one; pads after whole groups are ignored, and
  bits below the last whole byte are dropped.\<close>

definition b64_val :: "char \<Rightarrow> nat option" where
  "b64_val c = (let n = (of_char c :: nat) in
     if 65 \<le> n \<and> n \<le> 90 then Some (n - 65)
     else if 97 \<le> n \<and> n \<le> 122 then Some (n - 71)
     else if 48 \<le> n \<and> n \<le> 57 then Some (n + 4)
     else if n = 43 then Some 62
     else if n = 47 then Some 63
     else None)"

definition b64_char :: "nat \<Rightarrow> char" where
  "b64_char v = (char_of (if v < 26 then v + 65 else if v < 52 then v + 71 else if v < 62 then v - 4
     else if v = 62 then 43 else 47) :: char)"

fun b64_groups :: "nat list \<Rightarrow> bytes" where
  "b64_groups (x # y # z # w # r) =
     [char_of (x * 4 + y div 16), char_of (y mod 16 * 16 + z div 4), char_of (z mod 4 * 64 + w)] @ b64_groups r"
| "b64_groups [x, y, z] = [char_of (x * 4 + y div 16), char_of (y mod 16 * 16 + z div 4)]"
| "b64_groups [x, y] = [char_of (x * 4 + y div 16)]"
| "b64_groups _ = []"

definition b64decode :: "string \<Rightarrow> bytes option" where
  "b64decode s =
     (let body = takeWhile (\<lambda>c. b64_val c \<noteq> None) s; pads = drop (length body) s
      in if pads \<notin> {[], ''='', ''==''} \<or> length body mod 4 = 1 \<or> length body mod 4 = 2 \<and> length pads < 2
           \<or> length body mod 4 = 3 \<and> pads = []
         then None
         else Some (b64_groups (map (the \<circ> b64_val) body)))"

fun b64encode :: "bytes \<Rightarrow> string" where
  "b64encode [] = []"
| "b64encode [a] = (let x = (of_char a :: nat) in [b64_char (x div 4), b64_char (x mod 4 * 16), CHR ''='', CHR ''=''])"
| "b64encode [a, b] = (let x = (of_char a :: nat); y = (of_char b :: nat) in
     [b64_char (x div 4), b64_char (x mod 4 * 16 + y div 16), b64_char (y mod 16 * 4), CHR ''=''])"
| "b64encode (a # b # c # r) = (let x = (of_char a :: nat); y = (of_char b :: nat); z = (of_char c :: nat) in
     [b64_char (x div 4), b64_char (x mod 4 * 16 + y div 16), b64_char (y mod 16 * 4 + z div 64), b64_char (z mod 64)] @ b64encode r)"

lemma of_char_less [simp]: "(of_char c :: nat) < 256"
  using nat_of_char_less_256 .

lemma b64_val_char: "v < 64 \<Longrightarrow> b64_val (b64_char v) = Some v"
  by (auto simp: b64_val_def b64_char_def Let_def)

lemma b64_bytes:
  fixes x y z :: nat
  assumes "x < 256" "y < 256" "z < 256"
  shows "x div 4 < 64" "x mod 4 * 16 + y div 16 < 64" "y mod 16 * 4 + z div 64 < 64" "z mod 64 < 64"
  using assms by auto

lemma byte_parts [simp]:
  "(of_char b :: nat) div 16 div 16 = 0" "(of_char b :: nat) div 16 mod 16 = of_char b div 16"
  "(of_char c :: nat) div 64 div 4 = 0" "(of_char c :: nat) div 64 mod 4 = of_char c div 64"
proof -
  have "(of_char b :: nat) div 16 < 16" "(of_char c :: nat) div 64 < 4"
    using less_mult_imp_div_less [of "of_char b" 16 16] less_mult_imp_div_less [of "of_char c" 4 64] by simp_all
  then show "(of_char b :: nat) div 16 div 16 = 0" "(of_char b :: nat) div 16 mod 16 = of_char b div 16"
    "(of_char c :: nat) div 64 div 4 = 0" "(of_char c :: nat) div 64 mod 4 = of_char c div 64" by simp_all
qed

text \<open>The characters before the pads, as values.\<close>

fun b64_vals :: "bytes \<Rightarrow> nat list" where
  "b64_vals (a # b # c # r) = (let x = of_char a; y = of_char b; z = of_char c in
     [x div 4, x mod 4 * 16 + y div 16, y mod 16 * 4 + z div 64, z mod 64] @ b64_vals r)"
| "b64_vals [a, b] = (let x = of_char a; y = of_char b in [x div 4, x mod 4 * 16 + y div 16, y mod 16 * 4])"
| "b64_vals [a] = (let x = of_char a in [x div 4, x mod 4 * 16])"
| "b64_vals [] = []"

definition b64_pads :: "bytes \<Rightarrow> string" where
  "b64_pads s = (if length s mod 3 = 1 then ''=='' else if length s mod 3 = 2 then ''='' else [])"

lemma b64encode_split: "b64encode s = map b64_char (b64_vals s) @ b64_pads s"
  by (induction s rule: b64_vals.induct) (auto simp: b64_pads_def Let_def)

lemma b64_vals_bound: "v \<in> set (b64_vals s) \<Longrightarrow> v < 64"
proof (induction s rule: b64_vals.induct)
  case (1 a b c r)
  then show ?case using b64_bytes [of "of_char a" "of_char b" "of_char c"] by (auto simp: Let_def)
next
  case (2 a b)
  then show ?case using b64_bytes [of "of_char a" "of_char b" 0] by (auto simp: Let_def)
next
  case (3 a)
  then show ?case using b64_bytes [of "of_char a" 0 0] by (auto simp: Let_def)
qed simp

lemma b64_groups_vals: "b64_groups (b64_vals s) = s"
  by (induction s rule: b64_vals.induct) (simp_all add: Let_def)

lemma b64_vals_length: "length (b64_vals s) mod 4 = (if length s mod 3 = 0 then 0 else Suc (length s mod 3))"
  by (induction s rule: b64_vals.induct) (auto simp: Let_def mod_Suc)

theorem b64_roundtrip: "b64decode (b64encode s) = Some s"
proof -
  have val: "b64_val (b64_char v) = Some v" if "v \<in> set (b64_vals s)" for v
    by (rule b64_val_char, rule b64_vals_bound [OF that])
  have body: "takeWhile (\<lambda>c. b64_val c \<noteq> None) (b64encode s) = map b64_char (b64_vals s)"
    unfolding b64encode_split
    by (subst takeWhile_append2) (auto simp: val b64_pads_def b64_val_def [of "CHR ''=''"])
  have "length s mod 3 < 3" by simp
  then have "length s mod 3 = 0 \<or> length s mod 3 = 1 \<or> length s mod 3 = 2" by linarith
  moreover have "map (the \<circ> b64_val) (map b64_char (b64_vals s)) = b64_vals s" by (simp add: val map_idI)
  ultimately show ?thesis
    unfolding b64decode_def body Let_def using b64_vals_length [of s] b64_groups_vals [of s]
    by (auto simp: b64encode_split b64_pads_def)
qed

section \<open>Date and time\<close>

text \<open>
  \<open>datetime.fromisoformat\<close>. The date is \<open>YYYY-MM-DD\<close>, \<open>YYYYMMDD\<close> or an ISO week date; where it ends is
  decided first (\<open>sep_location\<close>), then any one code point separates it from the time. The time is up to
  three two-digit fields, colons all or none, and a fraction; before an offset CPython ignores what is
  left after them, and an offset of zero whole seconds is UTC.
\<close>

definition digits_int :: "string \<Rightarrow> int" where
  "digits_int = foldl (\<lambda>n c. n * 10 + (of_char c - 48)) 0"

definition digits_n :: "nat \<Rightarrow> string \<Rightarrow> (int \<times> string) option" where
  "digits_n n s = (if n \<le> length s \<and> list_all is_digit (take n s) then Some (digits_int (take n s), drop n s) else None)"

definition char_at :: "nat \<Rightarrow> string \<Rightarrow> char" where
  "char_at i s = (if i < length s then s ! i else CHR 0x00)"

definition sep_location :: "string \<Rightarrow> nat option" where
  "sep_location s =
     (let n = length s in
      if n = 7 then Some 7
      else if char_at 4 s = CHR ''-'' then
        (if char_at 5 s \<noteq> CHR ''W'' then Some 10
         else if n > 8 \<and> char_at 8 s = CHR ''-'' then
           (if n = 9 then None else if n > 10 \<and> is_digit (char_at 10 s) then Some 8 else Some 10)
         else Some 8)
      else if char_at 4 s = CHR ''W'' then
        (let i = 7 + length (takeWhile is_digit (drop 7 s)) in
         if i < 9 then Some i else if even i then Some 7 else Some 8)
      else Some 8)"

definition is_leap :: "int \<Rightarrow> bool" where
  "is_leap y \<longleftrightarrow> y mod 4 = 0 \<and> (y mod 100 \<noteq> 0 \<or> y mod 400 = 0)"

definition days_in_month :: "int \<Rightarrow> int \<Rightarrow> int" where
  "days_in_month y m = (if m = 2 then (if is_leap y then 29 else 28) else if m \<in> {4, 6, 9, 11} then 30 else 31)"

definition days_of_civil :: "int \<Rightarrow> int \<Rightarrow> int \<Rightarrow> int" where
  "days_of_civil y m d =
     (let yy = (if m \<le> 2 then y - 1 else y); yoe = yy mod 400;
          doy = (153 * (m + (if m > 2 then - 3 else 9)) + 2) div 5 + d - 1
      in yy div 400 * 146097 + (yoe * 365 + yoe div 4 - yoe div 100 + doy) - 719468)"

definition iso_to_ymd :: "int \<Rightarrow> int \<Rightarrow> int \<Rightarrow> (int \<times> int \<times> int) option" where
  "iso_to_ymd y w d =
     (let jan1 = days_of_civil y 1 1; fw = (jan1 + 3) mod 7 in
      if y < 1 \<or> \<not> (1 \<le> w \<and> w \<le> 52 \<or> w = 53 \<and> (fw = 3 \<or> fw = 2 \<and> is_leap y)) \<or> \<not> (1 \<le> d \<and> d \<le> 7) then None
      else Some (civil_of_days (jan1 - fw + (if fw > 3 then 7 else 0) + (w - 1) * 7 + d - 1)))"

text \<open>Drop an expected hyphen; without separators nothing is dropped.\<close>

definition hyphen :: "bool \<Rightarrow> string \<Rightarrow> string option" where
  "hyphen sep s = (if \<not> sep then Some s else case s of c # r \<Rightarrow> if c = CHR ''-'' then Some r else None | [] \<Rightarrow> None)"

definition parse_date :: "string \<Rightarrow> (int \<times> int \<times> int) option" where
  "parse_date s =
     Option.bind (digits_n 4 s) (\<lambda>(y, p0).
       let sep = starts_with ''-'' p0; p1 = (if sep then tl p0 else p0) in
       if starts_with ''W'' p1 then
         Option.bind (digits_n 2 (tl p1)) (\<lambda>(w, p2).
           if p2 = [] then iso_to_ymd y w 1
           else Option.bind (hyphen sep p2) (\<lambda>p3. Option.bind (digits_n 1 p3) (\<lambda>(d, _). iso_to_ymd y w d)))
       else
         Option.bind (digits_n 2 p1) (\<lambda>(m, p2). Option.bind (hyphen sep p2) (\<lambda>p3. Option.bind (digits_n 2 p3) (\<lambda>(d, p4).
           if p4 = [] then Some (y, m, d) else None))))"

text \<open>The fields, the microseconds and whether text is left. \<open>nxt\<close> is the character after the part.\<close>

definition leftover :: "string \<Rightarrow> bool" where
  "leftover p = (case p of [] \<Rightarrow> False | c # _ \<Rightarrow> c \<noteq> CHR 0x00)"

definition parse_fraction :: "int list \<Rightarrow> string \<Rightarrow> (int list \<times> int \<times> bool) option" where
  "parse_fraction vs p =
     (let k = min 6 (length p) in
      Option.bind (digits_n k p) (\<lambda>(n, r). Some (vs, n * 10 ^ (6 - k), leftover (dropWhile is_digit r))))"

fun parse_fields :: "nat \<Rightarrow> bool \<Rightarrow> char \<Rightarrow> int list \<Rightarrow> string \<Rightarrow> (int list \<times> int \<times> bool) option" where
  "parse_fields 0 sep nxt vs p = parse_fraction vs p"
| "parse_fields (Suc i) sep nxt vs p =
     (case digits_n 2 p of
        None \<Rightarrow> None
      | Some (v, r) \<Rightarrow>
          let c = (if r = [] then nxt else hd r); sep1 = (if vs = [] then c = CHR '':'' else sep) in
          if length r \<le> 1 then Some (vs @ [v], 0, leftover r)
          else if sep1 \<and> c = CHR '':'' then parse_fields i sep1 nxt (vs @ [v]) (tl r)
          else if c \<in> {CHR ''.'', CHR '',''} then parse_fraction (vs @ [v]) (tl r)
          else if \<not> sep1 then parse_fields i sep1 nxt (vs @ [v]) r
          else None)"

definition field :: "nat \<Rightarrow> int list \<Rightarrow> int" where
  "field i vs = (if i < length vs then vs ! i else 0)"

text \<open>The offset in microseconds, \<open>None\<close> for a naive time.\<close>

definition parse_time :: "string \<Rightarrow> ((int list \<times> int) \<times> int option) option" where
  "parse_time s =
     (let p = takeWhile (\<lambda>c. c \<notin> set ''+-Z'') s; z = drop (length p) s in
      Option.bind (parse_fields 3 True (char_at 0 z) [] p) (\<lambda>(vs, us, left).
        case z of
          [] \<Rightarrow> if left then None else Some ((vs, us), None)
        | c # q \<Rightarrow>
            if c = CHR ''Z'' then (if leftover q then None else Some ((vs, us), Some 0))
            else Option.bind (parse_fields 3 True (CHR 0x00) [] q) (\<lambda>(ws, vus, left2).
              let secs = field 0 ws * 3600 + field 1 ws * 60 + field 2 ws in
              if left2 then None
              else if secs = 0 then Some ((vs, us), Some 0)
              else Some ((vs, us), Some ((if c = CHR ''-'' then - 1 else 1) * (secs * 1000000 + vus))))))"

record datetime =
  dt_date :: "int \<times> int \<times> int"
  dt_time :: "int \<times> int \<times> int"
  dt_us :: int
  dt_offset :: "int option"

definition valid_datetime :: "datetime \<Rightarrow> bool" where
  "valid_datetime t =
     (case (dt_date t, dt_time t) of ((y, m, d), (hh, mi, ss)) \<Rightarrow>
        1 \<le> y \<and> y \<le> 9999 \<and> 1 \<le> m \<and> m \<le> 12 \<and> 1 \<le> d \<and> d \<le> days_in_month y m \<and> hh < 24 \<and> mi < 60 \<and> ss < 60
        \<and> dt_us t < 1000000 \<and> (case dt_offset t of None \<Rightarrow> True | Some z \<Rightarrow> \<bar>z\<bar> < 86400 * 1000000))"

definition fromisoformat :: "string \<Rightarrow> datetime option" where
  "fromisoformat s =
     (if length s < 7 then None
      else Option.bind (sep_location s) (\<lambda>k. Option.bind (parse_date (take k s)) (\<lambda>date.
        Option.bind (if length s \<le> k then Some (([], 0), None) else parse_time (dropWhile cont_byte (drop (Suc k) s)))
          (\<lambda>((vs, us), z).
            let t = \<lparr>dt_date = date, dt_time = (field 0 vs, field 1 vs, field 2 vs), dt_us = us, dt_offset = z\<rparr>
            in if valid_datetime t then Some t else None))))"

definition two :: "int \<Rightarrow> string" where
  "two n = pad 2 (dec_int n)"

definition offset_text :: "int \<Rightarrow> string" where
  "offset_text z =
     (let a = \<bar>z\<bar> in
      (if z < 0 then ''-'' else ''+'') @ two (a div 3600000000) @ '':'' @ two (a div 60000000 mod 60)
      @ (if a mod 60000000 = 0 then [] else '':'' @ two (a div 1000000 mod 60)
          @ (if a mod 1000000 = 0 then [] else ''.'' @ pad 6 (dec_int (a mod 1000000)))))"

definition isoformat :: "datetime \<Rightarrow> string" where
  "isoformat t =
     (case (dt_date t, dt_time t) of ((y, m, d), (hh, mi, ss)) \<Rightarrow>
        pad 4 (dec_int y) @ ''-'' @ two m @ ''-'' @ two d @ ''T'' @ two hh @ '':'' @ two mi @ '':'' @ two ss
        @ (if dt_us t = 0 then [] else ''.'' @ pad 6 (dec_int (dt_us t)))
        @ (case dt_offset t of None \<Rightarrow> [] | Some z \<Rightarrow> offset_text z))"

lemma fromisoformat_examples:
  "map_option isoformat (fromisoformat ''2020-W01-1T000000+0100'') = Some ''2019-12-30T00:00:00+01:00''"
  "map_option isoformat (fromisoformat ''2024-02-29 23:59:59-00:00:30'') = Some ''2024-02-29T23:59:59-00:00:30''"
  "map_option isoformat (fromisoformat ''20240229T23595Z'') = Some ''2024-02-29T23:59:00+00:00''"
  "fromisoformat ''2023-02-29T00:00:00Z'' = None"
  "fromisoformat ''2020-01-01T'' = None"
  by code_simp+

end
