(* ===== verification/A2A_Protocol.thy ===== *)
theory A2A_Protocol
  imports Py_Text
begin

text \<open>
  The A2A protocol as the broker speaks it: the task shapes of \<open>models.py\<close>, the allowlisted peer
  diagnostics of \<open>diagnostics.py\<close>, and the client of \<open>a2a.py\<close>. A peer is foreign code, so what it
  answers is an argument: the reply to each HTTP attempt (\<open>http_reply\<close>), or the lines of an event
  stream and how the stream ended (\<open>sse_end\<close>). What \<open>discover\<close> found is an argument of the request
  functions, its result or its exception.
\<close>

section \<open>Tasks\<close>

definition A2A_STATE_MAP :: "(string \<times> string) list" where
  "A2A_STATE_MAP =
     [(''TASK_STATE_SUBMITTED'', ''submitted''), (''TASK_STATE_WORKING'', ''working''),
      (''TASK_STATE_INPUT_REQUIRED'', ''input_required''), (''TASK_STATE_AUTH_REQUIRED'', ''input_required''),
      (''TASK_STATE_COMPLETED'', ''completed''), (''TASK_STATE_FAILED'', ''failed''),
      (''TASK_STATE_CANCELED'', ''canceled''), (''TASK_STATE_REJECTED'', ''rejected'')]"

record task_result =
  task_id :: string
  context_id :: string
  task_state :: string
  task_text :: string
  artifacts :: "json list"
  raw :: json

section \<open>Peer diagnostics\<close>

definition DIAGNOSTICS_URI :: string where
  "DIAGNOSTICS_URI = ''https://github.com/phamviet86/hermes-a2a-gateway/extensions/diagnostics/v1''"

definition REASONS :: "string list" where
  "REASONS = [''context_rate_limited'', ''context_turn_limit'', ''input_required'', ''peer_rejected'']"

definition ACTIONS :: "string list" where
  "ACTIONS = [''wait_then_submit_new'', ''inspect_operation'', ''contact_operator'', ''provide_input'']"

text \<open>The full match of the legacy anti-loop sentence, whose number has no leading zero.\<close>

definition legacy_turn_limit :: "string \<Rightarrow> string \<Rightarrow> bool" where
  "legacy_turn_limit ctx t =
     (let p = ''Anti-loop protection: context '' @ ctx @ '' exceeded ''; r = drop (length p) t; ds = takeWhile is_digit r
      in starts_with p t \<and> ds \<noteq> [] \<and> hd ds \<noteq> CHR ''0''
         \<and> drop (length ds) r = '' turns. Start a new context or increase A2A_MAX_PINGPONG_TURNS.'')"

definition replace_z :: "string \<Rightarrow> string" where
  "replace_z s = concat (map (\<lambda>c. if c = CHR ''Z'' then ''+00:00'' else [c]) s)"

definition default_details :: "task_result \<Rightarrow> json" where
  "default_details t = (let inp = task_state t = ''input_required'' in
     JObj [(''reason'', JStr (if inp then ''input_required'' else ''peer_rejected'')),
           (''peer_state'', JStr (task_state t)),
           (''recommended_action'', JStr (if inp then ''provide_input'' else ''contact_operator''))])"

definition put_execution_started :: "json \<Rightarrow> json \<Rightarrow> json" where
  "put_execution_started v d = (case jget v ''execution_started'' of JBool b \<Rightarrow> jput ''execution_started'' (JBool b) d | _ \<Rightarrow> d)"

definition put_retry_after :: "json \<Rightarrow> json \<Rightarrow> json" where
  "put_retry_after v d = (case jget v ''retry_after_seconds'' of
     JInt n \<Rightarrow> if 0 \<le> n \<and> n \<le> 86400 then jput ''retry_after_seconds'' (JInt n) d else d | _ \<Rightarrow> d)"

definition put_retry_at :: "json \<Rightarrow> json \<Rightarrow> json" where
  "put_retry_at v d = (case jget v ''retry_at'' of
     JStr s \<Rightarrow> if py_len s \<le> 40 then
         (case fromisoformat (replace_z s) of
            Some t \<Rightarrow> if dt_offset t \<noteq> None then jput ''retry_at'' (JStr (isoformat t)) d else d
          | None \<Rightarrow> d)
       else d
   | _ \<Rightarrow> d)"

definition put_action :: "json \<Rightarrow> json \<Rightarrow> json" where
  "put_action v d = (case jget v ''recommended_action'' of
     JStr a \<Rightarrow> if a \<in> set ACTIONS then jput ''recommended_action'' (JStr a) d else d | _ \<Rightarrow> d)"

definition peer_error_details :: "task_result \<Rightarrow> json" where
  "peer_error_details t =
     (let d = default_details t; v = jget (jget (raw t) ''metadata'') DIAGNOSTICS_URI in
      case jget v ''reason'' of
        JStr r \<Rightarrow>
          if r \<in> set REASONS
          then put_action v (put_retry_at v (put_retry_after v (put_execution_started v (jput ''reason'' (JStr r) d))))
          else if task_state t = ''rejected'' \<and> py_len (task_text t) \<le> 1024 \<and> legacy_turn_limit (context_id t) (task_text t)
          then jput ''reason'' (JStr ''context_turn_limit'') d else d
      | _ \<Rightarrow>
          if task_state t = ''rejected'' \<and> py_len (task_text t) \<le> 1024 \<and> legacy_turn_limit (context_id t) (task_text t)
          then jput ''reason'' (JStr ''context_turn_limit'') d else d)"

definition unknown_policy :: json where
  "unknown_policy = JObj [(''status'', JStr ''unknown''), (''policy'', JStr ''unknown'')]"

definition peer_capabilities :: "json \<Rightarrow> json" where
  "peer_capabilities v =
     (if jget v ''diagnostics_extension'' \<noteq> JStr DIAGNOSTICS_URI then unknown_policy
      else case (jget v ''policy'', jget v ''context_limit'') of
        (JStr p, JInt lm) \<Rightarrow>
          if p \<notin> {''sliding_window'', ''legacy_turn_limit''} \<or> \<not> (1 \<le> lm \<and> lm \<le> 100000) then unknown_policy
          else
            let out = JObj [(''status'', JStr ''supported''), (''diagnostics_extension'', JStr DIAGNOSTICS_URI),
                            (''policy'', JStr p), (''context_limit'', JInt lm)];
                patch = (\<lambda>j. if jget v ''patch_version'' = JStr ''0.8.0'' then jput ''patch_version'' (JStr ''0.8.0'') j else j)
            in if p = ''sliding_window'' then
                 (case jget v ''window_seconds'' of
                    JInt w \<Rightarrow> if 1 \<le> w \<and> w \<le> 86400 then patch (jput ''window_seconds'' (JInt w) out) else unknown_policy
                  | _ \<Rightarrow> unknown_policy)
               else patch out
      | _ \<Rightarrow> unknown_policy)"

section \<open>Parsing a task\<close>

definition invalid_response :: "string \<Rightarrow> exn" where
  "invalid_response m = A2AError ''a2a_invalid_response'' m False JNull"

definition unwrap_task :: "json \<Rightarrow> exn + json" where
  "unwrap_task j =
     (if is_obj (jget j ''task'') then Inr (jget j ''task'')
      else if is_obj (jget j ''message'') then Inr (jget j ''message'')
      else if is_obj j then Inr j
      else Inl (invalid_response ''Hermes result did not contain a Task or Message''))"

definition part_text :: "json \<Rightarrow> string" where
  "part_text p =
     (case jget p ''text'' of
        JStr t \<Rightarrow> t
      | _ \<Rightarrow> if jhas p ''data'' then json_dumps '', '' '': '' (jget p ''data'')
             else (case jget p ''url'' of JStr u \<Rightarrow> u | _ \<Rightarrow> []))"

definition message_text :: "json \<Rightarrow> exn + string" where
  "message_text m =
     (if \<not> is_obj m then Inr []
      else bind_r (py_iter (py_or (jget m ''parts'') (JList []))) (\<lambda>ps.
        Inr (py_strip (join [CHR 0x0A] (filter (\<lambda>t. t \<noteq> []) (map part_text (filter is_obj ps)))))))"

text \<open>The text of the first artifact that has any.\<close>

fun artifacts_text :: "json list \<Rightarrow> exn + string" where
  "artifacts_text [] = Inr []"
| "artifacts_text (a # as) = bind_r (message_text a) (\<lambda>t. if t = [] then artifacts_text as else Inr t)"

definition state_of_raw :: "string \<Rightarrow> string" where
  "state_of_raw s = (case map_of A2A_STATE_MAP s of Some t \<Rightarrow> t | None \<Rightarrow> remove_all ''task_state_'' (lower s))"

definition parse_task :: "string \<Rightarrow> json \<Rightarrow> exn + task_result" where
  "parse_task fallback result =
     bind_r (unwrap_task result) (\<lambda>task.
       let status = py_or (jget task ''status'') (JObj []) in
       if \<not> is_obj status then Inl AttributeError
       else bind_r (py_iter (py_or (jget task ''artifacts'') (JList []))) (\<lambda>as0.
         let as = filter is_obj as0 in
         bind_r (artifacts_text as) (\<lambda>t1.
         bind_r (if t1 = [] then message_text (jget status ''message'') else Inr t1) (\<lambda>t2.
         bind_r (if t2 = [] \<and> truthy (jget task ''role'') then message_text task else Inr t2) (\<lambda>t3.
           Inr \<lparr>task_id = py_str (py_or (jget task ''id'') (py_or (jget task ''taskId'') (JStr []))),
                context_id = py_str (py_or (jget task ''contextId'') (JStr fallback)),
                task_state = state_of_raw (py_str (py_or (jget status ''state'') (JStr ''TASK_STATE_COMPLETED''))),
                task_text = t3, artifacts = as, raw = task\<rparr>)))))"

definition status_task :: "json \<Rightarrow> json" where
  "status_task u = JObj [(''id'', jget u ''taskId''), (''contextId'', jget u ''contextId''),
     (''status'', py_or (jget u ''status'') (JObj [])),
     (''metadata'', if jhas u ''metadata'' then jget u ''metadata'' else JObj [])]"

definition artifact_task :: "json \<Rightarrow> json" where
  "artifact_task a = JObj [(''id'', jget a ''taskId''), (''contextId'', jget a ''contextId''),
     (''status'', JObj [(''state'', JStr ''TASK_STATE_WORKING'')]),
     (''artifacts'', JList [py_or (jget a ''artifact'') (JObj [])]),
     (''metadata'', if jhas a ''metadata'' then jget a ''metadata'' else JObj [])]"

definition parse_stream_event :: "string \<Rightarrow> json \<Rightarrow> exn + task_result option" where
  "parse_stream_event fallback ev =
     (if is_obj (jget ev ''task'') then bind_r (parse_task fallback (jget ev ''task'')) (\<lambda>t. Inr (Some t))
      else if is_obj (jget ev ''statusUpdate'') then bind_r (parse_task fallback (status_task (jget ev ''statusUpdate''))) (\<lambda>t. Inr (Some t))
      else if is_obj (jget ev ''artifactUpdate'') then bind_r (parse_task fallback (artifact_task (jget ev ''artifactUpdate''))) (\<lambda>t. Inr (Some t))
      else Inr None)"

definition message_json :: "string \<Rightarrow> string \<Rightarrow> string \<Rightarrow> json" where
  "message_json msg ctx mid = JObj [(''messageId'', JStr mid), (''role'', JStr ''ROLE_USER''), (''contextId'', JStr ctx),
     (''parts'', JList [JObj [(''text'', JStr msg), (''mediaType'', JStr ''text/plain'')]])]"

section \<open>Requests\<close>

text \<open>The reply to one HTTP attempt: an unsuccessful status, a decoded body, a body that is not JSON, a
  transport error by its class name, or any other exception, which no handler here catches.\<close>

datatype http_reply = HttpStatus int | HttpBody json | NotJson | TransportFailed string | Raised exn

definition http_error :: "int \<Rightarrow> exn" where
  "http_error st =
     (if st \<in> {401, 403} then A2AError ''a2a_auth'' (''Hermes rejected authentication (HTTP '' @ dec_int st @ '')'') False JNull
      else if st = 429 then A2AError ''a2a_rate_limited'' ''Hermes rate limited the broker'' True JNull
      else if st = 404 then A2AError ''a2a_not_found'' ''Hermes endpoint was not found (HTTP 404)'' False JNull
      else A2AError ''a2a_http'' (''Hermes HTTP error '' @ dec_int st) (st \<ge> 500) JNull)"

text \<open>The loop of \<open>_get_json\<close> with \<open>n\<close> attempts left; the result carries how many requests were sent.
  The exception after the loop is never reached, since the last attempt always leaves it.\<close>

fun get_json :: "(nat \<Rightarrow> http_reply) \<Rightarrow> nat \<Rightarrow> nat \<Rightarrow> (exn + json) \<times> nat" where
  "get_json reply attempt 0 = (Inl (A2AError ''a2a_unreachable'' ''Could not reach Hermes: None'' True JNull), attempt)"
| "get_json reply attempt (Suc n) =
     (let unreachable = (\<lambda>name. A2AError ''a2a_unreachable'' (''Could not reach Hermes: '' @ name) True JNull) in
      case reply attempt of
        HttpStatus st \<Rightarrow>
          if \<not> a2a_retryable (http_error st) \<or> a2a_code (http_error st) = ''a2a_rate_limited'' \<or> n = 0
          then (Inl (http_error st), Suc attempt) else get_json reply (Suc attempt) n
      | HttpBody v \<Rightarrow>
          (if is_obj v then Inr v else Inl (invalid_response ''Hermes returned a non-object JSON response''), Suc attempt)
      | NotJson \<Rightarrow> if n = 0 then (Inl (unreachable ''JSONDecodeError''), Suc attempt) else get_json reply (Suc attempt) n
      | TransportFailed name \<Rightarrow> if n = 0 then (Inl (unreachable name), Suc attempt) else get_json reply (Suc attempt) n
      | Raised e \<Rightarrow> (Inl e, Suc attempt))"

definition rpc_body :: "string \<Rightarrow> string \<Rightarrow> string \<Rightarrow> json \<Rightarrow> json" where
  "rpc_body tenant rid method params =
     JObj [(''jsonrpc'', JStr ''2.0''), (''id'', JStr rid), (''method'', JStr method),
       (''params'', if tenant \<noteq> [] \<and> \<not> jhas params ''tenant'' then jput ''tenant'' (JStr tenant) params else params)]"

definition rpc_payload :: "json \<Rightarrow> exn + json" where
  "rpc_payload p =
     (if \<not> is_obj p then Inl (invalid_response ''Hermes returned a non-object JSON-RPC response'')
      else if jhas p ''error'' then
        (let er = py_or (jget p ''error'') (JObj []); c = jget er ''code'' in
         Inl (A2AError (if c = JInt (- 32001) then ''a2a_task_not_found'' else ''a2a_rpc_error'')
           (py_str (if is_obj er then jget er ''message'' else er)) (c = JInt (- 32051)) c))
      else Inr (jget p ''result''))"

text \<open>The loop of \<open>_post_rpc\<close>: three attempts for a read, one for a mutation.\<close>

fun post_loop :: "bool \<Rightarrow> (nat \<Rightarrow> http_reply) \<Rightarrow> nat \<Rightarrow> nat \<Rightarrow> (exn + json) \<times> nat" where
  "post_loop read_only reply attempt 0 = (Inl (A2AError ''a2a_unreachable'' ''Hermes request failed: None'' True JNull), attempt)"
| "post_loop read_only reply attempt (Suc n) =
     (let broken = (\<lambda>name. A2AError (if read_only then ''a2a_unreachable'' else ''a2a_transport_ambiguous'')
                      (''Hermes transport failed: '' @ name) read_only JNull) in
      case reply attempt of
        HttpStatus st \<Rightarrow>
          if \<not> read_only \<or> \<not> a2a_retryable (http_error st) \<or> a2a_code (http_error st) = ''a2a_rate_limited'' \<or> n = 0
          then (Inl (http_error st), Suc attempt) else post_loop read_only reply (Suc attempt) n
      | HttpBody p \<Rightarrow> (rpc_payload p, Suc attempt)
      | NotJson \<Rightarrow> if \<not> read_only \<or> n = 0 then (Inl (broken ''JSONDecodeError''), Suc attempt) else post_loop read_only reply (Suc attempt) n
      | TransportFailed name \<Rightarrow> if \<not> read_only \<or> n = 0 then (Inl (broken name), Suc attempt) else post_loop read_only reply (Suc attempt) n
      | Raised e \<Rightarrow> (Inl e, Suc attempt))"

definition post_rpc :: "exn + unit \<Rightarrow> bool \<Rightarrow> (nat \<Rightarrow> http_reply) \<Rightarrow> (exn + json) \<times> nat" where
  "post_rpc found read_only reply =
     (case found of Inl e \<Rightarrow> (Inl e, 0) | Inr _ \<Rightarrow> post_loop read_only reply 0 (if read_only then 3 else 1))"

definition get_task :: "exn + unit \<Rightarrow> (nat \<Rightarrow> http_reply) \<Rightarrow> (exn + task_result) \<times> nat" where
  "get_task found reply = (let (r, n) = post_rpc found True reply in (bind_r r (parse_task []), n))"

definition cancel_task :: "exn + unit \<Rightarrow> (nat \<Rightarrow> http_reply) \<Rightarrow> (exn + task_result) \<times> nat" where
  "cancel_task found reply = (let (r, n) = post_rpc found False reply in (bind_r r (parse_task []), n))"

section \<open>The event stream\<close>

text \<open>How the stream ended after its lines; a bad status comes before any line.\<close>

datatype sse_end = SseEof | SseTimeout | SseStatus int | SseTransport string

definition sse_failure :: "string \<Rightarrow> sse_end \<Rightarrow> exn option" where
  "sse_failure method e =
     (case e of
        SseEof \<Rightarrow> None
      | SseTimeout \<Rightarrow> Some (A2AError ''a2a_timeout'' ''A2A stream exceeded its absolute timeout'' False JNull)
      | SseStatus st \<Rightarrow> Some (if st \<ge> 500 \<and> method = ''SendStreamingMessage''
          then A2AError ''a2a_transport_ambiguous'' ''server error after sending request'' False JNull else http_error st)
      | SseTransport name \<Rightarrow> Some (A2AError ''a2a_transport_ambiguous'' (''A2A stream failed: '' @ name) False JNull))"

text \<open>What one line yields: an exception, an event, or nothing.\<close>

definition sse_line :: "string \<Rightarrow> string \<Rightarrow> string \<Rightarrow> exn + json option" where
  "sse_line method rid line =
     (let text = py_strip (drop 5 line) in
      if \<not> starts_with ''data:'' line \<or> text = [] then Inr None
      else case json_loads text of
        None \<Rightarrow> Inl (A2AError ''a2a_invalid_sse'' ''A2A SSE contained invalid JSON'' False JNull)
      | Some env \<Rightarrow>
          if \<not> is_obj env then Inr None
          else if method = ''SendStreamingMessage'' \<and> (jget env ''jsonrpc'' \<noteq> JStr ''2.0'' \<or> jget env ''id'' \<noteq> JStr rid)
          then Inl (A2AError ''correlation_mismatch'' ''stream response does not match request ID'' False JNull)
          else if jhas env ''error'' then
            (let er = py_or (jget env ''error'') (JObj []) in
             Inl (A2AError ''a2a_rpc_error'' (py_str (if is_obj er then jget er ''message'' else er)) False JNull))
          else
            let v = (if jhas env ''result'' then jget env ''result'' else env)
            in Inr (if is_obj v then Some v else None))"

fun sse_lines :: "string \<Rightarrow> string \<Rightarrow> string list \<Rightarrow> sse_end \<Rightarrow> json list \<times> exn option" where
  "sse_lines method rid [] e = ([], sse_failure method e)"
| "sse_lines method rid (l # ls) e =
     (case sse_line method rid l of
        Inl x \<Rightarrow> ([], Some x)
      | Inr None \<Rightarrow> sse_lines method rid ls e
      | Inr (Some v) \<Rightarrow> (let (vs, x) = sse_lines method rid ls e in (v # vs, x)))"

definition sse :: "exn + unit \<Rightarrow> string \<Rightarrow> string \<Rightarrow> string list \<Rightarrow> sse_end \<Rightarrow> json list \<times> exn option" where
  "sse found method rid ls e =
     (case found of
        Inl x \<Rightarrow> ([], Some x)
      | Inr _ \<Rightarrow> (case e of SseStatus _ \<Rightarrow> ([], sse_failure method e) | _ \<Rightarrow> sse_lines method rid ls e))"

end
