(* ===== verification/Broker_Store.thy ===== *)
theory Broker_Store
  imports Json_Codec
begin

text \<open>
  The PostgreSQL ledger of \<open>broker_store.py\<close>. Each table is a field of the record \<open>store\<close>, each
  public method of \<open>BrokerStore\<close> is one definition from a store to an error or a result with the
  new store; an error rolls the transaction back. The current time (\<open>now\<close>, microseconds, read once
  per transaction) and the UUIDs a method draws are arguments. Fernet and SHA-256 are the function
  fields of \<open>broker_env\<close>: the ledger uses them only through \<open>fernet_decrypt (fernet_encrypt m)\<close>
  and equality of digests.
\<close>

section \<open>States, rows and tables\<close>

datatype op_state = Accepted | Running | Completed | Failed | Canceled | OutcomeUnknown

definition FINAL :: "op_state set" where
  "FINAL = {Completed, Failed, Canceled}"

definition TERMINAL :: "op_state set" where
  "TERMINAL = FINAL \<union> {OutcomeUnknown}"

fun state_text :: "op_state \<Rightarrow> string" where
  "state_text Accepted = ''accepted''"
| "state_text Running = ''running''"
| "state_text Completed = ''completed''"
| "state_text Failed = ''failed''"
| "state_text Canceled = ''canceled''"
| "state_text OutcomeUnknown = ''outcome_unknown''"

record broker_settings =
  payload_ttl_seconds :: int
  artifact_ttl_seconds :: int
  event_ttl_seconds :: int
  result_ttl_seconds :: int
  max_artifact_bytes :: int
  device_quota_bytes :: int
  max_pending_per_device :: int
  max_request_bytes :: int
  max_result_bytes :: int
  max_concurrent_streams :: int

record broker_env =
  settings :: broker_settings
  sha256 :: "bytes \<Rightarrow> string"
  fernet_encrypt :: "bytes \<Rightarrow> bytes"
  fernet_decrypt :: "bytes \<Rightarrow> bytes option"

record device_row =
  dev_sequence :: int
  dev_floor :: int

record op_row =
  flow_id :: string
  digest :: string
  state :: op_state
  result_id :: "string option"
  result_cipher :: "bytes option"
  result_expires_at :: "time option"
  error_code :: "string option"
  error_message :: "string option"
  remote_task_id :: "string option"
  polled_at :: "time option"
  created_at :: time
  updated_at :: time
  cancel_claimed :: bool
  cancel_requested :: bool

record payload_row =
  p_cipher :: bytes
  p_expires_at :: time

datatype outbox_state = Pending | Claimed | Done

record outbox_row =
  b_state :: outbox_state
  claimed_at :: "time option"

record event_row =
  e_cipher :: bytes
  e_expires_at :: time

record artifact_row =
  a_sha256 :: string
  a_size :: int
  a_content_type :: string
  a_cipher :: bytes
  a_expires_at :: time

type_synonym op_key = "string \<times> string"

record store =
  devices_t :: "(string \<times> device_row) list"
  operations_t :: "(op_key \<times> op_row) list"
  payloads_t :: "(op_key \<times> payload_row) list"
  outbox_t :: "(op_key \<times> outbox_row) list"
  events_t :: "((string \<times> int) \<times> event_row) list"
  artifacts_t :: "((string \<times> string) \<times> artifact_row) list"
  receipts_t :: "((string \<times> string \<times> string \<times> string) \<times> time) list"
  is_dispatcher :: bool

text \<open>A ledger whose schema has just been created.\<close>

definition empty_store :: store where
  "empty_store = \<lparr>devices_t = [], operations_t = [], payloads_t = [], outbox_t = [], events_t = [],
     artifacts_t = [], receipts_t = [], is_dispatcher = False\<rparr>"

record op_request =
  r_operation_id :: string
  r_flow_id :: string
  r_prompt :: string
  r_artifact_ids :: "string list"

definition request_json :: "op_request \<Rightarrow> json" where
  "request_json q = JObj [(''operation_id'', JStr (r_operation_id q)), (''flow_id'', JStr (r_flow_id q)),
     (''prompt'', JStr (r_prompt q)), (''artifact_ids'', JList (map JStr (r_artifact_ids q)))]"

definition seconds :: "int \<Rightarrow> time" where
  "seconds n = n * 1000000"

section \<open>Helpers of a transaction\<close>

definition err :: "string \<Rightarrow> string \<Rightarrow> int \<Rightarrow> exn" where
  "err c m st = BrokerError c m st None"

definition dispatcher_required :: exn where
  "dispatcher_required = err ''dispatcher_required'' ''dispatcher lock is required'' 503"

definition do_device :: "string \<Rightarrow> store \<Rightarrow> store" where
  "do_device d s = s\<lparr>devices_t := insert_ignore d \<lparr>dev_sequence = 0, dev_floor = 0\<rparr> (devices_t s)\<rparr>"

definition do_encrypt :: "broker_env \<Rightarrow> json \<Rightarrow> bytes" where
  "do_encrypt env v = fernet_encrypt env (canonical v)"

definition do_decrypt :: "broker_env \<Rightarrow> bytes \<Rightarrow> exn + json" where
  "do_decrypt env c =
     (case Option.bind (fernet_decrypt env c) json_loads of
        Some v \<Rightarrow> Inr v
      | None \<Rightarrow> Inl (err ''encryption_error'' ''stored content cannot be decrypted'' 503))"

definition do_row :: "store \<Rightarrow> string \<Rightarrow> string \<Rightarrow> exn + op_row" where
  "do_row s d op = (case map_of (operations_t s) (d, op) of
     Some r \<Rightarrow> Inr r
   | None \<Rightarrow> Inl (err ''not_found'' ''operation not found'' 404))"

text \<open>Python \<open>key in v\<close> on a decoded value.\<close>

fun py_in :: "string \<Rightarrow> json \<Rightarrow> exn + bool" where
  "py_in k (JObj kvs) = Inr (map_of kvs k \<noteq> None)"
| "py_in k (JList xs) = Inr (JStr k \<in> set xs)"
| "py_in k (JStr s) = Inr (contains k s)"
| "py_in k v = Inl TypeError"

definition error_json :: "op_row \<Rightarrow> json" where
  "error_json r = (case error_code r of
     None \<Rightarrow> JNull
   | Some c \<Rightarrow> if c = [] then JNull else JObj [(''code'', JStr c), (''message'', jopt (error_message r))])"

text \<open>The pair \<open>(result, error)\<close> that \<open>_snapshot\<close> shows at time \<open>now\<close>.\<close>

definition snapshot_result :: "broker_env \<Rightarrow> time \<Rightarrow> op_row \<Rightarrow> exn + json \<times> json" where
  "snapshot_result env now r =
     (let expired = (JNull, JObj [(''code'', JStr ''result_expired''),
                                  (''message'', JStr ''result retention period has expired'')])
      in case (result_cipher r, result_expires_at r) of
           (Some c, None) \<Rightarrow> Inl TypeError
         | (Some c, Some x) \<Rightarrow>
             (if now < x then
                bind_r (do_decrypt env c) (\<lambda>v.
                  if error_json r = JNull then Inr (v, JNull)
                  else bind_r (py_in ''_gateway_error_details'' v) (\<lambda>has.
                    if has \<and> \<not> is_obj v then Inl TypeError
                    else if has then Inr (JNull, jput ''details'' (jget v ''_gateway_error_details'') (error_json r))
                    else Inr (v, error_json r)))
              else Inr expired)
         | (None, Some x) \<Rightarrow> Inr (if x \<le> now then expired else (JNull, error_json r))
         | (None, None) \<Rightarrow> Inr (JNull, error_json r))"

definition do_snapshot :: "broker_env \<Rightarrow> time \<Rightarrow> string \<Rightarrow> op_row \<Rightarrow> exn + json" where
  "do_snapshot env now op r =
     bind_r (snapshot_result env now r) (\<lambda>(res, er).
       Inr (JObj [(''operation_id'', JStr op), (''flow_id'', JStr (flow_id r)),
         (''state'', JStr (state_text (state r))), (''result_id'', jopt (result_id r)),
         (''result'', res), (''error'', er), (''remote_task_id'', jopt (remote_task_id r)),
         (''created_at'', JStr (iso (created_at r))), (''updated_at'', JStr (iso (updated_at r)))]))"

definition do_event :: "broker_env \<Rightarrow> time \<Rightarrow> string \<Rightarrow> string \<Rightarrow> store \<Rightarrow> exn + json \<times> store" where
  "do_event env now d op s =
     bind_r (do_row s d op) (\<lambda>r.
     bind_r (do_snapshot env now op r) (\<lambda>snap.
       case map_of (devices_t s) d of
         None \<Rightarrow> Inl AssertionError
       | Some dev \<Rightarrow>
           let n = dev_sequence dev + 1;
               s1 = s\<lparr>devices_t := update_row d (\<lambda>v. v\<lparr>dev_sequence := n\<rparr>) (devices_t s)\<rparr>
           in bind_r (insert_row (d, n)
                \<lparr>e_cipher = do_encrypt env snap,
                 e_expires_at = now + seconds (min (event_ttl_seconds (settings env)) (result_ttl_seconds (settings env)))\<rparr>
                (events_t s1)) (\<lambda>ev. Inr (snap, s1\<lparr>events_t := ev\<rparr>))))"

definition set_op :: "op_key \<Rightarrow> (op_row \<Rightarrow> op_row) \<Rightarrow> store \<Rightarrow> store" where
  "set_op k f s = s\<lparr>operations_t := update_row k f (operations_t s)\<rparr>"

text \<open>\<open>_finish\<close>: the only place an operation becomes terminal. A final row is returned as it is.\<close>

definition finish_row :: "broker_env \<Rightarrow> time \<Rightarrow> string \<Rightarrow> op_state \<Rightarrow> json option \<Rightarrow> string option \<Rightarrow> string option
    \<Rightarrow> op_row \<Rightarrow> op_row" where
  "finish_row env now rid st res c m r = r\<lparr>state := st,
     result_id := (case result_id r of Some x \<Rightarrow> Some x | None \<Rightarrow> Some rid),
     result_cipher := map_option (do_encrypt env) res,
     result_expires_at := (if res = None then None else Some (now + seconds (result_ttl_seconds (settings env)))),
     error_code := c, error_message := m, updated_at := now\<rparr>"

definition do_finish :: "broker_env \<Rightarrow> time \<Rightarrow> string \<Rightarrow> string \<Rightarrow> string \<Rightarrow> op_state \<Rightarrow> json option
    \<Rightarrow> string option \<Rightarrow> string option \<Rightarrow> store \<Rightarrow> exn + json \<times> store" where
  "do_finish env now rid d op st res c m s =
     bind_r (do_row s d op) (\<lambda>r.
       if state r \<in> FINAL then bind_r (do_snapshot env now op r) (\<lambda>snap. Inr (snap, s))
       else
         let s1 = set_op (d, op) (finish_row env now rid st res c m) s;
             s2 = s1\<lparr>outbox_t := update_row (d, op) (\<lambda>b. b\<lparr>b_state := Done\<rparr>) (outbox_t s1),
                     payloads_t := delete_where (\<lambda>k _. k = (d, op)) (payloads_t s1)\<rparr>
         in do_event env now d op s2)"

definition do_descriptor :: "string \<Rightarrow> artifact_row \<Rightarrow> json" where
  "do_descriptor aid r = JObj [(''artifact_id'', JStr aid), (''sha256'', JStr (a_sha256 r)),
     (''size'', JInt (a_size r)), (''content_type'', JStr (a_content_type r)),
     (''expires_at'', JStr (iso (a_expires_at r)))]"

definition do_artifact :: "broker_env \<Rightarrow> time \<Rightarrow> string \<Rightarrow> string \<Rightarrow> store \<Rightarrow> exn + json \<times> bytes" where
  "do_artifact env now d aid s =
     (case map_of (artifacts_t s) (d, aid) of
        None \<Rightarrow> Inl (err ''not_found'' ''artifact not found or expired'' 404)
      | Some r \<Rightarrow>
          if a_expires_at r \<le> now then Inl (err ''not_found'' ''artifact not found or expired'' 404)
          else (case fernet_decrypt env (a_cipher r) of
             None \<Rightarrow> Inl (err ''encryption_error'' ''stored artifact cannot be decrypted'' 503)
           | Some content \<Rightarrow>
               if int (length content) \<noteq> a_size r \<or> sha256 env content \<noteq> a_sha256 r
               then Inl (err ''artifact_corrupt'' ''stored artifact integrity check failed'' 503)
               else Inr (do_descriptor aid r, content)))"

definition expired_seqs :: "time \<Rightarrow> string \<Rightarrow> store \<Rightarrow> int list" where
  "expired_seqs now d s =
     map (\<lambda>(k, v). snd k) (select_where (\<lambda>k v. fst k = d \<and> e_expires_at v \<le> now) (events_t s))"

definition do_purge_events :: "time \<Rightarrow> string \<Rightarrow> store \<Rightarrow> store" where
  "do_purge_events now d s =
     (case expired_seqs now d s of
        [] \<Rightarrow> s
      | x # xs \<Rightarrow>
          let n = fold max xs x
          in s\<lparr>events_t := delete_where (\<lambda>k v. fst k = d \<and> snd k \<le> n) (events_t s),
               devices_t := update_row d (\<lambda>v. v\<lparr>dev_floor := max (dev_floor v) n\<rparr>) (devices_t s)\<rparr>)"

section \<open>Admission\<close>

definition pending_count :: "string \<Rightarrow> store \<Rightarrow> int" where
  "pending_count d s = int (length (select_where
     (\<lambda>k r. fst k = d \<and> state r \<in> {Accepted, Running, OutcomeUnknown}) (operations_t s)))"

definition media_type_of :: "string \<Rightarrow> string" where
  "media_type_of ct = lower (strip (before_char (CHR '';'') ct))"

fun input_bytes :: "broker_env \<Rightarrow> time \<Rightarrow> string \<Rightarrow> store \<Rightarrow> string list \<Rightarrow> int \<Rightarrow> exn + int" where
  "input_bytes env now d s [] acc = Inr acc"
| "input_bytes env now d s (a # as) acc =
     bind_r (do_artifact env now d a s) (\<lambda>(desc, content).
       if (case jget desc ''content_type'' of JStr ct \<Rightarrow> media_type_of ct \<noteq> ''text/plain'' | _ \<Rightarrow> True)
       then Inl (err ''unsupported_artifact'' ''Hermes operation inputs support UTF-8 text/plain only'' 422)
       else if \<not> utf8_valid content
       then Inl (err ''unsupported_artifact'' ''input text artifact must contain valid UTF-8'' 422)
       else input_bytes env now d s as (acc + int (length content)))"

definition new_op_row :: "time \<Rightarrow> string \<Rightarrow> string \<Rightarrow> op_row" where
  "new_op_row now flow dig = \<lparr>flow_id = flow, digest = dig, state = Accepted, result_id = None,
     result_cipher = None, result_expires_at = None, error_code = None, error_message = None,
     remote_task_id = None, polled_at = None, created_at = now, updated_at = now,
     cancel_claimed = False, cancel_requested = False\<rparr>"

definition accept :: "broker_env \<Rightarrow> time \<Rightarrow> string \<Rightarrow> op_request \<Rightarrow> store \<Rightarrow> exn + (json \<times> bool) \<times> store" where
  "accept env now d req s =
     (let dig = sha256 env (canonical (request_json req)); op = r_operation_id req; s1 = do_device d s in
      case map_of (operations_t s1) (d, op) of
        Some prev \<Rightarrow>
          if digest prev \<noteq> dig then Inl (err ''id_conflict'' ''operation ID already has a different request'' 409)
          else bind_r (do_snapshot env now op prev) (\<lambda>snap. Inr ((snap, False), s1))
      | None \<Rightarrow>
          bind_r (raise_if (pending_count d s1 \<ge> max_pending_per_device (settings env))
                    (err ''admission_full'' ''device pending operation limit reached'' 429)) (\<lambda>_.
          bind_r (raise_if (length (remdups (r_artifact_ids req)) \<noteq> length (r_artifact_ids req))
                    (err ''invalid_artifacts'' ''duplicate input artifact IDs are not allowed'' 400)) (\<lambda>_.
          bind_r (input_bytes env now d s1 (r_artifact_ids req) (int (length (r_prompt req)))) (\<lambda>size_sum.
          bind_r (raise_if (size_sum > max_artifact_bytes (settings env))
                    (err ''artifacts_too_large'' ''combined prompt and input artifacts exceed configured size limit'' 413)) (\<lambda>_.
          bind_r (insert_row (d, op) (new_op_row now (r_flow_id req) dig) (operations_t s1)) (\<lambda>ops.
          bind_r (insert_row (d, op) \<lparr>p_cipher = do_encrypt env (request_json req),
                    p_expires_at = now + seconds (payload_ttl_seconds (settings env))\<rparr> (payloads_t s1)) (\<lambda>pay.
          bind_r (insert_row (d, op) \<lparr>b_state = Pending, claimed_at = None\<rparr> (outbox_t s1)) (\<lambda>box.
          bind_r (do_event env now d op (s1\<lparr>operations_t := ops, payloads_t := pay, outbox_t := box\<rparr>))
            (\<lambda>(snap, s2). Inr ((snap, True), s2))))))))))"

definition get_op :: "broker_env \<Rightarrow> time \<Rightarrow> string \<Rightarrow> string \<Rightarrow> store \<Rightarrow> exn + json" where
  "get_op env now d op s = bind_r (do_row s d op) (do_snapshot env now op)"

section \<open>Dispatch\<close>

text \<open>\<open>pg_try_advisory_lock\<close> answers \<open>ok\<close>.\<close>

definition acquire_dispatcher :: "bool \<Rightarrow> store \<Rightarrow> exn + store" where
  "acquire_dispatcher ok s =
     (if \<not> ok then Inl (err ''dispatcher_active'' ''another broker dispatcher owns this ledger'' 503)
      else Inr (s\<lparr>is_dispatcher := True\<rparr>))"

definition flow_active :: "store \<Rightarrow> string \<Rightarrow> string \<Rightarrow> bool" where
  "flow_active s d fl = list_ex (\<lambda>(k, r). fst k = d \<and> flow_id r = fl \<and> state r \<in> {Running, OutcomeUnknown})
     (operations_t s)"

definition claim_candidates :: "store \<Rightarrow> (op_key \<times> op_row) list" where
  "claim_candidates s = sort_key (\<lambda>(k, r). (created_at r, snd k)) (select_where (\<lambda>k r.
     (case map_of (outbox_t s) k of Some b \<Rightarrow> b_state b = Pending | None \<Rightarrow> False)
     \<and> state r = Accepted \<and> \<not> flow_active s (fst k) (flow_id r)) (operations_t s))"

record claim_t =
  cl_device :: string
  cl_request :: json
  cl_attachments :: "(json \<times> bytes) list"

fun jstrings :: "json \<Rightarrow> exn + string list" where
  "jstrings (JList xs) = map_r (\<lambda>x. case x of JStr t \<Rightarrow> Inr t | _ \<Rightarrow> Inl TypeError) xs"
| "jstrings v = Inl TypeError"

definition claim :: "broker_env \<Rightarrow> time \<Rightarrow> string \<Rightarrow> store \<Rightarrow> exn + claim_t option \<times> store" where
  "claim env now rid s =
     (if \<not> is_dispatcher s then Inl dispatcher_required
      else case claim_candidates s of
        [] \<Rightarrow> Inr (None, s)
      | ((d, op), _) # _ \<Rightarrow>
          let s1 = do_device d s in
          bind_r (do_row s1 d op) (\<lambda>r.
            if state r \<noteq> Accepted then Inr (None, s1)
            else case map_of (payloads_t s1) (d, op) of
              None \<Rightarrow> bind_r (do_finish env now rid d op Failed None (Some ''payload_expired'')
                        (Some ''dispatch payload expired'') s1) (\<lambda>(_, s2). Inr (None, s2))
            | Some p \<Rightarrow>
                if p_expires_at p \<le> now
                then bind_r (do_finish env now rid d op Failed None (Some ''payload_expired'')
                        (Some ''dispatch payload expired'') s1) (\<lambda>(_, s2). Inr (None, s2))
                else
                  bind_r (do_decrypt env (p_cipher p)) (\<lambda>req.
                  bind_r (if jhas req ''artifact_ids'' then jstrings (jget req ''artifact_ids'')
                          else Inl (KeyError ''artifact_ids'')) (\<lambda>aids.
                    case map_r (\<lambda>a. do_artifact env now d a s1) aids of
                      Inl (BrokerError _ _ _ _) \<Rightarrow>
                        bind_r (do_finish env now rid d op Failed None (Some ''artifact_expired'')
                          (Some ''input artifact unavailable'') s1) (\<lambda>(_, s2). Inr (None, s2))
                    | Inl e \<Rightarrow> Inl e
                    | Inr atts \<Rightarrow>
                        let s2 = s1\<lparr>outbox_t := update_row (d, op) (\<lambda>b. b\<lparr>b_state := Claimed, claimed_at := Some now\<rparr>)
                                      (outbox_t s1)\<rparr>;
                            s3 = set_op (d, op) (\<lambda>q. q\<lparr>state := Running, updated_at := now\<rparr>) s2
                        in bind_r (do_event env now d op s3) (\<lambda>(_, s4).
                             Inr (Some \<lparr>cl_device = d, cl_request = req, cl_attachments = atts\<rparr>, s4))))))"

definition finish :: "broker_env \<Rightarrow> time \<Rightarrow> string \<Rightarrow> string \<Rightarrow> string \<Rightarrow> op_state \<Rightarrow> json option
    \<Rightarrow> string option \<Rightarrow> string option \<Rightarrow> store \<Rightarrow> exn + json \<times> store" where
  "finish env now rid d op st res c m s =
     (if st \<notin> TERMINAL then Inl (ValueError ''invalid terminal state'')
      else if (case res of Some v \<Rightarrow> int (length (canonical v)) > max_result_bytes (settings env) | None \<Rightarrow> False)
      then do_finish env now rid d op Failed None (Some ''result_too_large'')
             (Some ''peer result exceeds configured limit'') (do_device d s)
      else do_finish env now rid d op st res c m (do_device d s))"

definition save_handle :: "broker_env \<Rightarrow> time \<Rightarrow> string \<Rightarrow> string \<Rightarrow> string \<Rightarrow> store \<Rightarrow> exn + store" where
  "save_handle env now d op h s =
     (if h = [] \<or> py_len h > 512
      then Inl (err ''invalid_peer_handle'' ''peer returned an invalid task handle'' 502)
      else
        let s1 = do_device d s in
        bind_r (do_row s1 d op) (\<lambda>r.
          case remote_task_id r of
            Some h' \<Rightarrow>
              if h' \<noteq> [] \<and> h' \<noteq> h then Inl (err ''peer_handle_conflict'' ''peer changed task handle'' 502)
              else if h' = h \<or> state r \<in> FINAL then Inr s1
              else bind_r (do_event env now d op (set_op (d, op) (\<lambda>q. q\<lparr>remote_task_id := Some h, updated_at := now\<rparr>) s1))
                     (\<lambda>(_, s2). Inr s2)
          | None \<Rightarrow>
              if state r \<in> FINAL then Inr s1
              else bind_r (do_event env now d op (set_op (d, op) (\<lambda>q. q\<lparr>remote_task_id := Some h, updated_at := now\<rparr>) s1))
                     (\<lambda>(_, s2). Inr s2)))"

fun recover_rows :: "broker_env \<Rightarrow> time \<Rightarrow> (nat \<Rightarrow> string) \<Rightarrow> nat \<Rightarrow> op_key list \<Rightarrow> store \<Rightarrow> exn + store" where
  "recover_rows env now uuid4 i [] s = Inr s"
| "recover_rows env now uuid4 i ((d, op) # ks) s =
     bind_r (do_finish env now (uuid4 i) d op OutcomeUnknown None (Some ''restart_unknown'')
       (Some ''dispatcher restarted after dispatch was claimed; no resend'') (do_device d s))
       (\<lambda>(_, s1). recover_rows env now uuid4 (Suc i) ks s1)"

definition recover :: "broker_env \<Rightarrow> time \<Rightarrow> (nat \<Rightarrow> string) \<Rightarrow> store \<Rightarrow> exn + store" where
  "recover env now uuid4 s =
     (if \<not> is_dispatcher s then Inl dispatcher_required
      else recover_rows env now uuid4 0 (map fst (select_where (\<lambda>_ r. state r = Running) (operations_t s))) s)"

definition reconcilable :: "time \<Rightarrow> store \<Rightarrow> (op_key \<times> string) list \<times> store" where
  "reconcilable now s =
     (let rows = take 20 (sort_key (\<lambda>(k, r). (polled_at r, updated_at r))
            (select_where (\<lambda>_ r. state r \<in> {Running, OutcomeUnknown} \<and> remote_task_id r \<noteq> None) (operations_t s)))
      in (map (\<lambda>(k, r). (k, the (remote_task_id r))) rows,
          s\<lparr>operations_t := fold (\<lambda>(k, _). update_row k (\<lambda>q. q\<lparr>polled_at := Some now\<rparr>)) rows (operations_t s)\<rparr>))"

section \<open>Cancellation\<close>

definition cancel_intent :: "broker_env \<Rightarrow> time \<Rightarrow> string \<Rightarrow> string \<Rightarrow> string \<Rightarrow> store
    \<Rightarrow> exn + (json \<times> string option) \<times> store" where
  "cancel_intent env now rid d op s =
     (let s1 = do_device d s in
      bind_r (do_row s1 d op) (\<lambda>r.
        if state r = Accepted
        then bind_r (do_finish env now rid d op Canceled None None None s1) (\<lambda>(snap, s2). Inr ((snap, None), s2))
        else if state r \<in> FINAL \<or> cancel_requested r
        then bind_r (do_snapshot env now op r) (\<lambda>snap. Inr ((snap, None), s1))
        else bind_r (do_event env now d op (set_op (d, op) (\<lambda>q. q\<lparr>cancel_requested := True,
               error_code := Some ''cancel_unconfirmed'',
               error_message := Some ''cancellation is best effort; underlying execution may continue'',
               updated_at := now\<rparr>) s1))
             (\<lambda>(snap, s2). Inr ((snap, remote_task_id r), s2))))"

definition claim_cancel :: "store \<Rightarrow> exn + (string \<times> string \<times> string) option \<times> store" where
  "claim_cancel s =
     (if \<not> is_dispatcher s then Inl dispatcher_required
      else case sort_key (\<lambda>(k, r). updated_at r) (select_where (\<lambda>_ r. cancel_requested r \<and> \<not> cancel_claimed r
                 \<and> remote_task_id r \<noteq> None \<and> state r \<in> {Running, OutcomeUnknown}) (operations_t s)) of
        [] \<Rightarrow> Inr (None, s)
      | ((d, op), _) # _ \<Rightarrow>
          let s1 = do_device d s in
          bind_r (do_row s1 d op) (\<lambda>r.
            if state r \<in> FINAL then Inr (None, s1)
            else Inr (map_option (\<lambda>h. (d, op, h)) (remote_task_id r),
                      set_op (d, op) (\<lambda>q. q\<lparr>cancel_claimed := True\<rparr>) s1)))"

section \<open>Events, receipts, artifacts, retention\<close>

definition events :: "broker_env \<Rightarrow> time \<Rightarrow> string \<Rightarrow> int \<Rightarrow> nat \<Rightarrow> store \<Rightarrow> exn + (int \<times> json) list \<times> store" where
  "events env now d after limit s =
     (let s1 = do_purge_events now d (do_device d s) in
      case map_of (devices_t s1) d of
        None \<Rightarrow> Inl AssertionError
      | Some dev \<Rightarrow>
          if after < dev_floor dev
          then Inl (BrokerError ''retention_gap'' ''event cursor expired; recover known operations with GET'' 410
                      (Some (JObj [(''resume_after'', JInt (dev_sequence dev))])))
          else if after > dev_sequence dev
          then Inl (err ''invalid_cursor'' ''event cursor is ahead of this device'' 409)
          else bind_r (map_r (\<lambda>(k, v). bind_r (do_decrypt env (e_cipher v)) (\<lambda>j. Inr (snd k, j)))
                 (take limit (sort_key (\<lambda>(k, v). snd k)
                    (select_where (\<lambda>k v. fst k = d \<and> snd k > after) (events_t s1)))))
               (\<lambda>out. Inr (out, s1)))"

definition receipt :: "time \<Rightarrow> string \<Rightarrow> string \<Rightarrow> string \<Rightarrow> string \<Rightarrow> store \<Rightarrow> exn + store" where
  "receipt now d op rid st s =
     (if st \<notin> {''stored'', ''delivered'', ''delivery_outcome_unknown''}
      then Inl (err ''invalid_receipt'' ''invalid receipt status'' 400)
      else
        let s1 = do_device d s in
        bind_r (do_row s1 d op) (\<lambda>r.
          if result_id r \<noteq> Some rid
          then Inl (err ''result_conflict'' ''receipt does not match the operation result'' 409)
          else Inr (s1\<lparr>receipts_t := insert_ignore (d, op, rid, st) now (receipts_t s1)\<rparr>)))"

definition artifact_bytes :: "string \<Rightarrow> store \<Rightarrow> int" where
  "artifact_bytes d s = sum_list (map (\<lambda>(k, v). a_size v) (select_where (\<lambda>k v. fst k = d) (artifacts_t s)))"

definition put_artifact :: "broker_env \<Rightarrow> time \<Rightarrow> string \<Rightarrow> string \<Rightarrow> bytes \<Rightarrow> string \<Rightarrow> string \<Rightarrow> store
    \<Rightarrow> exn + json \<times> store" where
  "put_artifact env now aid d content dig ct s =
     (if int (length content) > max_artifact_bytes (settings env)
      then Inl (err ''artifact_too_large'' ''artifact exceeds configured size limit'' 413)
      else if sha256 env content \<noteq> dig
      then Inl (err ''digest_mismatch'' ''artifact digest does not match bytes'' 422)
      else if py_len ct > 128 \<or> list_ex (\<lambda>c. of_char c < (32 :: nat) \<or> of_char c > (126 :: nat)) ct
      then Inl (err ''invalid_content_type'' ''invalid artifact content type'' 400)
      else
        let s1 = do_device d s;
            s2 = s1\<lparr>artifacts_t := delete_where (\<lambda>k v. fst k = d \<and> a_expires_at v \<le> now) (artifacts_t s1)\<rparr>;
            row = \<lparr>a_sha256 = dig, a_size = int (length content), a_content_type = ct,
                   a_cipher = fernet_encrypt env content,
                   a_expires_at = now + seconds (artifact_ttl_seconds (settings env))\<rparr>
        in if artifact_bytes d s2 + int (length content) > device_quota_bytes (settings env)
           then Inl (err ''artifact_quota'' ''device artifact quota exceeded'' 429)
           else bind_r (insert_row (d, aid) row (artifacts_t s2)) (\<lambda>t.
                  Inr (do_descriptor aid row, s2\<lparr>artifacts_t := t\<rparr>)))"

definition artifact :: "broker_env \<Rightarrow> time \<Rightarrow> string \<Rightarrow> string \<Rightarrow> store \<Rightarrow> exn + json \<times> bytes" where
  "artifact env now d aid s = do_artifact env now d aid s"

definition purge :: "time \<Rightarrow> store \<Rightarrow> store" where
  "purge now s =
     (let s1 = fold (\<lambda>d t. do_purge_events now d (do_device d t)) (sort (map fst (devices_t s))) s
      in s1\<lparr>payloads_t := delete_where (\<lambda>_ p. p_expires_at p \<le> now) (payloads_t s1),
            artifacts_t := delete_where (\<lambda>_ a. a_expires_at a \<le> now) (artifacts_t s1),
            operations_t := update_where (\<lambda>_ r. case result_expires_at r of Some x \<Rightarrow> x \<le> now | None \<Rightarrow> False)
              (\<lambda>r. r\<lparr>result_cipher := None\<rparr>) (operations_t s1)\<rparr>)"

end
