(* ===== verification/Broker_Dispatcher.thy ===== *)
theory Broker_Dispatcher
  imports Broker_Peer
begin

text \<open>
  The dispatcher of \<open>broker.py\<close>: class \<open>BrokerDispatcher\<close> with its three groups of jobs. A coroutine of
  it is a function on a \<open>world\<close>, the ledger and the number of ledger calls made so far; every ledger call
  goes through \<open>call\<close>, which is one \<open>await asyncio.to_thread\<close>. Between two calls other coroutines and
  requests run. What they do to the ledger, the time and identifier a call draws, and whether it is cut
  short by an exception from outside (cancellation, a timeout, a failing database) are given by a
  \<open>schedule\<close>; a ledger call abandoned by cancellation may still take effect in its thread, which is
  then part of what the schedule does later. The peer's answers are arguments. \<open>TimeoutError\<close> is an
  \<open>OSError\<close>, as in Python.
\<close>

section \<open>Ledger calls\<close>

record schedule =
  pause :: "nat \<Rightarrow> store \<Rightarrow> store"
  fault :: "nat \<Rightarrow> exn option"
  now_at :: "nat \<Rightarrow> time"
  fresh :: "nat \<Rightarrow> string"

type_synonym world = "store \<times> nat"
type_synonym 'a prog = "('a, world) coroutine"

definition call :: "schedule \<Rightarrow> (time \<Rightarrow> string \<Rightarrow> store \<Rightarrow> exn + 'a \<times> store) \<Rightarrow> 'a prog" where
  "call sc f = (\<lambda>(s, i).
     let s1 = pause sc i s in
     case fault sc i of
       Some e \<Rightarrow> (Inl e, (s1, Suc i))
     | None \<Rightarrow> (case f (now_at sc i) (fresh sc i) s1 of
          Inl e \<Rightarrow> (Inl e, (s1, Suc i))
        | Inr (x, t) \<Rightarrow> (Inr x, (t, Suc i))))"

definition no_value :: "exn + store \<Rightarrow> exn + unit \<times> store" where
  "no_value r = (case r of Inl e \<Rightarrow> Inl e | Inr t \<Rightarrow> Inr ((), t))"

definition with_store :: "store \<Rightarrow> exn + 'a \<Rightarrow> exn + 'a \<times> store" where
  "with_store s r = (case r of Inl e \<Rightarrow> Inl e | Inr x \<Rightarrow> Inr (x, s))"

section \<open>Observing a task\<close>

text \<open>The final states by name.\<close>

definition final_state :: "string \<Rightarrow> op_state option" where
  "final_state t = (if t = ''completed'' then Some Completed else if t = ''failed'' then Some Failed
     else if t = ''canceled'' then Some Canceled else None)"

definition ends_stream :: "string \<Rightarrow> bool" where
  "ends_stream t \<longleftrightarrow> final_state t \<noteq> None \<or> t = ''rejected'' \<or> t = ''input_required''"

definition save_handle_p :: "broker_env \<Rightarrow> schedule \<Rightarrow> string \<Rightarrow> string \<Rightarrow> string \<Rightarrow> unit prog" where
  "save_handle_p env sc d op h = call sc (\<lambda>now _ s. no_value (save_handle env now d op h s))"

definition get_p :: "broker_env \<Rightarrow> schedule \<Rightarrow> string \<Rightarrow> string \<Rightarrow> json prog" where
  "get_p env sc d op = call sc (\<lambda>now _ s. with_store s (get_op env now d op s))"

definition finish_p :: "broker_env \<Rightarrow> schedule \<Rightarrow> string \<Rightarrow> string \<Rightarrow> op_state \<Rightarrow> json option \<Rightarrow> string option \<Rightarrow> string option \<Rightarrow> unit prog" where
  "finish_p env sc d op st res c m =
     call sc (\<lambda>now rid s. case finish env now rid d op st res c m s of Inl e \<Rightarrow> Inl e | Inr (_, t) \<Rightarrow> Inr ((), t))"

definition put_artifact_p :: "broker_env \<Rightarrow> schedule \<Rightarrow> string \<Rightarrow> bytes \<Rightarrow> string \<Rightarrow> json prog" where
  "put_artifact_p env sc d content ct = call sc (\<lambda>now aid s. put_artifact env now aid d content (sha256 env content) ct s)"

text \<open>One part of an artifact of the finished task: a descriptor if it carries bytes.\<close>

definition part_content :: "broker_env \<Rightarrow> json \<Rightarrow> exn + bytes option" where
  "part_content env part =
     (if \<not> is_obj part then Inr None
      else if jhas part ''url'' then Inl (err ''unsupported_peer_artifact'' ''peer URL artifacts are not supported'' 502)
      else if \<not> jhas part ''raw'' then Inr None
      else case jget part ''raw'' of
        JStr t \<Rightarrow>
          if int (py_len t) > (max_artifact_bytes (settings env) + 2) div 3 * 4
          then Inl (err ''artifact_too_large'' ''peer artifact exceeds configured limit'' 502)
          else (case b64decode t of None \<Rightarrow> Inl bad_encoding | Some x \<Rightarrow> Inr (Some x))
      | _ \<Rightarrow> Inl (err ''artifact_too_large'' ''peer artifact exceeds configured limit'' 502))"

definition media_type :: "json \<Rightarrow> string" where
  "media_type part = py_str (if jhas part ''mediaType'' then jget part ''mediaType'' else JStr ''application/octet-stream'')"

fun store_parts :: "broker_env \<Rightarrow> schedule \<Rightarrow> string \<Rightarrow> json list \<Rightarrow> json list \<Rightarrow> json list prog" where
  "store_parts env sc d [] acc = return_p acc"
| "store_parts env sc d (p # ps) acc =
     (case part_content env p of
        Inl e \<Rightarrow> raise_p e
      | Inr None \<Rightarrow> store_parts env sc d ps acc
      | Inr (Some content) \<Rightarrow>
          bind_p (put_artifact_p env sc d content (media_type p)) (\<lambda>desc. store_parts env sc d ps (acc @ [desc])))"

fun store_artifacts :: "broker_env \<Rightarrow> schedule \<Rightarrow> string \<Rightarrow> json list \<Rightarrow> json list \<Rightarrow> json list prog" where
  "store_artifacts env sc d [] acc = return_p acc"
| "store_artifacts env sc d (a # as) acc =
     (case parts_of a of
        Inl e \<Rightarrow> raise_p e
      | Inr ps \<Rightarrow> bind_p (store_parts env sc d ps acc) (store_artifacts env sc d as))"

definition observe :: "broker_env \<Rightarrow> schedule \<Rightarrow> string \<Rightarrow> string \<Rightarrow> task_result \<Rightarrow> unit prog" where
  "observe env sc d op task =
     bind_p (save_handle_p env sc d op (task_id task)) (\<lambda>_.
       if \<not> ends_stream (task_state task) then return_p ()
       else bind_p (get_p env sc d op) (\<lambda>current.
         if jget current ''state'' \<in> JStr ` {''completed'', ''failed'', ''canceled''} then return_p ()
         else case final_state (task_state task) of
           None \<Rightarrow> finish_p env sc d op Failed (Some (JObj [(''_gateway_error_details'', peer_error_details task)]))
                     (Some (if task_state task = ''input_required'' then ''peer_requires_input'' else ''peer_rejected''))
                     (Some ''peer could not complete the operation'')
         | Some st \<Rightarrow> bind_p (store_artifacts env sc d (artifacts task) []) (\<lambda>ds.
             finish_p env sc d op st (Some (JObj [(''text'', JStr (task_text task)), (''artifacts'', JList ds)])) None None)))"

definition unknown :: "broker_env \<Rightarrow> schedule \<Rightarrow> string \<Rightarrow> string \<Rightarrow> unit prog" where
  "unknown env sc d op = finish_p env sc d op OutcomeUnknown None (Some ''submission_unknown'')
     (Some ''submission may have started; no automatic resend'')"

section \<open>Jobs\<close>

definition artifact_codes :: "string list" where
  "artifact_codes = [''artifact_too_large'', ''artifact_quota'', ''unsupported_peer_artifact'', ''invalid_peer_artifact'']"

text \<open>The handlers of \<open>_submit\<close>, with the value of \<open>terminal_seen\<close>.\<close>

definition submit_failed :: "broker_env \<Rightarrow> schedule \<Rightarrow> string \<Rightarrow> string \<Rightarrow> bool \<Rightarrow> exn \<Rightarrow> unit prog" where
  "submit_failed env sc d op seen e =
     (case e of
        CancelledError \<Rightarrow> bind_p (unknown env sc d op) (\<lambda>_. raise_p CancelledError)
      | PsycopgError _ \<Rightarrow> raise_p e
      | BrokerError c m _ _ \<Rightarrow>
          if seen \<and> (c \<in> set artifact_codes \<or> c = ''result_too_large'')
          then finish_p env sc d op Failed None (Some c) (Some m)
          else unknown env sc d op
      | _ \<Rightarrow> unknown env sc d op)"

text \<open>The results the peer yields and how the stream ends: end of stream, or an exception.\<close>

fun submit_loop :: "broker_env \<Rightarrow> schedule \<Rightarrow> string \<Rightarrow> string \<Rightarrow> bool \<Rightarrow> task_result list \<Rightarrow> exn option \<Rightarrow> unit prog" where
  "submit_loop env sc d op seen [] e =
     (case e of None \<Rightarrow> catch_p (unknown env sc d op) (submit_failed env sc d op seen) | Some x \<Rightarrow> submit_failed env sc d op seen x)"
| "submit_loop env sc d op seen (r # rs) e =
     (if task_id r = [] then submit_loop env sc d op seen rs e
      else
        let seen1 = ends_stream (task_state r) in
        (\<lambda>w. case observe env sc d op r w of
              (Inl x, w1) \<Rightarrow> submit_failed env sc d op seen1 x w1
            | (Inr _, w1) \<Rightarrow> if seen1 then (Inr (), w1) else submit_loop env sc d op seen1 rs e w1))"

definition submit :: "broker_env \<Rightarrow> schedule \<Rightarrow> string \<Rightarrow> string \<Rightarrow> task_result list \<times> exn option \<Rightarrow> unit prog" where
  "submit env sc d op = (\<lambda>(rs, e). submit_loop env sc d op False rs e)"

definition observe_exact :: "broker_env \<Rightarrow> schedule \<Rightarrow> string \<Rightarrow> string \<Rightarrow> string \<Rightarrow> exn + task_result \<Rightarrow> unit prog" where
  "observe_exact env sc d op handle reply =
     (case reply of
        Inl e \<Rightarrow> raise_p e
      | Inr r \<Rightarrow> if task_id r = handle then observe env sc d op r else return_p ())"

definition cancel_job :: "broker_env \<Rightarrow> schedule \<Rightarrow> string \<Rightarrow> string \<Rightarrow> string \<Rightarrow> exn + task_result \<Rightarrow> unit prog" where
  "cancel_job env sc d op handle reply =
     catch_p (observe_exact env sc d op handle reply) (\<lambda>e.
       case e of PsycopgError _ \<Rightarrow> raise_p e | CancelledError \<Rightarrow> raise_p e | _ \<Rightarrow> return_p ())"

definition reconcile_job :: "broker_env \<Rightarrow> schedule \<Rightarrow> string \<Rightarrow> string \<Rightarrow> string \<Rightarrow> exn + task_result \<Rightarrow> unit prog" where
  "reconcile_job env sc d op handle reply =
     catch_p (observe_exact env sc d op handle reply) (\<lambda>e.
       case e of
         BrokerError c m _ _ \<Rightarrow> if c \<in> set artifact_codes then finish_p env sc d op Failed None (Some c) (Some m) else return_p ()
       | PsycopgError _ \<Rightarrow> raise_p e
       | CancelledError \<Rightarrow> raise_p e
       | _ \<Rightarrow> return_p ())"

section \<open>The dispatcher\<close>

text \<open>A job is running, or done with the exception it raised, if any. A started job is known by what it was
  started for: the request, the handle of a cancellation or of a read.\<close>

datatype job = JobRunning | JobDone "exn option"

record dispatcher =
  streams :: "(op_key \<times> job) list"
  reads :: "(op_key \<times> job) list"
  cancel_tasks :: "(op_key \<times> job) list"
  closed :: bool

text \<open>Reaping one group: done jobs leave it in order, up to and including the first that failed.\<close>

fun reap :: "(op_key \<times> job) list \<Rightarrow> (exn + unit) \<times> (op_key \<times> job) list" where
  "reap [] = (Inr (), [])"
| "reap ((k, JobRunning) # js) = (let (r, ks) = reap js in (r, (k, JobRunning) # ks))"
| "reap ((k, JobDone None) # js) = reap js"
| "reap ((k, JobDone (Some e)) # js) = (Inl e, js)"

definition reap_all :: "dispatcher \<Rightarrow> (exn + unit) \<times> dispatcher" where
  "reap_all d =
     (case reap (streams d) of
        (Inl e, js) \<Rightarrow> (Inl e, d\<lparr>streams := js\<rparr>)
      | (Inr _, js) \<Rightarrow> (case reap (reads d) of
          (Inl e, rs) \<Rightarrow> (Inl e, d\<lparr>streams := js, reads := rs\<rparr>)
        | (Inr _, rs) \<Rightarrow> (case reap (cancel_tasks d) of
            (Inl e, cs) \<Rightarrow> (Inl e, d\<lparr>streams := js, reads := rs, cancel_tasks := cs\<rparr>)
          | (Inr _, cs) \<Rightarrow> (Inr (), d\<lparr>streams := js, reads := rs, cancel_tasks := cs\<rparr>))))"

text \<open>The two loops that claim work and start a job for it, for cancellations and for submissions. They stop when
  the group is full or nothing is left to claim; \<open>None\<close> stands for a loop that has not ended within its
  fuel.\<close>

fun fill_loop :: "'a option prog \<Rightarrow> ('a \<Rightarrow> exn + op_key) \<Rightarrow> int \<Rightarrow> nat \<Rightarrow> (op_key \<times> job) list \<Rightarrow> world
    \<Rightarrow> ((exn + unit) \<times> (op_key \<times> job) list \<times> world) option" where
  "fill_loop p key limit fuel js w =
     (if int (length js) \<ge> limit then Some (Inr (), js, w)
      else case fuel of
        0 \<Rightarrow> None
      | Suc n \<Rightarrow>
          (case p w of
             (Inl e, w1) \<Rightarrow> Some (Inl e, js, w1)
           | (Inr None, w1) \<Rightarrow> Some (Inr (), js, w1)
           | (Inr (Some x), w1) \<Rightarrow>
               (case key x of
                  Inl e \<Rightarrow> Some (Inl e, js, w1)
                | Inr k \<Rightarrow> fill_loop p key limit n (AList.update k JobRunning js) w1)))"

declare fill_loop.simps [simp del]

definition cancel_loop :: "schedule \<Rightarrow> int \<Rightarrow> nat \<Rightarrow> (op_key \<times> job) list \<Rightarrow> world \<Rightarrow> ((exn + unit) \<times> (op_key \<times> job) list \<times> world) option" where
  "cancel_loop sc = fill_loop (call sc (\<lambda>_ _ s. claim_cancel s)) (\<lambda>(d, op, h). Inr (d, op))"

text \<open>\<open>claim["operation_id"]\<close> raises if the stored request has none.\<close>

definition job_key :: "claim_t \<Rightarrow> exn + op_key" where
  "job_key c = (case jget (cl_request c) ''operation_id'' of JStr op \<Rightarrow> Inr (cl_device c, op) | _ \<Rightarrow> Inl (KeyError ''operation_id''))"

definition claim_loop :: "broker_env \<Rightarrow> schedule \<Rightarrow> int \<Rightarrow> nat \<Rightarrow> (op_key \<times> job) list \<Rightarrow> world \<Rightarrow> ((exn + unit) \<times> (op_key \<times> job) list \<times> world) option" where
  "claim_loop env sc = fill_loop (call sc (\<lambda>now rid s. claim env now rid s)) job_key"

fun start_reads :: "int \<Rightarrow> op_key list \<Rightarrow> (op_key \<times> string) list \<Rightarrow> (op_key \<times> job) list \<Rightarrow> (op_key \<times> job) list" where
  "start_reads limit busy [] js = js"
| "start_reads limit busy ((k, h) # rows) js =
     (if k \<in> set busy \<or> map_of js k \<noteq> None then start_reads limit busy rows js
      else let js1 = AList.update k JobRunning js in
        if int (length js1) \<ge> limit then js1 else start_reads limit busy rows js1)"

text \<open>\<open>step\<close>: reap, purge, then start cancellations, reads and submissions, each up to the limit. The rows
  to read are asked for only while reads may start.\<close>

definition reads_p :: "schedule \<Rightarrow> int \<Rightarrow> dispatcher \<Rightarrow> (op_key \<times> string) list prog" where
  "reads_p sc limit d = (if int (length (reads d)) < limit then call sc (\<lambda>now _ s. Inr (reconcilable now s)) else return_p [])"

definition dispatch_step :: "broker_env \<Rightarrow> schedule \<Rightarrow> dispatcher \<Rightarrow> world \<Rightarrow> ((exn + unit) \<times> dispatcher \<times> world) option" where
  "dispatch_step env sc d0 w0 =
     (let limit = max_concurrent_streams (settings env); fuel = nat limit in
      if closed d0 then Some (Inl (RuntimeError ''dispatcher is closed''), d0, w0)
      else case reap_all d0 of
        (Inl e, d1) \<Rightarrow> Some (Inl e, d1, w0)
      | (Inr _, d1) \<Rightarrow>
          (case call sc (\<lambda>now _ s. Inr ((), purge now s)) w0 of
             (Inl e, w1) \<Rightarrow> Some (Inl e, d1, w1)
           | (Inr _, w1) \<Rightarrow>
               (case cancel_loop sc limit fuel (cancel_tasks d1) w1 of
                  None \<Rightarrow> None
                | Some (Inl e, cs, w2) \<Rightarrow> Some (Inl e, d1\<lparr>cancel_tasks := cs\<rparr>, w2)
                | Some (Inr _, cs, w2) \<Rightarrow>
                    let d2 = d1\<lparr>cancel_tasks := cs\<rparr> in
                    (case reads_p sc limit d2 w2 of
                       (Inl e, w3) \<Rightarrow> Some (Inl e, d2, w3)
                     | (Inr rows, w3) \<Rightarrow>
                         let d3 = d2\<lparr>reads := start_reads limit (map fst (streams d2) @ map fst (cancel_tasks d2)) rows (reads d2)\<rparr> in
                         (case claim_loop env sc limit fuel (streams d3) w3 of
                            None \<Rightarrow> None
                          | Some (r, js, w4) \<Rightarrow> Some (r, d3\<lparr>streams := js\<rparr>, w4))))))"

text \<open>\<open>aclose\<close>: after every job was canceled, what is still running is marked. The jobs are coroutines of their own: \<open>Dispatcher_Process\<close>
  interleaves them with this one, and a canceled job is one whose next call raises \<open>CancelledError\<close>.\<close>

fun close_streams :: "broker_env \<Rightarrow> schedule \<Rightarrow> op_key list \<Rightarrow> unit prog" where
  "close_streams env sc [] = return_p ()"
| "close_streams env sc ((d, op) # ks) =
     bind_p (get_p env sc d op) (\<lambda>snap.
     bind_p (if jget snap ''state'' = JStr ''running'' then unknown env sc d op else return_p ()) (\<lambda>_.
       close_streams env sc ks))"

definition aclose :: "broker_env \<Rightarrow> schedule \<Rightarrow> dispatcher \<Rightarrow> world \<Rightarrow> (exn + unit) \<times> dispatcher \<times> world" where
  "aclose env sc d w =
     (case close_streams env sc (map fst (streams d)) w of
        (Inl e, w1) \<Rightarrow> (Inl e, d\<lparr>closed := True\<rparr>, w1)
      | (Inr _, w1) \<Rightarrow> (Inr (), \<lparr>streams = [], reads = [], cancel_tasks = [], closed = True\<rparr>, w1))"

text \<open>\<open>run\<close>, cut after \<open>n\<close> turns of its endless loop: take the lock, recover, step until one raises, close.
  While the loop sleeps, \<open>settle\<close> says which jobs are done when it wakes.\<close>

fun dispatch_turns :: "broker_env \<Rightarrow> schedule \<Rightarrow> (nat \<Rightarrow> dispatcher \<Rightarrow> dispatcher) \<Rightarrow> nat \<Rightarrow> dispatcher \<Rightarrow> world
    \<Rightarrow> ((exn + unit) \<times> dispatcher \<times> world) option" where
  "dispatch_turns env sc settle 0 d w = Some (Inr (), d, w)"
| "dispatch_turns env sc settle (Suc n) d w =
     (case dispatch_step env sc d w of
        None \<Rightarrow> None
      | Some (Inl e, d1, w1) \<Rightarrow> Some (Inl e, d1, w1)
      | Some (Inr _, d1, w1) \<Rightarrow> dispatch_turns env sc settle n (settle n d1) w1)"

definition new_dispatcher :: dispatcher where
  "new_dispatcher = \<lparr>streams = [], reads = [], cancel_tasks = [], closed = False\<rparr>"

definition start_p :: "broker_env \<Rightarrow> schedule \<Rightarrow> bool \<Rightarrow> (nat \<Rightarrow> string) \<Rightarrow> unit prog" where
  "start_p env sc lock uuid4 = bind_p (call sc (\<lambda>_ _ s. no_value (acquire_dispatcher lock s)))
     (\<lambda>_. call sc (\<lambda>now _ s. no_value (recover env now uuid4 s)))"

definition dispatcher_run :: "broker_env \<Rightarrow> schedule \<Rightarrow> (nat \<Rightarrow> dispatcher \<Rightarrow> dispatcher) \<Rightarrow> bool \<Rightarrow> (nat \<Rightarrow> string) \<Rightarrow> nat \<Rightarrow> world
    \<Rightarrow> ((exn + unit) \<times> dispatcher \<times> world) option" where
  "dispatcher_run env sc settle lock uuid4 n w =
     (case start_p env sc lock uuid4 w of
        (Inl e, w1) \<Rightarrow> Some (Inl e, new_dispatcher, w1)
      | (Inr _, w1) \<Rightarrow>
          (case dispatch_turns env sc settle n new_dispatcher w1 of
             None \<Rightarrow> None
           | Some (r, d1, w2) \<Rightarrow>
               (case aclose env sc d1 w2 of (Inl e, d2, w3) \<Rightarrow> Some (Inl e, d2, w3) | (Inr _, d2, w3) \<Rightarrow> Some (r, d2, w3))))"

end
