(* ===== verification/Broker_Ledger.thy ===== *)
theory Broker_Ledger
  imports Broker_Store
begin

text \<open>
  What the ledger promises. \<open>ledger_move\<close> is the abstract machine of the ledger: fifteen elementary
  moves, each with the guard under which the code makes it. \<open>Broker_Steps\<close> shows that every public
  method of the store is a sequence of such moves; here the moves are shown to keep the ledger
  invariant \<open>ledger_inv\<close> and the monotonicity facts (\<open>row_le\<close>) from which the properties of the
  methods follow.
\<close>

declare split_paired_All [simp del] split_paired_Ex [simp del]

section \<open>Elementary moves\<close>

definition finished :: "broker_env \<Rightarrow> time \<Rightarrow> string \<Rightarrow> op_key \<Rightarrow> op_state \<Rightarrow> json option \<Rightarrow> string option
    \<Rightarrow> string option \<Rightarrow> store \<Rightarrow> store" where
  "finished env now rid k st res c m s =
     (set_op k (finish_row env now rid st res c m) s)
       \<lparr>outbox_t := update_row k (\<lambda>b. b\<lparr>b_state := Done\<rparr>) (outbox_t s),
        payloads_t := delete_where (\<lambda>k' _. k' = k) (payloads_t s)\<rparr>"

definition expire_content :: "time \<Rightarrow> store \<Rightarrow> store" where
  "expire_content now s = s\<lparr>payloads_t := delete_where (\<lambda>_ p. p_expires_at p \<le> now) (payloads_t s),
     artifacts_t := delete_where (\<lambda>_ a. a_expires_at a \<le> now) (artifacts_t s),
     operations_t := update_where (\<lambda>_ r. case result_expires_at r of Some x \<Rightarrow> x \<le> now | None \<Rightarrow> False)
       (\<lambda>r. r\<lparr>result_cipher := None\<rparr>) (operations_t s)\<rparr>"

definition trimmed :: "string \<Rightarrow> int \<Rightarrow> store \<Rightarrow> store" where
  "trimmed d n s = s\<lparr>events_t := delete_where (\<lambda>k v. fst k = d \<and> snd k \<le> n) (events_t s),
     devices_t := update_row d (\<lambda>v. v\<lparr>dev_floor := max (dev_floor v) n\<rparr>) (devices_t s)\<rparr>"

text \<open>The stored payload is the request the digest was taken of.\<close>

definition payload_of :: "broker_env \<Rightarrow> op_key \<Rightarrow> string \<Rightarrow> string \<Rightarrow> bytes \<Rightarrow> bool" where
  "payload_of env k fl dig c \<longleftrightarrow> (\<exists>req. snd k = r_operation_id req \<and> fl = r_flow_id req \<and>
     dig = sha256 env (canonical (request_json req)) \<and> c = do_encrypt env (request_json req))"

inductive ledger_move :: "broker_env \<Rightarrow> store \<Rightarrow> store \<Rightarrow> bool" for env where
  mv_device: "ledger_move env s (do_device d s)"
| mv_event: "map_of (devices_t s) d = Some dev \<Longrightarrow> n = dev_sequence dev + 1 \<Longrightarrow> map_of (events_t s) (d, n) = None \<Longrightarrow>
    ledger_move env s (s\<lparr>devices_t := update_row d (\<lambda>v. v\<lparr>dev_sequence := n\<rparr>) (devices_t s),
                         events_t := events_t s @ [((d, n), e)]\<rparr>)"
| mv_trim: "map_of (events_t s) (d, n) \<noteq> None \<Longrightarrow> ledger_move env s (trimmed d n s)"
| mv_accept: "map_of (operations_t s) k = None \<Longrightarrow> map_of (payloads_t s) k = None \<Longrightarrow> map_of (outbox_t s) k = None \<Longrightarrow>
    map_of (devices_t s) (fst k) \<noteq> None \<Longrightarrow> pending_count (fst k) s < max_pending_per_device (settings env) \<Longrightarrow>
    payload_of env k fl dig (p_cipher p) \<Longrightarrow>
    ledger_move env s (s\<lparr>operations_t := operations_t s @ [(k, new_op_row now fl dig)],
       payloads_t := payloads_t s @ [(k, p)], outbox_t := outbox_t s @ [(k, \<lparr>b_state = Pending, claimed_at = None\<rparr>)]\<rparr>)"
| mv_claim: "map_of (operations_t s) k = Some r \<Longrightarrow> state r = Accepted \<Longrightarrow> \<not> flow_active s (fst k) (flow_id r) \<Longrightarrow>
    ledger_move env s (set_op k (\<lambda>q. q\<lparr>state := Running, updated_at := now\<rparr>)
       (s\<lparr>outbox_t := update_row k (\<lambda>b. b\<lparr>b_state := Claimed, claimed_at := Some now\<rparr>) (outbox_t s)\<rparr>))"
| mv_finish: "map_of (operations_t s) k = Some r \<Longrightarrow> state r \<notin> FINAL \<Longrightarrow> st \<in> TERMINAL \<Longrightarrow>
    (state r = Accepted \<Longrightarrow> st \<in> FINAL) \<Longrightarrow> ledger_move env s (finished env now rid k st res c m s)"
| mv_handle: "map_of (operations_t s) k = Some r \<Longrightarrow> state r \<in> {Running, OutcomeUnknown} \<Longrightarrow>
    remote_task_id r = None \<or> remote_task_id r = Some [] \<Longrightarrow> h \<noteq> [] \<Longrightarrow>
    ledger_move env s (set_op k (\<lambda>q. q\<lparr>remote_task_id := Some h, updated_at := now\<rparr>) s)"
| mv_cancel_request: "map_of (operations_t s) k = Some r \<Longrightarrow> state r \<in> {Running, OutcomeUnknown} \<Longrightarrow> \<not> cancel_requested r \<Longrightarrow>
    ledger_move env s (set_op k (\<lambda>q. q\<lparr>cancel_requested := True, error_code := c, error_message := m, updated_at := now\<rparr>) s)"
| mv_cancel_claim: "map_of (operations_t s) k = Some r \<Longrightarrow> cancel_requested r \<Longrightarrow> \<not> cancel_claimed r \<Longrightarrow> remote_task_id r \<noteq> None \<Longrightarrow>
    state r \<in> {Running, OutcomeUnknown} \<Longrightarrow> ledger_move env s (set_op k (\<lambda>q. q\<lparr>cancel_claimed := True\<rparr>) s)"
| mv_polled: "map_of (operations_t s) k = Some r \<Longrightarrow> state r \<notin> FINAL \<Longrightarrow> ledger_move env s (set_op k (\<lambda>q. q\<lparr>polled_at := Some now\<rparr>) s)"
| mv_expire: "ledger_move env s (expire_content now s)"
| mv_drop_artifacts: "ledger_move env s (s\<lparr>artifacts_t := delete_where p (artifacts_t s)\<rparr>)"
| mv_put_artifact: "map_of (artifacts_t s) k = None \<Longrightarrow> map_of (devices_t s) (fst k) \<noteq> None \<Longrightarrow> 0 \<le> a_size a \<Longrightarrow>
    artifact_bytes (fst k) s + a_size a \<le> device_quota_bytes (settings env) \<Longrightarrow>
    ledger_move env s (s\<lparr>artifacts_t := artifacts_t s @ [(k, a)]\<rparr>)"
| mv_receipt: "map_of (operations_t s) (d, op) = Some r \<Longrightarrow> result_id r = Some rid \<Longrightarrow>
    ledger_move env s (s\<lparr>receipts_t := insert_ignore (d, op, rid, st) now (receipts_t s)\<rparr>)"
| mv_dispatcher: "ledger_move env s (s\<lparr>is_dispatcher := b\<rparr>)"

abbreviation ledger_moves :: "broker_env \<Rightarrow> store \<Rightarrow> store \<Rightarrow> bool" where
  "ledger_moves env \<equiv> (ledger_move env)\<^sup>*\<^sup>*"

section \<open>The ledger invariant\<close>

definition inv_keys :: "store \<Rightarrow> bool" where
  "inv_keys s \<longleftrightarrow> keys_ok (devices_t s) \<and> keys_ok (operations_t s) \<and> keys_ok (payloads_t s) \<and> keys_ok (outbox_t s)
     \<and> keys_ok (events_t s) \<and> keys_ok (artifacts_t s) \<and> keys_ok (receipts_t s)"

text \<open>Foreign keys, and receipts name the result of their operation.\<close>

definition inv_refs :: "store \<Rightarrow> bool" where
  "inv_refs s \<longleftrightarrow>
     fst ` dom (map_of (operations_t s)) \<subseteq> dom (map_of (devices_t s)) \<and>
     dom (map_of (payloads_t s)) \<subseteq> dom (map_of (operations_t s)) \<and>
     dom (map_of (outbox_t s)) = dom (map_of (operations_t s)) \<and>
     fst ` dom (map_of (artifacts_t s)) \<subseteq> dom (map_of (devices_t s)) \<and>
     (\<forall>d op rid st. (d, op, rid, st) \<in> dom (map_of (receipts_t s)) \<longrightarrow>
        (\<exists>r. map_of (operations_t s) (d, op) = Some r \<and> result_id r = Some rid))"

text \<open>The event log of a device holds exactly the sequence numbers above its floor.\<close>

definition inv_log :: "store \<Rightarrow> bool" where
  "inv_log s \<longleftrightarrow>
     (\<forall>d n. map_of (events_t s) (d, n) \<noteq> None \<longleftrightarrow>
        (\<exists>dev. map_of (devices_t s) d = Some dev \<and> dev_floor dev < n \<and> n \<le> dev_sequence dev)) \<and>
     (\<forall>d dev. map_of (devices_t s) d = Some dev \<longrightarrow> 0 \<le> dev_floor dev \<and> dev_floor dev \<le> dev_sequence dev)"

fun outbox_of :: "op_state \<Rightarrow> outbox_state" where
  "outbox_of Accepted = Pending"
| "outbox_of Running = Claimed"
| "outbox_of _ = Done"

definition row_ok :: "op_row \<Rightarrow> bool" where
  "row_ok r \<longleftrightarrow>
     (result_id r \<noteq> None \<longleftrightarrow> state r \<in> TERMINAL) \<and>
     (result_cipher r \<noteq> None \<longrightarrow> result_expires_at r \<noteq> None) \<and>
     (result_expires_at r \<noteq> None \<longrightarrow> state r \<in> TERMINAL) \<and>
     (state r = Accepted \<longrightarrow> remote_task_id r = None \<and> \<not> cancel_requested r \<and> error_code r = None) \<and>
     (\<forall>h. remote_task_id r = Some h \<longrightarrow> h \<noteq> []) \<and>
     (cancel_claimed r \<longrightarrow> cancel_requested r \<and> remote_task_id r \<noteq> None)"

definition inv_rows :: "store \<Rightarrow> bool" where
  "inv_rows s \<longleftrightarrow> (\<forall>k r. map_of (operations_t s) k = Some r \<longrightarrow> row_ok r \<and>
     map_option b_state (map_of (outbox_t s) k) = Some (outbox_of (state r)) \<and>
     (map_of (payloads_t s) k \<noteq> None \<longrightarrow> state r \<in> {Accepted, Running}))"

text \<open>A flow of a device has at most one operation whose outcome is open.\<close>

definition inv_flow :: "store \<Rightarrow> bool" where
  "inv_flow s \<longleftrightarrow> (\<forall>k k' r r'. map_of (operations_t s) k = Some r \<longrightarrow> map_of (operations_t s) k' = Some r' \<longrightarrow>
     fst k = fst k' \<longrightarrow> flow_id r = flow_id r' \<longrightarrow> state r \<in> {Running, OutcomeUnknown} \<longrightarrow>
     state r' \<in> {Running, OutcomeUnknown} \<longrightarrow> k = k')"

definition inv_bounds :: "broker_env \<Rightarrow> store \<Rightarrow> bool" where
  "inv_bounds env s \<longleftrightarrow>
     (\<forall>d. pending_count d s \<le> max_pending_per_device (settings env)) \<and>
     (\<forall>d. artifact_bytes d s \<le> device_quota_bytes (settings env)) \<and>
     (\<forall>k a. map_of (artifacts_t s) k = Some a \<longrightarrow> 0 \<le> a_size a)"

definition inv_payload :: "broker_env \<Rightarrow> store \<Rightarrow> bool" where
  "inv_payload env s \<longleftrightarrow> (\<forall>k p r. map_of (payloads_t s) k = Some p \<longrightarrow> map_of (operations_t s) k = Some r \<longrightarrow>
     payload_of env k (flow_id r) (digest r) (p_cipher p))"

definition ledger_inv :: "broker_env \<Rightarrow> store \<Rightarrow> bool" where
  "ledger_inv env s \<longleftrightarrow> inv_keys s \<and> inv_refs s \<and> inv_log s \<and> inv_rows s \<and> inv_flow s \<and> inv_bounds env s \<and> inv_payload env s"

lemmas move_defs = do_device_def set_op_def finished_def expire_content_def trimmed_def

lemmas FINAL_simps = FINAL_def TERMINAL_def

lemma outbox_of_TERMINAL: "st \<in> TERMINAL \<Longrightarrow> outbox_of st = Done"
  by (auto simp: FINAL_simps)

lemma op_state_cases: "st \<in> FINAL \<or> st = Accepted \<or> st \<in> {Running, OutcomeUnknown}"
  by (cases st) (auto simp: FINAL_def)

lemma snoc_upd: "map_of t k = None \<Longrightarrow> map_of (t @ [(k, v)]) = (map_of t)(k \<mapsto> v)"
  by (auto simp: fun_eq_iff map_of_snoc simp del: map_of_append split: option.splits)

lemma inv_keys_move: "ledger_move env s s' \<Longrightarrow> inv_keys s \<Longrightarrow> inv_keys s'"
  by (induction rule: ledger_move.induct) (auto simp: inv_keys_def move_defs)

lemma finish_row_keeps:
  "flow_id (finish_row env now rid st res c m r) = flow_id r"
  "state (finish_row env now rid st res c m r) = st"
  "remote_task_id (finish_row env now rid st res c m r) = remote_task_id r"
  "result_id r = Some x \<Longrightarrow> result_id (finish_row env now rid st res c m r) = Some x"
  "result_id (finish_row env now rid st res c m r) \<noteq> None"
  by (auto simp: finish_row_def split: option.splits)

lemma finished_views:
  "map_of (operations_t (finished env now rid k st res c m s)) k' =
     (if k' = k then map_option (finish_row env now rid st res c m) (map_of (operations_t s) k)
      else map_of (operations_t s) k')"
  "map_of (outbox_t (finished env now rid k st res c m s)) k' =
     (if k' = k then map_option (\<lambda>b. b\<lparr>b_state := Done\<rparr>) (map_of (outbox_t s) k) else map_of (outbox_t s) k')"
  "map_of (payloads_t (finished env now rid k st res c m s)) k' =
     (if k' = k then None else map_of (payloads_t s) k')"
  "devices_t (finished env now rid k st res c m s) = devices_t s"
  "events_t (finished env now rid k st res c m s) = events_t s"
  "artifacts_t (finished env now rid k st res c m s) = artifacts_t s"
  "receipts_t (finished env now rid k st res c m s) = receipts_t s"
  by (simp_all add: finished_def set_op_def map_of_update_row)

lemma set_op_views:
  "map_of (operations_t (set_op k f s)) k' =
     (if k' = k then map_option f (map_of (operations_t s) k) else map_of (operations_t s) k')"
  "devices_t (set_op k f s) = devices_t s" "payloads_t (set_op k f s) = payloads_t s"
  "outbox_t (set_op k f s) = outbox_t s" "events_t (set_op k f s) = events_t s"
  "artifacts_t (set_op k f s) = artifacts_t s" "receipts_t (set_op k f s) = receipts_t s"
  by (simp_all add: set_op_def map_of_update_row)

lemma trimmed_views:
  "inv_keys s \<Longrightarrow> map_of (events_t (trimmed d n s)) (d', m) =
     (if d' = d \<and> m \<le> n then None else map_of (events_t s) (d', m))"
  "map_of (devices_t (trimmed d n s)) d' =
     (if d' = d then map_option (\<lambda>v. v\<lparr>dev_floor := max (dev_floor v) n\<rparr>) (map_of (devices_t s) d)
      else map_of (devices_t s) d')"
  "operations_t (trimmed d n s) = operations_t s" "payloads_t (trimmed d n s) = payloads_t s"
  "outbox_t (trimmed d n s) = outbox_t s" "artifacts_t (trimmed d n s) = artifacts_t s"
  "receipts_t (trimmed d n s) = receipts_t s"
  by (auto simp: trimmed_def map_of_update_row map_of_delete_where inv_keys_def split: option.splits)

definition drop_cipher :: "time \<Rightarrow> op_row \<Rightarrow> op_row" where
  "drop_cipher now r = (if (case result_expires_at r of Some x \<Rightarrow> x \<le> now | None \<Rightarrow> False)
     then r\<lparr>result_cipher := None\<rparr> else r)"

lemma drop_cipher_keeps [simp]:
  "state (drop_cipher now r) = state r" "result_id (drop_cipher now r) = result_id r"
  "flow_id (drop_cipher now r) = flow_id r" "digest (drop_cipher now r) = digest r"
  "remote_task_id (drop_cipher now r) = remote_task_id r" "error_code (drop_cipher now r) = error_code r"
  "error_message (drop_cipher now r) = error_message r" "updated_at (drop_cipher now r) = updated_at r"
  "created_at (drop_cipher now r) = created_at r" "result_expires_at (drop_cipher now r) = result_expires_at r"
  "cancel_requested (drop_cipher now r) = cancel_requested r" "cancel_claimed (drop_cipher now r) = cancel_claimed r"
  by (simp_all add: drop_cipher_def)

lemma expire_views:
  "map_of (operations_t (expire_content now s)) k = map_option (drop_cipher now) (map_of (operations_t s) k)"
  "devices_t (expire_content now s) = devices_t s" "outbox_t (expire_content now s) = outbox_t s"
  "events_t (expire_content now s) = events_t s" "receipts_t (expire_content now s) = receipts_t s"
  "inv_keys s \<Longrightarrow> map_of (payloads_t (expire_content now s)) k = Some p \<Longrightarrow> map_of (payloads_t s) k = Some p"
  "inv_keys s \<Longrightarrow> map_of (artifacts_t (expire_content now s)) k = Some a \<Longrightarrow> map_of (artifacts_t s) k = Some a"
  by (auto simp: expire_content_def map_of_update_where drop_cipher_def inv_keys_def
      dest: map_of_delete_where_SomeD intro!: map_option_cong)

lemma device_views:
  "map_of (devices_t (do_device d s)) d' =
     (if d' = d \<and> map_of (devices_t s) d = None then Some \<lparr>dev_sequence = 0, dev_floor = 0\<rparr> else map_of (devices_t s) d')"
  "operations_t (do_device d s) = operations_t s" "payloads_t (do_device d s) = payloads_t s"
  "outbox_t (do_device d s) = outbox_t s" "events_t (do_device d s) = events_t s"
  "artifacts_t (do_device d s) = artifacts_t s" "receipts_t (do_device d s) = receipts_t s"
  "is_dispatcher (do_device d s) = is_dispatcher s"
  by (simp_all add: do_device_def map_of_insert_ignore)

lemmas views = finished_views set_op_views trimmed_views expire_views device_views snoc_upd
  map_of_update_row map_of_insert_ignore

lemma move_doms:
  "dom (map_of (operations_t (finished env now rid k st res c m s))) = dom (map_of (operations_t s))"
  "dom (map_of (outbox_t (finished env now rid k st res c m s))) = dom (map_of (outbox_t s))"
  "dom (map_of (payloads_t (finished env now rid k st res c m s))) \<subseteq> dom (map_of (payloads_t s))"
  "dom (map_of (operations_t (set_op k f s))) = dom (map_of (operations_t s))"
  "dom (map_of (devices_t (trimmed d n s))) = dom (map_of (devices_t s))"
  "dom (map_of (devices_t (do_device d s))) = insert d (dom (map_of (devices_t s)))"
  "dom (map_of (operations_t (expire_content now s))) = dom (map_of (operations_t s))"
  "dom (map_of (payloads_t (expire_content now s))) \<subseteq> dom (map_of (payloads_t s))"
  "dom (map_of (artifacts_t (expire_content now s))) \<subseteq> dom (map_of (artifacts_t s))"
  by (simp_all add: finished_def set_op_def trimmed_def do_device_def expire_content_def dom_delete_where)

text \<open>A move that keeps the keys of every table and every result identifier keeps the references.\<close>

lemma inv_refs_mono:
  assumes "inv_refs s"
    and "dom (map_of (devices_t s)) \<subseteq> dom (map_of (devices_t t))"
    and "dom (map_of (operations_t t)) = dom (map_of (operations_t s))"
    and "dom (map_of (payloads_t t)) \<subseteq> dom (map_of (payloads_t s))"
    and "dom (map_of (outbox_t t)) = dom (map_of (outbox_t s))"
    and "dom (map_of (artifacts_t t)) \<subseteq> dom (map_of (artifacts_t s))"
    and "dom (map_of (receipts_t t)) \<subseteq> dom (map_of (receipts_t s))"
    and "\<And>k r x. map_of (operations_t s) k = Some r \<Longrightarrow> result_id r = Some x \<Longrightarrow>
           \<exists>r'. map_of (operations_t t) k = Some r' \<and> result_id r' = Some x"
  shows "inv_refs t"
proof -
  note old = assms(1) [unfolded inv_refs_def]
  have ops: "fst ` dom (map_of (operations_t t)) \<subseteq> dom (map_of (devices_t t))"
    using old assms(2) unfolding assms(3) by (elim conjE) (rule subset_trans)
  have pay: "dom (map_of (payloads_t t)) \<subseteq> dom (map_of (operations_t t))"
    using old assms(4) unfolding assms(3) by (elim conjE) (rule subset_trans)
  have box: "dom (map_of (outbox_t t)) = dom (map_of (operations_t t))"
    using old unfolding assms(3,5) by (elim conjE)
  have art: "fst ` dom (map_of (artifacts_t t)) \<subseteq> dom (map_of (devices_t t))"
  proof -
    have "fst ` dom (map_of (artifacts_t t)) \<subseteq> fst ` dom (map_of (artifacts_t s))" using assms(6) by (rule image_mono)
    also have "\<dots> \<subseteq> dom (map_of (devices_t s))" using old by (elim conjE)
    also have "\<dots> \<subseteq> dom (map_of (devices_t t))" by (rule assms(2))
    finally show ?thesis .
  qed
  have rec: "\<exists>r'. map_of (operations_t t) (d, op) = Some r' \<and> result_id r' = Some rid"
    if "(d, op, rid, st) \<in> dom (map_of (receipts_t t))" for d op rid st
  proof -
    from that assms(7) have "(d, op, rid, st) \<in> dom (map_of (receipts_t s))" by (rule_tac subsetD)
    with old have "\<exists>r. map_of (operations_t s) (d, op) = Some r \<and> result_id r = Some rid"
      by (elim conjE allE impE)
    then show ?thesis using assms(8) by (elim exE conjE)
  qed
  from ops pay box art rec show ?thesis
    unfolding inv_refs_def by (intro conjI allI impI)
qed

lemma inv_refs_move:
  "ledger_move env s s' \<Longrightarrow> inv_keys s \<Longrightarrow> inv_refs s \<Longrightarrow> inv_refs s'"
proof (induction rule: ledger_move.induct)
  case (mv_finish s k r st now rid res c m)
  show ?case
    by (rule inv_refs_mono [OF mv_finish.prems(2)])
      (auto simp: move_doms finished_views finish_row_keeps split: if_splits)
next
  case (mv_expire s now)
  show ?case
    by (rule inv_refs_mono [OF mv_expire.prems(2)]) (auto simp: move_doms expire_views)
next
  case (mv_accept s k fl dig p now)
  let ?t = "s\<lparr>operations_t := operations_t s @ [(k, new_op_row now fl dig)],
       payloads_t := payloads_t s @ [(k, p)], outbox_t := outbox_t s @ [(k, \<lparr>b_state = Pending, claimed_at = None\<rparr>)]\<rparr>"
  note old = mv_accept.prems(2) [unfolded inv_refs_def]
  have doms: "dom (map_of (operations_t ?t)) = insert k (dom (map_of (operations_t s)))"
    "dom (map_of (payloads_t ?t)) = insert k (dom (map_of (payloads_t s)))"
    "dom (map_of (outbox_t ?t)) = insert k (dom (map_of (outbox_t s)))"
    using mv_accept.hyps by (simp_all add: snoc_upd del: map_of_append)
  have rec: "\<exists>r. map_of (operations_t ?t) (d, op) = Some r \<and> result_id r = Some rid"
    if "(d, op, rid, st) \<in> dom (map_of (receipts_t ?t))" for d op rid st
  proof -
    have "(d, op, rid, st) \<in> dom (map_of (receipts_t s))" using that by simp
    with old obtain r where "map_of (operations_t s) (d, op) = Some r" "result_id r = Some rid" by metis
    then show ?thesis using mv_accept.hyps(1) by (auto simp: snoc_upd simp del: map_of_append)
  qed
  have "fst k \<in> dom (map_of (devices_t s))" using mv_accept.hyps(4) by blast
  moreover have "dom (map_of (payloads_t s)) \<subseteq> insert k (dom (map_of (operations_t s)))"
    using old by (elim conjE) (rule subset_insertI2)
  ultimately show ?case using old rec unfolding inv_refs_def doms
    by (elim conjE, intro conjI allI impI) (simp_all only: doms image_insert insert_subset insert_mono, simp_all)
next
  case (mv_receipt s d op r rid st now)
  then show ?case by (auto simp: inv_refs_def)
next
  case (mv_put_artifact s k a)
  then show ?case by (auto simp: inv_refs_def snoc_upd simp del: map_of_append)
next
  case (mv_drop_artifacts s p)
  show ?case
    by (rule inv_refs_mono [OF mv_drop_artifacts.prems(2)]) (simp_all add: dom_delete_where)
next
  case (mv_trim s d n)
  show ?case
    by (rule inv_refs_mono [OF mv_trim.prems(2)]) (simp_all add: move_doms trimmed_views(3-7))
next
  case (mv_device s d)
  show ?case
    by (rule inv_refs_mono [OF mv_device.prems(2)]) (auto simp: move_doms device_views(2-7))
next
  case (mv_event s d dev n e)
  show ?case
    by (rule inv_refs_mono [OF mv_event.prems(2)]) simp_all
next
  case (mv_claim s k r now)
  show ?case
    by (rule inv_refs_mono [OF mv_claim.prems(2)]) (auto simp: move_doms set_op_views)
next
  case (mv_handle s k r h now)
  show ?case
    by (rule inv_refs_mono [OF mv_handle.prems(2)]) (auto simp: move_doms set_op_views)
next
  case (mv_cancel_request s k r c m now)
  show ?case
    by (rule inv_refs_mono [OF mv_cancel_request.prems(2)]) (auto simp: move_doms set_op_views)
next
  case (mv_cancel_claim s k r)
  show ?case
    by (rule inv_refs_mono [OF mv_cancel_claim.prems(2)]) (auto simp: move_doms set_op_views)
next
  case (mv_polled s k r now)
  show ?case
    by (rule inv_refs_mono [OF mv_polled.prems(2)]) (auto simp: move_doms set_op_views)
next
  case (mv_dispatcher s b)
  then show ?case by (simp add: inv_refs_def)
qed

section \<open>The event log\<close>

lemma inv_log_move: "ledger_move env s s' \<Longrightarrow> inv_keys s \<Longrightarrow> inv_log s \<Longrightarrow> inv_log s'"
proof (induction rule: ledger_move.induct)
  case (mv_event s d dev n e)
  have dev: "0 \<le> dev_floor dev" "dev_floor dev \<le> dev_sequence dev"
    using mv_event.prems(2) mv_event.hyps(1) by (auto simp: inv_log_def)
  let ?t = "s\<lparr>devices_t := update_row d (\<lambda>v. v\<lparr>dev_sequence := n\<rparr>) (devices_t s),
      events_t := events_t s @ [((d, n), e)]\<rparr>"
  have ev: "map_of (events_t ?t) (d', m) \<noteq> None \<longleftrightarrow> (d', m) = (d, n) \<or> map_of (events_t s) (d', m) \<noteq> None" for d' m
    using mv_event.hyps(3) by (auto simp: snoc_upd simp del: map_of_append)
  have dv: "map_of (devices_t ?t) d' = (if d' = d then Some (dev\<lparr>dev_sequence := n\<rparr>) else map_of (devices_t s) d')" for d'
    using mv_event.hyps(1) by (simp add: map_of_update_row)
  have old: "map_of (events_t s) (d', m) \<noteq> None \<longleftrightarrow>
      (\<exists>dev. map_of (devices_t s) d' = Some dev \<and> dev_floor dev < m \<and> m \<le> dev_sequence dev)" for d' m
    using mv_event.prems(2) unfolding inv_log_def by (elim conjE allE)
  show ?case
    unfolding inv_log_def ev dv
  proof (intro conjI allI impI)
    fix d' m
    show "((d', m) = (d, n) \<or> map_of (events_t s) (d', m) \<noteq> None) \<longleftrightarrow>
        (\<exists>dv. (if d' = d then Some (dev\<lparr>dev_sequence := n\<rparr>) else map_of (devices_t s) d') = Some dv
           \<and> dev_floor dv < m \<and> m \<le> dev_sequence dv)"
      using dev mv_event.hyps(1,2) unfolding old by (cases "d' = d") auto
  qed (use mv_event.prems(2) mv_event.hyps(2) dev in \<open>auto simp: inv_log_def split: if_splits\<close>)
next
  case (mv_trim s d n)
  then obtain dev where dev: "map_of (devices_t s) d = Some dev" "dev_floor dev < n" "n \<le> dev_sequence dev"
    by (auto simp: inv_log_def)
  then have "0 \<le> dev_floor dev" using mv_trim.prems(2) unfolding inv_log_def by blast
  with dev(2) have "0 \<le> n" by linarith
  note dev = dev this
  show ?case
    using mv_trim.prems dev unfolding inv_log_def trimmed_views(1) [OF mv_trim.prems(1)] trimmed_views(2)
    by (intro conjI allI impI) (auto split: if_splits)
next
  case (mv_device s d)
  then show ?case
    by (auto simp: inv_log_def device_views)
qed (auto simp: inv_log_def views)


section \<open>Operation rows\<close>

definition entry_ok :: "op_row \<Rightarrow> outbox_state option \<Rightarrow> bool \<Rightarrow> bool" where
  "entry_ok r b has_payload \<longleftrightarrow> row_ok r \<and> b = Some (outbox_of (state r)) \<and> (has_payload \<longrightarrow> state r \<in> {Accepted, Running})"

lemma inv_rows_alt: "inv_rows s \<longleftrightarrow> (\<forall>k r. map_of (operations_t s) k = Some r \<longrightarrow>
    entry_ok r (map_option b_state (map_of (outbox_t s) k)) (map_of (payloads_t s) k \<noteq> None))"
  by (simp add: inv_rows_def entry_ok_def)

lemma inv_rowsD: "inv_rows s \<Longrightarrow> map_of (operations_t s) k = Some r \<Longrightarrow>
    entry_ok r (map_option b_state (map_of (outbox_t s) k)) (map_of (payloads_t s) k \<noteq> None)"
  by (simp add: inv_rows_alt)

text \<open>A move that rewrites one row by \<open>f\<close> and its outbox entry by \<open>g\<close>.\<close>

lemma inv_rows_at:
  assumes "inv_rows s" "map_of (operations_t s) k = Some r"
    and "\<And>k'. map_of (operations_t t) k' = (if k' = k then Some (f r) else map_of (operations_t s) k')"
    and "\<And>k'. map_option b_state (map_of (outbox_t t) k') =
           (if k' = k then map_option g (map_option b_state (map_of (outbox_t s) k)) else map_option b_state (map_of (outbox_t s) k'))"
    and "\<And>k'. map_of (payloads_t t) k' \<noteq> None \<Longrightarrow> map_of (payloads_t s) k' \<noteq> None"
    and "entry_ok (f r) (Some (g (outbox_of (state r)))) (map_of (payloads_t t) k \<noteq> None)"
  shows "inv_rows t"
  unfolding inv_rows_alt
proof (intro allI impI)
  fix k' q assume q: "map_of (operations_t t) k' = Some q"
  show "entry_ok q (map_option b_state (map_of (outbox_t t) k')) (map_of (payloads_t t) k' \<noteq> None)"
  proof (cases "k' = k")
    case True
    have "map_option b_state (map_of (outbox_t s) k) = Some (outbox_of (state r))"
      using inv_rowsD [OF assms(1,2)] by (simp add: entry_ok_def)
    then have "map_option b_state (map_of (outbox_t t) k') = Some (g (outbox_of (state r)))"
      unfolding assms(4) True by (simp only: option.map simp_thms if_True)
    moreover have "q = f r" using True q assms(3) by simp
    ultimately show ?thesis using assms(6) unfolding True by (simp only:)
  next
    case False
    then have "map_of (operations_t s) k' = Some q" using q assms(3) by simp
    from inv_rowsD [OF assms(1) this] show ?thesis
      using False assms(4,5) by (auto simp: entry_ok_def)
  qed
qed

lemma entry_ok_finish:
  "entry_ok r b p \<Longrightarrow> st \<in> TERMINAL \<Longrightarrow> state r = Accepted \<longrightarrow> st \<in> FINAL \<Longrightarrow>
   entry_ok (finish_row env now rid st res c m r) (Some Done) False"
  by (cases st) (auto simp: entry_ok_def row_ok_def finish_row_def FINAL_simps split: option.splits)

lemma entry_ok_polled: "entry_ok (r\<lparr>polled_at := x\<rparr>) b p = entry_ok r b p"
  by (simp add: entry_ok_def row_ok_def)

lemma inv_rows_move:
  "ledger_move env s s' \<Longrightarrow> inv_keys s \<Longrightarrow> inv_rows s \<Longrightarrow> inv_rows s'"
proof (induction rule: ledger_move.induct)
  case (mv_finish s k r st now rid res c m)
  have e: "entry_ok r (map_option b_state (map_of (outbox_t s) k)) (map_of (payloads_t s) k \<noteq> None)"
    using mv_finish.prems(2) mv_finish.hyps(1) by (rule inv_rowsD)
  show ?case
    by (rule inv_rows_at [OF mv_finish.prems(2) mv_finish.hyps(1), where f = "finish_row env now rid st res c m" and g = "\<lambda>_. Done"])
      (use mv_finish.hyps entry_ok_finish [OF e mv_finish.hyps(3), of env now rid res c m] in
        \<open>auto simp: finished_views option.map_comp comp_def split: if_splits\<close>)
next
  case (mv_claim s k r now)
  have e: "entry_ok r (map_option b_state (map_of (outbox_t s) k)) (map_of (payloads_t s) k \<noteq> None)"
    using mv_claim.prems(2) mv_claim.hyps(1) by (rule inv_rowsD)
  show ?case
    by (rule inv_rows_at [OF mv_claim.prems(2) mv_claim.hyps(1), where f = "\<lambda>q. q\<lparr>state := Running, updated_at := now\<rparr>" and g = "\<lambda>_. Claimed"])
      (use mv_claim.hyps e in \<open>auto simp: set_op_views map_of_update_row option.map_comp comp_def entry_ok_def row_ok_def FINAL_simps\<close>)
next
  case (mv_handle s k r h now)
  have e: "entry_ok r (map_option b_state (map_of (outbox_t s) k)) (map_of (payloads_t s) k \<noteq> None)"
    using mv_handle.prems(2) mv_handle.hyps(1) by (rule inv_rowsD)
  show ?case
    by (rule inv_rows_at [OF mv_handle.prems(2) mv_handle.hyps(1), where f = "\<lambda>q. q\<lparr>remote_task_id := Some h, updated_at := now\<rparr>" and g = id])
      (use mv_handle.hyps e in \<open>auto simp: set_op_views entry_ok_def row_ok_def option.map_id\<close>)
next
  case (mv_cancel_request s k r now m c)
  have e: "entry_ok r (map_option b_state (map_of (outbox_t s) k)) (map_of (payloads_t s) k \<noteq> None)"
    using mv_cancel_request.prems(2) mv_cancel_request.hyps(1) by (rule inv_rowsD)
  show ?case
    by (rule inv_rows_at [OF mv_cancel_request.prems(2) mv_cancel_request.hyps(1), where g = id and
          f = "\<lambda>q. q\<lparr>cancel_requested := True, error_code := c, error_message := m, updated_at := now\<rparr>"])
      (use mv_cancel_request.hyps e in \<open>auto simp: set_op_views entry_ok_def row_ok_def option.map_id\<close>)
next
  case (mv_cancel_claim s k r)
  have e: "entry_ok r (map_option b_state (map_of (outbox_t s) k)) (map_of (payloads_t s) k \<noteq> None)"
    using mv_cancel_claim.prems(2) mv_cancel_claim.hyps(1) by (rule inv_rowsD)
  show ?case
    by (rule inv_rows_at [OF mv_cancel_claim.prems(2) mv_cancel_claim.hyps(1), where g = id and f = "\<lambda>q. q\<lparr>cancel_claimed := True\<rparr>"])
      (use mv_cancel_claim.hyps e in \<open>auto simp: set_op_views entry_ok_def row_ok_def option.map_id\<close>)
next
  case (mv_polled s k r now)
  then show ?case by (auto simp: inv_rows_alt set_op_views entry_ok_polled split: if_splits)
next
  case (mv_expire s now)
  show ?case
    unfolding inv_rows_alt
  proof (intro allI impI)
    fix k q assume "map_of (operations_t (expire_content now s)) k = Some q"
    then obtain r where r: "map_of (operations_t s) k = Some r" "q = drop_cipher now r" by (auto simp: expire_views)
    have p: "map_of (payloads_t (expire_content now s)) k \<noteq> None \<longrightarrow> map_of (payloads_t s) k \<noteq> None"
      using expire_views(6) [OF mv_expire.prems(1)] by blast
    have "result_cipher q \<noteq> None \<longrightarrow> result_cipher r \<noteq> None" using r(2) by (simp add: drop_cipher_def)
    then show "entry_ok q (map_option b_state (map_of (outbox_t (expire_content now s)) k))
        (map_of (payloads_t (expire_content now s)) k \<noteq> None)"
      using inv_rowsD [OF mv_expire.prems(2) r(1)] p r(2) by (simp add: entry_ok_def row_ok_def expire_views)
  qed
next
  case (mv_accept s k fl dig p now)
  then show ?case
    by (auto simp: inv_rows_alt snoc_upd entry_ok_def row_ok_def new_op_row_def FINAL_simps simp del: map_of_append)
qed (simp_all add: inv_rows_alt trimmed_views(3-7) device_views(2-8))

section \<open>Flows\<close>

lemma inv_flowD:
  "inv_flow s \<Longrightarrow> map_of (operations_t s) k = Some r \<Longrightarrow> map_of (operations_t s) k' = Some r' \<Longrightarrow> fst k = fst k' \<Longrightarrow>
   flow_id r = flow_id r' \<Longrightarrow> state r \<in> {Running, OutcomeUnknown} \<Longrightarrow> state r' \<in> {Running, OutcomeUnknown} \<Longrightarrow> k = k'"
  unfolding inv_flow_def by blast

lemma inv_flow_mono:
  assumes "inv_flow s"
    and "\<And>k r. map_of (operations_t t) k = Some r \<Longrightarrow> state r \<in> {Running, OutcomeUnknown} \<Longrightarrow>
          \<exists>q. map_of (operations_t s) k = Some q \<and> state q \<in> {Running, OutcomeUnknown} \<and> flow_id q = flow_id r"
  shows "inv_flow t"
  unfolding inv_flow_def
proof (intro allI impI)
  fix k1 k2 r1 r2
  assume a: "map_of (operations_t t) k1 = Some r1" "map_of (operations_t t) k2 = Some r2" "fst k1 = fst k2"
    "flow_id r1 = flow_id r2" "state r1 \<in> {Running, OutcomeUnknown}" "state r2 \<in> {Running, OutcomeUnknown}"
  obtain q1 where q1: "map_of (operations_t s) k1 = Some q1" "state q1 \<in> {Running, OutcomeUnknown}" "flow_id q1 = flow_id r1"
    using assms(2) [OF a(1,5)] by (elim exE conjE)
  obtain q2 where q2: "map_of (operations_t s) k2 = Some q2" "state q2 \<in> {Running, OutcomeUnknown}" "flow_id q2 = flow_id r2"
    using assms(2) [OF a(2,6)] by (elim exE conjE)
  have "flow_id q1 = flow_id q2" using q1(3) q2(3) a(4) by simp
  then show "k1 = k2" using inv_flowD [OF assms(1) q1(1) q2(1) a(3)] q1(2) q2(2) by blast
qed

lemma flow_active_iff: "keys_ok (operations_t s) \<Longrightarrow> flow_active s d fl \<longleftrightarrow>
    (\<exists>op r. map_of (operations_t s) (d, op) = Some r \<and> flow_id r = fl \<and> state r \<in> {Running, OutcomeUnknown})"
  by (fastforce simp: flow_active_def list_ex_iff in_table_iff)

lemma inv_flow_move:
  "ledger_move env s s' \<Longrightarrow> inv_keys s \<Longrightarrow> inv_flow s \<Longrightarrow> inv_flow s'"
proof (induction rule: ledger_move.induct)
  case (mv_claim s k r now)
  let ?t = "set_op k (\<lambda>q. q\<lparr>state := Running, updated_at := now\<rparr>)
       (s\<lparr>outbox_t := update_row k (\<lambda>b. b\<lparr>b_state := Claimed, claimed_at := Some now\<rparr>) (outbox_t s)\<rparr>)"
  have none: "\<not> (state q \<in> {Running, OutcomeUnknown} \<and> fst k' = fst k \<and> flow_id q = flow_id r)"
    if "map_of (operations_t s) k' = Some q" for k' q
    using mv_claim.hyps(3) mv_claim.prems(1) that by (cases k') (auto simp: flow_active_iff inv_keys_def)
  have row: "q = r\<lparr>state := Running, updated_at := now\<rparr> \<and> k' = k \<or> map_of (operations_t s) k' = Some q \<and> k' \<noteq> k"
    if "map_of (operations_t ?t) k' = Some q" for k' q
    using that mv_claim.hyps(1) by (auto simp: set_op_views split: if_splits)
  show ?case
    unfolding inv_flow_def
  proof (intro allI impI)
    fix k1 k2 r1 r2
    assume a: "map_of (operations_t ?t) k1 = Some r1" "map_of (operations_t ?t) k2 = Some r2" "fst k1 = fst k2"
      "flow_id r1 = flow_id r2" "state r1 \<in> {Running, OutcomeUnknown}" "state r2 \<in> {Running, OutcomeUnknown}"
    consider "k1 = k" "k2 = k" | "k1 = k" "r1 = r\<lparr>state := Running, updated_at := now\<rparr>" "map_of (operations_t s) k2 = Some r2"
      | "k2 = k" "r2 = r\<lparr>state := Running, updated_at := now\<rparr>" "map_of (operations_t s) k1 = Some r1"
      | "map_of (operations_t s) k1 = Some r1" "map_of (operations_t s) k2 = Some r2"
      using row [OF a(1)] row [OF a(2)] by blast
    then show "k1 = k2"
    proof cases
      case 2
      then show ?thesis using none [OF 2(3)] a(3-6) by simp
    next
      case 3
      then show ?thesis using none [OF 3(3)] a(3-6) by simp
    next
      case 4
      then show ?thesis by (rule inv_flowD [OF mv_claim.prems(2) _ _ a(3-6)])
    qed simp
  qed
next
  case (mv_finish s k r st now rid res c m)
  show ?case
    by (rule inv_flow_mono [OF mv_finish.prems(2)])
      (use mv_finish.hyps op_state_cases [of "state r"] in \<open>auto simp: finished_views finish_row_keeps FINAL_simps split: if_splits\<close>)
next
  case (mv_accept s k fl dig p now)
  show ?case
    by (rule inv_flow_mono [OF mv_accept.prems(2)])
      (use mv_accept.hyps in \<open>auto simp: snoc_upd new_op_row_def simp del: map_of_append split: if_splits\<close>)
next
  case (mv_handle s k r h now)
  show ?case
    by (rule inv_flow_mono [OF mv_handle.prems(2)]) (use mv_handle.hyps in \<open>auto simp: set_op_views split: if_splits\<close>)
next
  case (mv_cancel_request s k r now m c)
  show ?case
    by (rule inv_flow_mono [OF mv_cancel_request.prems(2)])
      (use mv_cancel_request.hyps in \<open>auto simp: set_op_views split: if_splits\<close>)
next
  case (mv_cancel_claim s k r)
  show ?case
    by (rule inv_flow_mono [OF mv_cancel_claim.prems(2)])
      (use mv_cancel_claim.hyps in \<open>auto simp: set_op_views split: if_splits\<close>)
next
  case (mv_polled s k r now)
  show ?case
    by (rule inv_flow_mono [OF mv_polled.prems(2)]) (auto simp: set_op_views split: if_splits)
next
  case (mv_expire s now)
  show ?case
    by (rule inv_flow_mono [OF mv_expire.prems(2)]) (auto simp: expire_views)
qed (simp_all add: inv_flow_def trimmed_views(3-7) device_views(2-8))

section \<open>Monotonicity of rows\<close>

text \<open>What a row keeps. A final row changes only by the expiry of its stored result.\<close>

definition row_le :: "op_row \<Rightarrow> op_row \<Rightarrow> bool" where
  "row_le r r' \<longleftrightarrow> flow_id r' = flow_id r \<and> digest r' = digest r \<and> created_at r' = created_at r \<and>
     (state r \<noteq> Accepted \<longrightarrow> state r' \<noteq> Accepted) \<and>
     (\<forall>x. result_id r = Some x \<longrightarrow> result_id r' = Some x) \<and>
     (\<forall>h. remote_task_id r = Some h \<longrightarrow> h \<noteq> [] \<longrightarrow> remote_task_id r' = Some h) \<and>
     (cancel_requested r \<longrightarrow> cancel_requested r') \<and> (cancel_claimed r \<longrightarrow> cancel_claimed r') \<and>
     (state r \<in> FINAL \<longrightarrow> r' = r \<or> r' = r\<lparr>result_cipher := None\<rparr>)"

lemma row_le_refl [simp]: "row_le r r"
  by (simp add: row_le_def)

lemma row_le_trans:
  assumes "row_le r r'" "row_le r' r''"
  shows "row_le r r''"
proof (cases "state r \<in> FINAL")
  case True
  then have one: "r' = r \<or> r' = r\<lparr>result_cipher := None\<rparr>" using assms(1) by (simp add: row_le_def)
  then have "state r' \<in> FINAL" using True by auto
  then have "r'' = r' \<or> r'' = r'\<lparr>result_cipher := None\<rparr>" using assms(2) by (simp add: row_le_def)
  with one have "r'' = r \<or> r'' = r\<lparr>result_cipher := None\<rparr>" by auto
  then show ?thesis by (elim disjE) (simp_all add: row_le_def)
next
  case False
  then show ?thesis using assms by (simp add: row_le_def)
qed

lemma row_le_FINAL: "row_le r r' \<Longrightarrow> state r' \<notin> FINAL \<Longrightarrow> state r \<notin> FINAL"
  by (auto simp: row_le_def)

lemma row_le_drop_cipher [simp]: "row_le r (drop_cipher now r)"
  by (auto simp: row_le_def drop_cipher_def)

lemma row_le_finish: "state r \<notin> FINAL \<Longrightarrow> st \<in> TERMINAL \<Longrightarrow> row_le r (finish_row env now rid st res c m r)"
  by (auto simp: row_le_def finish_row_def FINAL_simps split: option.splits)

lemma row_le_set_op:
  assumes "map_of (operations_t s) k = Some r" "map_of (operations_t s) k' = Some q" "row_le r (f r)"
  shows "\<exists>q'. map_of (operations_t (set_op k f s)) k' = Some q' \<and> row_le q q'"
  using assms by (auto simp: set_op_views)

lemma move_row_to:
  assumes "ledger_move env s t" "map_of (operations_t s) k = Some r"
  shows "\<exists>r'. map_of (operations_t t) k = Some r' \<and> row_le r r'"
  using assms
proof (induction rule: ledger_move.induct)
  case (mv_accept s k' fl dig p now)
  then show ?case by (cases "k' = k") (auto simp: snoc_upd simp del: map_of_append)
next
  case (mv_finish s k' r' st now rid res c m)
  then show ?case by (auto simp: finished_views row_le_finish)
next
  case (mv_expire s now)
  then show ?case by (simp add: expire_views)
next
  case (mv_claim s k' r' now)
  show ?case by (rule row_le_set_op) (use mv_claim in \<open>auto simp: row_le_def FINAL_simps\<close>)
next
  case (mv_handle s k' r' h now)
  show ?case by (rule row_le_set_op) (use mv_handle in \<open>auto simp: row_le_def FINAL_simps\<close>)
next
  case (mv_cancel_request s k' r' now m c)
  show ?case by (rule row_le_set_op) (use mv_cancel_request in \<open>auto simp: row_le_def FINAL_simps\<close>)
next
  case (mv_cancel_claim s k' r')
  show ?case by (rule row_le_set_op) (use mv_cancel_claim in \<open>auto simp: row_le_def FINAL_simps\<close>)
next
  case (mv_polled s k' r' now)
  show ?case by (rule row_le_set_op) (use mv_polled in \<open>auto simp: row_le_def\<close>)
qed (simp_all add: trimmed_views device_views)

lemma moves_row_to:
  "ledger_moves env s t \<Longrightarrow> map_of (operations_t s) k = Some r \<Longrightarrow>
     \<exists>r'. map_of (operations_t t) k = Some r' \<and> row_le r r'"
proof (induction rule: rtranclp_induct)
  case (step t u)
  then show ?case by (meson move_row_to row_le_trans)
qed simp

section \<open>Quotas\<close>

definition pending_ops :: "string \<Rightarrow> store \<Rightarrow> op_key set" where
  "pending_ops d s = {k. fst k = d \<and> (\<exists>r. map_of (operations_t s) k = Some r \<and> state r \<notin> FINAL)}"

lemma pending_ops_finite [simp]: "finite (pending_ops d s)"
  by (rule finite_subset [OF _ finite_dom_map_of [of "operations_t s"]]) (auto simp: pending_ops_def)

lemma pending_count_card:
  assumes "inv_keys s"
  shows "pending_count d s = int (card (pending_ops d s))"
proof -
  let ?p = "\<lambda>k r. fst k = d \<and> state r \<in> {Accepted, Running, OutcomeUnknown}"
  have ok: "keys_ok (operations_t s)" using assms by (simp add: inv_keys_def)
  then have "distinct (map fst (select_where ?p (operations_t s)))"
    by (simp add: keys_ok_def select_where_def distinct_map_filter)
  from distinct_card [OF this]
  have len: "length (select_where ?p (operations_t s)) = card (fst ` set (select_where ?p (operations_t s)))"
    by (simp only: set_map length_map)
  have st: "st \<in> {Accepted, Running, OutcomeUnknown} \<longleftrightarrow> st \<notin> FINAL" for st
    by (cases st) (simp_all add: FINAL_def)
  have "k \<in> fst ` set (select_where ?p (operations_t s)) \<longleftrightarrow> k \<in> pending_ops d s" for k
  proof
    assume "k \<in> fst ` set (select_where ?p (operations_t s))"
    then obtain x where "x \<in> set (select_where ?p (operations_t s))" "k = fst x" by (elim imageE)
    then have "(k, snd x) \<in> set (select_where ?p (operations_t s))" by simp
    then show "k \<in> pending_ops d s" unfolding pending_ops_def select_where_lookup [OF ok] st by blast
  next
    assume "k \<in> pending_ops d s"
    then obtain r where "(k, r) \<in> set (select_where ?p (operations_t s))"
      unfolding pending_ops_def select_where_lookup [OF ok] st by blast
    then show "k \<in> fst ` set (select_where ?p (operations_t s))" by (rule image_eqI [rotated]) simp
  qed
  then have "fst ` set (select_where ?p (operations_t s)) = pending_ops d s" by blast
  with len show ?thesis by (simp add: pending_count_def)
qed

lemma pending_mono:
  assumes "inv_keys s" "inv_keys t"
    and "\<And>k r. map_of (operations_t t) k = Some r \<Longrightarrow> state r \<notin> FINAL \<Longrightarrow>
          \<exists>q. map_of (operations_t s) k = Some q \<and> state q \<notin> FINAL"
  shows "pending_count d t \<le> pending_count d s"
proof -
  have "pending_ops d t \<subseteq> pending_ops d s" using assms(3) by (auto simp: pending_ops_def)
  then show ?thesis by (simp add: assms(1,2) pending_count_card card_mono)
qed

lemma pending_accept:
  assumes "inv_keys s" "inv_keys t" "map_of (operations_t t) = (map_of (operations_t s))(k \<mapsto> r)"
  shows "pending_count d t \<le> pending_count d s + (if fst k = d then 1 else 0)"
proof -
  have "pending_ops d t \<subseteq> (if fst k = d then insert k (pending_ops d s) else pending_ops d s)"
    using assms(3) by (auto simp: pending_ops_def split: if_splits)
  then have "card (pending_ops d t) \<le> card (if fst k = d then insert k (pending_ops d s) else pending_ops d s)"
    by (intro card_mono) auto
  also have "\<dots> \<le> card (pending_ops d s) + (if fst k = d then 1 else 0)"
    by (simp add: card_insert_le_m1 card_insert_if)
  finally show ?thesis by (simp add: assms(1,2) pending_count_card split: if_splits)
qed

definition sizes :: "string \<Rightarrow> ((string \<times> string) \<times> artifact_row) list \<Rightarrow> int" where
  "sizes d t = sum_list (map (\<lambda>(k, v). if fst k = d then a_size v else 0) t)"

lemma artifact_bytes_sizes: "artifact_bytes d s = sizes d (artifacts_t s)"
proof -
  have "sum_list (map (\<lambda>(k, v). a_size v) (select_where (\<lambda>k v. fst k = d) t)) = sizes d t" for t
    by (induction t) (auto simp: select_where_def sizes_def)
  then show ?thesis by (simp add: artifact_bytes_def)
qed

lemma sizes_delete: "(\<forall>(k, v) \<in> set t. 0 \<le> a_size v) \<Longrightarrow> sizes d (delete_where p t) \<le> sizes d t"
proof (induction t)
  case (Cons x t)
  obtain k v where x: "x = (k, v)" by (cases x)
  have "sizes d (delete_where p t) \<le> sizes d t" "0 \<le> a_size v" using Cons x by auto
  then show ?case by (simp add: x sizes_def delete_where_def)
qed (simp add: sizes_def delete_where_def)

lemma sizes_snoc: "sizes d (t @ [(k, v)]) = sizes d t + (if fst k = d then a_size v else 0)"
  by (simp add: sizes_def)

definition inv_pending :: "broker_env \<Rightarrow> store \<Rightarrow> bool" where
  "inv_pending env s \<longleftrightarrow> (\<forall>d. pending_count d s \<le> max_pending_per_device (settings env))"

definition inv_quota :: "broker_env \<Rightarrow> store \<Rightarrow> bool" where
  "inv_quota env s \<longleftrightarrow> (\<forall>d. sizes d (artifacts_t s) \<le> device_quota_bytes (settings env)) \<and>
     (\<forall>(k, a) \<in> set (artifacts_t s). 0 \<le> a_size a)"

lemma inv_bounds_alt: "inv_keys s \<Longrightarrow> inv_bounds env s \<longleftrightarrow> inv_pending env s \<and> inv_quota env s"
  by (auto simp: inv_bounds_def inv_pending_def inv_quota_def artifact_bytes_sizes inv_keys_def in_table_iff)

lemma inv_quota_delete: "inv_quota env s \<Longrightarrow> artifacts_t t = delete_where p (artifacts_t s) \<Longrightarrow> inv_quota env t"
  using sizes_delete [of "artifacts_t s" _ p]
  by (fastforce simp: inv_quota_def delete_where_def intro: order_trans)

lemma inv_quota_move: "ledger_move env s s' \<Longrightarrow> inv_quota env s \<Longrightarrow> inv_quota env s'"
proof (induction rule: ledger_move.induct)
  case (mv_put_artifact s k a)
  then show ?case by (auto simp: inv_quota_def sizes_snoc artifact_bytes_sizes)
next
  case (mv_drop_artifacts s p)
  show ?case by (rule inv_quota_delete [OF mv_drop_artifacts.prems]) simp
next
  case (mv_expire s now)
  show ?case by (rule inv_quota_delete [OF mv_expire.prems]) (simp add: expire_content_def)
qed (simp_all add: inv_quota_def finished_views set_op_views trimmed_views device_views)

lemma pending_same_dom:
  assumes "ledger_move env s t" "inv_keys s" "inv_keys t" "inv_pending env s"
    and "dom (map_of (operations_t t)) = dom (map_of (operations_t s))"
  shows "inv_pending env t"
proof -
  have "pending_count d t \<le> pending_count d s" for d
  proof (rule pending_mono [OF assms(2,3)])
    fix k r assume r: "map_of (operations_t t) k = Some r" "state r \<notin> FINAL"
    then obtain q where q: "map_of (operations_t s) k = Some q" using assms(5) by blast
    with move_row_to [OF assms(1) q] r show "\<exists>q. map_of (operations_t s) k = Some q \<and> state q \<notin> FINAL"
      by (auto dest: row_le_FINAL)
  qed
  then show ?thesis using assms(4) unfolding inv_pending_def using order_trans by blast
qed

lemma inv_pending_move:
  assumes "ledger_move env s t" "inv_keys s" "inv_keys t" "inv_pending env s"
  shows "inv_pending env t"
  using assms(1)
proof (cases rule: ledger_move.cases)
  case (mv_accept k fl dig p now)
  have "pending_count d t \<le> pending_count d s + (if fst k = d then 1 else 0)" for d
    by (rule pending_accept [OF assms(2,3)]) (use mv_accept in \<open>simp add: snoc_upd del: map_of_append\<close>)
  moreover have "pending_count d s \<le> max_pending_per_device (settings env)" for d
    using assms(4) by (simp add: inv_pending_def)
  ultimately show ?thesis
    using mv_accept(6) unfolding inv_pending_def by (smt (verit))
qed (rule pending_same_dom [OF assms], simp add: move_doms device_views trimmed_views(3))+

section \<open>Payloads\<close>

lemma payload_kept:
  assumes "ledger_move env s t" "inv_keys s" "inv_refs s" "inv_payload env s"
    and "map_of (payloads_t t) k = Some p \<Longrightarrow> map_of (payloads_t s) k = Some p"
    and "map_of (payloads_t t) k = Some p" "map_of (operations_t t) k = Some r"
  shows "payload_of env k (flow_id r) (digest r) (p_cipher p)"
proof -
  have p: "map_of (payloads_t s) k = Some p" using assms(5,6) by blast
  then have "k \<in> dom (map_of (operations_t s))" using assms(3) unfolding inv_refs_def by (elim conjE) (rule subsetD, auto)
  then obtain q where q: "map_of (operations_t s) k = Some q" by blast
  with move_row_to [OF assms(1) q] assms(7) have "flow_id r = flow_id q" "digest r = digest q"
    by (auto simp: row_le_def)
  then show ?thesis using assms(4) p q by (simp add: inv_payload_def)
qed

lemma inv_payload_move:
  assumes "ledger_move env s t" "inv_keys s" "inv_refs s" "inv_payload env s"
  shows "inv_payload env t"
  unfolding inv_payload_def
proof (intro allI impI)
  fix k p r assume pr: "map_of (payloads_t t) k = Some p" "map_of (operations_t t) k = Some r"
  show "payload_of env k (flow_id r) (digest r) (p_cipher p)"
    using assms(1)
  proof (cases rule: ledger_move.cases)
    case (mv_accept k' fl dig p' now)
    show ?thesis
    proof (cases "k' = k")
      case True
      then show ?thesis using pr mv_accept by (auto simp: snoc_upd new_op_row_def simp del: map_of_append)
    next
      case False
      then show ?thesis using pr mv_accept assms(4) by (auto simp: snoc_upd inv_payload_def simp del: map_of_append)
    qed
  qed (rule payload_kept [OF assms _ pr], simp add: finished_views(3) set_op_views(3) trimmed_views(4) expire_views(6) [OF assms(2)] device_views(3) split: if_splits)+
qed

theorem ledger_inv_move:
  assumes "ledger_move env s s'" "ledger_inv env s"
  shows "ledger_inv env s'"
proof -
  note old = assms(2) [unfolded ledger_inv_def]
  have keys: "inv_keys s" "inv_keys s'" using old inv_keys_move [OF assms(1)] by auto
  then have "inv_pending env s'" "inv_quota env s'"
    using old inv_pending_move [OF assms(1) keys] inv_quota_move [OF assms(1)] by (auto simp: inv_bounds_alt)
  then show ?thesis
    using old keys inv_refs_move [OF assms(1)] inv_log_move [OF assms(1)] inv_rows_move [OF assms(1)]
      inv_flow_move [OF assms(1)] inv_payload_move [OF assms(1)] by (simp add: ledger_inv_def inv_bounds_alt)
qed

lemma ledger_inv_moves: "ledger_moves env s s' \<Longrightarrow> ledger_inv env s \<Longrightarrow> ledger_inv env s'"
  by (induction rule: rtranclp_induct) (auto intro: ledger_inv_move)

end
