(* ===== verification/Broker_Steps.thy ===== *)
theory Broker_Steps
  imports Broker_Ledger
begin

text \<open>
  The ledger of \<open>broker_store.py\<close> in operation. Every public method is a sequence of elementary
  ledger moves; \<open>broker_step\<close> is the labelled step relation of all methods together with a restart of
  the process. The locales of the prelude are interpreted on it: the ledger invariant holds in every
  run, an operation is handed to the dispatcher at most once, and so is a cancellation.
\<close>

section \<open>Every method is a sequence of moves\<close>

definition fernet_ok :: "broker_env \<Rightarrow> bool" where
  "fernet_ok env \<longleftrightarrow> (\<forall>m. fernet_decrypt env (fernet_encrypt env m) = Some m)"

lemma do_event_move:
  assumes "do_event env now d op s = Inr (snap, t)"
  shows "ledger_move env s t"
proof -
  obtain dev where dev: "map_of (devices_t s) d = Some dev" "map_of (events_t s) (d, dev_sequence dev + 1) = None"
    and t: "t = s\<lparr>devices_t := update_row d (\<lambda>v. v\<lparr>dev_sequence := dev_sequence dev + 1\<rparr>) (devices_t s),
      events_t := events_t s @ [((d, dev_sequence dev + 1), \<lparr>e_cipher = do_encrypt env snap,
        e_expires_at = now + seconds (min (event_ttl_seconds (settings env)) (result_ttl_seconds (settings env)))\<rparr>)]\<rparr>"
    using assms by (auto simp: do_event_def Let_def split: option.splits)
  show ?thesis unfolding t using dev by (intro mv_event) simp_all
qed

lemma do_event_keeps:
  assumes "do_event env now d op s = Inr (snap, t)"
  shows "operations_t t = operations_t s" "outbox_t t = outbox_t s" "payloads_t t = payloads_t s"
    "artifacts_t t = artifacts_t s" "receipts_t t = receipts_t s" "is_dispatcher t = is_dispatcher s"
  using assms by (auto simp: do_event_def Let_def split: option.splits)

lemma do_event_snapshot:
  assumes "do_event env now d op s = Inr (snap, t)"
  shows "\<exists>r. map_of (operations_t s) (d, op) = Some r \<and> do_snapshot env now op r = Inr snap"
  using assms by (auto simp: do_event_def do_row_def Let_def split: option.splits)

lemma do_row_Inr [simp]: "do_row s d op = Inr r \<longleftrightarrow> map_of (operations_t s) (d, op) = Some r"
  by (auto simp: do_row_def split: option.splits)

lemma do_device_simps [simp]:
  "operations_t (do_device d s) = operations_t s" "payloads_t (do_device d s) = payloads_t s"
  "outbox_t (do_device d s) = outbox_t s" "events_t (do_device d s) = events_t s"
  "artifacts_t (do_device d s) = artifacts_t s" "receipts_t (do_device d s) = receipts_t s"
  "is_dispatcher (do_device d s) = is_dispatcher s" "map_of (devices_t (do_device d s)) d \<noteq> None"
  by (simp_all add: device_views)

lemma device_moves: "ledger_moves env (do_device d s) t \<Longrightarrow> ledger_moves env s t"
  by (rule converse_rtranclp_into_rtranclp [where r = "ledger_move env", OF mv_device])

lemma device_move: "ledger_move env (do_device d s) t \<Longrightarrow> ledger_moves env s t"
  by (rule device_moves [of _ d]) (rule r_into_rtranclp)

lemma two_moves: "ledger_move env s t \<Longrightarrow> ledger_move env t u \<Longrightarrow> ledger_moves env s u"
  by (meson r_into_rtranclp rtranclp.rtrancl_into_rtrancl)

text \<open>\<open>_finish\<close> either finds the row final and changes nothing, or finishes it and logs the snapshot.\<close>

lemma do_finish_cases:
  assumes "do_finish env now rid d op st res c m s = Inr (snap, t)"
  obtains (final) r where "map_of (operations_t s) (d, op) = Some r" "state r \<in> FINAL" "t = s" "do_snapshot env now op r = Inr snap"
  | (opened) r where "map_of (operations_t s) (d, op) = Some r" "state r \<notin> FINAL"
      "do_event env now d op (finished env now rid (d, op) st res c m s) = Inr (snap, t)"
proof -
  from assms obtain r where r: "map_of (operations_t s) (d, op) = Some r" by (auto simp: do_finish_def)
  show thesis
  proof (cases "state r \<in> FINAL")
    case True
    with assms r show thesis by (intro final) (auto simp: do_finish_def do_row_def)
  next
    case False
    with assms r show thesis
      by (intro opened) (auto simp: do_finish_def do_row_def finished_def set_op_def Let_def)
  qed
qed

definition may_finish :: "store \<Rightarrow> op_key \<Rightarrow> op_state \<Rightarrow> bool" where
  "may_finish s k st \<longleftrightarrow> st \<in> TERMINAL \<and>
     (case map_of (operations_t s) k of Some r \<Rightarrow> state r = Accepted \<longrightarrow> st \<in> FINAL | None \<Rightarrow> True)"

lemma do_finish_moves:
  assumes "do_finish env now rid d op st res c m s = Inr (snap, t)" "may_finish s (d, op) st"
  shows "ledger_moves env s t"
  using assms(1)
proof (cases rule: do_finish_cases)
  case (opened r)
  have "ledger_move env s (finished env now rid (d, op) st res c m s)"
    using opened assms(2) by (intro mv_finish) (auto simp: may_finish_def)
  then show ?thesis using do_event_move [OF opened(3)] by (rule two_moves)
qed simp

lemma device_finish_moves:
  assumes "do_finish env now rid d op st res c m (do_device d s) = Inr (snap, t)" "may_finish (do_device d s) (d, op) st"
  shows "ledger_moves env s t"
  by (rule device_moves [OF do_finish_moves [OF assms]])

lemma do_finish_keeps:
  assumes "do_finish env now rid d op st res c m s = Inr (snap, t)"
  shows "is_dispatcher t = is_dispatcher s"
    and "k \<noteq> (d, op) \<Longrightarrow> map_of (operations_t t) k = map_of (operations_t s) k"
    and "\<exists>r. map_of (operations_t t) (d, op) = Some r \<and> (state r \<in> FINAL \<or> state r = st)"
  using assms
  by (cases rule: do_finish_cases;
      auto simp: do_event_keeps finished_views finish_row_keeps; simp add: finished_def set_op_def do_event_keeps)+

lemma purge_events_moves: "ledger_moves env s (do_purge_events now d s)"
proof (cases "expired_seqs now d s")
  case (Cons x xs)
  let ?n = "fold max xs x"
  have "?n \<in> set (expired_seqs now d s)"
    unfolding Cons by (metis Max.set_eq_fold Max_in List.finite_set list.set_intros(1) empty_iff)
  then have "(d, ?n) \<in> fst ` set (events_t s)"
    by (auto simp: expired_seqs_def select_where_def intro: rev_image_eqI)
  then have "map_of (events_t s) (d, ?n) \<noteq> None" by (simp add: map_of_eq_None_iff)
  then have "ledger_move env s (trimmed d ?n s)" by (rule mv_trim)
  then show ?thesis by (simp add: do_purge_events_def Cons trimmed_def Let_def r_into_rtranclp)
qed (simp add: do_purge_events_def)

text \<open>\<open>accept\<close> either answers a repeated request or admits a fresh operation.\<close>

definition admitted :: "broker_env \<Rightarrow> time \<Rightarrow> string \<Rightarrow> op_request \<Rightarrow> store \<Rightarrow> store" where
  "admitted env now d req s =
     (let k = (d, r_operation_id req) in
      s\<lparr>operations_t := operations_t s @ [(k, new_op_row now (r_flow_id req) (sha256 env (canonical (request_json req))))],
        payloads_t := payloads_t s @ [(k, \<lparr>p_cipher = do_encrypt env (request_json req),
          p_expires_at = now + seconds (payload_ttl_seconds (settings env))\<rparr>)],
        outbox_t := outbox_t s @ [(k, \<lparr>b_state = Pending, claimed_at = None\<rparr>)]\<rparr>)"

lemma accept_cases:
  assumes "accept env now d req s = Inr ((snap, new), t)"
  obtains (again) r where "map_of (operations_t s) (d, r_operation_id req) = Some r"
      "digest r = sha256 env (canonical (request_json req))" "\<not> new" "t = do_device d s"
      "do_snapshot env now (r_operation_id req) r = Inr snap"
  | (fresh) "map_of (operations_t s) (d, r_operation_id req) = None" "new"
      "map_of (payloads_t s) (d, r_operation_id req) = None" "map_of (outbox_t s) (d, r_operation_id req) = None"
      "pending_count d (do_device d s) < max_pending_per_device (settings env)"
      "do_event env now d (r_operation_id req) (admitted env now d req (do_device d s)) = Inr (snap, t)"
proof (cases "map_of (operations_t s) (d, r_operation_id req)")
  case None
  with assms show thesis by (intro fresh) (auto simp: accept_def Let_def admitted_def)
next
  case (Some r)
  with assms show thesis by (intro again) (auto simp: accept_def Let_def split: if_splits)
qed

lemma admitted_move:
  assumes "map_of (operations_t s) (d, r_operation_id req) = None" "map_of (payloads_t s) (d, r_operation_id req) = None"
    "map_of (outbox_t s) (d, r_operation_id req) = None" "map_of (devices_t s) d \<noteq> None"
    "pending_count d s < max_pending_per_device (settings env)"
  shows "ledger_move env s (admitted env now d req s)"
proof -
  have "payload_of env (d, r_operation_id req) (r_flow_id req) (sha256 env (canonical (request_json req)))
      (p_cipher \<lparr>p_cipher = do_encrypt env (request_json req),
        p_expires_at = now + seconds (payload_ttl_seconds (settings env))\<rparr>)"
    by (auto simp: payload_of_def)
  with assms show ?thesis unfolding admitted_def Let_def by (intro mv_accept) simp_all
qed

lemma accept_moves:
  assumes "accept env now d req s = Inr ((snap, new), t)"
  shows "ledger_moves env s t"
  using assms
proof (cases rule: accept_cases)
  case (again r)
  show ?thesis unfolding again(4) by (rule device_moves [of _ d]) simp
next
  case fresh
  have "ledger_move env (do_device d s) (admitted env now d req (do_device d s))"
    using fresh by (intro admitted_move) simp_all
  then show ?thesis using do_event_move [OF fresh(6)] by (rule device_moves [OF two_moves])
qed

text \<open>\<open>claim\<close> finds nothing, fails an operation whose content is gone, or hands one out.\<close>

definition claimed_op :: "time \<Rightarrow> op_key \<Rightarrow> store \<Rightarrow> store" where
  "claimed_op now k s = set_op k (\<lambda>q. q\<lparr>state := Running, updated_at := now\<rparr>)
     (s\<lparr>outbox_t := update_row k (\<lambda>b. b\<lparr>b_state := Claimed, claimed_at := Some now\<rparr>) (outbox_t s)\<rparr>)"

lemma claim_candidates_hd:
  assumes "claim_candidates s = (k, r) # rest" "keys_ok (operations_t s)"
  shows "map_of (operations_t s) k = Some r" "state r = Accepted" "\<not> flow_active s (fst k) (flow_id r)"
  using sort_key_Cons_in [OF assms(1) [unfolded claim_candidates_def]] assms(2)
  by (auto simp: select_where_lookup)

lemma claim_cases:
  assumes "claim env now rid s = Inr (c, t)" "inv_keys s"
  obtains (idle) "c = None" "t = s" "is_dispatcher s"
  | (failed) k r code msg snap rest where "c = None" "claim_candidates s = (k, r) # rest" "is_dispatcher s"
      "do_finish env now rid (fst k) (snd k) Failed None (Some code) (Some msg) (do_device (fst k) s) = Inr (snap, t)"
  | (handed) k r p req atts aids snap rest where "claim_candidates s = (k, r) # rest" "is_dispatcher s"
      "map_of (payloads_t s) k = Some p" "now < p_expires_at p" "do_decrypt env (p_cipher p) = Inr req"
      "jstrings (jget req ''artifact_ids'') = Inr aids"
      "map_r (\<lambda>a. do_artifact env now (fst k) a (do_device (fst k) s)) aids = Inr atts"
      "c = Some \<lparr>cl_device = fst k, cl_request = req, cl_attachments = atts\<rparr>"
      "do_event env now (fst k) (snd k) (claimed_op now k (do_device (fst k) s)) = Inr (snap, t)"
proof -
  have disp: "is_dispatcher s" using assms(1) by (auto simp: claim_def split: if_splits)
  show thesis
  proof (cases "claim_candidates s")
    case Nil
    then show thesis using assms(1) disp by (intro idle) (auto simp: claim_def)
  next
    case (Cons x rest)
    obtain d op r where x: "x = ((d, op), r)" by (metis surj_pair)
    have r: "map_of (operations_t s) (d, op) = Some r" "state r = Accepted"
      using claim_candidates_hd [OF Cons [unfolded x]] assms(2) by (auto simp: inv_keys_def)
    note here = assms(1) disp Cons x r
    note failed' = failed [of "(d, op)" r rest, unfolded fst_conv snd_conv, OF _ Cons [unfolded x] disp]
    note handed' = handed [of "(d, op)" r rest, unfolded fst_conv snd_conv, OF Cons [unfolded x] disp]
    show thesis
    proof (cases "map_of (payloads_t s) (d, op)")
      case None
      then show thesis using here by (auto simp: claim_def do_row_def Let_def intro: failed')
    next
      case (Some p)
      show thesis
      proof (cases "p_expires_at p \<le> now")
        case True
        then show thesis using here Some by (auto simp: claim_def do_row_def Let_def intro: failed')
      next
        case False
        then obtain req aids where req: "do_decrypt env (p_cipher p) = Inr req" "jhas req ''artifact_ids''"
          "jstrings (jget req ''artifact_ids'') = Inr aids"
          using here Some by (auto simp: claim_def do_row_def Let_def split: if_splits)
        note now = here Some False req
        show thesis
        proof (cases "map_r (\<lambda>a. do_artifact env now d a (do_device d s)) aids")
          case (Inl e)
          then show thesis using now
            by (auto simp: claim_def do_row_def Let_def intro: failed' split: exn.splits)
        next
          case (Inr atts)
          then show thesis using now
            by (auto simp: claim_def do_row_def Let_def claimed_op_def intro!: handed')
        qed
      qed
    qed
  qed
qed

lemma claim_moves:
  assumes "claim env now rid s = Inr (c, t)" "inv_keys s"
  shows "ledger_moves env s t"
  using assms
proof (cases rule: claim_cases)
  case (failed k r code msg snap rest)
  have "may_finish (do_device (fst k) s) (fst k, snd k) Failed"
    by (simp add: may_finish_def FINAL_simps split: option.split)
  with failed(4) show ?thesis by (rule device_finish_moves)
next
  case (handed k r p req atts aids snap rest)
  have "ledger_move env (do_device (fst k) s) (claimed_op now k (do_device (fst k) s))"
    unfolding claimed_op_def using claim_candidates_hd [OF handed(1)] assms(2)
    by (intro mv_claim) (simp_all add: inv_keys_def flow_active_def)
  then show ?thesis using do_event_move [OF handed(9)] by (rule device_moves [OF two_moves])
qed simp

lemma finish_moves:
  assumes "finish env now rid d op st res c m s = Inr (snap, t)"
    and "\<And>r. map_of (operations_t s) (d, op) = Some r \<Longrightarrow> state r \<noteq> Accepted"
  shows "ledger_moves env s t"
proof -
  obtain st' res' c' m' where f: "do_finish env now rid d op st' res' c' m' (do_device d s) = Inr (snap, t)" "st' \<in> TERMINAL"
    using assms(1) by (auto simp: finish_def FINAL_simps split: if_splits)
  have "may_finish (do_device d s) (d, op) st'"
    using f(2) assms(2) by (auto simp: may_finish_def split: option.split)
  then show ?thesis by (rule device_finish_moves [OF f(1)])
qed

lemma save_handle_cases:
  assumes "save_handle env now d op h s = Inr t"
  obtains (kept) "t = do_device d s"
  | (saved) r snap where "map_of (operations_t s) (d, op) = Some r" "state r \<notin> FINAL" "h \<noteq> []"
      "remote_task_id r = None \<or> remote_task_id r = Some []"
      "do_event env now d op (set_op (d, op) (\<lambda>q. q\<lparr>remote_task_id := Some h, updated_at := now\<rparr>) (do_device d s)) = Inr (snap, t)"
proof -
  obtain r where r: "map_of (operations_t s) (d, op) = Some r" "h \<noteq> []"
    using assms by (auto simp: save_handle_def Let_def split: if_splits)
  show thesis
    using assms r kept saved [OF r(1)]
    by (auto simp: save_handle_def Let_def do_row_def split: if_splits option.splits)
qed

lemma save_handle_moves:
  assumes "save_handle env now d op h s = Inr t"
    and "\<And>r. map_of (operations_t s) (d, op) = Some r \<Longrightarrow> state r \<noteq> Accepted"
  shows "ledger_moves env s t"
  using assms(1)
proof (cases rule: save_handle_cases)
  case kept
  show ?thesis unfolding kept by (rule device_moves [of _ d]) simp
next
  case (saved r snap)
  have "state r \<in> {Running, OutcomeUnknown}"
    using saved(2) assms(2) [OF saved(1)] op_state_cases by blast
  then have "ledger_move env (do_device d s) (set_op (d, op) (\<lambda>q. q\<lparr>remote_task_id := Some h, updated_at := now\<rparr>) (do_device d s))"
    using saved by (intro mv_handle) simp_all
  then show ?thesis using do_event_move [OF saved(5)] by (rule device_moves [OF two_moves])
qed

lemma recover_rows_moves:
  assumes "recover_rows env now uuid4 i ks s = Inr t"
    and "\<And>k. k \<in> set ks \<Longrightarrow> \<exists>r. map_of (operations_t s) k = Some r \<and> state r \<noteq> Accepted"
  shows "ledger_moves env s t"
  using assms
proof (induction ks arbitrary: i s)
  case (Cons k ks)
  obtain d op where k: "k = (d, op)" by (cases k)
  obtain snap s1 where f: "do_finish env now (uuid4 i) d op OutcomeUnknown None (Some ''restart_unknown'')
       (Some ''dispatcher restarted after dispatch was claimed; no resend'') (do_device d s) = Inr (snap, s1)"
    and rest: "recover_rows env now uuid4 (Suc i) ks s1 = Inr t"
    using Cons.prems(1) by (auto simp: k)
  have "may_finish (do_device d s) (d, op) OutcomeUnknown"
    using Cons.prems(2) [of k] by (auto simp: may_finish_def FINAL_simps k)
  with f have one: "ledger_moves env s s1" by (rule device_finish_moves)
  have "ledger_moves env s1 t"
  proof (rule Cons.IH [OF rest])
    fix k' assume "k' \<in> set ks"
    then obtain r where r: "map_of (operations_t s) k' = Some r" "state r \<noteq> Accepted"
      using Cons.prems(2) [of k'] by auto
    then show "\<exists>r. map_of (operations_t s1) k' = Some r \<and> state r \<noteq> Accepted"
      using moves_row_to [OF one r(1)] by (auto simp: row_le_def)
  qed
  with one show ?case by (rule rtranclp_trans)
qed simp

lemma recover_moves:
  assumes "recover env now uuid4 s = Inr t" "inv_keys s"
  shows "ledger_moves env s t"
proof -
  have "recover_rows env now uuid4 0 (map fst (select_where (\<lambda>_ r. state r = Running) (operations_t s))) s = Inr t"
    using assms(1) by (auto simp: recover_def split: if_splits)
  then show ?thesis
    by (rule recover_rows_moves) (use assms(2) in \<open>auto simp: select_where_lookup inv_keys_def\<close>)
qed

lemma polled_moves:
  "(\<And>k r. (k, r) \<in> set rows \<Longrightarrow> \<exists>q. map_of (operations_t s) k = Some q \<and> state q \<notin> FINAL) \<Longrightarrow>
   ledger_moves env s (s\<lparr>operations_t := fold (\<lambda>(k, _). update_row k (\<lambda>q. q\<lparr>polled_at := Some now\<rparr>)) rows (operations_t s)\<rparr>)"
proof (induction rows arbitrary: s)
  case (Cons x rows)
  obtain k r where x: "x = (k, r)" by (cases x)
  let ?s1 = "set_op k (\<lambda>q. q\<lparr>polled_at := Some now\<rparr>) s"
  obtain q where "map_of (operations_t s) k = Some q" "state q \<notin> FINAL" using Cons.prems [of k r] x by auto
  then have one: "ledger_move env s ?s1" by (rule mv_polled)
  have "ledger_moves env ?s1 (?s1\<lparr>operations_t := fold (\<lambda>(k, _). update_row k (\<lambda>q. q\<lparr>polled_at := Some now\<rparr>)) rows (operations_t ?s1)\<rparr>)"
  proof (rule Cons.IH)
    fix k' r' assume "(k', r') \<in> set rows"
    then obtain q' where "map_of (operations_t s) k' = Some q'" "state q' \<notin> FINAL" using Cons.prems [of k' r'] by auto
    then show "\<exists>q. map_of (operations_t ?s1) k' = Some q \<and> state q \<notin> FINAL" by (auto simp: set_op_views)
  qed
  with one have "ledger_moves env s (?s1\<lparr>operations_t := fold (\<lambda>(k, _). update_row k (\<lambda>q. q\<lparr>polled_at := Some now\<rparr>)) rows (operations_t ?s1)\<rparr>)"
    by (rule converse_rtranclp_into_rtranclp)
  then show ?case by (simp add: x set_op_def)
qed simp

lemma reconcilable_moves:
  assumes "inv_keys s"
  shows "ledger_moves env s (snd (reconcilable now s))"
  unfolding reconcilable_def Let_def snd_conv
  by (rule polled_moves) (use assms in \<open>auto dest!: in_set_takeD simp: select_where_lookup inv_keys_def FINAL_def\<close>)

lemma cancel_intent_cases:
  assumes "cancel_intent env now rid d op s = Inr ((snap, h), t)"
  obtains (accepted) r where "map_of (operations_t s) (d, op) = Some r" "state r = Accepted" "h = None"
      "do_finish env now rid d op Canceled None None None (do_device d s) = Inr (snap, t)"
  | (ignored) r where "map_of (operations_t s) (d, op) = Some r" "state r \<in> FINAL \<or> cancel_requested r" "state r \<noteq> Accepted"
      "h = None" "t = do_device d s"
  | (requested) r where "map_of (operations_t s) (d, op) = Some r" "state r \<in> {Running, OutcomeUnknown}" "\<not> cancel_requested r"
      "h = remote_task_id r"
      "do_event env now d op (set_op (d, op) (\<lambda>q. q\<lparr>cancel_requested := True,
               error_code := Some ''cancel_unconfirmed'',
               error_message := Some ''cancellation is best effort; underlying execution may continue'',
               updated_at := now\<rparr>) (do_device d s)) = Inr (snap, t)"
proof -
  obtain r where r: "map_of (operations_t s) (d, op) = Some r"
    using assms by (auto simp: cancel_intent_def Let_def)
  note here = assms [unfolded cancel_intent_def Let_def do_row_def] r
  consider "state r = Accepted" | "state r \<noteq> Accepted" "state r \<in> FINAL \<or> cancel_requested r"
    | "state r \<in> {Running, OutcomeUnknown}" "\<not> cancel_requested r" "state r \<noteq> Accepted" "state r \<notin> FINAL"
    using op_state_cases [of "state r"] by (auto simp: FINAL_def)
  then show thesis
  proof cases
    case 1
    then show thesis using here by (intro accepted) auto
  next
    case 2
    then show thesis using here by (intro ignored) auto
  next
    case 3
    then show thesis using here by (intro requested) auto
  qed
qed

lemma cancel_intent_moves:
  assumes "cancel_intent env now rid d op s = Inr ((snap, h), t)"
  shows "ledger_moves env s t"
  using assms
proof (cases rule: cancel_intent_cases)
  case (accepted r)
  have "may_finish (do_device d s) (d, op) Canceled" by (simp add: may_finish_def FINAL_simps split: option.split)
  with accepted(4) show ?thesis by (rule device_finish_moves)
next
  case (ignored r)
  show ?thesis unfolding ignored(5) by (rule device_moves [of _ d]) simp
next
  case (requested r)
  then show ?thesis
    by (intro device_moves [of _ d, OF two_moves [OF mv_cancel_request do_event_move]]) simp_all
qed

lemma claim_cancel_cases:
  assumes "claim_cancel s = Inr (x, t)" "inv_keys s"
  obtains (idle) "x = None" "t = s"
  | (taken) d op r h where "x = Some (d, op, h)" "map_of (operations_t s) (d, op) = Some r" "remote_task_id r = Some h"
      "cancel_requested r" "\<not> cancel_claimed r" "state r \<in> {Running, OutcomeUnknown}"
      "t = set_op (d, op) (\<lambda>q. q\<lparr>cancel_claimed := True\<rparr>) (do_device d s)"
proof -
  let ?l = "sort_key (\<lambda>(k, r). updated_at r) (select_where (\<lambda>_ r. cancel_requested r \<and> \<not> cancel_claimed r
                 \<and> remote_task_id r \<noteq> None \<and> state r \<in> {Running, OutcomeUnknown}) (operations_t s))"
  show thesis
  proof (cases ?l)
    case Nil
    then show thesis using assms(1) by (intro idle) (auto simp: claim_cancel_def split: if_splits)
  next
    case (Cons y ys)
    obtain d op r where y: "y = ((d, op), r)" by (metis surj_pair)
    have "((d, op), r) \<in> set (select_where (\<lambda>_ r. cancel_requested r \<and> \<not> cancel_claimed r
        \<and> remote_task_id r \<noteq> None \<and> state r \<in> {Running, OutcomeUnknown}) (operations_t s))"
      using sort_key_Cons_in [OF Cons] y by simp
    then have r: "map_of (operations_t s) (d, op) = Some r" "cancel_requested r" "\<not> cancel_claimed r"
        "remote_task_id r \<noteq> None" "state r \<in> {Running, OutcomeUnknown}"
      using assms(2) by (simp_all add: select_where_lookup inv_keys_def)
    moreover have "state r \<notin> FINAL" using r(5) by (auto simp: FINAL_def)
    ultimately show thesis
      using assms(1) Cons y taken by (auto simp: claim_cancel_def Let_def do_row_def split: if_splits)
  qed
qed

lemma claim_cancel_moves:
  assumes "claim_cancel s = Inr (x, t)" "inv_keys s"
  shows "ledger_moves env s t"
  using assms
proof (cases rule: claim_cancel_cases)
  case (taken d op r h)
  have "ledger_move env (do_device d s) t" unfolding taken(7) using taken by (intro mv_cancel_claim) simp_all
  then show ?thesis by (rule device_move)
qed simp

lemma events_moves:
  assumes "events env now d after limit s = Inr (out, t)"
  shows "ledger_moves env s t"
proof -
  have "t = do_purge_events now d (do_device d s)"
    using assms by (auto simp: events_def Let_def split: option.splits if_splits)
  then show ?thesis by (simp add: device_moves [OF purge_events_moves])
qed

lemma receipt_moves:
  assumes "receipt now d op rid st s = Inr t"
  shows "ledger_moves env s t"
proof -
  obtain r where r: "map_of (operations_t s) (d, op) = Some r" "result_id r = Some rid"
    and t: "t = (do_device d s)\<lparr>receipts_t := insert_ignore (d, op, rid, st) now (receipts_t (do_device d s))\<rparr>"
    using assms by (auto simp: receipt_def Let_def split: if_splits)
  have "ledger_move env (do_device d s) t" unfolding t using r by (intro mv_receipt) simp_all
  then show ?thesis by (rule device_move)
qed

lemma put_artifact_cases:
  assumes "put_artifact env now aid d content dig ct s = Inr (desc, t)"
  obtains row s2 where "s2 = (do_device d s)\<lparr>artifacts_t := delete_where (\<lambda>k v. fst k = d \<and> a_expires_at v \<le> now) (artifacts_t s)\<rparr>"
    "row = \<lparr>a_sha256 = dig, a_size = int (length content), a_content_type = ct, a_cipher = fernet_encrypt env content,
       a_expires_at = now + seconds (artifact_ttl_seconds (settings env))\<rparr>"
    "artifact_bytes d s2 + a_size row \<le> device_quota_bytes (settings env)" "map_of (artifacts_t s2) (d, aid) = None"
    "t = s2\<lparr>artifacts_t := artifacts_t s2 @ [((d, aid), row)]\<rparr>" "desc = do_descriptor aid row" "sha256 env content = dig"
  using assms by (auto simp: put_artifact_def Let_def split: if_splits)

lemma put_artifact_moves:
  assumes "put_artifact env now aid d content dig ct s = Inr (desc, t)"
  shows "ledger_moves env s t"
proof -
  from put_artifact_cases [OF assms] obtain row s2 where p:
    "s2 = (do_device d s)\<lparr>artifacts_t := delete_where (\<lambda>k v. fst k = d \<and> a_expires_at v \<le> now) (artifacts_t s)\<rparr>"
    "row = \<lparr>a_sha256 = dig, a_size = int (length content), a_content_type = ct, a_cipher = fernet_encrypt env content,
       a_expires_at = now + seconds (artifact_ttl_seconds (settings env))\<rparr>"
    "artifact_bytes d s2 + a_size row \<le> device_quota_bytes (settings env)" "map_of (artifacts_t s2) (d, aid) = None"
    "t = s2\<lparr>artifacts_t := artifacts_t s2 @ [((d, aid), row)]\<rparr>" .
  have "ledger_move env (do_device d s) s2"
    using mv_drop_artifacts [of env "do_device d s"] by (simp add: p(1))
  moreover have "ledger_move env s2 t"
    unfolding p(5) using p(1-4) by (intro mv_put_artifact) simp_all
  ultimately show ?thesis by (rule device_moves [OF two_moves])
qed

lemma purge_moves: "ledger_moves env s (purge now s)"
proof -
  have "ledger_moves env s (fold (\<lambda>d t. do_purge_events now d (do_device d t)) ds s)" for ds
  proof (induction ds arbitrary: s)
    case (Cons d ds)
    have "ledger_moves env s (do_purge_events now d (do_device d s))"
      by (rule device_moves [OF purge_events_moves])
    with Cons.IH show ?case by (simp add: rtranclp_trans)
  qed simp
  moreover have "purge now s = expire_content now (fold (\<lambda>d t. do_purge_events now d (do_device d t)) (sort (map fst (devices_t s))) s)"
    by (simp add: purge_def expire_content_def Let_def)
  ultimately show ?thesis
    by (simp only:) (rule rtranclp.rtrancl_into_rtrancl [where r = "ledger_move env", OF _ mv_expire])
qed

section \<open>The labelled step relation\<close>

datatype broker_label =
    LAccept string op_request json bool
  | LClaim "claim_t option"
  | LFinish op_key op_state
  | LHandle op_key string
  | LRecover
  | LReconcilable "(op_key \<times> string) list"
  | LCancel op_key json
  | LClaimCancel "(string \<times> string \<times> string) option"
  | LEvents string int "(int \<times> json) list"
  | LReceipt op_key string string
  | LPutArtifact string bytes json
  | LPurge
  | LAcquire
  | LRestart

text \<open>
  \<open>finish\<close> and \<open>save_handle\<close> are called by the dispatcher only, for operations that \<open>claim\<close> or
  \<open>reconcilable\<close> gave it: \<open>dispatched\<close> is that call discipline.
\<close>

definition dispatched :: "store \<Rightarrow> op_key \<Rightarrow> bool" where
  "dispatched s k \<longleftrightarrow> (\<forall>r. map_of (operations_t s) k = Some r \<longrightarrow> state r \<noteq> Accepted)"

inductive broker_step :: "broker_env \<Rightarrow> store \<Rightarrow> broker_label \<Rightarrow> store \<Rightarrow> bool" for env where
  st_accept: "accept env now d req s = Inr ((snap, new), t) \<Longrightarrow> broker_step env s (LAccept d req snap new) t"
| st_claim: "claim env now rid s = Inr (c, t) \<Longrightarrow> broker_step env s (LClaim c) t"
| st_finish: "finish env now rid d op st res c m s = Inr (snap, t) \<Longrightarrow> dispatched s (d, op) \<Longrightarrow> broker_step env s (LFinish (d, op) st) t"
| st_handle: "save_handle env now d op h s = Inr t \<Longrightarrow> dispatched s (d, op) \<Longrightarrow> broker_step env s (LHandle (d, op) h) t"
| st_recover: "recover env now uuid4 s = Inr t \<Longrightarrow> broker_step env s LRecover t"
| st_reconcilable: "reconcilable now s = (rows, t) \<Longrightarrow> broker_step env s (LReconcilable rows) t"
| st_cancel: "cancel_intent env now rid d op s = Inr ((snap, h), t) \<Longrightarrow> broker_step env s (LCancel (d, op) snap) t"
| st_claim_cancel: "claim_cancel s = Inr (x, t) \<Longrightarrow> broker_step env s (LClaimCancel x) t"
| st_events: "events env now d after limit s = Inr (out, t) \<Longrightarrow> broker_step env s (LEvents d after out) t"
| st_receipt: "receipt now d op rid st s = Inr t \<Longrightarrow> broker_step env s (LReceipt (d, op) rid st) t"
| st_put_artifact: "put_artifact env now aid d content dig ct s = Inr (desc, t) \<Longrightarrow> broker_step env s (LPutArtifact d content desc) t"
| st_purge: "broker_step env s LPurge (purge now s)"
| st_acquire: "acquire_dispatcher ok s = Inr t \<Longrightarrow> broker_step env s LAcquire t"
| st_restart: "broker_step env s LRestart (s\<lparr>is_dispatcher := False\<rparr>)"

inductive_cases claim_stepE: "broker_step env s (LClaim c) t"
inductive_cases claim_cancel_stepE: "broker_step env s (LClaimCancel x) t"

lemma broker_step_moves:
  assumes "broker_step env s l t" "inv_keys s"
  shows "ledger_moves env s t"
  using assms
proof (cases rule: broker_step.cases)
  case (st_reconcilable now rows)
  then show ?thesis using reconcilable_moves [OF assms(2), of env now] by simp
next
  case (st_acquire ok)
  then show ?thesis by (auto simp: acquire_dispatcher_def intro: mv_dispatcher split: if_splits)
qed (auto simp: dispatched_def intro: accept_moves claim_moves finish_moves save_handle_moves recover_moves cancel_intent_moves
      claim_cancel_moves events_moves receipt_moves put_artifact_moves purge_moves mv_dispatcher r_into_rtranclp)

interpretation broker_run: invariant_system "broker_step env" "ledger_inv env" for env
proof
  fix s l t assume "ledger_inv env s" "broker_step env s l t"
  then show "ledger_inv env t"
    using ledger_inv_moves broker_step_moves by (simp add: ledger_inv_def) blast
qed

lemma empty_inv: "0 \<le> max_pending_per_device (settings env) \<Longrightarrow> 0 \<le> device_quota_bytes (settings env) \<Longrightarrow>
    ledger_inv env empty_store"
  by (simp add: ledger_inv_def empty_store_def inv_keys_def inv_refs_def inv_log_def inv_rows_def inv_flow_def
      inv_bounds_def inv_payload_def pending_count_def artifact_bytes_def select_where_def)

lemma request_sorted: "jsort (request_json q) = JObj [(''artifact_ids'', JList (map JStr (r_artifact_ids q))),
   (''flow_id'', JStr (r_flow_id q)), (''operation_id'', JStr (r_operation_id q)), (''prompt'', JStr (r_prompt q))]"
  by (simp add: request_json_def comp_def)

section \<open>Dispatch at most once\<close>

definition claim_key :: "claim_t \<Rightarrow> op_key option" where
  "claim_key c = (case jget (cl_request c) ''operation_id'' of JStr op \<Rightarrow> Some (cl_device c, op) | _ \<Rightarrow> None)"

fun dispatches :: "broker_label \<Rightarrow> op_key option" where
  "dispatches (LClaim (Some c)) = claim_key c"
| "dispatches _ = None"

fun cancels :: "broker_label \<Rightarrow> op_key option" where
  "cancels (LClaimCancel (Some (d, op, h))) = Some (d, op)"
| "cancels _ = None"

definition left_accepted :: "store \<Rightarrow> op_key \<Rightarrow> bool" where
  "left_accepted s k \<longleftrightarrow> (case map_of (operations_t s) k of Some r \<Rightarrow> state r \<noteq> Accepted | None \<Rightarrow> False)"

definition cancel_taken :: "store \<Rightarrow> op_key \<Rightarrow> bool" where
  "cancel_taken s k \<longleftrightarrow> (case map_of (operations_t s) k of Some r \<Rightarrow> cancel_claimed r | None \<Rightarrow> False)"

lemma request_json_ok: "json_ok (request_json req)"
  by (simp add: request_json_def list_all_iff)

lemma decrypt_request: "fernet_ok env \<Longrightarrow> do_decrypt env (do_encrypt env (request_json req)) = Inr (jsort (request_json req))"
  by (simp add: do_decrypt_def do_encrypt_def fernet_ok_def loads_canonical [OF request_json_ok])

text \<open>What a claim hands out: the request as the device sent it, of an operation that was waiting.\<close>

lemma claim_hands_out:
  assumes "claim env now rid s = Inr (Some c, t)" "ledger_inv env s" "fernet_ok env"
  obtains k r req where "claim_key c = Some k" "map_of (operations_t s) k = Some r" "state r = Accepted"
    "\<not> flow_active s (fst k) (flow_id r)" "cl_device c = fst k" "snd k = r_operation_id req" "flow_id r = r_flow_id req"
    "cl_request c = jsort (request_json req)" "digest r = sha256 env (canonical (request_json req))"
    "map_of (operations_t t) k = Some (r\<lparr>state := Running, updated_at := now\<rparr>)"
proof -
  have keys: "inv_keys s" using assms(2) by (simp add: ledger_inv_def)
  from assms(1) keys show thesis
  proof (cases rule: claim_cases)
    case (handed k r p req atts aids snap rest)
    have r: "map_of (operations_t s) k = Some r" "state r = Accepted" "\<not> flow_active s (fst k) (flow_id r)"
      using claim_candidates_hd [OF handed(1)] keys by (auto simp: inv_keys_def)
    obtain q where q: "snd k = r_operation_id q" "flow_id r = r_flow_id q" "digest r = sha256 env (canonical (request_json q))"
        "p_cipher p = do_encrypt env (request_json q)"
      using assms(2) handed(3) r(1) unfolding ledger_inv_def inv_payload_def payload_of_def by blast
    have req: "req = jsort (request_json q)" using handed(5) decrypt_request [OF assms(3)] by (simp add: q(4))
    have t: "map_of (operations_t t) k = Some (r\<lparr>state := Running, updated_at := now\<rparr>)"
      using r(1) by (simp add: do_event_keeps [OF handed(9)] claimed_op_def set_op_views)
    have c: "cl_device c = fst k" "cl_request c = req" using handed(8) by simp_all
    then have "claim_key c = Some k" by (simp add: claim_key_def req request_sorted q(1) [symmetric])
    with r q req t c show thesis by (intro that) simp_all
  qed simp_all
qed

interpretation broker_dispatch: at_most_once "broker_step env" "\<lambda>s. fernet_ok env \<and> ledger_inv env s" dispatches left_accepted for env
proof
  fix s l t k
  assume good: "fernet_ok env \<and> ledger_inv env s" and step: "broker_step env s l t"
  then show "fernet_ok env \<and> ledger_inv env t" using broker_run.step_good by blast
  have moves: "ledger_moves env s t" using broker_step_moves [OF step] good by (simp add: ledger_inv_def)
  show "left_accepted t k" if "left_accepted s k"
    using that moves_row_to [OF moves, of k] by (auto simp: left_accepted_def row_le_def split: option.splits)
  show "\<not> left_accepted s k" "left_accepted t k" if take: "dispatches l = Some k"
  proof -
    obtain c where c: "l = LClaim (Some c)" "claim_key c = Some k" using take by (cases l rule: dispatches.cases) auto
    then obtain now rid where claim: "claim env now rid s = Inr (Some c, t)" using step by (auto elim: claim_stepE)
    obtain k' r where "claim_key c = Some k'" "map_of (operations_t s) k' = Some r" "state r = Accepted"
        "map_of (operations_t t) k' = Some (r\<lparr>state := Running, updated_at := now\<rparr>)"
      by (rule claim_hands_out [OF claim]) (use good in auto)
    then show "\<not> left_accepted s k" "left_accepted t k" using c(2) by (simp_all add: left_accepted_def)
  qed
qed

interpretation broker_cancel: at_most_once "broker_step env" "ledger_inv env" cancels cancel_taken for env
proof
  fix s l t k
  assume good: "ledger_inv env s" and step: "broker_step env s l t"
  then have keys: "inv_keys s" by (simp add: ledger_inv_def)
  have moves: "ledger_moves env s t" using broker_step_moves [OF step keys] .
  show "cancel_taken t k" if "cancel_taken s k"
    using that moves_row_to [OF moves, of k] by (auto simp: cancel_taken_def row_le_def split: option.splits)
  show "\<not> cancel_taken s k" "cancel_taken t k" if take: "cancels l = Some k"
  proof -
    obtain d op h where x: "l = LClaimCancel (Some (d, op, h))" "k = (d, op)" using take by (cases l rule: cancels.cases) auto
    then have "claim_cancel s = Inr (Some (d, op, h), t)" using step by (auto elim: claim_cancel_stepE)
    from this keys show "\<not> cancel_taken s k" "cancel_taken t k"
      by (cases rule: claim_cancel_cases; simp add: x(2) cancel_taken_def set_op_views)+
  qed
qed

end
