(* ===== verification/Broker_Properties.thy ===== *)
theory Broker_Properties
  imports Broker_Steps
begin

text \<open>
  The properties of the broker ledger, each over runs of the step relation or over one method, with
  a concrete instance where the property has hypotheses. The instances use the environment
  \<open>demo_env\<close>, whose cipher and digest are identities.
\<close>

section \<open>A concrete environment and run\<close>

definition demo_settings :: broker_settings where
  "demo_settings = \<lparr>payload_ttl_seconds = 86400, artifact_ttl_seconds = 86400, event_ttl_seconds = 604800,
     result_ttl_seconds = 604800, max_artifact_bytes = 4194304, device_quota_bytes = 67108864,
     max_pending_per_device = 2, max_request_bytes = 1048576, max_result_bytes = 1048576, max_concurrent_streams = 4\<rparr>"

definition demo_env :: broker_env where
  "demo_env = \<lparr>settings = demo_settings, sha256 = (\<lambda>m. m), fernet_encrypt = (\<lambda>m. m), fernet_decrypt = Some\<rparr>"

definition demo_req :: "string \<Rightarrow> string \<Rightarrow> op_request" where
  "demo_req op fl = \<lparr>r_operation_id = op, r_flow_id = fl, r_prompt = ''hello'', r_artifact_ids = []\<rparr>"

definition demo_result :: json where
  "demo_result = JObj [(''text'', JStr ''ok'')]"

definition demo_claim :: claim_t where
  "demo_claim = \<lparr>cl_device = ''dev'', cl_request = jsort (request_json (demo_req ''op1'' ''f'')), cl_attachments = []\<rparr>"

definition demo_snap :: "string \<Rightarrow> string option \<Rightarrow> json \<Rightarrow> time \<Rightarrow> json" where
  "demo_snap st rid res now = JObj [(''operation_id'', JStr ''op1''), (''flow_id'', JStr ''f''), (''state'', JStr st),
     (''result_id'', jopt rid), (''result'', res), (''error'', JNull), (''remote_task_id'', JNull),
     (''created_at'', JStr (iso 10)), (''updated_at'', JStr (iso now))]"

definition demo_row :: "op_state \<Rightarrow> string option \<Rightarrow> bytes option \<Rightarrow> time option \<Rightarrow> time \<Rightarrow> op_row" where
  "demo_row st rid c x now = (new_op_row 10 ''f'' (sha256 demo_env (canonical (request_json (demo_req ''op1'' ''f'')))))
     \<lparr>state := st, result_id := rid, result_cipher := c, result_expires_at := x, updated_at := now\<rparr>"

definition demo_log :: "json \<Rightarrow> time \<Rightarrow> event_row" where
  "demo_log snap now = \<lparr>e_cipher = do_encrypt demo_env snap, e_expires_at = now + 604800000000\<rparr>"

text \<open>The ledger before the operation, after its acceptance, its dispatch and its completion.\<close>

definition demo0 :: store where "demo0 = empty_store\<lparr>is_dispatcher := True\<rparr>"

definition demo1 :: store where
  "demo1 = demo0\<lparr>devices_t := [(''dev'', \<lparr>dev_sequence = 1, dev_floor = 0\<rparr>)],
     operations_t := [((''dev'', ''op1''), demo_row Accepted None None None 10)],
     payloads_t := [((''dev'', ''op1''), \<lparr>p_cipher = do_encrypt demo_env (request_json (demo_req ''op1'' ''f'')), p_expires_at = 86400000010\<rparr>)],
     outbox_t := [((''dev'', ''op1''), \<lparr>b_state = Pending, claimed_at = None\<rparr>)],
     events_t := [((''dev'', 1), demo_log (demo_snap ''accepted'' None JNull 10) 10)]\<rparr>"

definition demo2 :: store where
  "demo2 = demo1\<lparr>devices_t := [(''dev'', \<lparr>dev_sequence = 2, dev_floor = 0\<rparr>)],
     operations_t := [((''dev'', ''op1''), demo_row Running None None None 20)],
     outbox_t := [((''dev'', ''op1''), \<lparr>b_state = Claimed, claimed_at = Some 20\<rparr>)],
     events_t := events_t demo1 @ [((''dev'', 2), demo_log (demo_snap ''running'' None JNull 20) 20)]\<rparr>"

definition demo3 :: store where
  "demo3 = demo2\<lparr>devices_t := [(''dev'', \<lparr>dev_sequence = 3, dev_floor = 0\<rparr>)],
     operations_t := [((''dev'', ''op1''), demo_row Completed (Some ''r1'') (Some (do_encrypt demo_env demo_result)) (Some 604800000030) 30)],
     payloads_t := [], outbox_t := [((''dev'', ''op1''), \<lparr>b_state = Done, claimed_at = Some 20\<rparr>)],
     events_t := events_t demo2 @ [((''dev'', 3), demo_log (demo_snap ''completed'' (Some ''r1'') demo_result 30) 30)]\<rparr>"

lemma demo_fernet [simp]: "fernet_ok demo_env"
  by (simp add: fernet_ok_def demo_env_def)

lemma demo_settings_simp [simp]: "settings demo_env = demo_settings"
  by (simp add: demo_env_def)

lemma decrypt_encrypt: "fernet_ok env \<Longrightarrow> json_ok v \<Longrightarrow> do_decrypt env (do_encrypt env v) = Inr (jsort v)"
  by (simp add: do_decrypt_def do_encrypt_def fernet_ok_def loads_canonical)

lemma decrypt_demo_result: "do_decrypt demo_env (do_encrypt demo_env demo_result) = Inr demo_result"
  using decrypt_encrypt [of demo_env demo_result] by (simp add: demo_result_def)

lemma demo_result_ok [simp]: "json_ok demo_result"
  by (simp add: demo_result_def)

lemma demo_result_small: "length (canonical demo_result) = 13"
  by code_simp

lemma demo_req_simps [simp]:
  "r_operation_id (demo_req op fl) = op" "r_flow_id (demo_req op fl) = fl" "r_prompt (demo_req op fl) = ''hello''"
  "r_artifact_ids (demo_req op fl) = []"
  by (simp_all add: demo_req_def)

lemmas run_defs = accept_def claim_def finish_def do_event_def do_row_def do_device_def do_finish_def finish_row_def set_op_def
  do_snapshot_def snapshot_result_def error_json_def insert_ignore_def insert_row_def pending_count_def select_where_def
  claim_candidates_def flow_active_def new_op_row_def delete_where_def FINAL_simps seconds_def
  request_sorted decrypt_request decrypt_demo_result demo_result_small

lemmas demo_defs = demo0_def empty_store_def demo_settings_def demo_snap_def demo_row_def demo_log_def

lemma demo1_step: "accept demo_env 10 ''dev'' (demo_req ''op1'' ''f'') demo0 = Inr ((demo_snap ''accepted'' None JNull 10, True), demo1)"
  by (simp add: demo1_def run_defs demo_defs Let_def)

lemma demo2_step: "claim demo_env 20 ''r1'' demo1 = Inr (Some demo_claim, demo2)"
  by (simp add: demo2_def demo1_def demo_claim_def run_defs demo_defs Let_def)

lemma demo3_step:
  "finish demo_env 30 ''r1'' ''dev'' ''op1'' Completed (Some demo_result) None None demo2 =
     Inr (demo_snap ''completed'' (Some ''r1'') demo_result 30, demo3)"
  by (simp add: demo3_def demo2_def demo1_def run_defs demo_defs Let_def)

lemma demo_ops:
  "operations_t demo1 = [((''dev'', ''op1''), demo_row Accepted None None None 10)]"
  "operations_t demo2 = [((''dev'', ''op1''), demo_row Running None None None 20)]"
  "operations_t demo3 = [((''dev'', ''op1''),
     demo_row Completed (Some ''r1'') (Some (do_encrypt demo_env demo_result)) (Some 604800000030) 30)]"
  "devices_t demo3 = [(''dev'', \<lparr>dev_sequence = 3, dev_floor = 0\<rparr>)]" "is_dispatcher demo2"
  by (simp_all add: demo1_def demo2_def demo3_def demo0_def)

lemma demo_events: "events_t demo3 = [((''dev'', 1), demo_log (demo_snap ''accepted'' None JNull 10) 10),
    ((''dev'', 2), demo_log (demo_snap ''running'' None JNull 20) 20),
    ((''dev'', 3), demo_log (demo_snap ''completed'' (Some ''r1'') demo_result 30) 30)]"
  by (simp add: demo1_def demo2_def demo3_def)

lemma decrypt_snap: "json_ok res \<Longrightarrow> do_decrypt demo_env (do_encrypt demo_env (demo_snap st rid res now)) = Inr (jsort (demo_snap st rid res now))"
  by (rule decrypt_encrypt) (simp_all add: demo_snap_def, cases rid, simp_all)

lemma demo_row_simps [simp]:
  "state (demo_row st rid c x now) = st" "result_id (demo_row st rid c x now) = rid" "flow_id (demo_row st rid c x now) = ''f''"
  by (simp_all add: demo_row_def new_op_row_def)

lemma demo_trace:
  "broker_step demo_env empty_store LAcquire demo0"
  "broker_step demo_env demo0 (LAccept ''dev'' (demo_req ''op1'' ''f'') (demo_snap ''accepted'' None JNull 10) True) demo1"
  "broker_step demo_env demo1 (LClaim (Some demo_claim)) demo2"
  "broker_step demo_env demo2 (LFinish (''dev'', ''op1'') Completed) demo3"
  by (rule st_acquire [of True], simp add: acquire_dispatcher_def demo0_def, rule st_accept [OF demo1_step],
      rule st_claim [OF demo2_step], rule st_finish [OF demo3_step], simp add: dispatched_def demo2_def demo_row_def)

lemma demo_run: "run (broker_step demo_env) empty_store
   [LAcquire, LAccept ''dev'' (demo_req ''op1'' ''f'') (demo_snap ''accepted'' None JNull 10) True, LClaim (Some demo_claim),
    LFinish (''dev'', ''op1'') Completed] demo3"
  using demo_trace by (meson run_Cons run_Nil)

lemma demo_finish_run: "run (broker_step demo_env) demo2 [LFinish (''dev'', ''op1'') Completed] demo3"
  by (rule run_single, rule demo_trace(4))

lemma demo_bounds [simp]: "0 \<le> max_pending_per_device demo_settings" "0 \<le> device_quota_bytes demo_settings"
  by (simp_all add: demo_settings_def)

lemma run_empty_inv:
  "run (broker_step env) empty_store ls s \<Longrightarrow> 0 \<le> max_pending_per_device (settings env) \<Longrightarrow>
   0 \<le> device_quota_bytes (settings env) \<Longrightarrow> ledger_inv env s"
  by (rule broker_run.run_good [OF _ empty_inv])

lemma demo_invs [simp]: "ledger_inv demo_env demo0" "ledger_inv demo_env demo1" "ledger_inv demo_env demo2" "ledger_inv demo_env demo3"
proof -
  have "ledger_inv demo_env empty_store" by (simp add: empty_inv)
  then show *: "ledger_inv demo_env demo0" using demo_trace(1) by (rule broker_run.step_good)
  show *: "ledger_inv demo_env demo1" using * demo_trace(2) by (rule broker_run.step_good)
  show *: "ledger_inv demo_env demo2" using * demo_trace(3) by (rule broker_run.step_good)
  show "ledger_inv demo_env demo3" using * demo_trace(4) by (rule broker_run.step_good)
qed

section \<open>Runs of the ledger\<close>

text \<open>C1: The ledger invariant holds in every state a run of the broker reaches from an empty schema:
  unique keys and foreign keys, an event log without holes, an outbox and payload table in step with
  the operation states, one open operation per flow, the admission and storage quotas, and stored
  payloads that are the requests the digests were taken of.\<close>

theorem ledger_invariant:
  assumes "run (broker_step env) empty_store ls s"
    and "0 \<le> max_pending_per_device (settings env)" "0 \<le> device_quota_bytes (settings env)"
  shows "ledger_inv env s"
  using assms by (rule run_empty_inv)

theorem ledger_invariant_witness: "ledger_inv demo_env demo3"
  by (rule ledger_invariant [OF demo_run]) simp_all

text \<open>C2: An operation is handed to the dispatcher at most once in any run, restarts, recoveries,
  repeated submissions and cancellations included.\<close>

theorem dispatched_at_most_once:
  assumes "run (broker_step env) s ls t" "ledger_inv env s" "fernet_ok env"
  shows "length (filter (\<lambda>l. dispatches l = Some k) ls) \<le> 1"
  using assms by (intro broker_dispatch.run_takes_count) auto

theorem dispatched_at_most_once_witness:
  "length (filter (\<lambda>l. dispatches l = Some (''dev'', ''op1'')) [LAcquire, LAccept ''dev'' (demo_req ''op1'' ''f'')
     (demo_snap ''accepted'' None JNull 10) True, LClaim (Some demo_claim), LFinish (''dev'', ''op1'') Completed]) \<le> 1 \<and>
   dispatches (LClaim (Some demo_claim)) = Some (''dev'', ''op1'')"
  using dispatched_at_most_once [OF demo_run, of "(''dev'', ''op1'')"]
  by (simp add: empty_inv claim_key_def demo_claim_def request_sorted)

text \<open>Once an operation has left \<open>accepted\<close> - dispatched, canceled before dispatch, failed for an
  expired payload - no later step hands it to the dispatcher.\<close>

theorem settled_never_dispatched:
  assumes "run (broker_step env) s ls t" "ledger_inv env s" "fernet_ok env"
    and "map_of (operations_t s) k = Some r" "state r \<noteq> Accepted"
  shows "\<forall>l \<in> set ls. dispatches l \<noteq> Some k"
proof -
  have "left_accepted s k" using assms(4,5) by (simp add: left_accepted_def)
  then have "Some k \<notin> set (map dispatches ls)"
    using broker_dispatch.run_spent_not_taken [OF assms(1)] assms(2,3) by blast
  then show ?thesis by force
qed

theorem settled_never_dispatched_witness: "dispatches (LFinish (''dev'', ''op1'') Completed) \<noteq> Some (''dev'', ''op1'')"
  using settled_never_dispatched [OF demo_finish_run, of "(''dev'', ''op1'')" "demo_row Running None None None 20"]
  by (simp add: demo_ops)

text \<open>At most one operation of a flow is open (running or of unknown outcome) at any time: two
  open operations of one device and flow are the same operation.\<close>

theorem flow_serialised:
  assumes "run (broker_step env) empty_store ls s"
    and "0 \<le> max_pending_per_device (settings env)" "0 \<le> device_quota_bytes (settings env)"
    and "map_of (operations_t s) (d, op) = Some r" "map_of (operations_t s) (d, op') = Some r'" "flow_id r = flow_id r'"
    and "state r \<in> {Running, OutcomeUnknown}" "state r' \<in> {Running, OutcomeUnknown}"
  shows "op = op'"
proof -
  have "inv_flow s" using run_empty_inv [OF assms(1-3)] by (simp add: ledger_inv_def)
  then show ?thesis using inv_flowD [OF _ assms(4,5) _ assms(6-8)] by simp
qed

theorem flow_serialised_witness:
  "\<exists>r. map_of (operations_t demo2) (''dev'', ''op1'') = Some r \<and> state r \<in> {Running, OutcomeUnknown} \<and> ''op1'' = ''op1''"
proof -
  have r: "map_of (operations_t demo2) (''dev'', ''op1'') = Some (demo_row Running None None None 20)" by (simp add: demo_ops)
  have run: "run (broker_step demo_env) empty_store [LAcquire, LAccept ''dev'' (demo_req ''op1'' ''f'')
      (demo_snap ''accepted'' None JNull 10) True, LClaim (Some demo_claim)] demo2"
    using demo_trace by (meson run_Cons run_Nil)
  have "''op1'' = ''op1''" by (rule flow_serialised [OF run _ _ r r]) simp_all
  with r show ?thesis by simp
qed

text \<open>A cancellation is passed on to the peer at most once.\<close>

theorem cancel_claimed_at_most_once:
  assumes "run (broker_step env) s ls t" "ledger_inv env s"
  shows "length (filter (\<lambda>l. cancels l = Some k) ls) \<le> 1"
  using assms by (rule broker_cancel.run_takes_count)

theorem cancel_claimed_at_most_once_witness:
  "length (filter (\<lambda>l. cancels l = Some (''dev'', ''op1'')) [LAcquire, LAccept ''dev'' (demo_req ''op1'' ''f'')
     (demo_snap ''accepted'' None JNull 10) True, LClaim (Some demo_claim), LFinish (''dev'', ''op1'') Completed]) \<le> 1"
  using cancel_claimed_at_most_once [OF demo_run, of "(''dev'', ''op1'')"] by (simp add: empty_inv)

lemma run_row_to:
  assumes "run (broker_step env) s ls t" "ledger_inv env s" "map_of (operations_t s) k = Some r"
  shows "\<exists>r'. map_of (operations_t t) k = Some r' \<and> row_le r r'"
  using assms
proof (induction arbitrary: r rule: run.induct)
  case (run_Cons s e s1 es s2)
  have "ledger_moves env s s1"
    using broker_step_moves [OF run_Cons.hyps(1)] run_Cons.prems(1) by (simp add: ledger_inv_def)
  then obtain r1 where r1: "map_of (operations_t s1) k = Some r1" "row_le r r1"
    using moves_row_to run_Cons.prems(2) by blast
  moreover have "ledger_inv env s1" using run_Cons.prems(1) run_Cons.hyps(1) by (rule broker_run.step_good)
  ultimately show ?case using run_Cons.IH [OF _ r1(1)] row_le_trans by blast
qed simp

text \<open>C3: A definitive outcome is final: whatever runs afterwards, the row of a completed, failed or
  canceled operation keeps its state, result identifier, error, peer handle and timestamps; only the
  stored result can disappear, at its retention deadline.\<close>

theorem final_outcome_frozen:
  assumes "run (broker_step env) s ls t" "ledger_inv env s" "map_of (operations_t s) k = Some r" "state r \<in> FINAL"
  shows "map_of (operations_t t) k \<in> {Some r, Some (r\<lparr>result_cipher := None\<rparr>)}"
  using run_row_to [OF assms(1-3)] assms(4) by (auto simp: row_le_def)

theorem final_outcome_frozen_witness:
  "map_of (operations_t (purge 40 demo3)) (''dev'', ''op1'') \<in>
     {Some (the (map_of (operations_t demo3) (''dev'', ''op1''))),
      Some ((the (map_of (operations_t demo3) (''dev'', ''op1'')))\<lparr>result_cipher := None\<rparr>)}"
proof (rule final_outcome_frozen)
  show "run (broker_step demo_env) demo3 [LPurge] (purge 40 demo3)" by (rule run_single, rule st_purge)
qed (simp_all add: demo_ops FINAL_def)

text \<open>The identifier of a result appears exactly when the operation becomes terminal and is never
  changed or dropped, also when an unknown outcome is later resolved.\<close>

theorem result_id_stable:
  assumes "run (broker_step env) s ls t" "ledger_inv env s" "map_of (operations_t s) k = Some r"
  shows "\<exists>r'. map_of (operations_t t) k = Some r' \<and> (result_id r' \<noteq> None \<longleftrightarrow> state r' \<in> TERMINAL) \<and>
    (\<forall>x. result_id r = Some x \<longrightarrow> result_id r' = Some x) \<and> flow_id r' = flow_id r \<and> digest r' = digest r"
proof -
  obtain r' where r': "map_of (operations_t t) k = Some r'" "row_le r r'" using run_row_to [OF assms] by blast
  have "inv_rows t" using broker_run.run_good [OF assms(1,2)] by (simp add: ledger_inv_def)
  then have "row_ok r'" using r'(1) by (simp add: inv_rows_def)
  with r' show ?thesis by (auto simp: row_ok_def row_le_def)
qed

theorem result_id_stable_witness:
  "\<exists>r'. map_of (operations_t demo3) (''dev'', ''op1'') = Some r' \<and> (result_id r' \<noteq> None \<longleftrightarrow> state r' \<in> TERMINAL) \<and>
    digest r' = digest (demo_row Running None None None 20)"
  using result_id_stable [OF demo_finish_run demo_invs(3), of "(''dev'', ''op1'')" "demo_row Running None None None 20"]
  by (auto simp: demo_ops)

text \<open>The admission limit and the storage quota hold for every device in every reachable state.\<close>

theorem quotas_respected:
  assumes "run (broker_step env) empty_store ls s"
    and "0 \<le> max_pending_per_device (settings env)" "0 \<le> device_quota_bytes (settings env)"
  shows "pending_count d s \<le> max_pending_per_device (settings env) \<and> artifact_bytes d s \<le> device_quota_bytes (settings env)"
  using run_empty_inv [OF assms] by (simp add: ledger_inv_def inv_bounds_def)

theorem quotas_respected_witness:
  "pending_count ''dev'' demo3 \<le> max_pending_per_device (settings demo_env) \<and>
   artifact_bytes ''dev'' demo3 \<le> device_quota_bytes (settings demo_env)"
  by (rule quotas_respected [OF demo_run]) simp_all

section \<open>Submission\<close>

lemma known_device:
  assumes "ledger_inv env s" "map_of (operations_t s) (d, op) = Some r"
  shows "do_device d s = s"
proof -
  have "d \<in> fst ` dom (map_of (operations_t s))" using assms(2) by (intro image_eqI [of _ _ "(d, op)"]) auto
  moreover have "fst ` dom (map_of (operations_t s)) \<subseteq> dom (map_of (devices_t s))"
    using assms(1) unfolding ledger_inv_def inv_refs_def by (elim conjE)
  ultimately have "map_of (devices_t s) d \<noteq> None" by blast
  then show ?thesis by (auto simp: do_device_def insert_ignore_def)
qed

text \<open>C4: Submission is idempotent. Once a request was accepted, and whatever ran in between, the same
  request is answered with the current snapshot and changes nothing, and a different request under
  the same operation identifier is refused with 409.\<close>

theorem accept_idempotent:
  assumes "accept env now d req s = Inr ((snap, new), t)" "ledger_inv env s" "run (broker_step env) t ls u"
    and "r_operation_id req' = r_operation_id req"
  shows "accept env now' d req' u =
    (if sha256 env (canonical (request_json req')) = sha256 env (canonical (request_json req))
     then bind_r (get_op env now' d (r_operation_id req) u) (\<lambda>snap'. Inr ((snap', False), u))
     else Inl (err ''id_conflict'' ''operation ID already has a different request'' 409))"
proof -
  let ?k = "(d, r_operation_id req)"
  have t: "ledger_inv env t" using assms(1,2) broker_run.step_good st_accept by blast
  obtain r where r: "map_of (operations_t t) ?k = Some r" "digest r = sha256 env (canonical (request_json req))"
    using assms(1)
  proof (cases rule: accept_cases)
    case (again r)
    then show ?thesis by (intro that) simp_all
  next
    case fresh
    then show ?thesis
      by (intro that [of "new_op_row now (r_flow_id req) (sha256 env (canonical (request_json req)))"])
        (simp_all add: do_event_keeps [OF fresh(6)] admitted_def Let_def snoc_upd new_op_row_def del: map_of_append)
  qed
  obtain r' where r': "map_of (operations_t u) ?k = Some r'" "digest r' = digest r"
    using run_row_to [OF assms(3) t r(1)] by (auto simp: row_le_def)
  have "ledger_inv env u" using broker_run.run_good [OF assms(3) t] .
  then have dev: "do_device d u = u" using r'(1) by (rule known_device)
  show ?thesis
    unfolding accept_def get_op_def do_row_def Let_def assms(4) dev r'(1) by (simp add: r'(2) r(2))
qed

theorem accept_idempotent_witness:
  "accept demo_env 50 ''dev'' (demo_req ''op1'' ''f'') demo3 =
     Inr ((demo_snap ''completed'' (Some ''r1'') demo_result 30, False), demo3)"
proof -
  have run: "run (broker_step demo_env) demo1 [LClaim (Some demo_claim), LFinish (''dev'', ''op1'') Completed] demo3"
    using demo_trace(3,4) by (meson run_Cons run_Nil)
  show ?thesis
    using accept_idempotent [OF demo1_step demo_invs(1) run, of "demo_req ''op1'' ''f''" 50]
    by (simp add: get_op_def do_row_def demo_ops demo_row_def new_op_row_def do_snapshot_def snapshot_result_def
        error_json_def decrypt_demo_result demo_snap_def)
qed

text \<open>What the dispatcher is given is what the device submitted: the request behind a claim has the
  digest recorded at acceptance, its own operation and flow identifiers, and its operation was waiting
  with no open operation in its flow.\<close>

theorem claim_hands_out_submission:
  assumes "claim env now rid s = Inr (Some c, t)" "ledger_inv env s" "fernet_ok env"
  shows "\<exists>op r req. claim_key c = Some (cl_device c, op) \<and> map_of (operations_t s) (cl_device c, op) = Some r \<and>
    state r = Accepted \<and> \<not> flow_active s (cl_device c) (flow_id r) \<and>
    cl_request c = jsort (request_json req) \<and> r_operation_id req = op \<and> r_flow_id req = flow_id r \<and>
    digest r = sha256 env (canonical (request_json req)) \<and>
    map_of (operations_t t) (cl_device c, op) = Some (r\<lparr>state := Running, updated_at := now\<rparr>)"
  using assms by (rule claim_hands_out) (metis prod.collapse)

theorem claim_hands_out_submission_witness:
  "\<exists>op r req. claim_key demo_claim = Some (cl_device demo_claim, op) \<and> map_of (operations_t demo1) (cl_device demo_claim, op) = Some r \<and>
    state r = Accepted \<and> \<not> flow_active demo1 (cl_device demo_claim) (flow_id r) \<and>
    cl_request demo_claim = jsort (request_json req) \<and> r_operation_id req = op \<and> r_flow_id req = flow_id r \<and>
    digest r = sha256 demo_env (canonical (request_json req)) \<and>
    map_of (operations_t demo2) (cl_device demo_claim, op) = Some (r\<lparr>state := Running, updated_at := 20\<rparr>)"
  by (rule claim_hands_out_submission [OF demo2_step]) simp_all

section \<open>Event replay\<close>

lemma map_insort_key: "map f (insort_key f x ys) = insort (f x) (map f ys)"
  by (induction ys) auto

lemma map_sort_key: "map f (sort_key f xs) = sort (map f xs)"
  by (induction xs) (simp_all add: map_insort_key)

lemma list_all2_images: "list_all2 (\<lambda>x y. g y = f x) xs ys \<Longrightarrow> map g ys = map f xs"
  by (induction rule: list_all2_induct) auto

lemma log_numbers:
  assumes "inv_keys s" "inv_log s" "map_of (devices_t s) d = Some dev" "dev_floor dev \<le> after"
  shows "map (\<lambda>(k, v). snd k) (sort_key (\<lambda>(k, v). snd k) (select_where (\<lambda>k v. fst k = d \<and> snd k > after) (events_t s)))
    = [after + 1 .. dev_sequence dev]" (is "?l = _")
proof -
  let ?rows = "select_where (\<lambda>k v. fst k = d \<and> snd k > after) (events_t s)"
  have ok: "keys_ok (events_t s)" using assms(1) by (simp add: inv_keys_def)
  have l: "?l = sort (map (\<lambda>(k, v). snd k) ?rows)" by (rule map_sort_key)
  have "distinct (map fst ?rows)" using ok by (simp add: keys_ok_def select_where_def distinct_map_filter)
  moreover have "inj_on snd (fst ` set ?rows)" by (auto simp: inj_on_def select_where_def)
  ultimately have "distinct (map snd (map fst ?rows))" unfolding distinct_map [of snd] by simp
  then have dist: "distinct ?l" unfolding l by (simp add: comp_def case_prod_beta')
  have "n \<in> set ?l \<longleftrightarrow> after < n \<and> n \<le> dev_sequence dev" for n
  proof -
    have "n \<in> set ?l \<longleftrightarrow> (\<exists>v. ((d, n), v) \<in> set ?rows)"
      by (force simp: select_where_def image_iff)
    also have "\<dots> \<longleftrightarrow> after < n \<and> map_of (events_t s) (d, n) \<noteq> None" by (auto simp: select_where_lookup [OF ok])
    also have "\<dots> \<longleftrightarrow> after < n \<and> dev_floor dev < n \<and> n \<le> dev_sequence dev"
      using assms(2,3) unfolding inv_log_def by force
    finally show ?thesis using assms(4) by auto
  qed
  then have "set ?l = set [after + 1 .. dev_sequence dev]"
    by (intro set_eqI) (simp only: set_upto atLeastAtMost_iff, presburger)
  then show ?thesis using dist by (intro sorted_distinct_set_unique) (auto simp: l)
qed

text \<open>C5: Event replay has no undetectable hole. A successful poll after cursor \<open>after\<close> returns the
  events numbered \<open>after + 1\<close>, \<open>after + 2\<close>, ... without a gap, up to the limit or the newest event;
  a cursor below the retention floor or above the newest event is refused instead.\<close>

theorem events_without_holes:
  assumes "events env now d after limit s = Inr (out, t)" "ledger_inv env s"
  shows "\<exists>dev. map_of (devices_t t) d = Some dev \<and> dev_floor dev \<le> after \<and> after \<le> dev_sequence dev \<and>
    map fst out = take limit [after + 1 .. dev_sequence dev]"
proof -
  let ?l = "take limit (sort_key (\<lambda>(k, v). snd k) (select_where (\<lambda>k v. fst k = d \<and> snd k > after) (events_t t)))"
  have inv: "ledger_inv env t" using assms broker_run.step_good st_events by blast
  obtain dev where dev: "map_of (devices_t t) d = Some dev" "dev_floor dev \<le> after" "after \<le> dev_sequence dev"
    and out: "map_r (\<lambda>(k, v). bind_r (do_decrypt env (e_cipher v)) (\<lambda>j. Inr (snd k, j))) ?l = Inr out"
    using assms(1) by (auto simp: events_def Let_def split: option.splits if_splits)
  have "list_all2 (\<lambda>x y. fst y = (\<lambda>(k, v). snd k) x) ?l out"
    using out unfolding map_r_Inr_iff by (rule list_all2_mono) auto
  then have "map fst out = map (\<lambda>(k, v). snd k) ?l"
    by (rule list_all2_images)
  also have "\<dots> = take limit [after + 1 .. dev_sequence dev]"
    using log_numbers [of t d dev after] inv dev by (simp add: ledger_inv_def take_map [symmetric])
  finally show ?thesis using dev by blast
qed

theorem events_without_holes_witness:
  "\<exists>dev. map_of (devices_t (do_device ''dev'' demo3)) ''dev'' = Some dev \<and> dev_floor dev \<le> 2 \<and> 2 \<le> dev_sequence dev \<and>
    map fst [(3 :: int, jsort (demo_snap ''completed'' (Some ''r1'') demo_result 30))] = take 100 [2 + 1 .. dev_sequence dev]"
proof (rule events_without_holes)
  show "events demo_env 40 ''dev'' 2 100 demo3 = Inr ([(3, jsort (demo_snap ''completed'' (Some ''r1'') demo_result 30))], do_device ''dev'' demo3)"
    by (simp add: events_def do_purge_events_def expired_seqs_def select_where_def demo_events demo_ops decrypt_snap demo_log_def
        do_device_def insert_ignore_def Let_def)
qed simp

section \<open>Recovery, completion and cancellation\<close>

lemma log_entry:
  assumes "inv_log s" "map_of (devices_t s) d = Some dev"
  shows "map_of (events_t s) (d, n) \<noteq> None \<longleftrightarrow> dev_floor dev < n \<and> n \<le> dev_sequence dev"
proof -
  have "map_of (events_t s) (d, n) \<noteq> None \<longleftrightarrow>
      (\<exists>dev. map_of (devices_t s) d = Some dev \<and> dev_floor dev < n \<and> n \<le> dev_sequence dev)"
    using assms(1) unfolding inv_log_def by (elim conjE allE)
  then show ?thesis using assms(2) by simp
qed

lemma mem_map_fst: "k \<in> set (map fst t) \<longleftrightarrow> (\<exists>v. (k, v) \<in> set t)"
  by force

lemma do_event_succeeds:
  assumes "ledger_inv env s" "map_of (operations_t t) (d, op) = Some r" "result_cipher r = None"
    and "map_of (devices_t t) d = map_of (devices_t s) d" "events_t t = events_t s" "map_of (devices_t s) d \<noteq> None"
  shows "\<exists>snap u. do_event env now d op t = Inr (snap, u)"
proof -
  obtain dev where dev: "map_of (devices_t s) d = Some dev" using assms(6) by blast
  have "inv_log s" using assms(1) by (simp add: ledger_inv_def)
  from log_entry [OF this dev, of "dev_sequence dev + 1"] have "map_of (events_t s) (d, dev_sequence dev + 1) = None" by simp
  moreover have "\<exists>snap. do_snapshot env now op r = Inr snap"
    using assms(3) by (auto simp: do_snapshot_def snapshot_result_def split: option.splits)
  ultimately show ?thesis using assms(2,4,5) dev by (auto simp: do_event_def do_row_def Let_def insert_row_def)
qed

lemma do_finish_none:
  assumes "ledger_inv env s" "map_of (operations_t s) (d, op) = Some r" "state r \<notin> FINAL"
  shows "\<exists>snap t. do_finish env now rid d op st None c m s = Inr (snap, t) \<and>
    map_of (operations_t t) (d, op) = Some (finish_row env now rid st None c m r)"
proof -
  let ?u = "finished env now rid (d, op) st None c m s"
  have dev: "map_of (devices_t s) d \<noteq> None"
    using known_device [OF assms(1,2)] by (metis do_device_simps(8))
  obtain snap t where t: "do_event env now d op ?u = Inr (snap, t)"
    using do_event_succeeds [OF assms(1), of ?u d op "finish_row env now rid st None c m r" now] assms(2) dev
    by (auto simp: finished_views finish_row_def)
  have "do_finish env now rid d op st None c m s = Inr (snap, t)"
    using t assms(2,3) by (simp add: do_finish_def do_row_def finished_def set_op_def Let_def)
  moreover have "map_of (operations_t t) (d, op) = Some (finish_row env now rid st None c m r)"
    using assms(2) by (simp add: do_event_keeps [OF t] finished_views)
  ultimately show ?thesis by blast
qed

lemma recover_rows_total:
  assumes "ledger_inv env s" "distinct ks" "\<And>k. k \<in> set ks \<Longrightarrow> \<exists>r. map_of (operations_t s) k = Some r \<and> state r = Running"
  shows "\<exists>t. recover_rows env now uuid4 i ks s = Inr t \<and>
    (\<forall>k. k \<notin> set ks \<longrightarrow> map_of (operations_t t) k = map_of (operations_t s) k) \<and>
    (\<forall>k \<in> set ks. \<exists>r rid. map_of (operations_t s) k = Some r \<and> map_of (operations_t t) k = Some (finish_row env now rid OutcomeUnknown None
       (Some ''restart_unknown'') (Some ''dispatcher restarted after dispatch was claimed; no resend'') r))"
  using assms
proof (induction ks arbitrary: s i)
  case (Cons k ks)
  let ?c = "Some ''restart_unknown''" and ?m = "Some ''dispatcher restarted after dispatch was claimed; no resend''"
  obtain d op where k: "k = (d, op)" by (cases k)
  obtain r where r: "map_of (operations_t s) (d, op) = Some r" "state r = Running" using Cons.prems(3) [of k] k by auto
  obtain snap s1 where f: "do_finish env now (uuid4 i) d op OutcomeUnknown None ?c ?m s = Inr (snap, s1)"
      "map_of (operations_t s1) (d, op) = Some (finish_row env now (uuid4 i) OutcomeUnknown None ?c ?m r)"
    using do_finish_none [OF Cons.prems(1) r(1), of now "uuid4 i" OutcomeUnknown ?c ?m] r(2) by (auto simp: FINAL_def)
  have dev: "do_device d s = s" by (rule known_device [OF Cons.prems(1) r(1)])
  have "may_finish s (d, op) OutcomeUnknown" using r by (simp add: may_finish_def FINAL_simps)
  then have inv: "ledger_inv env s1" by (rule ledger_inv_moves [OF do_finish_moves [OF f(1)] Cons.prems(1)])
  have other: "map_of (operations_t s1) k' = map_of (operations_t s) k'" if "k' \<noteq> k" for k'
    using do_finish_keeps(2) [OF f(1)] that k by simp
  have pre: "\<exists>r. map_of (operations_t s1) k' = Some r \<and> state r = Running" if "k' \<in> set ks" for k'
    using that Cons.prems(2) Cons.prems(3) [of k'] other [of k'] by force
  obtain t where t: "recover_rows env now uuid4 (Suc i) ks s1 = Inr t"
      "\<forall>k. k \<notin> set ks \<longrightarrow> map_of (operations_t t) k = map_of (operations_t s1) k"
      "\<forall>k \<in> set ks. \<exists>r rid. map_of (operations_t s1) k = Some r \<and>
         map_of (operations_t t) k = Some (finish_row env now rid OutcomeUnknown None ?c ?m r)"
    using Cons.IH [OF inv _ pre, of "Suc i"] Cons.prems(2) by auto
  have "recover_rows env now uuid4 i (k # ks) s = Inr t" using t(1) f(1) dev by (simp add: k)
  moreover have "map_of (operations_t t) k = Some (finish_row env now (uuid4 i) OutcomeUnknown None ?c ?m r)"
    using t(2) Cons.prems(2) f(2) k by simp
  moreover have "k' \<noteq> k" if "k' \<in> set ks" for k' using that Cons.prems(2) by auto
  ultimately show ?case using t(2,3) other r(1) k by (intro exI [of _ t]) auto
qed simp

text \<open>C6: Recovery after a restart always succeeds, leaves no operation running, marks exactly the
  operations that were running as \<open>outcome_unknown\<close> with \<open>restart_unknown\<close> and no result, and changes no
  other operation: a claimed dispatch is never sent again.\<close>

theorem recover_settles_running:
  assumes "ledger_inv env s" "is_dispatcher s"
  shows "\<exists>t. recover env now uuid4 s = Inr t \<and>
    (\<forall>k r. map_of (operations_t s) k = Some r \<longrightarrow> state r \<noteq> Running \<longrightarrow> map_of (operations_t t) k = Some r) \<and>
    (\<forall>k r. map_of (operations_t s) k = Some r \<longrightarrow> state r = Running \<longrightarrow>
       (\<exists>rid. map_of (operations_t t) k = Some (finish_row env now rid OutcomeUnknown None
         (Some ''restart_unknown'') (Some ''dispatcher restarted after dispatch was claimed; no resend'') r)))"
proof -
  let ?ks = "map fst (select_where (\<lambda>_ r. state r = Running) (operations_t s))"
  have ok: "keys_ok (operations_t s)" using assms(1) by (simp add: ledger_inv_def inv_keys_def)
  then have dist: "distinct ?ks" by (simp add: keys_ok_def select_where_def distinct_map_filter)
  have mem: "k \<in> set ?ks \<longleftrightarrow> (\<exists>r. map_of (operations_t s) k = Some r \<and> state r = Running)" for k
    unfolding mem_map_fst by (simp add: select_where_lookup [OF ok])
  obtain t where t: "recover_rows env now uuid4 0 ?ks s = Inr t"
    "\<forall>k. k \<notin> set ?ks \<longrightarrow> map_of (operations_t t) k = map_of (operations_t s) k"
    "\<forall>k \<in> set ?ks. \<exists>r rid. map_of (operations_t s) k = Some r \<and> map_of (operations_t t) k = Some (finish_row env now rid OutcomeUnknown None
       (Some ''restart_unknown'') (Some ''dispatcher restarted after dispatch was claimed; no resend'') r)"
    using recover_rows_total [OF assms(1) dist, of now uuid4 0] mem by auto
  then have "recover env now uuid4 s = Inr t" using assms(2) by (simp add: recover_def)
  then show ?thesis using t(2,3) mem by (intro exI [of _ t]) (metis option.inject)
qed

theorem recover_settles_running_witness:
  "\<exists>t rid. recover demo_env 99 (\<lambda>_. ''u'') demo2 = Inr t \<and> map_of (operations_t t) (''dev'', ''op1'') =
     Some (finish_row demo_env 99 rid OutcomeUnknown None (Some ''restart_unknown'')
       (Some ''dispatcher restarted after dispatch was claimed; no resend'') (demo_row Running None None None 20))"
proof -
  obtain t where t: "recover demo_env 99 (\<lambda>_. ''u'') demo2 = Inr t"
    "\<forall>k r. map_of (operations_t demo2) k = Some r \<longrightarrow> state r = Running \<longrightarrow>
       (\<exists>rid. map_of (operations_t t) k = Some (finish_row demo_env 99 rid OutcomeUnknown None
         (Some ''restart_unknown'') (Some ''dispatcher restarted after dispatch was claimed; no resend'') r))"
    using recover_settles_running [OF demo_invs(3) demo_ops(5), of 99 "\<lambda>_. ''u''"] by blast
  have "map_of (operations_t demo2) (''dev'', ''op1'') = Some (demo_row Running None None None 20)" by (simp add: demo_ops)
  with t show ?thesis by (metis demo_row_simps(1))
qed








lemma finish_keeps_final:
  assumes "ledger_inv env t" "map_of (operations_t t) (d, op) = Some r" "state r \<in> FINAL" "st' \<in> TERMINAL"
  shows "finish env now' rid' d op st' res' c' m' t = bind_r (get_op env now' d op t) (\<lambda>snap. Inr (snap, t))"
  using assms(2-4) known_device [OF assms(1,2)] by (simp add: finish_def do_finish_def get_op_def do_row_def)

text \<open>The first definitive outcome wins. After \<open>finish\<close> recorded one, any later \<open>finish\<close> - by the
  stream, the reconciler or a late cancellation - returns the recorded outcome and leaves the ledger as it is.\<close>

theorem first_outcome_wins:
  assumes "finish env now rid d op st res c m s = Inr (snap, t)" "ledger_inv env s" "dispatched s (d, op)"
    and "st \<in> FINAL" "st' \<in> TERMINAL"
  shows "finish env now' rid' d op st' res' c' m' t = bind_r (get_op env now' d op t) (\<lambda>snap'. Inr (snap', t))"
proof -
  have t: "ledger_inv env t" using assms(1-3) broker_run.step_good st_finish by blast
  obtain st1 res1 c1 m1 where f: "do_finish env now rid d op st1 res1 c1 m1 (do_device d s) = Inr (snap, t)" "st1 \<in> FINAL"
    using assms(1,4) by (auto simp: finish_def FINAL_def split: if_splits)
  then obtain r where "map_of (operations_t t) (d, op) = Some r" "state r \<in> FINAL"
    using do_finish_keeps(3) [OF f(1)] by auto
  then show ?thesis using finish_keeps_final [OF t] assms(5) by blast
qed

theorem first_outcome_wins_witness:
  "finish demo_env 60 ''r2'' ''dev'' ''op1'' Canceled None None None demo3 =
     bind_r (get_op demo_env 60 ''dev'' ''op1'' demo3) (\<lambda>snap'. Inr (snap', demo3))"
  by (rule first_outcome_wins [OF demo3_step]) (simp_all add: dispatched_def demo_ops FINAL_simps)

text \<open>Cancellation. An operation that still waits is canceled at once and is then never dispatched;
  an open one is only marked, with \<open>cancel_unconfirmed\<close>, and stays open; a final or already marked one
  is left alone.\<close>

theorem cancel_intent_outcome:
  assumes "cancel_intent env now rid d op s = Inr ((snap, h), t)"
  shows "\<exists>r r'. map_of (operations_t s) (d, op) = Some r \<and> map_of (operations_t t) (d, op) = Some r' \<and>
    (if state r = Accepted then state r' = Canceled \<and> h = None \<and> map_of (payloads_t t) (d, op) = None
     else if state r \<in> FINAL \<or> cancel_requested r then r' = r \<and> h = None
     else state r' = state r \<and> cancel_requested r' \<and> error_code r' = Some ''cancel_unconfirmed'' \<and> h = remote_task_id r)"
  using assms
proof (cases rule: cancel_intent_cases)
  case (accepted r)
  from accepted(4) show ?thesis
  proof (cases rule: do_finish_cases)
    case (final q)
    then show ?thesis using accepted(1,2) by (simp add: FINAL_def)
  next
    case (opened q)
    then show ?thesis using accepted
      by (simp add: do_event_keeps [OF opened(3)] finished_views finish_row_keeps)
  qed
next
  case (ignored r)
  then show ?thesis by auto
next
  case (requested r)
  have "state r \<notin> FINAL" "state r \<noteq> Accepted" using requested(2) by (auto simp: FINAL_def)
  then show ?thesis using requested by (simp add: do_event_keeps [OF requested(5)] set_op_views)
qed

theorem cancel_intent_outcome_witness:
  "\<exists>(t :: store) r r'. map_of (operations_t demo1) (''dev'', ''op1'') = Some r \<and> map_of (operations_t t) (''dev'', ''op1'') = Some r' \<and>
    state r = Accepted \<and> state r' = Canceled"
proof -
  obtain snap t where t: "cancel_intent demo_env 15 ''r9'' ''dev'' ''op1'' demo1 = Inr ((snap, None), t)"
  proof -
    have "\<exists>snap t. do_finish demo_env 15 ''r9'' ''dev'' ''op1'' Canceled None None None demo1 = Inr (snap, t)"
      using do_finish_none [OF demo_invs(2), of "''dev''" "''op1''" "demo_row Accepted None None None 10" 15 "''r9''" Canceled None None]
      by (auto simp: demo_ops FINAL_def)
    then show ?thesis using that known_device [OF demo_invs(2), of "''dev''" "''op1''"]
      by (auto simp: cancel_intent_def do_row_def demo_ops Let_def)
  qed
  show ?thesis using cancel_intent_outcome [OF t] by (intro exI [of _ t]) (auto simp: demo_ops)
qed

section \<open>Isolation of devices\<close>

text \<open>What a device can observe: its own rows of every table.\<close>

definition device_view :: "string \<Rightarrow> store \<Rightarrow> device_row option \<times> (string \<Rightarrow> op_row option \<times> payload_row option \<times> outbox_row option
    \<times> artifact_row option) \<times> (int \<Rightarrow> event_row option) \<times> (string \<times> string \<times> string \<Rightarrow> time option)" where
  "device_view d s = (map_of (devices_t s) d,
     (\<lambda>x. (map_of (operations_t s) (d, x), map_of (payloads_t s) (d, x), map_of (outbox_t s) (d, x), map_of (artifacts_t s) (d, x))),
     (\<lambda>n. map_of (events_t s) (d, n)), (\<lambda>x. map_of (receipts_t s) (d, x)))"

fun label_device :: "broker_label \<Rightarrow> string option" where
  "label_device (LAccept d _ _ _) = Some d"
| "label_device (LFinish k _) = Some (fst k)"
| "label_device (LHandle k _) = Some (fst k)"
| "label_device (LCancel k _) = Some (fst k)"
| "label_device (LEvents d _ _) = Some d"
| "label_device (LReceipt k _ _) = Some (fst k)"
| "label_device (LPutArtifact d _ _) = Some d"
| "label_device _ = None"

lemma view_device: "d' \<noteq> d \<Longrightarrow> device_view d' (do_device d s) = device_view d' s"
  by (simp add: device_view_def device_views)

lemma view_set_op: "d' \<noteq> fst k \<Longrightarrow> device_view d' (set_op k f s) = device_view d' s"
  by (cases k) (auto simp: device_view_def set_op_views)

lemma view_event: "do_event env now d op s = Inr (snap, t) \<Longrightarrow> d' \<noteq> d \<Longrightarrow> device_view d' t = device_view d' s"
  by (auto simp: do_event_def device_view_def Let_def map_of_update_row map_of_snoc fun_eq_iff
      simp del: map_of_append split: option.splits)

lemma view_finish:
  assumes "do_finish env now rid d op st res c m s = Inr (snap, t)" "d' \<noteq> d"
  shows "device_view d' t = device_view d' s"
  using assms(1)
proof (cases rule: do_finish_cases)
  case (opened r)
  then show ?thesis using view_event [OF opened(3) assms(2)] assms(2) by (auto simp: device_view_def finished_views)
qed simp

lemma view_accept:
  assumes "accept env now d req s = Inr ((snap, new), t)" "d' \<noteq> d"
  shows "device_view d' t = device_view d' s"
  using assms(1)
proof (cases rule: accept_cases)
  case fresh
  have "device_view d' (admitted env now d req (do_device d s)) = device_view d' (do_device d s)"
    using fresh assms(2) by (auto simp: device_view_def admitted_def Let_def snoc_upd simp del: map_of_append)
  then show ?thesis using view_event [OF fresh(6) assms(2)] view_device [OF assms(2)] by simp
qed (simp add: view_device assms(2))

lemma view_purge_events: "inv_keys s \<Longrightarrow> d' \<noteq> d \<Longrightarrow> device_view d' (do_purge_events now d s) = device_view d' s"
  by (auto simp: do_purge_events_def device_view_def Let_def map_of_update_row map_of_delete_where inv_keys_def
      split: list.splits option.splits)

lemma inv_keys_device: "inv_keys s \<Longrightarrow> inv_keys (do_device d s)"
  by (rule inv_keys_move [OF mv_device])

text \<open>C7: A call made for one device - submission, dispatch result, cancellation, poll, receipt, upload -
  leaves everything another device can observe unchanged.\<close>

theorem devices_isolated:
  assumes "broker_step env s l t" "ledger_inv env s" "label_device l = Some d" "d' \<noteq> d"
  shows "device_view d' t = device_view d' s"
proof -
  have keys: "inv_keys s" using assms(2) by (simp add: ledger_inv_def)
  from assms(1) show ?thesis
  proof (cases rule: broker_step.cases)
    case (st_accept now d1 req snap new)
    then show ?thesis using assms(3,4) view_accept by simp
  next
    case (st_finish now rid d1 op st res c m snap)
    then show ?thesis using assms(3,4) by (auto simp: finish_def view_finish view_device split: if_splits)
  next
    case (st_handle now d1 op h)
    then have d: "d1 = d" using assms(3) by simp
    from st_handle(2) show ?thesis
      by (cases rule: save_handle_cases) (use d assms(4) in \<open>auto simp: view_event view_set_op view_device\<close>)
  next
    case (st_cancel now rid d1 op snap h)
    then have d: "d1 = d" using assms(3) by simp
    from st_cancel(2) show ?thesis
      by (cases rule: cancel_intent_cases) (use d assms(4) in \<open>auto simp: view_event view_set_op view_device view_finish\<close>)
  next
    case (st_events now d1 after limit out)
    then have "t = do_purge_events now d (do_device d s)"
      using assms(3) by (auto simp: events_def Let_def split: option.splits if_splits)
    then show ?thesis using assms(4) view_purge_events [OF inv_keys_device [OF keys]] view_device by simp
  next
    case (st_receipt now d1 op rid st)
    then show ?thesis using assms(3,4)
      by (auto simp: receipt_def Let_def device_view_def map_of_insert_ignore device_views split: if_splits)
  next
    case (st_put_artifact now aid d1 content dig ct desc)
    then show ?thesis using assms(3,4) keys
      by (auto elim!: put_artifact_cases simp: device_view_def device_views map_of_snoc map_of_delete_where inv_keys_def fun_eq_iff
          simp del: map_of_append split: option.splits)
  qed (use assms(3) in simp_all)
qed

theorem devices_isolated_witness: "device_view ''other'' demo1 = device_view ''other'' demo0"
  by (rule devices_isolated [OF demo_trace(2) demo_invs(1), where d = "''dev''"]) simp_all

section \<open>Artifacts, receipts and retention\<close>

text \<open>An uploaded artifact is returned byte for byte, with the descriptor the upload answered, until it expires.\<close>

theorem artifact_roundtrip:
  assumes "put_artifact env now aid d content dig ct s = Inr (desc, t)" "fernet_ok env"
    and "now' < now + seconds (artifact_ttl_seconds (settings env))"
  shows "artifact env now' d aid t = Inr (desc, content)"
  using assms(1)
  by (rule put_artifact_cases)
    (use assms(2,3) in \<open>simp add: artifact_def do_artifact_def snoc_upd fernet_ok_def del: map_of_append\<close>)

theorem artifact_roundtrip_witness:
  "\<exists>desc t. put_artifact demo_env 5 ''a1'' ''dev'' ''abc'' ''abc'' ''text/plain'' demo0 = Inr (desc, t) \<and>
     artifact demo_env 6 ''dev'' ''a1'' t = Inr (desc, ''abc'')"
proof -
  obtain desc t where t: "put_artifact demo_env 5 ''a1'' ''dev'' ''abc'' ''abc'' ''text/plain'' demo0 = Inr (desc, t)"
    by (simp add: put_artifact_def demo_env_def demo_settings_def py_len_def Let_def demo0_def empty_store_def do_device_def
        insert_ignore_def artifact_bytes_def delete_where_def select_where_def)
  show ?thesis using t artifact_roundtrip [OF t, of 6] by (simp add: demo_settings_def seconds_def)
qed

text \<open>Every recorded receipt names an operation of its device and the identifier of that operation's result.\<close>

theorem receipts_name_results:
  assumes "run (broker_step env) empty_store ls s"
    and "0 \<le> max_pending_per_device (settings env)" "0 \<le> device_quota_bytes (settings env)"
    and "map_of (receipts_t s) (d, op, rid, st) \<noteq> None"
  shows "\<exists>r. map_of (operations_t s) (d, op) = Some r \<and> result_id r = Some rid \<and> state r \<in> TERMINAL"
proof -
  have inv: "inv_refs s" "inv_rows s" using run_empty_inv [OF assms(1-3)] by (simp_all add: ledger_inv_def)
  have "(d, op, rid, st) \<in> dom (map_of (receipts_t s))" using assms(4) by blast
  then obtain r where r: "map_of (operations_t s) (d, op) = Some r" "result_id r = Some rid"
    using inv(1) unfolding inv_refs_def by metis
  then show ?thesis using inv_rowsD [OF inv(2) r(1)] by (auto simp: entry_ok_def row_ok_def)
qed

lemma demo_receipt: "receipt 35 ''dev'' ''op1'' ''r1'' ''stored'' demo3 = Inr (demo3\<lparr>receipts_t := [((''dev'', ''op1'', ''r1'', ''stored''), 35)]\<rparr>)"
proof -
  have "do_device ''dev'' demo3 = demo3" by (rule known_device [OF demo_invs(4), of _ "''op1''"]) (simp add: demo_ops)
  moreover have "receipts_t demo3 = []" by (simp add: demo3_def demo2_def demo1_def demo0_def empty_store_def)
  ultimately show ?thesis by (simp add: receipt_def do_row_def demo_ops insert_ignore_def Let_def)
qed

theorem receipts_name_results_witness:
  "\<exists>r. map_of (operations_t demo3) (''dev'', ''op1'') = Some r \<and> result_id r = Some ''r1'' \<and> state r \<in> TERMINAL"
proof -
  let ?t = "demo3\<lparr>receipts_t := [((''dev'', ''op1'', ''r1'', ''stored''), 35)]\<rparr>"
  have "broker_step demo_env demo3 (LReceipt (''dev'', ''op1'') ''r1'' ''stored'') ?t" by (rule st_receipt [OF demo_receipt])
  then have "run (broker_step demo_env) demo3 [LReceipt (''dev'', ''op1'') ''r1'' ''stored''] ?t" by (rule run_single)
  from receipts_name_results [OF run_append [OF demo_run this], of "''dev''" "''op1''" "''r1''" "''stored''"] show ?thesis by simp
qed

lemma fold_max_ge: "(x :: int) \<le> fold max xs x \<and> (\<forall>y \<in> set xs. y \<le> fold max xs x)"
  by (induction xs arbitrary: x) (auto, meson max.cobounded2 order_trans, meson max.cobounded1 order_trans)

lemma purge_events_sub: "set (events_t (do_purge_events now d s)) \<subseteq> set (events_t s)"
  by (auto simp: do_purge_events_def Let_def delete_where_def split: list.splits)

lemma purge_events_live:
  assumes "((d, n), v) \<in> set (events_t (do_purge_events now d s))"
  shows "now < e_expires_at v"
proof (rule ccontr)
  assume old: "\<not> now < e_expires_at v"
  then have n: "n \<in> set (expired_seqs now d s)"
    using subsetD [OF purge_events_sub assms] by (force simp: expired_seqs_def select_where_def)
  then obtain x xs where x: "expired_seqs now d s = x # xs" by (cases "expired_seqs now d s") auto
  then have "n \<le> fold max xs x" using n fold_max_ge [of x xs] by auto
  then show False using assms x by (simp add: do_purge_events_def delete_where_def Let_def)
qed

lemma purge_fold:
  fixes now :: time
  defines "P \<equiv> \<lambda>ds s. fold (\<lambda>d t. do_purge_events now d (do_device d t)) ds s"
  shows "set (events_t (P ds s)) \<subseteq> set (events_t s)"
    and "((d, n), v) \<in> set (events_t (P ds s)) \<Longrightarrow> d \<in> set ds \<Longrightarrow> now < e_expires_at v"
proof -
  have sub: "set (events_t (P ds s)) \<subseteq> set (events_t s)" for ds s
  proof (induction ds arbitrary: s)
    case (Cons a ds)
    have "set (events_t (P (a # ds) s)) \<subseteq> set (events_t (do_purge_events now a (do_device a s)))"
      using Cons.IH by (simp add: P_def)
    also have "\<dots> \<subseteq> set (events_t s)" using purge_events_sub [of now a "do_device a s"] by simp
    finally show ?case .
  qed (simp add: P_def)
  show "set (events_t (P ds s)) \<subseteq> set (events_t s)" by (rule sub)
  show "((d, n), v) \<in> set (events_t (P ds s)) \<Longrightarrow> d \<in> set ds \<Longrightarrow> now < e_expires_at v"
  proof (induction ds arbitrary: s)
    case (Cons a ds)
    have step: "P (a # ds) s = P ds (do_purge_events now a (do_device a s))" by (simp add: P_def)
    show ?case
    proof (cases "a = d")
      case True
      then show ?thesis using Cons.prems(1) sub purge_events_live unfolding step by blast
    next
      case False
      then show ?thesis using Cons.IH Cons.prems unfolding step by simp
    qed
  qed simp
qed

text \<open>Retention. After \<open>purge\<close> no content whose deadline has passed is left: no event, no dispatch
  payload, no artifact and no stored result.\<close>

theorem purge_removes_expired:
  assumes "ledger_inv env s"
  shows "(\<forall>(k, v) \<in> set (events_t (purge now s)). now < e_expires_at v) \<and>
    (\<forall>(k, p) \<in> set (payloads_t (purge now s)). now < p_expires_at p) \<and>
    (\<forall>(k, a) \<in> set (artifacts_t (purge now s)). now < a_expires_at a) \<and>
    (\<forall>(k, r) \<in> set (operations_t (purge now s)). result_cipher r \<noteq> None \<longrightarrow> (\<forall>x. result_expires_at r = Some x \<longrightarrow> now < x))"
proof (intro conjI)
  let ?ds = "sort (map fst (devices_t s))"
  let ?t = "fold (\<lambda>d t. do_purge_events now d (do_device d t)) ?ds s"
  have ev: "events_t (purge now s) = events_t ?t" by (simp add: purge_def Let_def)
  show "\<forall>(k, v) \<in> set (events_t (purge now s)). now < e_expires_at v"
  proof (clarsimp simp: ev)
    fix d n v assume in_t: "((d, n), v) \<in> set (events_t ?t)"
    then have "(d, n) \<in> fst ` set (events_t s)" using purge_fold(1) [where ds = ?ds] by (force intro: rev_image_eqI)
    then have "map_of (events_t s) (d, n) \<noteq> None" by (simp add: map_of_eq_None_iff)
    then have "map_of (devices_t s) d \<noteq> None" using assms unfolding ledger_inv_def inv_log_def by blast
    then have "d \<in> set ?ds" by (simp add: map_of_eq_None_iff)
    with in_t show "now < e_expires_at v" by (rule purge_fold(2))
  qed
qed (auto simp: purge_def Let_def delete_where_def update_where_def split: if_splits option.splits)

theorem purge_removes_expired_witness:
  "filter (\<lambda>(k, v). e_expires_at v \<le> 700000000000) (events_t (purge 700000000000 demo3)) = []"
  using purge_removes_expired [OF demo_invs(4), of 700000000000] by (fastforce simp: filter_empty_conv)

end
