(* ===== verification/Dispatcher_Steps.thy ===== *)
theory Dispatcher_Steps
  imports Broker_Dispatcher Broker_Properties
begin

text \<open>
  The dispatcher refines the ledger. A program is \<open>guided\<close> for a set of operations when, started with
  these operations dispatched, all it does to the ledger is a run of the labelled step relation of
  \<open>Broker_Steps\<close>. The locale \<open>ledger_client\<close> states what the dispatcher relies on: whatever happens
  between two of its ledger calls is such a run as well. In it every job and every turn of the
  dispatcher is shown to be guided, which discharges the call discipline (\<open>dispatched\<close>) that the step
  relation asks for.
\<close>

declare split_paired_All [simp del] split_paired_Ex [simp del]

section \<open>Guided programs\<close>

definition ready :: "broker_env \<Rightarrow> op_key set \<Rightarrow> store \<Rightarrow> bool" where
  "ready env K s \<longleftrightarrow> ledger_inv env s \<and> (\<forall>k \<in> K. left_accepted s k)"

definition guided :: "broker_env \<Rightarrow> op_key set \<Rightarrow> 'a prog \<Rightarrow> bool" where
  "guided env K p \<longleftrightarrow> (\<forall>s i. ready env K s \<longrightarrow> (\<exists>ls. run (broker_step env) s ls (fst (snd (p (s, i))))))"

lemma run_moves: "run (broker_step env) s ls t \<Longrightarrow> ledger_inv env s \<Longrightarrow> ledger_moves env s t"
proof (induction rule: run.induct)
  case (run_Cons s e s1 es s2)
  have "ledger_moves env s s1" using run_Cons broker_step_moves by (auto simp: ledger_inv_def)
  moreover have "ledger_inv env s1" using run_Cons broker_run.step_good by blast
  ultimately show ?case using run_Cons.IH by (meson rtranclp_trans)
qed simp

lemma run_row:
  assumes "run (broker_step env) s ls t" "ledger_inv env s" "map_of (operations_t s) k = Some r"
  shows "\<exists>r'. map_of (operations_t t) k = Some r' \<and> row_le r r'"
  using moves_row_to [OF run_moves [OF assms(1,2)] assms(3)] .

lemma run_left_accepted:
  assumes "run (broker_step env) s ls t" "ledger_inv env s" "left_accepted s k"
  shows "left_accepted t k"
proof -
  obtain r where "map_of (operations_t s) k = Some r" "state r \<noteq> Accepted"
    using assms(3) by (auto simp: left_accepted_def split: option.splits)
  with run_row [OF assms(1,2)] show ?thesis by (fastforce simp: left_accepted_def row_le_def)
qed

lemma run_ready: "run (broker_step env) s ls t \<Longrightarrow> ready env K s \<Longrightarrow> ready env K t"
  using run_left_accepted broker_run.run_good unfolding ready_def by blast

lemma left_accepted_dispatched: "left_accepted s k \<Longrightarrow> dispatched s k"
  by (auto simp: left_accepted_def dispatched_def split: option.splits)

lemma guidedD:
  assumes "guided env K p" "p (s, i) = (r, (t, j))" "ready env K s"
  obtains ls where "run (broker_step env) s ls t"
proof -
  have "\<exists>ls. run (broker_step env) s ls (fst (snd (p (s, i))))" using assms(1,3) unfolding guided_def by blast
  then show thesis using assms(2) that by auto
qed

lemma guided_ready: "guided env K p \<Longrightarrow> p (s, i) = (r, (t, j)) \<Longrightarrow> ready env K s \<Longrightarrow> ready env K t"
  by (erule guidedD) (auto intro: run_ready)

lemma guided_return [simp]: "guided env K (return_p x)" "guided env K (raise_p e)"
  by (auto simp: guided_def intro: run_Nil)

lemma guided_split:
  assumes "guided env K p" and "\<And>s i r t j. p (s, i) = (r, (t, j)) \<Longrightarrow> ready env K s \<Longrightarrow> ready env K t \<Longrightarrow>
      q (s, i) = q' r (t, j) \<and> guided env K (q' r)"
  shows "guided env K q"
  unfolding guided_def
proof (intro allI impI)
  fix s i assume s: "ready env K s"
  obtain r t j where p: "p (s, i) = (r, (t, j))" by (cases "p (s, i)") auto
  obtain ls where ls: "run (broker_step env) s ls t" using assms(1) p s by (rule guidedD)
  then have t: "ready env K t" using s by (rule run_ready)
  obtain r2 u m where q: "q' r (t, j) = (r2, (u, m))" by (cases "q' r (t, j)") auto
  have *: "q (s, i) = q' r (t, j)" "guided env K (q' r)" using assms(2) [OF p s t] by blast+
  obtain ls2 where "run (broker_step env) t ls2 u" using *(2) q t by (rule guidedD)
  with ls have "run (broker_step env) s (ls @ ls2) u" by (rule run_append)
  then show "\<exists>ls. run (broker_step env) s ls (fst (snd (q (s, i))))" using *(1) q by auto
qed

lemma guided_bind: "guided env K p \<Longrightarrow> (\<And>x. guided env K (f x)) \<Longrightarrow> guided env K (bind_p p f)"
  by (erule guided_split [where q' = "\<lambda>r. case r of Inl e \<Rightarrow> raise_p e | Inr x \<Rightarrow> f x"])
    (auto simp: bind_p_def split: sum.splits)

lemma guided_catch: "guided env K p \<Longrightarrow> (\<And>e. guided env K (h e)) \<Longrightarrow> guided env K (catch_p p h)"
  by (erule guided_split [where q' = "\<lambda>r. case r of Inl e \<Rightarrow> h e | Inr x \<Rightarrow> return_p x"])
    (auto simp: catch_p_def split: sum.splits)

section \<open>The interface to the ledger\<close>

text \<open>A relation between worlds that every program keeps which only calls the ledger, if each single call keeps it: the calls of a
  program are then the only place to look at. The relation sees the ledger before and after, and the numbers of the calls.\<close>

definition through :: "(world \<Rightarrow> world \<Rightarrow> bool) \<Rightarrow> 'a prog \<Rightarrow> bool" where
  "through G p \<longleftrightarrow> (\<forall>w. G w (snd (p w)))"

lemma throughD: "through G p \<Longrightarrow> p w = (r, w1) \<Longrightarrow> G w w1"
  unfolding through_def by (metis snd_conv)

locale ledger_calls =
  fixes env :: broker_env and sc :: schedule and K :: "op_key set" and G :: "world \<Rightarrow> world \<Rightarrow> bool"
  assumes keeps_refl: "G w w"
    and keeps_trans: "G w w1 \<Longrightarrow> G w1 w2 \<Longrightarrow> G w w2"
    and keeps_call: "(fault sc i \<noteq> None \<Longrightarrow> t = pause sc i s) \<Longrightarrow>
      (ready env K (pause sc i s) \<Longrightarrow> \<exists>ls. run (broker_step env) (pause sc i s) ls t) \<Longrightarrow> G (s, i) (t, Suc i)"
begin

lemma through_return [simp]: "through G (return_p x)" "through G (raise_p e)"
  by (simp_all add: through_def keeps_refl)

lemma through_bind: "through G p \<Longrightarrow> (\<And>x. through G (f x)) \<Longrightarrow> through G (bind_p p f)"
  unfolding through_def
proof
  fix w
  assume p: "\<forall>w. G w (snd (p w))" and f: "\<And>x. \<forall>w. G w (snd (f x w))"
  obtain r w1 where e: "p w = (r, w1)" by (cases "p w")
  then have "G w w1" using p by (metis snd_conv)
  then show "G w (snd (bind_p p f w))" using e f keeps_trans by (cases r) (auto simp: bind_p_def)
qed

lemma through_catch: "through G p \<Longrightarrow> (\<And>e. through G (h e)) \<Longrightarrow> through G (catch_p p h)"
  unfolding through_def
proof
  fix w
  assume p: "\<forall>w. G w (snd (p w))" and h: "\<And>e. \<forall>w. G w (snd (h e w))"
  obtain r w1 where e: "p w = (r, w1)" by (cases "p w")
  then have "G w w1" using p by (metis snd_conv)
  then show "G w (snd (catch_p p h w))" using e h keeps_trans by (cases r) (auto simp: catch_p_def)
qed

lemma through_call:
  assumes "\<And>now rid s x t. ready env K s \<Longrightarrow> f now rid s = Inr (x, t) \<Longrightarrow> \<exists>ls. run (broker_step env) s ls t"
  shows "through G (call sc f)"
  unfolding through_def
proof
  fix w :: world
  obtain s i where w: "w = (s, i)" by (cases w)
  have "\<exists>r t. call sc f (s, i) = (r, (t, Suc i))" by (simp add: call_def Let_def split: option.split sum.split prod.split)
  then obtain r t where c: "call sc f (s, i) = (r, (t, Suc i))" by blast
  have "G (s, i) (t, Suc i)"
  proof (rule keeps_call)
    show "t = pause sc i s" if "fault sc i \<noteq> None" using c that by (auto simp: call_def Let_def)
    show "\<exists>ls. run (broker_step env) (pause sc i s) ls t" if "ready env K (pause sc i s)"
      using c assms [OF that] by (auto simp: call_def Let_def split: option.splits sum.splits prod.splits)
  qed
  then show "G w (snd (call sc f w))" using c w by simp
qed

lemma through_step:
  assumes "\<And>now rid s x t. ready env K s \<Longrightarrow> f now rid s = Inr (x, t) \<Longrightarrow> \<exists>l. broker_step env s l t"
  shows "through G (call sc f)"
  by (rule through_call) (meson assms run_single)

lemma through_finish: "k \<in> K \<Longrightarrow> through G (finish_p env sc (fst k) (snd k) st res c m)"
  unfolding finish_p_def
  by (rule through_step) (auto simp: ready_def split: sum.splits prod.splits dest!: st_finish left_accepted_dispatched)

lemma through_handle: "k \<in> K \<Longrightarrow> through G (save_handle_p env sc (fst k) (snd k) h)"
  unfolding save_handle_p_def
  by (rule through_step) (auto simp: ready_def no_value_def split: sum.splits dest!: st_handle left_accepted_dispatched)

lemma through_get: "through G (get_p env sc d op)"
  unfolding get_p_def by (rule through_call) (auto simp: with_store_def split: sum.splits)

lemma through_put: "through G (put_artifact_p env sc d content ct)"
  unfolding put_artifact_p_def by (rule through_step) (auto intro: st_put_artifact)

lemma through_parts: "through G (store_parts env sc d ps acc)"
  by (induction ps arbitrary: acc) (auto split: sum.splits option.splits intro!: through_bind through_put)

lemma through_artifacts: "through G (store_artifacts env sc d as acc)"
  by (induction as arbitrary: acc) (auto split: sum.splits intro!: through_bind through_parts)

lemma through_unknown: "k \<in> K \<Longrightarrow> through G (unknown env sc (fst k) (snd k))"
  unfolding unknown_def by (rule through_finish)

lemma through_observe: "k \<in> K \<Longrightarrow> through G (observe env sc (fst k) (snd k) task)"
  unfolding observe_def
  by (auto intro!: through_bind through_handle through_get through_finish through_artifacts split: option.splits)

lemma through_submit_failed: "k \<in> K \<Longrightarrow> through G (submit_failed env sc (fst k) (snd k) seen e)"
  by (cases e) (auto simp: submit_failed_def intro!: through_bind through_unknown through_finish)

lemma through_submit_loop: "k \<in> K \<Longrightarrow> through G (submit_loop env sc (fst k) (snd k) seen rs e)"
proof (induction rs arbitrary: seen)
  case Nil
  then show ?case by (auto intro!: through_catch through_unknown through_submit_failed split: option.splits)
next
  case (Cons r rs)
  have failed: "G w1 (snd (submit_failed env sc (fst k) (snd k) b x w1))" for b x w1
    using through_submit_failed [OF Cons.prems] by (simp add: through_def)
  have rest: "G w1 (snd (submit_loop env sc (fst k) (snd k) b rs e w1))" for b w1
    using Cons.IH [OF Cons.prems] by (simp add: through_def)
  have here: "G w w1" if "observe env sc (fst k) (snd k) r w = (q, w1)" for w q w1
    using through_observe [OF Cons.prems] that by (rule throughD)
  show ?case
    unfolding through_def
  proof
    fix w
    obtain q w1 where o: "observe env sc (fst k) (snd k) r w = (q, w1)" by (cases "observe env sc (fst k) (snd k) r w")
    then show "G w (snd (submit_loop env sc (fst k) (snd k) seen (r # rs) e w))"
      using rest keeps_trans [OF here [OF o]] failed here [OF o] by (cases q) (auto simp: Let_def)
  qed
qed

lemma through_submit: "k \<in> K \<Longrightarrow> through G (submit env sc (fst k) (snd k) reply)"
  unfolding submit_def by (auto intro: through_submit_loop split: prod.splits)

lemma through_exact: "k \<in> K \<Longrightarrow> through G (observe_exact env sc (fst k) (snd k) h reply)"
  by (auto simp: observe_exact_def intro: through_observe split: sum.splits)

lemma through_cancel: "k \<in> K \<Longrightarrow> through G (cancel_job env sc (fst k) (snd k) h reply)"
  unfolding cancel_job_def by (rule through_catch) (auto intro: through_exact split: exn.splits)

lemma through_reconcile: "k \<in> K \<Longrightarrow> through G (reconcile_job env sc (fst k) (snd k) h reply)"
  unfolding reconcile_job_def by (rule through_catch) (auto intro: through_exact through_finish split: exn.splits)

lemma through_reads: "through G (reads_p sc limit d)"
  unfolding reads_p_def by (auto intro!: through_step dest: st_reconcilable)

lemma through_purge: "through G (call sc (\<lambda>now _ s. Inr ((), purge now s)))"
  by (rule through_step) (auto intro: st_purge)

lemma through_close: "set ks \<subseteq> K \<Longrightarrow> through G (close_streams env sc ks)"
proof (induction ks)
  case (Cons k ks)
  then show ?case using through_unknown [of k] by (cases k) (auto intro!: through_bind through_get)
qed simp

lemma through_start: "through G (start_p env sc lock uuid4)"
  unfolding start_p_def
  by (intro through_bind through_step) (auto simp: no_value_def split: sum.splits intro: st_acquire st_recover)

text \<open>The loops and the turns, whose results are not those of a program.\<close>

lemma fill_loop_through:
  "through G p \<Longrightarrow> fill_loop p key limit fuel js w = Some (r, js1, w1) \<Longrightarrow> G w w1"
proof (induction fuel arbitrary: js w)
  case 0
  then show ?case by (auto simp: fill_loop.simps keeps_refl split: if_splits)
next
  case (Suc n)
  obtain q w2 where p: "p w = (q, w2)" by (cases "p w")
  have "G w w2" using Suc.prems(1) p by (rule throughD)
  then show ?case using Suc.prems p Suc.IH keeps_trans
    by (auto simp: fill_loop.simps [of p key limit "Suc n"] keeps_refl split: if_splits sum.splits option.splits)
qed

lemma dispatch_step_through:
  assumes "dispatch_step env sc d w = Some (r, d1, w1)"
  shows "G w w1"
proof -
  have cancels: "G u v" if "cancel_loop sc limit fuel js u = Some (q, js1, v)" for limit fuel js u q js1 v
    using that unfolding cancel_loop_def by (rule fill_loop_through [rotated]) (auto intro!: through_step st_claim_cancel)
  have claims: "G u v" if "claim_loop env sc limit fuel js u = Some (q, js1, v)" for limit fuel js u q js1 v
    using that unfolding claim_loop_def by (rule fill_loop_through [rotated]) (auto intro!: through_step st_claim)
  show ?thesis
    using assms keeps_trans [OF throughD [OF through_purge]] keeps_trans [OF cancels] keeps_trans [OF throughD [OF through_reads]]
      throughD [OF through_purge] cancels throughD [OF through_reads] claims
    by (auto simp: dispatch_step_def Let_def keeps_refl split: if_splits prod.splits sum.splits option.splits)
qed

lemma dispatch_turns_through: "dispatch_turns env sc settle n d w = Some (r, d1, w1) \<Longrightarrow> G w w1"
proof (induction n arbitrary: d w)
  case (Suc n)
  then show ?case using dispatch_step_through keeps_trans by (fastforce split: option.splits sum.splits prod.splits)
qed (simp add: keeps_refl)

lemma dispatcher_run_through:
  assumes "\<And>ks. through G (close_streams env sc ks)" "dispatcher_run env sc settle lock uuid4 n w = Some (r, d, w1)"
  shows "G w w1"
proof -
  obtain q w2 where s: "start_p env sc lock uuid4 w = (q, w2)" by (cases "start_p env sc lock uuid4 w")
  note start = throughD [OF through_start s]
  show ?thesis
  proof (cases q)
    case (Inl e)
    then show ?thesis using assms(2) s start by (simp add: dispatcher_run_def)
  next
    case (Inr x)
    obtain r1 d1 w3 where t: "dispatch_turns env sc settle n new_dispatcher w2 = Some (r1, d1, w3)"
      using assms(2) s Inr by (auto simp: dispatcher_run_def split: option.splits)
    obtain r2 d2 w4 where c: "aclose env sc d1 w3 = (r2, d2, w4)" by (cases "aclose env sc d1 w3")
    have "G w3 w4" using c assms(1) [of "map fst (streams d1)"]
      by (auto simp: aclose_def split: prod.splits sum.splits dest: throughD)
    moreover have "w1 = w4" using assms(2) s Inr t c by (simp add: dispatcher_run_def split: sum.splits)
    ultimately show ?thesis using start dispatch_turns_through [OF t] keeps_trans by metis
  qed
qed

end

text \<open>The interface of a coroutine: what happens between its calls is a run of the ledger. Then a relation that every call keeps is
  that the program makes a run of its own.\<close>

definition guided_rel :: "broker_env \<Rightarrow> op_key set \<Rightarrow> world \<Rightarrow> world \<Rightarrow> bool" where
  "guided_rel env K w w1 \<longleftrightarrow> (ready env K (fst w) \<longrightarrow> (\<exists>ls. run (broker_step env) (fst w) ls (fst w1)))"

lemma guided_through: "guided env K p \<longleftrightarrow> through (guided_rel env K) p"
  unfolding guided_def through_def guided_rel_def by (metis fst_conv surj_pair)

locale ledger_client =
  fixes env :: broker_env and sc :: schedule
  assumes rely: "ledger_inv env s \<Longrightarrow> \<exists>ls. run (broker_step env) s ls (pause sc i s)"

sublocale ledger_client \<subseteq> calls: ledger_calls env sc K "guided_rel env K" for K
proof
  fix w w1 w2 :: world
  show "guided_rel env K w w" by (auto simp: guided_rel_def)
  show "guided_rel env K w w2" if "guided_rel env K w w1" "guided_rel env K w1 w2"
    using that unfolding guided_rel_def by (meson run_append run_ready)
next
  fix i t s
  assume "ready env K (pause sc i s) \<Longrightarrow> \<exists>ls. run (broker_step env) (pause sc i s) ls t"
  moreover have "\<exists>ls. run (broker_step env) s ls (pause sc i s)" if "ready env K s" using that rely by (simp add: ready_def)
  ultimately show "guided_rel env K (s, i) (t, Suc i)" unfolding guided_rel_def fst_conv by (meson run_append run_ready)
qed

context ledger_client
begin

lemmas guided_get = calls.through_get [folded guided_through]
lemmas guided_unknown = calls.through_unknown [folded guided_through]
lemmas guided_observe = calls.through_observe [folded guided_through]
lemmas guided_submit_failed = calls.through_submit_failed [folded guided_through]
lemmas guided_submit = calls.through_submit [folded guided_through]
lemmas guided_cancel = calls.through_cancel [folded guided_through]
lemmas guided_reconcile = calls.through_reconcile [folded guided_through]
lemmas guided_reads = calls.through_reads [folded guided_through]
lemmas guided_purge = calls.through_purge [folded guided_through]
lemmas guided_close = calls.through_close [OF order_refl, folded guided_through]
lemmas guided_start = calls.through_start [folded guided_through]

end

section \<open>Settled operations\<close>

definition settled :: "store \<Rightarrow> op_key \<Rightarrow> bool" where
  "settled s k \<longleftrightarrow> (\<exists>r. map_of (operations_t s) k = Some r \<and> state r \<in> TERMINAL)"

lemma run_settled:
  assumes "run (broker_step env) s ls t" "ledger_inv env s" "settled s k"
  shows "settled t k"
proof -
  obtain r where r: "map_of (operations_t s) k = Some r" "state r \<in> TERMINAL" using assms(3) by (auto simp: settled_def)
  obtain r' where r': "map_of (operations_t t) k = Some r'" "row_le r r'" using run_row [OF assms(1,2) r(1)] by blast
  have "inv_rows s" "inv_rows t" using assms(2) broker_run.run_good [OF assms(1,2)] by (simp_all add: ledger_inv_def)
  then have ok: "row_ok r" "row_ok r'" using r(1) r'(1) by (auto simp: inv_rows_def)
  obtain x where "result_id r = Some x" using ok(1) r(2) unfolding row_ok_def by blast
  then have "result_id r' = Some x" using r'(2) unfolding row_le_def by blast
  then show ?thesis using ok(2) r'(1) unfolding row_ok_def settled_def by blast
qed

lemma finish_settles:
  assumes "finish env now rid d op st res c m s = Inr (snap, t)"
  shows "settled t (d, op)"
proof -
  have go: "settled t (d, op)" if "st' \<in> TERMINAL" "do_finish env now rid d op st' res' c' m' (do_device d s) = Inr (snap, t)" for st' res' c' m'
    using do_finish_keeps(3) [OF that(2)] that(1) unfolding settled_def TERMINAL_def by blast
  show ?thesis
  proof (cases "st \<notin> TERMINAL")
    case False
    with assms have "do_finish env now rid d op Failed None (Some ''result_too_large'') (Some ''peer result exceeds configured limit'') (do_device d s) = Inr (snap, t) \<or>
        do_finish env now rid d op st res c m (do_device d s) = Inr (snap, t)"
      unfolding finish_def by (simp split: if_splits)
    then show ?thesis using go [of Failed] go [of st] False by (auto simp: FINAL_simps)
  qed (use assms in \<open>simp add: finish_def\<close>)
qed

lemma finish_p_settles: "finish_p env sc d op st res c m w = (Inr x, (t, j)) \<Longrightarrow> settled t (d, op)"
  by (cases w) (auto simp: finish_p_def call_def Let_def split: option.splits sum.splits prod.splits dest: finish_settles)

lemma finish_p_count: "finish_p env sc d op st res c m (s, i) = (r, (t, j)) \<Longrightarrow> j = Suc i"
  by (auto simp: finish_p_def call_def Let_def split: option.splits sum.splits prod.splits)

lemma state_text_final: "JStr (state_text st) \<in> JStr ` {''completed'', ''failed'', ''canceled''} \<longleftrightarrow> st \<in> FINAL"
  by (cases st) (auto simp: FINAL_def)

lemma get_op_state: "get_op env now d op s = Inr snap \<Longrightarrow>
    \<exists>r. map_of (operations_t s) (d, op) = Some r \<and> jget snap ''state'' = JStr (state_text (state r))"
  by (auto simp: get_op_def do_snapshot_def)

lemma get_p_state: "get_p env sc d op w = (Inr snap, (t, j)) \<Longrightarrow>
    \<exists>r. map_of (operations_t t) (d, op) = Some r \<and> jget snap ''state'' = JStr (state_text (state r))"
  by (cases w) (auto simp: get_p_def call_def with_store_def Let_def split: option.splits sum.splits dest: get_op_state)

text \<open>An observation of a terminal task that returns leaves its operation settled.\<close>

lemma observe_settles:
  assumes "observe env sc d op task w = (Inr x, (t, j))" "ends_stream (task_state task)"
  shows "settled t (d, op)"
proof -
  obtain snap s1 i1 where g: "get_p env sc d op (snd (save_handle_p env sc d op (task_id task) w)) = (Inr snap, (s1, i1))"
    and k: "(if jget snap ''state'' \<in> JStr ` {''completed'', ''failed'', ''canceled''} then return_p ()
         else case final_state (task_state task) of
           None \<Rightarrow> finish_p env sc d op Failed (Some (JObj [(''_gateway_error_details'', peer_error_details task)]))
                     (Some (if task_state task = ''input_required'' then ''peer_requires_input'' else ''peer_rejected''))
                     (Some ''peer could not complete the operation'')
         | Some st \<Rightarrow> bind_p (store_artifacts env sc d (artifacts task) []) (\<lambda>ds.
             finish_p env sc d op st (Some (JObj [(''text'', JStr (task_text task)), (''artifacts'', JList ds)])) None None)) (s1, i1) = (Inr x, (t, j))"
    using assms unfolding observe_def bind_p_Inr by (auto simp: bind_p_Inr)
  show ?thesis
  proof (cases "jget snap ''state'' \<in> JStr ` {''completed'', ''failed'', ''canceled''}")
    case True
    then have "t = s1" using k by simp
    then show ?thesis using get_p_state [OF g] True unfolding settled_def TERMINAL_def by (metis UnI1 state_text_final)
  next
    case False
    with k show ?thesis by (auto simp: bind_p_Inr split: option.splits dest: finish_p_settles)
  qed
qed

context ledger_client
begin

text \<open>A finish without a result, not cut short, settles the operation whatever it answers.\<close>

lemma finish_none_settles:
  assumes "ready env K s" "(d, op) \<in> K" "fault sc i = None" "st \<in> TERMINAL"
    and "finish_p env sc d op st None c m (s, i) = (r, (t, j))"
  shows "settled t (d, op)"
proof -
  let ?s = "pause sc i s"
  obtain ls where ls: "run (broker_step env) s ls ?s" using rely assms(1) unfolding ready_def by blast
  then have inv: "ledger_inv env ?s" and left: "left_accepted ?s (d, op)"
    using run_ready [OF ls assms(1)] assms(2) by (auto simp: ready_def)
  then obtain q where q: "map_of (operations_t ?s) (d, op) = Some q" by (auto simp: left_accepted_def split: option.splits)
  have fin: "finish env now rid d op st None c m ?s = do_finish env now rid d op st None c m ?s" for now rid
    using assms(4) known_device [OF inv q] by (simp add: finish_def)
  show ?thesis
  proof (cases "state q \<in> FINAL")
    case False
    obtain snap u where "finish env (now_at sc i) (fresh sc i) d op st None c m ?s = Inr (snap, u)"
      using do_finish_none [OF inv q False] fin by metis
    then have "r = Inr ()" using assms(3,5) by (auto simp: finish_p_def call_def Let_def)
    then show ?thesis using assms(5) finish_p_settles by blast
  next
    case True
    then have "settled ?s (d, op)" using q by (auto simp: settled_def TERMINAL_def)
    moreover have "t = ?s \<or> r = Inr ()" using assms(3,5) by (auto simp: finish_p_def call_def Let_def split: sum.splits prod.splits)
    ultimately show ?thesis using assms(5) finish_p_settles by blast
  qed
qed

lemma submit_failed_settles:
  assumes "ready env K s" "(d, op) \<in> K" "\<And>x. e \<noteq> PsycopgError x"
    and "submit_failed env sc d op seen e (s, i) = (r, (t, j))" "fault sc (j - 1) = None"
  shows "settled t (d, op)"
proof -
  have fin: "settled t (d, op)" if "st \<in> TERMINAL" "finish_p env sc d op st None c m (s, i) = (q, (t, j))" for st c m q
    using finish_none_settles [OF assms(1,2) _ that] assms(5) finish_p_count [OF that(2)] by simp
  note unk = fin [of OutcomeUnknown, folded unknown_def]
  show ?thesis using assms(3,4)
    by (cases e) (auto simp: submit_failed_def bind_p_def FINAL_simps unknown_def split: if_splits sum.splits prod.splits dest: fin [rotated])
qed

text \<open>A submission whose last ledger call was not cut short has settled its operation, unless the database failed.\<close>

lemma submit_loop_settles:
  assumes "(d, op) \<in> K" "ready env K s" "submit_loop env sc d op seen rs e (s, i) = (r, (t, j))"
    and "\<And>x. r \<noteq> Inl (PsycopgError x)" "fault sc (j - 1) = None"
  shows "settled t (d, op)"
  using assms(2,3)
proof (induction rs arbitrary: seen s i)
  case Nil
  show ?case
  proof (cases e)
    case None
    obtain r1 t1 j1 where u: "unknown env sc d op (s, i) = (r1, (t1, j1))" by (cases "unknown env sc d op (s, i)") auto
    have rd: "ready env K t1" using guided_ready [OF guided_unknown [OF assms(1)] _ Nil.prems(1)] u by simp
    show ?thesis
    proof (cases r1)
      case (Inl x)
      then have f: "submit_failed env sc d op seen x (t1, j1) = (r, (t, j))" using Nil None u by (simp add: catch_p_def)
      moreover have "x \<noteq> PsycopgError y" for y using f assms(4) [of y] by (auto simp: submit_failed_def)
      ultimately show ?thesis using submit_failed_settles [OF rd assms(1) _ _ assms(5)] by blast
    next
      case (Inr x)
      then have "t1 = t" using Nil None u by (simp add: catch_p_def)
      then show ?thesis using u Inr unfolding unknown_def by (auto dest: finish_p_settles)
    qed
  next
    case (Some x)
    then have f: "submit_failed env sc d op seen x (s, i) = (r, (t, j))" using Nil by simp
    moreover have "x \<noteq> PsycopgError y" for y using f assms(4) [of y] by (auto simp: submit_failed_def)
    ultimately show ?thesis using submit_failed_settles [OF Nil.prems(1) assms(1) _ _ assms(5)] by blast
  qed
next
  case (Cons x rs)
  show ?case
  proof (cases "task_id x = []")
    case True
    then show ?thesis using Cons by simp
  next
    case False
    obtain r1 t1 j1 where u: "observe env sc d op x (s, i) = (r1, (t1, j1))" by (cases "observe env sc d op x (s, i)") auto
    have rd: "ready env K t1" using guided_ready [OF guided_observe [OF assms(1)] _ Cons.prems(1)] u by simp
    show ?thesis
    proof (cases r1)
      case (Inl y)
      then have f: "submit_failed env sc d op (ends_stream (task_state x)) y (t1, j1) = (r, (t, j))" using Cons.prems(2) u False by (simp add: Let_def)
      moreover have "y \<noteq> PsycopgError z" for z using f assms(4) [of z] by (auto simp: submit_failed_def)
      ultimately show ?thesis using submit_failed_settles [OF rd assms(1) _ _ assms(5)] by blast
    next
      case (Inr y)
      show ?thesis
      proof (cases "ends_stream (task_state x)")
        case True
        then have "t = t1" using Cons.prems(2) u False Inr by (simp add: Let_def)
        then show ?thesis using observe_settles u Inr True by blast
      next
        case n: False
        then have "submit_loop env sc d op False rs e (t1, j1) = (r, (t, j))" using Cons.prems(2) u False Inr by (simp add: Let_def)
        with rd show ?thesis by (rule Cons.IH)
      qed
    qed
  qed
qed

end

section \<open>The turns of the dispatcher\<close>

text \<open>The operations of running reads and submissions were dispatched, those of cancellations have had their
  cancellation claimed.\<close>

definition tracked :: "broker_env \<Rightarrow> dispatcher \<Rightarrow> store \<Rightarrow> bool" where
  "tracked env d s \<longleftrightarrow> ledger_inv env s \<and> (\<forall>k \<in> fst ` (set (streams d) \<union> set (reads d)). left_accepted s k) \<and>
     (\<forall>k \<in> fst ` set (cancel_tasks d). cancel_taken s k)"

lemma run_cancel_taken:
  assumes "run (broker_step env) s ls t" "ledger_inv env s" "cancel_taken s k"
  shows "cancel_taken t k"
  using broker_cancel.run_spent_stays [OF assms(1,2)] assms(3) by blast

lemma run_tracked: "run (broker_step env) s ls t \<Longrightarrow> tracked env d s \<Longrightarrow> tracked env d t"
  using run_left_accepted run_cancel_taken broker_run.run_good unfolding tracked_def by meson

lemma reap_keys: "reap js = (r, ks) \<Longrightarrow> set ks \<subseteq> set js \<and> length ks \<le> length js"
  by (induction js arbitrary: r ks rule: reap.induct) (auto simp: Let_def split: prod.splits)

lemma reap_all_keys:
  assumes "reap_all d = (r, d1)"
  shows "set (streams d1) \<subseteq> set (streams d)" "set (reads d1) \<subseteq> set (reads d)" "set (cancel_tasks d1) \<subseteq> set (cancel_tasks d)"
    "length (streams d1) \<le> length (streams d)" "length (reads d1) \<le> length (reads d)" "length (cancel_tasks d1) \<le> length (cancel_tasks d)"
    "closed d1 = closed d"
  using assms reap_keys [of "streams d"] reap_keys [of "reads d"] reap_keys [of "cancel_tasks d"]
  by (auto simp: reap_all_def split: prod.splits sum.splits)

lemma tracked_reap: "reap_all d = (r, d1) \<Longrightarrow> tracked env d s \<Longrightarrow> tracked env d1 s"
  using reap_all_keys(1-3) [of d r d1] unfolding tracked_def by blast

lemma start_reads_keys: "k \<in> fst ` set (start_reads limit busy rows js) \<Longrightarrow> k \<in> fst ` set js \<union> fst ` set rows"
  by (induction limit busy rows js rule: start_reads.induct) (auto simp: Let_def dom_update split: if_splits)

lemma length_update_le: "length (AList.update k v js) \<le> Suc (length js)"
  by (induction js) auto

lemma length_update_new: "k \<notin> fst ` set js \<Longrightarrow> length (AList.update k v js) = Suc (length js)"
  by (induction js) auto

lemma start_reads_bound:
  "int (length js) < limit \<or> rows = [] \<Longrightarrow> int (length (start_reads limit busy rows js)) \<le> max limit (int (length js))"
proof (induction limit busy rows js rule: start_reads.induct)
  case (2 limit busy k h rows js)
  have "length (AList.update k JobRunning js) \<le> Suc (length js)" by (rule length_update_le)
  with 2 show ?case by (auto simp: Let_def)
qed simp

definition jobs_bounded :: "int \<Rightarrow> dispatcher \<Rightarrow> bool" where
  "jobs_bounded limit d \<longleftrightarrow> int (length (streams d)) \<le> limit \<and> int (length (reads d)) \<le> limit \<and> int (length (cancel_tasks d)) \<le> limit"

lemma tracked_close: "tracked env d s \<Longrightarrow> ready env (set (map fst (streams d))) s"
  by (auto simp: tracked_def ready_def)

text \<open>While the loop sleeps jobs end, none is added or removed.\<close>

definition keeps_jobs :: "(nat \<Rightarrow> dispatcher \<Rightarrow> dispatcher) \<Rightarrow> bool" where
  "keeps_jobs settle \<longleftrightarrow> (\<forall>n d. map fst (streams (settle n d)) = map fst (streams d) \<and> map fst (reads (settle n d)) = map fst (reads d) \<and>
     map fst (cancel_tasks (settle n d)) = map fst (cancel_tasks d))"

lemma tracked_keys: "tracked env d s \<longleftrightarrow> ledger_inv env s \<and> (\<forall>k \<in> set (map fst (streams d)) \<union> set (map fst (reads d)). left_accepted s k) \<and>
     (\<forall>k \<in> set (map fst (cancel_tasks d)). cancel_taken s k)"
  by (simp add: tracked_def ball_Un image_Un)

lemma jobs_bounded_keys: "jobs_bounded limit d \<longleftrightarrow> int (length (map fst (streams d))) \<le> limit \<and> int (length (map fst (reads d))) \<le> limit \<and>
     int (length (map fst (cancel_tasks d))) \<le> limit"
  by (simp add: jobs_bounded_def)

lemma keeps_jobs_tracked: "keeps_jobs settle \<Longrightarrow> tracked env d s \<Longrightarrow> tracked env (settle n d) s"
  unfolding tracked_keys keeps_jobs_def by simp

lemma keeps_jobs_bounded: "keeps_jobs settle \<Longrightarrow> jobs_bounded limit d \<Longrightarrow> jobs_bounded limit (settle n d)"
  unfolding jobs_bounded_keys keeps_jobs_def by presburger

context ledger_client
begin

text \<open>What a ledger call does: it starts from a run of the ledger and either raises or is a step.\<close>

lemma call_cases:
  assumes "call sc f (s, i) = (r, (t, j))" "ledger_inv env s"
  obtains (raised) ls e where "run (broker_step env) s ls t" "r = Inl e"
  | (returned) ls s1 now rid x where "run (broker_step env) s ls s1" "f now rid s1 = Inr (x, t)" "r = Inr x"
proof -
  obtain ls where ls: "run (broker_step env) s ls (pause sc i s)" using rely [OF assms(2)] by blast
  show thesis using assms(1) ls raised returned
    by (auto simp: call_def Let_def split: option.splits sum.splits prod.splits)
qed

lemma fill_loop_total:
  assumes "\<And>s i r t j. ledger_inv env s \<Longrightarrow> p (s, i) = (r, (t, j)) \<Longrightarrow> \<exists>ls. run (broker_step env) s ls t \<and>
      (\<forall>x. r = Inr (Some x) \<longrightarrow> (\<exists>k. key x = Inr k \<and> P t k \<and> \<not> P s k))"
    and "\<And>s ls t k. run (broker_step env) s ls t \<Longrightarrow> ledger_inv env s \<Longrightarrow> P s k \<Longrightarrow> P t k"
  shows "ledger_inv env s \<Longrightarrow> \<forall>k \<in> fst ` set js. P s k \<Longrightarrow> limit - int (length js) \<le> int fuel \<Longrightarrow>
    \<exists>r js' t j ls. fill_loop p key limit fuel js (s, i) = Some (r, js', (t, j)) \<and> run (broker_step env) s ls t \<and>
      (\<forall>k \<in> fst ` set js'. P t k) \<and> int (length js') \<le> max limit (int (length js))"
proof (induction fuel arbitrary: js s i)
  case 0
  then show ?case by (auto simp: fill_loop.simps [of p key limit 0] intro: run_Nil)
next
  case (Suc n)
  show ?case
  proof (cases "int (length js) \<ge> limit")
    case True
    then show ?thesis using Suc.prems by (auto simp: fill_loop.simps [of p key limit "Suc n"] intro: run_Nil)
  next
    case False
    obtain r t j where p: "p (s, i) = (r, (t, j))" by (cases "p (s, i)") auto
    obtain ls where ls: "run (broker_step env) s ls t" "\<And>x. r = Inr (Some x) \<Longrightarrow> \<exists>k. key x = Inr k \<and> P t k \<and> \<not> P s k"
      using assms(1) [OF Suc.prems(1) p] by blast
    have inv: "ledger_inv env t" using broker_run.run_good [OF ls(1) Suc.prems(1)] .
    have kept: "\<forall>k \<in> fst ` set js. P t k" using assms(2) [OF ls(1) Suc.prems(1)] Suc.prems(2) by blast
    show ?thesis
    proof (cases "\<exists>x. r = Inr (Some x)")
      case True
      then obtain x k where x: "r = Inr (Some x)" "key x = Inr k" "P t k" "\<not> P s k" using ls(2) by blast
      let ?js = "AList.update k JobRunning js"
      have len: "length ?js = Suc (length js)" by (rule length_update_new) (use x(4) Suc.prems(2) in blast)
      have "\<forall>k \<in> fst ` set ?js. P t k" using kept x(3) by (auto simp: dom_update)
      then obtain r' js' t' j' ls' where "fill_loop p key limit n ?js (t, j) = Some (r', js', (t', j'))" "run (broker_step env) t ls' t'"
          "\<forall>k \<in> fst ` set js'. P t' k" "int (length js') \<le> max limit (int (length ?js))"
        using Suc.IH [of t ?js j] inv Suc.prems(3) len by auto
      moreover have "fill_loop p key limit (Suc n) js (s, i) = fill_loop p key limit n ?js (t, j)"
        using False p x by (simp add: fill_loop.simps [of p key limit "Suc n"])
      moreover have "max limit (int (length ?js)) = limit" "limit \<le> max limit (int (length js))" using False len by auto
      ultimately show ?thesis using run_append [OF ls(1)]
        by (intro exI [of _ r'] exI [of _ js'] exI [of _ t'] exI [of _ j'] exI [of _ "ls @ ls'"]) auto
    next
      case n: False
      then consider e where "r = Inl e" | "r = Inr None" by (metis option.exhaust sum.exhaust)
      then have "\<exists>v. fill_loop p key limit (Suc n) js (s, i) = Some (v, js, (t, j))"
        using False p by cases (auto simp: fill_loop.simps [of p key limit "Suc n"])
      then show ?thesis using ls(1) kept by auto
    qed
  qed
qed

lemma cancel_loop_total:
  assumes "ledger_inv env s" "\<forall>k \<in> fst ` set js. cancel_taken s k" "limit - int (length js) \<le> int fuel"
  shows "\<exists>r js' t j ls. cancel_loop sc limit fuel js (s, i) = Some (r, js', (t, j)) \<and> run (broker_step env) s ls t \<and>
    (\<forall>k \<in> fst ` set js'. cancel_taken t k) \<and> int (length js') \<le> max limit (int (length js))"
  unfolding cancel_loop_def
proof (rule fill_loop_total [where P = cancel_taken, OF _ _ assms])
  fix s i r t j
  assume inv: "ledger_inv env s" and c: "call sc (\<lambda>_ _ s. claim_cancel s) (s, i) = (r, (t, j))"
  from c inv show "\<exists>ls. run (broker_step env) s ls t \<and>
      (\<forall>x. r = Inr (Some x) \<longrightarrow> (\<exists>k. (case x of (d, op, h) \<Rightarrow> Inr (d, op)) = Inr k \<and> cancel_taken t k \<and> \<not> cancel_taken s k))"
  proof (cases rule: call_cases)
    case (returned ls s1 now rid y)
    have inv1: "ledger_inv env s1" using broker_run.run_good [OF returned(1) inv] .
    have st: "broker_step env s1 (LClaimCancel y) t" using returned(2) by (rule st_claim_cancel)
    have "\<exists>k. (case x of (d, op, h) \<Rightarrow> Inr (d, op)) = Inr k \<and> cancel_taken t k \<and> \<not> cancel_taken s k" if "r = Inr (Some x)" for x
    proof -
      obtain d op h where x: "x = (d, op, h)" by (cases x)
      then have "cancels (LClaimCancel y) = Some (d, op)" using that returned(3) by simp
      from broker_cancel.takes_spends [OF inv1 st this] broker_cancel.takes_unspent [OF inv1 st this] x
      show ?thesis using run_cancel_taken [OF returned(1) inv] by auto
    qed
    moreover have "run (broker_step env) s (ls @ [L]) t" if "broker_step env s1 L t" for L
      by (rule run_append [OF returned(1)], rule run_single, rule that)
    ultimately show ?thesis using st by blast
  qed auto
qed (rule run_cancel_taken)

lemma claim_loop_total:
  assumes "fernet_ok env" "ledger_inv env s" "\<forall>k \<in> fst ` set js. left_accepted s k" "limit - int (length js) \<le> int fuel"
  shows "\<exists>r js' t j ls. claim_loop env sc limit fuel js (s, i) = Some (r, js', (t, j)) \<and> run (broker_step env) s ls t \<and>
    (\<forall>k \<in> fst ` set js'. left_accepted t k) \<and> int (length js') \<le> max limit (int (length js))"
  unfolding claim_loop_def
proof (rule fill_loop_total [where P = left_accepted, OF _ _ assms(2-4)])
  fix s i r t j
  assume inv: "ledger_inv env s" and c: "call sc (\<lambda>now rid s. claim env now rid s) (s, i) = (r, (t, j))"
  from c inv show "\<exists>ls. run (broker_step env) s ls t \<and>
      (\<forall>x. r = Inr (Some x) \<longrightarrow> (\<exists>k. job_key x = Inr k \<and> left_accepted t k \<and> \<not> left_accepted s k))"
  proof (cases rule: call_cases)
    case (returned ls s1 now rid y)
    have inv1: "ledger_inv env s1" using broker_run.run_good [OF returned(1) inv] .
    have st: "broker_step env s1 (LClaim y) t" using returned(2) by (rule st_claim)
    have "\<exists>k. job_key x = Inr k \<and> left_accepted t k \<and> \<not> left_accepted s k" if "r = Inr (Some x)" for x
    proof -
      have y: "y = Some x" using that returned(3) by simp
      then obtain k where k: "claim_key x = Some k" using claim_hands_out [OF _ inv1 assms(1)] returned(2) by metis
      then have "dispatches (LClaim y) = Some k" "job_key x = Inr k" using y by (auto simp: job_key_def claim_key_def split: json.splits)
      then show ?thesis
        using broker_dispatch.takes_spends [OF _ st] broker_dispatch.takes_unspent [OF _ st] inv1 assms(1)
          run_left_accepted [OF returned(1) inv] by blast
    qed
    moreover have "run (broker_step env) s (ls @ [L]) t" if "broker_step env s1 L t" for L
      by (rule run_append [OF returned(1)], rule run_single, rule that)
    ultimately show ?thesis using st by blast
  qed auto
qed (rule run_left_accepted)

lemma reads_p_rows:
  assumes "reads_p sc limit d (s, i) = (Inr rows, (t, j))" "ledger_inv env s"
  shows "\<exists>ls. run (broker_step env) s ls t" "\<forall>k \<in> fst ` set rows. left_accepted t k"
    "int (length (reads d)) < limit \<or> rows = []"
proof -
  have "(\<exists>ls. run (broker_step env) s ls t) \<and> (\<forall>k \<in> fst ` set rows. left_accepted t k)"
  proof (cases "int (length (reads d)) < limit")
    case True
    then have c: "call sc (\<lambda>now _ s. Inr (reconcilable now s)) (s, i) = (Inr rows, (t, j))" using assms(1) by (simp add: reads_p_def)
    from c assms(2) show ?thesis
    proof (cases rule: call_cases)
      case (returned ls s1 now rid x)
      then have rec: "reconcilable now s1 = (rows, t)" by simp
      have inv: "ledger_inv env s1" using broker_run.run_good [OF returned(1) assms(2)] .
      have st: "broker_step env s1 (LReconcilable rows) t" using rec by (rule st_reconcilable)
      have run1: "run (broker_step env) s1 [LReconcilable rows] t" by (rule run_single, rule st)
      have "left_accepted s1 k" if "k \<in> fst ` set rows" for k
        using that rec inv by (auto simp: reconcilable_def Let_def left_accepted_def ledger_inv_def inv_keys_def select_where_lookup dest!: in_set_takeD)
      then have "\<forall>k \<in> fst ` set rows. left_accepted t k" using run_left_accepted [OF run1 inv] by blast
      then show ?thesis using run_append [OF returned(1) run1] by blast
    qed simp
  next
    case False
    then show ?thesis using assms(1) by (auto simp: reads_p_def intro: run_Nil)
  qed
  then show "\<exists>ls. run (broker_step env) s ls t" "\<forall>k \<in> fst ` set rows. left_accepted t k" by blast+
  show "int (length (reads d)) < limit \<or> rows = []" using assms(1) by (auto simp: reads_p_def split: if_splits)
qed

text \<open>A turn always ends, does to the ledger what a run of it does, and keeps every group within the limit.\<close>

lemma dispatch_tail_total:
  assumes "fernet_ok env" "tracked env d s" "jobs_bounded limit d" "fuel = nat limit"
  shows "\<exists>r d' t j ls. (case reads_p sc limit d (s, i) of
      (Inl e, w3) \<Rightarrow> Some (Inl e, d, w3)
    | (Inr rows, w3) \<Rightarrow>
        let d3 = d\<lparr>reads := start_reads limit (map fst (streams d) @ map fst (cancel_tasks d)) rows (reads d)\<rparr> in
        (case claim_loop env sc limit fuel (streams d3) w3 of
           None \<Rightarrow> None | Some (r, js, w4) \<Rightarrow> Some (r, d3\<lparr>streams := js\<rparr>, w4))) = Some (r, d', (t, j)) \<and>
    run (broker_step env) s ls t \<and> tracked env d' t \<and> jobs_bounded limit d'"
proof -
  have inv: "ledger_inv env s" using assms(2) by (simp add: tracked_def)
  obtain r t j where p: "reads_p sc limit d (s, i) = (r, (t, j))" by (cases "reads_p sc limit d (s, i)") auto
  obtain ls where ls: "run (broker_step env) s ls t" by (rule guidedD [OF guided_reads [of "{}"] p]) (use inv in \<open>auto simp: ready_def\<close>)
  have tr: "tracked env d t" using run_tracked [OF ls assms(2)] .
  show ?thesis
  proof (cases r)
    case (Inl e)
    then show ?thesis using p ls tr assms(3) by auto
  next
    case (Inr rows)
    let ?d = "d\<lparr>reads := start_reads limit (map fst (streams d) @ map fst (cancel_tasks d)) rows (reads d)\<rparr>"
    have rows: "\<forall>k \<in> fst ` set rows. left_accepted t k" "int (length (reads d)) < limit \<or> rows = []"
      using reads_p_rows(2,3) [OF p [unfolded Inr] inv] by blast+
    have new: "left_accepted t k" if "k \<in> fst ` set (reads ?d)" for k
    proof -
      have "k \<in> fst ` set (reads d) \<union> fst ` set rows" by (rule start_reads_keys) (use that in simp)
      then show ?thesis using tr rows(1) unfolding tracked_def by blast
    qed
    have tr2: "tracked env ?d t" using tr new unfolding tracked_def by (simp add: image_Un ball_Un)
    have b: "int (length (reads ?d)) \<le> limit" using start_reads_bound [OF rows(2)] assms(3) by (auto simp: jobs_bounded_def max_def split: if_splits)
    have "\<exists>r' js t2 j2 ls2. claim_loop env sc limit fuel (streams d) (t, j) = Some (r', js, (t2, j2)) \<and> run (broker_step env) t ls2 t2 \<and>
        (\<forall>k \<in> fst ` set js. left_accepted t2 k) \<and> int (length js) \<le> max limit (int (length (streams d)))"
      by (rule claim_loop_total [OF assms(1)]) (use tr assms(4) in \<open>auto simp: tracked_def\<close>)
    then obtain r' js t2 j2 ls2 where c: "claim_loop env sc limit fuel (streams d) (t, j) = Some (r', js, (t2, j2))" "run (broker_step env) t ls2 t2"
      "\<forall>k \<in> fst ` set js. left_accepted t2 k" "int (length js) \<le> max limit (int (length (streams d)))" by blast
    have "tracked env ?d t2" using run_tracked [OF c(2) tr2] .
    then have "tracked env (?d\<lparr>streams := js\<rparr>) t2" using c(3) unfolding tracked_def by auto
    moreover have "jobs_bounded limit (?d\<lparr>streams := js\<rparr>)" using b c(4) assms(3) by (auto simp: jobs_bounded_def)
    ultimately show ?thesis using p Inr c(1) run_append [OF ls c(2)] by (auto simp: Let_def)
  qed
qed

lemma dispatch_step_total:
  assumes "fernet_ok env" "tracked env d s" "jobs_bounded (max_concurrent_streams (settings env)) d"
  shows "\<exists>r d' t j ls. dispatch_step env sc d (s, i) = Some (r, d', (t, j)) \<and> run (broker_step env) s ls t \<and> tracked env d' t \<and>
    jobs_bounded (max_concurrent_streams (settings env)) d'"
proof -
  let ?n = "max_concurrent_streams (settings env)"
  obtain r0 d1 where reap: "reap_all d = (r0, d1)" by (cases "reap_all d")
  have tr: "tracked env d1 s" using tracked_reap [OF reap assms(2)] .
  then have inv: "ledger_inv env s" by (simp add: tracked_def)
  have b: "jobs_bounded ?n d1" using reap_all_keys(4-6) [OF reap] assms(3) by (auto simp: jobs_bounded_def)
  obtain r1 s1 i1 where p: "call sc (\<lambda>now _ s. Inr ((), purge now s)) (s, i) = (r1, (s1, i1))"
    by (cases "call sc (\<lambda>now _ s. Inr ((), purge now s)) (s, i)") auto
  obtain ls1 where ls1: "run (broker_step env) s ls1 s1" by (rule guidedD [OF guided_purge [of "{}"] p]) (use inv in \<open>auto simp: ready_def\<close>)
  have tr1: "tracked env d1 s1" using run_tracked [OF ls1 tr] .
  have "\<exists>r2 cs s2 i2 ls2. cancel_loop sc ?n (nat ?n) (cancel_tasks d1) (s1, i1) = Some (r2, cs, (s2, i2)) \<and> run (broker_step env) s1 ls2 s2 \<and>
      (\<forall>k \<in> fst ` set cs. cancel_taken s2 k) \<and> int (length cs) \<le> max ?n (int (length (cancel_tasks d1)))"
    by (rule cancel_loop_total) (use tr1 in \<open>auto simp: tracked_def\<close>)
  then obtain r2 cs s2 i2 ls2 where c: "cancel_loop sc ?n (nat ?n) (cancel_tasks d1) (s1, i1) = Some (r2, cs, (s2, i2))"
    "run (broker_step env) s1 ls2 s2" "\<forall>k \<in> fst ` set cs. cancel_taken s2 k" "int (length cs) \<le> max ?n (int (length (cancel_tasks d1)))" by blast
  let ?d = "d1\<lparr>cancel_tasks := cs\<rparr>"
  have tr2: "tracked env ?d s2" using run_tracked [OF c(2) tr1] c(3) by (auto simp: tracked_def)
  have b2: "jobs_bounded ?n ?d" using b c(4) by (auto simp: jobs_bounded_def)
  have run2: "run (broker_step env) s (ls1 @ ls2) s2" using ls1 c(2) by (rule run_append)
  show ?thesis
  proof (cases "closed d \<or> isl r0 \<or> isl r1 \<or> isl r2")
    case True
    then show ?thesis using reap p c(1) assms(2,3) tr b ls1 tr1 run2 tr2 b2 run_Nil [of "broker_step env" s]
      by (auto simp: dispatch_step_def Let_def isl_def split: sum.splits)
  next
    case False
    then have r: "r0 = Inr ()" "r1 = Inr ()" "r2 = Inr ()" by (cases r0; cases r1; cases r2; simp)+
    from dispatch_tail_total [OF assms(1) tr2 b2 refl, of i2] obtain r d' t j ls3 where
      "dispatch_step env sc d (s, i) = Some (r, d', (t, j))" "run (broker_step env) s2 ls3 t" "tracked env d' t" "jobs_bounded ?n d'"
      using False r reap p c(1) by (auto simp: dispatch_step_def Let_def)
    then show ?thesis using run_append [OF run2] by blast
  qed
qed

section \<open>Closing\<close>

lemma close_streams_settles:
  assumes "close_streams env sc ks (s, i) = (Inr x, (t, j))" "ready env (set ks) s"
  shows "\<exists>ls. run (broker_step env) s ls t \<and> (\<forall>k \<in> set ks. settled t k)"
  using assms
proof (induction ks arbitrary: s i)
  case (Cons k ks)
  obtain d op where k: "k = (d, op)" by (cases k)
  obtain snap s1 i1 where g: "get_p env sc d op (s, i) = (Inr snap, (s1, i1))"
    and rest: "bind_p (if jget snap ''state'' = JStr ''running'' then unknown env sc d op else return_p ()) (\<lambda>_. close_streams env sc ks) (s1, i1) = (Inr x, (t, j))"
    using Cons.prems(1) k by (auto simp: bind_p_Inr)
  obtain s2 i2 where u: "(if jget snap ''state'' = JStr ''running'' then unknown env sc d op else return_p ()) (s1, i1) = (Inr (), (s2, i2))"
    and c: "close_streams env sc ks (s2, i2) = (Inr x, (t, j))" using rest by (auto simp: bind_p_Inr)
  obtain ls1 where ls1: "run (broker_step env) s ls1 s1" using guidedD [OF guided_get g Cons.prems(2)] .
  have r1: "ready env (set (k # ks)) s1" using run_ready [OF ls1 Cons.prems(2)] .
  have gd: "guided env (set (k # ks)) (if jget snap ''state'' = JStr ''running'' then unknown env sc d op else return_p ())"
    using guided_unknown [of k "set (k # ks)"] k by simp
  obtain ls2 where ls2: "run (broker_step env) s1 ls2 s2" using guidedD [OF gd u r1] .
  have r2: "ready env (set (k # ks)) s2" using run_ready [OF ls2 r1] .
  have "settled s2 k"
  proof (cases "jget snap ''state'' = JStr ''running''")
    case True
    then show ?thesis using u k unfolding unknown_def by (auto dest: finish_p_settles)
  next
    case False
    obtain r where r: "map_of (operations_t s1) k = Some r" "jget snap ''state'' = JStr (state_text (state r))" using get_p_state [OF g] k by blast
    moreover have "left_accepted s1 k" using r1 by (simp add: ready_def)
    ultimately have "settled s1 k" using False unfolding settled_def left_accepted_def by (cases "state r") (auto simp: FINAL_simps)
    then show ?thesis using run_settled [OF ls2] r1 by (simp add: ready_def)
  qed
  moreover obtain ls3 where ls3: "run (broker_step env) s2 ls3 t" "\<forall>k \<in> set ks. settled t k"
    using Cons.IH [OF c] r2 by (auto simp: ready_def)
  ultimately have "\<forall>k \<in> set (k # ks). settled t k" using run_settled [OF ls3(1)] r2 by (simp add: ready_def)
  moreover have "run (broker_step env) s (ls1 @ ls2 @ ls3) t" using run_append [OF ls1 run_append [OF ls2 ls3(1)]] .
  ultimately show ?case by blast
qed (auto intro: run_Nil)

text \<open>The whole run, for any number of turns: it ends, and the ledger has made a run.\<close>

lemma dispatch_turns_total:
  assumes "fernet_ok env" "keeps_jobs settle"
  shows "tracked env d s \<Longrightarrow> jobs_bounded (max_concurrent_streams (settings env)) d \<Longrightarrow>
    \<exists>r d' t j ls. dispatch_turns env sc settle n d (s, i) = Some (r, d', (t, j)) \<and> run (broker_step env) s ls t \<and> tracked env d' t \<and>
      jobs_bounded (max_concurrent_streams (settings env)) d'"
proof (induction n arbitrary: d s i)
  case (Suc n)
  obtain r d1 t j ls where st: "dispatch_step env sc d (s, i) = Some (r, d1, (t, j))" "run (broker_step env) s ls t" "tracked env d1 t"
    "jobs_bounded (max_concurrent_streams (settings env)) d1" using dispatch_step_total [OF assms(1) Suc.prems] by blast
  show ?case
  proof (cases r)
    case (Inr x)
    obtain r2 d2 u m ls2 where "dispatch_turns env sc settle n (settle n d1) (t, j) = Some (r2, d2, (u, m))" "run (broker_step env) t ls2 u"
        "tracked env d2 u" "jobs_bounded (max_concurrent_streams (settings env)) d2"
      using Suc.IH [of "settle n d1" t j] keeps_jobs_tracked [OF assms(2) st(3)] keeps_jobs_bounded [OF assms(2) st(4)] by blast
    then show ?thesis using st(1) Inr run_append [OF st(2)] by fastforce
  qed (use st in fastforce)
qed (auto intro: run_Nil)

lemma new_dispatcher_tracked: "ledger_inv env s \<Longrightarrow> 0 \<le> limit \<Longrightarrow> tracked env new_dispatcher s \<and> jobs_bounded limit new_dispatcher"
  by (simp add: tracked_def jobs_bounded_def new_dispatcher_def)

lemma dispatcher_run_total:
  assumes "fernet_ok env" "keeps_jobs settle"
    and "ledger_inv env s" "0 \<le> max_concurrent_streams (settings env)"
  shows "\<exists>r d t j ls. dispatcher_run env sc settle lock uuid4 n (s, i) = Some (r, d, (t, j)) \<and> run (broker_step env) s ls t"
proof -
  obtain r1 s1 i1 where p: "start_p env sc lock uuid4 (s, i) = (r1, (s1, i1))" by (cases "start_p env sc lock uuid4 (s, i)") auto
  obtain ls1 where ls1: "run (broker_step env) s ls1 s1" by (rule guidedD [OF guided_start [of "{}"] p]) (use assms(3) in \<open>auto simp: ready_def\<close>)
  have inv: "ledger_inv env s1" using broker_run.run_good [OF ls1 assms(3)] .
  obtain r2 d2 s2 i2 ls2 where t: "dispatch_turns env sc settle n new_dispatcher (s1, i1) = Some (r2, d2, (s2, i2))" "run (broker_step env) s1 ls2 s2" "tracked env d2 s2"
    using dispatch_turns_total [OF assms(1,2)] new_dispatcher_tracked [OF inv assms(4)] by blast
  obtain r3 s3 i3 where c: "close_streams env sc (map fst (streams d2)) (s2, i2) = (r3, (s3, i3))"
    by (cases "close_streams env sc (map fst (streams d2)) (s2, i2)") auto
  obtain ls3 where ls3: "run (broker_step env) s2 ls3 s3" using guidedD [OF guided_close c tracked_close [OF t(3)]] .
  have run3: "run (broker_step env) s (ls1 @ ls2 @ ls3) s3" using run_append [OF ls1 run_append [OF t(2) ls3]] .
  show ?thesis
  proof (cases r1)
    case (Inl e)
    then show ?thesis using p ls1 by (auto simp: dispatcher_run_def)
  next
    case (Inr x)
    then show ?thesis using p t(1) c run3 by (cases r3) (auto simp: dispatcher_run_def aclose_def)
  qed
qed

end

end
