(* ===== verification/Broker_Http.thy ===== *)
theory Broker_Http
  imports Dispatcher_Steps
begin

text \<open>
  The HTTP interface of \<open>broker.py\<close>: the bearer-token middleware \<open>DeviceAuthentication\<close>, the request
  handlers and the event stream. Starlette routes a request to a handler, so a request carries its
  \<open>route\<close>; pydantic's validation of a body is the argument \<open>validators\<close>. A handler returns an exception or
  a response with the new ledger, and \<open>serve\<close> is the middleware around it: ledger errors become error
  responses, any other exception leaves the application.
\<close>

section \<open>Requests and responses\<close>

datatype route =
    RHealth
  | RPeerPolicy "exn + json"
  | RAccept
  | RGet string
  | RCancel string
  | REvents "string option"
  | RReceipt
  | RUpload
  | RDownload string

record request =
  rq_type :: string
  rq_path :: string
  rq_scheme :: string
  rq_headers :: "(bytes \<times> bytes) list"
  rq_chunks :: "bytes list"
  rq_route :: route

datatype body = BJson json | BBytes bytes | BEvents string int "(int \<times> json) list"

record response =
  rs_status :: int
  rs_body :: body
  rs_headers :: "(string \<times> string) list"

record receipt_request =
  rr_operation_id :: string
  rr_result_id :: string
  rr_status :: string

record validators =
  valid_operation :: "bytes \<Rightarrow> op_request option"
  valid_receipt :: "bytes \<Rightarrow> receipt_request option"

record app_state =
  ledger_open :: bool
  worker_done :: bool
  allow_loopback_http :: bool
  device_tokens :: "(string \<times> string) list"

definition no_store :: "(string \<times> string) list" where
  "no_store = [(''Cache-Control'', ''no-store'')]"

definition json_response :: "int \<Rightarrow> json \<Rightarrow> response" where
  "json_response st v = \<lparr>rs_status = st, rs_body = BJson v, rs_headers = no_store\<rparr>"

definition error_response :: "exn \<Rightarrow> response" where
  "error_response e =
     (let v = JObj [(''code'', JStr (code e)), (''message'', JStr (message e))];
          w = (case details e of None \<Rightarrow> v | Some x \<Rightarrow> jput ''details'' x v)
      in json_response (status e) (JObj [(''error'', w)]))"

section \<open>Authentication\<close>

datatype auth = PassThrough | Refused exn | Device string

definition header_values :: "string \<Rightarrow> (bytes \<times> bytes) list \<Rightarrow> bytes list" where
  "header_values name hs = map snd (filter (\<lambda>(k, v). lower k = name) hs)"

text \<open>The loop over the configured devices keeps the last match.\<close>

definition find_device :: "bytes \<Rightarrow> (string \<times> string) list \<Rightarrow> string option" where
  "find_device token tokens = fold (\<lambda>(d, secret) found. if token = secret then Some d else found) tokens None"

definition authenticate :: "app_state \<Rightarrow> request \<Rightarrow> auth" where
  "authenticate app rq =
     (if rq_type rq \<noteq> ''http'' \<or> rq_path rq = ''/healthz'' then PassThrough
      else if rq_scheme rq \<noteq> ''https'' \<and> \<not> allow_loopback_http app
      then Refused (err ''https_required'' ''HTTPS transport is required'' 400)
      else case (case header_values ''authorization'' (rq_headers rq) of
          [h] \<Rightarrow> if starts_with ''Bearer '' h then find_device (drop 7 h) (device_tokens app) else None
        | _ \<Rightarrow> None) of
        None \<Rightarrow> Refused (err ''unauthorized'' ''valid device bearer token required'' 401)
      | Some d \<Rightarrow> Device d)"

section \<open>Handlers\<close>

definition db :: "app_state \<Rightarrow> exn + unit" where
  "db app =
     (if \<not> ledger_open app then Inl (err ''ledger_unavailable'' ''broker ledger is not initialized'' 503)
      else if worker_done app then Inl (err ''dispatcher_stopped'' ''broker dispatcher stopped; restart is required'' 503)
      else Inr ())"

fun read_body :: "int \<Rightarrow> bytes \<Rightarrow> bytes list \<Rightarrow> exn + bytes" where
  "read_body limit got [] = Inr got"
| "read_body limit got (c # cs) =
     (if int (length got) + int (length c) > limit then Inl (err ''request_too_large'' ''request exceeds configured size limit'' 413)
      else read_body limit (got @ c) cs)"

definition bounded_body :: "request \<Rightarrow> int \<Rightarrow> exn + bytes" where
  "bounded_body rq limit = read_body limit [] (rq_chunks rq)"

definition operation_id :: "string \<Rightarrow> exn + string" where
  "operation_id t = (case uuid_text t of Some u \<Rightarrow> Inr u | None \<Rightarrow> Inl (err ''invalid_id'' ''operation ID must be a UUID'' 400))"

definition header :: "string \<Rightarrow> string \<Rightarrow> request \<Rightarrow> string" where
  "header name dflt rq = (case header_values name (rq_headers rq) of [] \<Rightarrow> dflt | v # _ \<Rightarrow> v)"

definition handle_accept :: "broker_env \<Rightarrow> validators \<Rightarrow> app_state \<Rightarrow> time \<Rightarrow> string \<Rightarrow> request \<Rightarrow> store \<Rightarrow> exn + response \<times> store" where
  "handle_accept env va app now d rq s =
     bind_r (bounded_body rq (max_request_bytes (settings env))) (\<lambda>body.
       case valid_operation va body of
         None \<Rightarrow> Inl (err ''invalid_request'' ''invalid operation request'' 400)
       | Some req \<Rightarrow> bind_r (db app) (\<lambda>_. bind_r (accept env now d req s) (\<lambda>((snap, created), t).
           Inr (json_response (if created then 202 else 200) snap, t))))"

definition handle_get :: "broker_env \<Rightarrow> app_state \<Rightarrow> time \<Rightarrow> string \<Rightarrow> string \<Rightarrow> store \<Rightarrow> exn + response \<times> store" where
  "handle_get env app now d param s =
     bind_r (db app) (\<lambda>_. bind_r (operation_id param) (\<lambda>op. bind_r (get_op env now d op s) (\<lambda>snap. Inr (json_response 200 snap, s))))"

definition handle_cancel :: "broker_env \<Rightarrow> app_state \<Rightarrow> time \<Rightarrow> string \<Rightarrow> string \<Rightarrow> string \<Rightarrow> store \<Rightarrow> exn + response \<times> store" where
  "handle_cancel env app now rid d param s =
     bind_r (db app) (\<lambda>_. bind_r (operation_id param) (\<lambda>op. bind_r (cancel_intent env now rid d op s) (\<lambda>((snap, _), t).
       Inr (json_response 200 snap, t))))"

definition handle_receipt :: "validators \<Rightarrow> app_state \<Rightarrow> time \<Rightarrow> string \<Rightarrow> request \<Rightarrow> store \<Rightarrow> exn + response \<times> store" where
  "handle_receipt va app now d rq s =
     bind_r (bounded_body rq 4096) (\<lambda>body.
       case valid_receipt va body of
         None \<Rightarrow> Inl (err ''invalid_request'' ''invalid receipt request'' 400)
       | Some c \<Rightarrow> bind_r (db app) (\<lambda>_. bind_r (receipt now d (rr_operation_id c) (rr_result_id c) (rr_status c) s) (\<lambda>t.
           Inr ((json_response 200 (JObj [(''ok'', JBool True)]))\<lparr>rs_headers := []\<rparr>, t))))"

definition cursor_param :: "string option \<Rightarrow> request \<Rightarrow> exn + int" where
  "cursor_param after rq =
     (case py_int (case after of Some t \<Rightarrow> t | None \<Rightarrow> header ''last-event-id'' ''0'' rq) of
        Some n \<Rightarrow> if n < 0 \<or> n > 2 ^ 63 - 1 then Inl (err ''invalid_cursor'' ''cursor must be a nonnegative integer'' 400) else Inr n
      | None \<Rightarrow> Inl (err ''invalid_cursor'' ''cursor must be a nonnegative integer'' 400))"

definition handle_events :: "broker_env \<Rightarrow> app_state \<Rightarrow> time \<Rightarrow> nat \<Rightarrow> string \<Rightarrow> string option \<Rightarrow> request \<Rightarrow> store \<Rightarrow> exn + response \<times> store" where
  "handle_events env app now limit d after rq s =
     bind_r (cursor_param after rq) (\<lambda>n. bind_r (db app) (\<lambda>_. bind_r (events env now d n limit s) (\<lambda>(batch, t).
       Inr (\<lparr>rs_status = 200, rs_body = BEvents d n batch, rs_headers = no_store @ [(''X-Accel-Buffering'', ''no'')]\<rparr>, t))))"

definition handle_upload :: "broker_env \<Rightarrow> app_state \<Rightarrow> time \<Rightarrow> string \<Rightarrow> string \<Rightarrow> request \<Rightarrow> store \<Rightarrow> exn + response \<times> store" where
  "handle_upload env app now aid d rq s =
     bind_r (bounded_body rq (max_artifact_bytes (settings env))) (\<lambda>content. bind_r (db app) (\<lambda>_.
     bind_r (put_artifact env now aid d content (header ''x-content-sha256'' [] rq) (header ''content-type'' ''application/octet-stream'' rq) s)
       (\<lambda>(desc, t). Inr (json_response 201 desc, t))))"

definition handle_download :: "broker_env \<Rightarrow> app_state \<Rightarrow> time \<Rightarrow> string \<Rightarrow> string \<Rightarrow> store \<Rightarrow> exn + response \<times> store" where
  "handle_download env app now d param s =
     (case uuid_text param of
        None \<Rightarrow> Inl (err ''invalid_id'' ''artifact ID must be a UUID'' 400)
      | Some aid \<Rightarrow> bind_r (db app) (\<lambda>_. bind_r (artifact env now d aid s) (\<lambda>(desc, content).
          Inr (\<lparr>rs_status = 200, rs_body = BBytes content,
                rs_headers = [(''Content-Disposition'', ''attachment; filename='' @ [CHR 0x22] @ aid @ [CHR 0x22]),
                  (''X-Content-SHA256'', py_str (jget desc ''sha256'')), (''X-Content-Type-Options'', ''nosniff''),
                  (''Content-Security-Policy'', ''default-src '' @ [CHR 0x27] @ ''none'' @ [CHR 0x27] @ ''; sandbox''),
                  (''Cache-Control'', ''no-store'')]\<rparr>, s))))"

definition handle_health :: "app_state \<Rightarrow> response" where
  "handle_health app = (case db app of Inl e \<Rightarrow> error_response e
     | Inr _ \<Rightarrow> \<lparr>rs_status = 200, rs_body = BJson (JObj [(''ok'', JBool True)]), rs_headers = []\<rparr>)"

definition handle_peer_policy :: "exn + json \<Rightarrow> response" where
  "handle_peer_policy outcome = json_response 200 (case outcome of Inl _ \<Rightarrow> unknown_policy | Inr v \<Rightarrow> v)"

definition handle :: "broker_env \<Rightarrow> validators \<Rightarrow> app_state \<Rightarrow> time \<Rightarrow> string \<Rightarrow> string \<Rightarrow> request \<Rightarrow> store \<Rightarrow> exn + response \<times> store" where
  "handle env va app now rid d rq s =
     (case rq_route rq of
        RHealth \<Rightarrow> Inr (handle_health app, s)
      | RPeerPolicy outcome \<Rightarrow> Inr (handle_peer_policy outcome, s)
      | RAccept \<Rightarrow> handle_accept env va app now d rq s
      | RGet p \<Rightarrow> handle_get env app now d p s
      | RCancel p \<Rightarrow> handle_cancel env app now rid d p s
      | REvents after \<Rightarrow> handle_events env app now 100 d after rq s
      | RReceipt \<Rightarrow> handle_receipt va app now d rq s
      | RUpload \<Rightarrow> handle_upload env app now rid d rq s
      | RDownload p \<Rightarrow> handle_download env app now d p s)"

text \<open>The application: the middleware around the routes. Only the health check passes unauthenticated.\<close>

definition serve :: "broker_env \<Rightarrow> validators \<Rightarrow> app_state \<Rightarrow> time \<Rightarrow> string \<Rightarrow> request \<Rightarrow> store \<Rightarrow> (exn + response) \<times> store" where
  "serve env va app now rid rq s =
     (case authenticate app rq of
        PassThrough \<Rightarrow> (Inr (handle_health app), s)
      | Refused e \<Rightarrow> (Inr (error_response e), s)
      | Device d \<Rightarrow>
          (case handle env va app now rid d rq s of
             Inr (rs, t) \<Rightarrow> (Inr rs, t)
           | Inl (BrokerError c m st x) \<Rightarrow> (Inr (error_response (BrokerError c m st x)), s)
           | Inl (PsycopgError _) \<Rightarrow> (Inr (error_response (err ''ledger_unavailable'' ''broker ledger unavailable'' 503)), s)
           | Inl e \<Rightarrow> (Inl e, s)))"

section \<open>The event stream\<close>

definition NL :: string where
  "NL = [CHR 0x0A]"

definition event_frame :: "int \<times> json \<Rightarrow> bytes" where
  "event_frame = (\<lambda>(n, snap). ''id: '' @ dec_int n @ NL @ ''event: operation'' @ NL @ ''data: '' @ canonical snap @ NL @ NL)"

definition error_frame :: "exn \<Rightarrow> bytes" where
  "error_frame e = ''event: error'' @ NL @ ''data: '' @ canonical (JObj [(''error'', JObj [(''code'', JStr (code e)),
     (''message'', JStr (message e)), (''details'', case details e of None \<Rightarrow> JNull | Some x \<Rightarrow> x)])]) @ NL @ NL"

text \<open>The chunks of the stream. Each later poll asks the ledger for the events after the cursor; after the
  last one the client has disconnected. A ledger error becomes an error event and ends the stream, a
  database failure or another exception just ends it.\<close>

fun event_stream :: "int \<Rightarrow> (int \<times> json) list \<Rightarrow> (int \<Rightarrow> exn + (int \<times> json) list) list \<Rightarrow> bytes list" where
  "event_stream cursor batch [] = map event_frame batch"
| "event_stream cursor batch (poll # polls) =
     (let c = (if batch = [] then cursor else fst (last batch)) in
      map event_frame batch @
      (case poll c of
         Inl (BrokerError x m st de) \<Rightarrow> [error_frame (BrokerError x m st de)]
       | Inl _ \<Rightarrow> []
       | Inr b \<Rightarrow> (if b = [] then ['': keepalive'' @ NL @ NL] else []) @ event_stream c b polls))"

section \<open>Requests as steps of the ledger\<close>

lemma handle_run:
  assumes "handle env va app now rid d rq s = Inr (rs, t)"
  shows "\<exists>ls. run (broker_step env) s ls t"
proof -
  have one: "\<exists>ls. run (broker_step env) s ls t" if "broker_step env s l t" for l using run_single that by metis
  have none: "\<exists>ls. run (broker_step env) s ls t" if "t = s" using that by auto
  show ?thesis
  proof (cases "rq_route rq")
    case RAccept
    then show ?thesis using assms one by (auto simp: handle_def handle_accept_def split: option.splits dest!: st_accept)
  next
    case (RCancel p)
    then show ?thesis using assms one by (auto simp: handle_def handle_cancel_def dest!: st_cancel)
  next
    case (REvents a)
    then show ?thesis using assms one by (auto simp: handle_def handle_events_def dest!: st_events)
  next
    case RReceipt
    then show ?thesis using assms one by (auto simp: handle_def handle_receipt_def split: option.splits dest!: st_receipt [of _ _ _ _ _ _ _ env])
  next
    case RUpload
    then show ?thesis using assms one by (auto simp: handle_def handle_upload_def dest!: st_put_artifact)
  qed (use assms none in \<open>auto simp: handle_def handle_get_def handle_download_def split: option.splits\<close>)
qed

lemma serve_run: "\<exists>ls. run (broker_step env) s ls (snd (serve env va app now rid rq s))"
proof (cases "authenticate app rq")
  case (Device d)
  show ?thesis
  proof (cases "handle env va app now rid d rq s")
    case (Inr x)
    then show ?thesis using handle_run [of env va app now rid d rq s "fst x" "snd x"] Device by (cases x) (auto simp: serve_def)
  next
    case (Inl e)
    then show ?thesis using Device by (cases e) (auto simp: serve_def)
  qed
qed (auto simp: serve_def)

text \<open>Requests that arrive while the dispatcher waits for a ledger call: an instance of its interface.\<close>

definition serve_all :: "broker_env \<Rightarrow> validators \<Rightarrow> app_state \<Rightarrow> (time \<times> string \<times> request) list \<Rightarrow> store \<Rightarrow> store" where
  "serve_all env va app rqs s = fold (\<lambda>(now, rid, rq) t. snd (serve env va app now rid rq t)) rqs s"

definition request_schedule :: "broker_env \<Rightarrow> validators \<Rightarrow> app_state \<Rightarrow> (nat \<Rightarrow> (time \<times> string \<times> request) list) \<Rightarrow> (nat \<Rightarrow> exn option)
    \<Rightarrow> (nat \<Rightarrow> time) \<Rightarrow> (nat \<Rightarrow> string) \<Rightarrow> schedule" where
  "request_schedule env va app rqs faults clock uuids =
     \<lparr>pause = (\<lambda>i. serve_all env va app (rqs i)), fault = faults, now_at = clock, fresh = uuids\<rparr>"

lemma serve_all_run: "\<exists>ls. run (broker_step env) s ls (serve_all env va app rqs s)"
proof (induction rqs arbitrary: s)
  case (Cons x rqs)
  obtain now rid rq where x: "x = (now, rid, rq)" by (cases x)
  obtain ls where ls: "run (broker_step env) s ls (snd (serve env va app now rid rq s))" using serve_run by blast
  obtain ls2 where "run (broker_step env) (snd (serve env va app now rid rq s)) ls2 (serve_all env va app rqs (snd (serve env va app now rid rq s)))"
    using Cons.IH by blast
  with ls have "run (broker_step env) s (ls @ ls2) (serve_all env va app rqs (snd (serve env va app now rid rq s)))" by (rule run_append)
  then show ?case by (auto simp: serve_all_def x)
qed (auto simp: serve_all_def)

interpretation requests: ledger_client env "request_schedule env va app rqs faults clock uuids"
  for env va app rqs faults clock uuids
  by unfold_locales (simp add: request_schedule_def serve_all_run)

section \<open>Authentication and request bodies\<close>

lemma find_device_fold:
  "fold (\<lambda>(d, secret) found. if token = secret then Some d else found) tokens acc = Some d \<Longrightarrow> acc = Some d \<or> (d, token) \<in> set tokens"
proof (induction tokens arbitrary: acc)
  case (Cons x tokens)
  obtain d' secret where x: "x = (d', secret)" by (cases x)
  then have "(if token = secret then Some d' else acc) = Some d \<or> (d, token) \<in> set tokens" using Cons.prems by (intro Cons.IH) simp
  then show ?case by (auto simp: x split: if_splits)
qed simp

lemma find_device_in: "find_device token tokens = Some d \<Longrightarrow> (d, token) \<in> set tokens"
  unfolding find_device_def using find_device_fold by fastforce

lemma find_device_fold_none: "token \<notin> snd ` set tokens \<Longrightarrow>
    fold (\<lambda>(d, secret) found. if token = secret then Some d else found) tokens acc = acc"
  by (induction tokens arbitrary: acc) (auto simp: image_iff)

lemma find_device_unique:
  assumes "distinct (map snd tokens)" "(d, token) \<in> set tokens"
  shows "find_device token tokens = Some d"
proof -
  obtain a b where t: "tokens = a @ (d, token) # b" using assms(2) by (meson split_list)
  then have "token \<notin> snd ` set b" using assms(1) by auto
  then show ?thesis using t by (simp add: find_device_def find_device_fold_none)
qed

lemma read_body_iff:
  "int (length got) \<le> limit \<Longrightarrow> read_body limit got cs =
     (if int (length (got @ concat cs)) \<le> limit then Inr (got @ concat cs)
      else Inl (err ''request_too_large'' ''request exceeds configured size limit'' 413))"
  by (induction cs arbitrary: got) auto

end
