(* ===== verification/Dispatcher_Process.thy ===== *)
theory Dispatcher_Process
  imports Dispatcher_Properties
begin

text \<open>
  The broker process as a whole: the loop of \<open>BrokerDispatcher\<close>, the jobs it starts and the HTTP requests, interleaved at every single
  ledger call. A coroutine is a function of what its calls find, so its state between two calls is the list of what they found so far, and
  resuming it is running it on that list with one entry more: the ledger as the others have left it, the time and identifier the call
  draws, and whether it is cut short. Nothing is assumed of the peer, which may answer a job anything, nor of the scheduler.
\<close>

declare split_paired_All [simp del] split_paired_Ex [simp del]

section \<open>Coroutines between their calls\<close>

record found =
  f_store :: store
  f_fault :: "exn option"
  f_time :: time
  f_id :: string

definition played :: "found list \<Rightarrow> schedule" where
  "played h = \<lparr>pause = (\<lambda>i s. if i < length h then f_store (h ! i) else s),
     fault = (\<lambda>i. if i < length h then f_fault (h ! i) else Some CancelledError),
     now_at = (\<lambda>i. f_time (h ! i)), fresh = (\<lambda>i. f_id (h ! i))\<rparr>"

text \<open>The coroutines of the process; a job comes with the answers of the peer to it.\<close>

datatype work =
    Dispatching "nat \<Rightarrow> dispatcher \<Rightarrow> dispatcher" bool "nat \<Rightarrow> string" nat
  | Submitting op_key "task_result list \<times> exn option"
  | Canceling op_key string "exn + task_result"
  | Reconciling op_key string "exn + task_result"

fun work_on :: "broker_env \<Rightarrow> schedule \<Rightarrow> work \<Rightarrow> world \<Rightarrow> world" where
  "work_on env sc (Dispatching settle lock uuid4 n) w =
     (case dispatcher_run env sc settle lock uuid4 n w of Some (_, _, w1) \<Rightarrow> w1 | None \<Rightarrow> w)"
| "work_on env sc (Submitting k stream) w = snd (submit env sc (fst k) (snd k) stream w)"
| "work_on env sc (Canceling k h reply) w = snd (cancel_job env sc (fst k) (snd k) h reply w)"
| "work_on env sc (Reconciling k h reply) w = snd (reconcile_job env sc (fst k) (snd k) h reply w)"

fun job_of :: "work \<Rightarrow> op_key option" where
  "job_of (Dispatching settle lock uuid4 n) = None"
| "job_of (Submitting k stream) = Some k"
| "job_of (Canceling k h reply) = Some k"
| "job_of (Reconciling k h reply) = Some k"

text \<open>The ledger after the next call of a coroutine, if it makes one more.\<close>

definition next_call :: "broker_env \<Rightarrow> work \<Rightarrow> found list \<Rightarrow> found \<Rightarrow> store option" where
  "next_call env x h c = (case work_on env (played (h @ [c])) x (f_store c, 0) of (t, j) \<Rightarrow> if length h < j then Some t else None)"

section \<open>The process\<close>

type_synonym process = "store \<times> (work \<times> found list) list"

datatype event = Arrives time string request | Starts work | Calls nat "exn option" time string | Lands nat nat time string

text \<open>A request is served between two calls. A job starts for an operation that has left the queue, as those do which the dispatcher claims,
  reads or cancels. A coroutine makes its next call, which an exception may cut short: the statement of a call that
  was cut short may still land later, from its thread.\<close>

inductive process_step :: "broker_env \<Rightarrow> validators \<Rightarrow> app_state \<Rightarrow> process \<Rightarrow> event \<Rightarrow> process \<Rightarrow> bool" for env va app where
  ps_request: "process_step env va app (s, xs) (Arrives now rid rq) (snd (serve env va app now rid rq s), xs)"
| ps_start: "job_of x = Some k \<Longrightarrow> left_accepted s k \<Longrightarrow> process_step env va app (s, xs) (Starts x) (s, xs @ [(x, [])])"
| ps_call: "i < length xs \<Longrightarrow> xs ! i = (x, h) \<Longrightarrow> c = \<lparr>f_store = s, f_fault = e, f_time = now, f_id = rid\<rparr> \<Longrightarrow>
    next_call env x h c = Some t \<Longrightarrow> process_step env va app (s, xs) (Calls i e now rid) (t, xs[i := (x, h @ [c])])"
| ps_land: "i < length xs \<Longrightarrow> xs ! i = (x, h) \<Longrightarrow> m < length h \<Longrightarrow> f_fault (h ! m) \<noteq> None \<Longrightarrow>
    next_call env x (take m h) \<lparr>f_store = s, f_fault = None, f_time = now, f_id = rid\<rparr> = Some t \<Longrightarrow>
    process_step env va app (s, xs) (Lands i m now rid) (t, xs)"

text \<open>What the dispatcher claims for a cancellation has left the queue (for submissions and reads see \<open>tracked\<close>).\<close>

lemma claimed_cancel_left:
  assumes "claim_cancel s = Inr (Some (d, op, h), t)" "ledger_inv env s"
  shows "left_accepted t (d, op)"
proof -
  have "inv_keys s" using assms(2) by (simp add: ledger_inv_def)
  with assms(1) show ?thesis
    by (cases rule: claim_cancel_cases) (auto simp: left_accepted_def set_op_views device_views)
qed

section \<open>One call at a time\<close>

text \<open>What call number \<open>k\<close>, which finds the ledger \<open>u\<close>, does, if later calls are all cut short.\<close>

definition own_call :: "broker_env \<Rightarrow> nat \<Rightarrow> store \<Rightarrow> world \<Rightarrow> world \<Rightarrow> bool" where
  "own_call env k u w w1 \<longleftrightarrow> snd w \<le> snd w1 \<and> (k < snd w \<longrightarrow> fst w1 = fst w) \<and>
     (snd w \<le> k \<and> k < snd w1 \<longrightarrow> (\<exists>ls. run (broker_step env) u ls (fst w1)))"

text \<open>The last call of a history finds a consistent ledger, which was reached from what the call before it has found.\<close>

definition follows :: "broker_env \<Rightarrow> found list \<Rightarrow> found \<Rightarrow> bool" where
  "follows env h c \<longleftrightarrow> ledger_inv env (f_store c) \<and>
     (h \<noteq> [] \<longrightarrow> ledger_inv env (f_store (last h)) \<and> (\<exists>ls. run (broker_step env) (f_store (last h)) ls (f_store c)))"

definition own_rel :: "broker_env \<Rightarrow> found list \<Rightarrow> found \<Rightarrow> world \<Rightarrow> world \<Rightarrow> bool" where
  "own_rel env h c w w1 \<longleftrightarrow> (follows env h c \<longrightarrow> own_call env (length h) (f_store c) w w1)"

lemma own_rel_trans: "own_rel env h c w w1 \<Longrightarrow> own_rel env h c w1 w2 \<Longrightarrow> own_rel env h c w w2"
proof -
  have "own_call env k u w w2" if "own_call env k u w w1" "own_call env k u w1 w2" for k u
    using that by (cases "k < snd w1") (auto simp: own_call_def)
  then show "own_rel env h c w w1 \<Longrightarrow> own_rel env h c w1 w2 \<Longrightarrow> own_rel env h c w w2" by (simp add: own_rel_def)
qed

lemma own_rel_one:
  assumes "fault (played (h @ [c])) i \<noteq> None \<Longrightarrow> t = pause (played (h @ [c])) i s"
    and "follows env h c \<Longrightarrow> i = length h \<Longrightarrow> \<exists>ls. run (broker_step env) (f_store c) ls t"
  shows "own_rel env h c (s, i) (t, Suc i)"
  using assms by (auto simp: own_rel_def own_call_def played_def nth_append)

interpretation own: ledger_calls env "played (h @ [c])" "{x. left_accepted (f_store c) x}" "own_rel env h c" for env h c
proof
  show "own_rel env h c w w" for w :: world by (auto simp: own_rel_def own_call_def)
  show "own_rel env h c w w2" if "own_rel env h c w w1" "own_rel env h c w1 w2" for w w1 w2 :: world
    using that by (rule own_rel_trans)
next
  fix i t s
  assume "fault (played (h @ [c])) i \<noteq> None \<Longrightarrow> t = pause (played (h @ [c])) i s"
    and "ready env {x. left_accepted (f_store c) x} (pause (played (h @ [c])) i s) \<Longrightarrow>
      \<exists>ls. run (broker_step env) (pause (played (h @ [c])) i s) ls t"
  then show "own_rel env h c (s, i) (t, Suc i)"
    by (intro own_rel_one) (auto simp: played_def ready_def follows_def)
qed

text \<open>Closing asks for the state of an operation and marks it if it is running: then it has left the queue, and stays so until the
  next call.\<close>

lemma get_p_one:
  obtains r where "get_p env sc d op (s, i) = (r, (pause sc i s, Suc i))"
  by (cases "fault sc i"; cases "get_op env (now_at sc i) d op (pause sc i s)") (simp_all add: get_p_def call_def with_store_def)

lemma own_mark:
  assumes "left_accepted (pause (played (h @ [c])) i s) (d, op)" "unknown env (played (h @ [c])) d op (pause (played (h @ [c])) i s, Suc i) = (q, (t, j))"
  shows "own_rel env h c (pause (played (h @ [c])) i s, Suc i) (t, j)"
proof -
  let ?t = "pause (played (h @ [c])) i s"
  have j: "j = Suc (Suc i)" using assms(2) by (auto simp: unknown_def dest: finish_p_count)
  show ?thesis
    unfolding j
  proof (rule own_rel_one)
    show "t = pause (played (h @ [c])) (Suc i) ?t" if "fault (played (h @ [c])) (Suc i) \<noteq> None"
      using assms(2) that by (auto simp: unknown_def finish_p_def call_def Let_def)
    show "\<exists>ls. run (broker_step env) (f_store c) ls t" if f: "follows env h c" and i: "Suc i = length h"
    proof -
      have "h \<noteq> []" "i = length h - 1" "i < length h" using i by auto
      then have "h \<noteq> []" "?t = f_store (last h)" by (simp_all add: played_def nth_append last_conv_nth)
      then have "left_accepted (f_store c) (d, op)" using f assms(1) run_left_accepted unfolding follows_def by metis
      then have "own_rel env h c (?t, Suc i) (t, j)"
        using throughD [OF own.through_unknown [where k = "(d, op)"], where w = "(?t, Suc i)"] assms(2) by simp
      then show ?thesis using i f by (simp add: own_rel_def own_call_def j)
    qed
  qed
qed

lemma own_close: "through (own_rel env h c) (close_streams env (played (h @ [c])) ks)"
proof (induction ks)
  case (Cons k ks)
  obtain d op where k: "k = (d, op)" by (cases k)
  let ?sc = "played (h @ [c])"
  have rest: "own_rel env h c w1 (snd (close_streams env ?sc ks w1))" for w1 using Cons.IH by (simp add: through_def)
  show ?case
    unfolding through_def
  proof
    fix w :: world
    obtain s i where w: "w = (s, i)" by (cases w)
    obtain r where g: "get_p env ?sc d op (s, i) = (r, (pause ?sc i s, Suc i))" by (rule get_p_one)
    have og: "own_rel env h c (s, i) (pause ?sc i s, Suc i)" using own.through_get g by (rule throughD)
    show "own_rel env h c w (snd (close_streams env ?sc (k # ks) w))"
    proof (cases "\<exists>snap. r = Inr snap \<and> jget snap ''state'' = JStr ''running''")
      case False
      then show ?thesis using w k g og own_rel_trans [OF og rest] by (cases r) (auto simp: bind_p_def)
    next
      case True
      then obtain snap where snap: "r = Inr snap" "jget snap ''state'' = JStr ''running''" by blast
      obtain q t j where u: "unknown env ?sc d op (pause ?sc i s, Suc i) = (q, (t, j))"
        by (cases "unknown env ?sc d op (pause ?sc i s, Suc i)") auto
      have "left_accepted (pause ?sc i s) (d, op)"
        using get_p_state [OF g [unfolded snap]] snap(2) by (auto simp: left_accepted_def)
      then have "own_rel env h c (pause ?sc i s, Suc i) (t, j)" using u by (rule own_mark)
      then have "own_rel env h c (s, i) (t, j)" using og own_rel_trans by blast
      then show ?thesis using w k g snap u own_rel_trans [OF _ rest] by (cases q) (auto simp: bind_p_def)
    qed
  qed
qed (simp add: through_def own.keeps_refl)

lemma own_work:
  assumes "\<And>k. job_of x = Some k \<Longrightarrow> left_accepted (f_store c) k"
  shows "own_rel env h c w (work_on env (played (h @ [c])) x w)"
proof (cases x)
  case (Dispatching settle lock uuid4 n)
  show ?thesis
  proof (cases "dispatcher_run env (played (h @ [c])) settle lock uuid4 n w")
    case (Some v)
    then show ?thesis using own.dispatcher_run_through [OF own_close] Dispatching by (cases v) auto
  qed (simp add: Dispatching own.keeps_refl)
next
  case (Submitting k stream)
  then show ?thesis using own.through_submit [where k = k and c = c and reply = stream] assms [of k] by (simp add: through_def)
next
  case (Canceling k h' reply)
  then show ?thesis using own.through_cancel [where k = k and c = c and h = h' and reply = reply] assms [of k] by (simp add: through_def)
next
  case (Reconciling k h' reply)
  then show ?thesis using own.through_reconcile [where k = k and c = c and h = h' and reply = reply] assms [of k] by (simp add: through_def)
qed

lemma next_call_runs:
  assumes "follows env h c" "next_call env x h c = Some t" "\<And>k. job_of x = Some k \<Longrightarrow> left_accepted (f_store c) k"
  shows "\<exists>ls. run (broker_step env) (f_store c) ls t"
proof -
  obtain j where "work_on env (played (h @ [c])) x (f_store c, 0) = (t, j)" "length h < j"
    using assms(2) by (auto simp: next_call_def split: prod.splits if_splits)
  then show ?thesis using own_work [where env = env and h = h and c = c and x = x and w = "(f_store c, 0)"] assms(3) assms(1) by (simp add: own_rel_def own_call_def)
qed

section \<open>The whole process\<close>

text \<open>Every coroutine has found what the ledger was, on the way to what it is, and works on an operation that has left the queue.\<close>

definition process_ok :: "broker_env \<Rightarrow> process \<Rightarrow> bool" where
  "process_ok env p \<longleftrightarrow> ledger_inv env (fst p) \<and> (\<forall>x h. (x, h) \<in> set (snd p) \<longrightarrow>
     (\<forall>k. job_of x = Some k \<longrightarrow> left_accepted (fst p) k) \<and>
     (\<forall>c \<in> set h. ledger_inv env (f_store c) \<and> (\<exists>ls. run (broker_step env) (f_store c) ls (fst p))))"

lemma process_call:
  assumes "process_ok env (f_store c, xs)" "(x, h) \<in> set xs" "set h' \<subseteq> set h" "next_call env x h' c = Some t"
  shows "\<exists>ls. run (broker_step env) (f_store c) ls t"
proof (rule next_call_runs [OF _ assms(4)])
  have "last h' \<in> set h" if "h' \<noteq> []" using that assms(3) by auto
  then show "follows env h' c" using assms(1,2) unfolding follows_def process_ok_def fst_conv snd_conv by metis
qed (use assms(1,2) in \<open>auto simp: process_ok_def\<close>)

text \<open>Whatever the process does next is a run of the ledger, and it stays as it should be.\<close>

lemma process_later:
  assumes "process_ok env (s, xs)" "run (broker_step env) s ls t"
  shows "process_ok env (t, xs)"
  using assms broker_run.run_good [OF assms(2)] run_left_accepted [OF assms(2)] run_append [OF _ assms(2)]
  unfolding process_ok_def fst_conv snd_conv by metis

lemma process_step_runs:
  assumes "process_step env va app p e p1" "process_ok env p"
  shows "\<exists>ls. run (broker_step env) (fst p) ls (fst p1) \<and> process_ok env p1"
  using assms
proof cases
  case (ps_request s xs now rid rq)
  obtain ls where "run (broker_step env) s ls (snd (serve env va app now rid rq s))" using serve_run by blast
  then show ?thesis using ps_request process_later assms(2) by auto
next
  case (ps_start x k s xs)
  then have "process_ok env (s, xs @ [(x, [])])" using assms(2) by (auto simp: process_ok_def)
  then show ?thesis using ps_start by auto
next
  case (ps_call i xs x h c s e now rid t)
  have mem: "(x, h) \<in> set xs" and c: "f_store c = s" using ps_call nth_mem by force+
  then obtain ls where ls: "run (broker_step env) s ls t" using process_call [of env c xs x h h t] ps_call assms(2) by auto
  have later: "process_ok env (t, xs)" using process_later [OF _ ls] ps_call assms(2) by simp
  have inv: "ledger_inv env s" using assms(2) ps_call by (simp add: process_ok_def)
  have "process_ok env (t, xs[i := (x, h @ [c])])"
    using later mem inv ls c unfolding process_ok_def fst_conv snd_conv
    by (auto dest!: set_update_subset_insert [THEN subsetD])
  then show ?thesis using ls ps_call by auto
next
  case (ps_land i xs x h m s now rid t)
  let ?c = "\<lparr>f_store = s, f_fault = None, f_time = now, f_id = rid\<rparr>"
  have "(x, h) \<in> set xs" using ps_land nth_mem by metis
  then obtain ls where "run (broker_step env) s ls t"
    using process_call [of env ?c xs x h "take m h" t] ps_land assms(2) by (auto dest: in_set_takeD)
  then show ?thesis using process_later ps_land assms(2) by auto
qed

lemma process_run:
  assumes "run (process_step env va app) p es p1" "process_ok env p"
  shows "\<exists>ls. run (broker_step env) (fst p) ls (fst p1) \<and> process_ok env p1"
  using assms
proof (induction rule: run.induct)
  case (run_Cons p e p1 es p2)
  then show ?case using process_step_runs run_append by meson
qed auto

text \<open>C9: The broker process refines its ledger: interleave the dispatcher (lock, recovery, any number of turns, closing), any jobs and any
  requests call by call, let the peer answer anything and exceptions cut calls short anywhere - all the process does to the ledger is a run
  of the ledger's step relation, and the ledger stays consistent. So every theorem about ledger runs holds of the process.\<close>

theorem process_refines_ledger:
  assumes "run (process_step env va app) (s, [(Dispatching settle lock uuid4 n, [])]) es (t, xs)" "ledger_inv env s"
  shows "\<exists>ls. run (broker_step env) s ls t \<and> ledger_inv env t"
proof -
  have "process_ok env (s, [(Dispatching settle lock uuid4 n, [])])" using assms(2) by (simp add: process_ok_def)
  then show ?thesis using process_run [OF assms(1)] by (auto simp: process_ok_def)
qed

text \<open>A submission whose peer says nothing, beside a dispatcher that has not begun.\<close>

theorem process_refines_ledger_witness:
  "\<exists>t xs ls. run (process_step demo_env demo_validators demo_app) (demo2, [(Dispatching (\<lambda>_ d. d) True (\<lambda>_. ''u'') 3, [])])
       [Starts (Submitting (''dev'', ''op1'') ([], None)), Calls 1 None 50 ''r1''] (t, xs) \<and>
     settled t (''dev'', ''op1'') \<and> run (broker_step demo_env) demo2 ls t \<and> ledger_inv demo_env t"
proof -
  let ?x = "Submitting (''dev'', ''op1'') ([], None)" and ?d = "Dispatching (\<lambda>_ d. d) True (\<lambda>_. ''u'') 3"
  let ?c = "\<lparr>f_store = demo2, f_fault = None, f_time = 50, f_id = ''r1''\<rparr>"
  obtain snap t where u: "finish demo_env 50 ''r1'' ''dev'' ''op1'' OutcomeUnknown None (Some ''submission_unknown'')
     (Some ''submission may have started; no automatic resend'') demo2 = Inr (snap, t)" using demo_unknown_step by blast
  have call: "next_call demo_env ?x [] ?c = Some t"
    using u by (simp add: next_call_def submit_def catch_p_def unknown_def finish_p_def call_def played_def)
  have "process_step demo_env demo_validators demo_app (demo2, [(?d, [])]) (Starts ?x) (demo2, [(?d, []), (?x, [])])"
    using ps_start [of ?x "(''dev'', ''op1'')" demo2 _ _ _ "[(?d, [])]"] demo2_left by simp
  moreover have "process_step demo_env demo_validators demo_app (demo2, [(?d, []), (?x, [])]) (Calls 1 None 50 ''r1'') (t, [(?d, []), (?x, [?c])])"
    using ps_call [of 1 "[(?d, []), (?x, [])]" ?x "[]" ?c demo2 None 50 "''r1''" demo_env t] call by simp
  ultimately have run: "run (process_step demo_env demo_validators demo_app) (demo2, [(?d, [])]) [Starts ?x, Calls 1 None 50 ''r1''] (t, [(?d, []), (?x, [?c])])"
    by (meson run_Cons run_Nil)
  obtain ls where ls: "run (broker_step demo_env) demo2 ls t" "ledger_inv demo_env t"
    using process_refines_ledger [OF run] demo_invs(3) by blast
  show ?thesis
    by (rule exI [of _ t], rule exI, rule exI [of _ ls], intro conjI, rule run, rule finish_settles [OF u], rule ls(1), rule ls(2))
qed

end
