(* ===== verification/Peer_Properties.thy ===== *)
theory Peer_Properties
  imports Broker_Peer
begin

text \<open>
  What the broker may rely on when it talks to the peer: one task handle per stream, bounded snapshots,
  chunks put together again, requests that change something sent once, and diagnostics that carry
  nothing but allowlisted values.
\<close>

section \<open>Requests\<close>

lemma post_loop_sends: "snd (post_loop ro reply i n) \<le> i + n"
proof (induction n arbitrary: i)
  case (Suc n)
  show ?case using Suc.IH [of "Suc i"] by (auto simp: Let_def split: http_reply.splits)
qed simp

text \<open>C13: A request that changes something at the peer is sent at most once, whatever the transport reports;
  a transport failure of it is reported as ambiguous, never as retryable. A read is sent at most three
  times.\<close>

theorem mutation_sent_once:
  "snd (cancel_task found reply) \<le> 1 \<and> snd (get_task found reply) \<le> 3 \<and>
   (found = Inr () \<and> reply 0 = TransportFailed name \<longrightarrow> fst (cancel_task found reply) =
     Inl (A2AError ''a2a_transport_ambiguous'' (''Hermes transport failed: '' @ name) False JNull))"
  using post_loop_sends [of True reply 0 3] post_loop_sends [of False reply 0 1]
  by (auto simp: cancel_task_def get_task_def post_rpc_def Let_def case_prod_beta numeral_eq_Suc split: sum.splits)

theorem mutation_sent_once_witness:
  "fst (cancel_task (Inr ()) (\<lambda>_. TransportFailed ''ReadTimeout'')) =
     Inl (A2AError ''a2a_transport_ambiguous'' ''Hermes transport failed: ReadTimeout'' False JNull)"
  using mutation_sent_once [of "Inr ()" "\<lambda>_. TransportFailed ''ReadTimeout''" "''ReadTimeout''"] by simp

section \<open>Diagnostics\<close>

definition allowed_detail :: "string \<Rightarrow> json \<Rightarrow> string \<Rightarrow> bool" where
  "allowed_detail st v k =
     (if k = ''reason'' then v \<in> JStr ` set REASONS
      else if k = ''recommended_action'' then v \<in> JStr ` set ACTIONS
      else if k = ''peer_state'' then v = JStr st
      else if k = ''execution_started'' then v \<in> range JBool
      else if k = ''retry_after_seconds'' then v \<in> JInt ` {0..86400}
      else if k = ''retry_at'' then v \<in> (JStr \<circ> isoformat) ` {t. valid_datetime t \<and> dt_offset t \<noteq> None}
      else False)"

fun allowed_details :: "string \<Rightarrow> json \<Rightarrow> bool" where
  "allowed_details st (JObj kvs) = (\<forall>(k, v) \<in> set kvs. allowed_detail st v k)"
| "allowed_details st _ = False"

lemma allowed_jput: "allowed_details st d \<Longrightarrow> allowed_detail st v k \<Longrightarrow> allowed_details st (jput k v d)"
proof (cases d)
  case (JObj kvs)
  have "x \<in> set (AList.update k v kvs) \<Longrightarrow> x = (k, v) \<or> x \<in> set kvs" for x by (induction kvs) (auto split: if_splits)
  then show "allowed_details st d \<Longrightarrow> allowed_detail st v k \<Longrightarrow> allowed_details st (jput k v d)" using JObj by fastforce
qed simp_all

lemma fromisoformat_valid: "fromisoformat s = Some t \<Longrightarrow> valid_datetime t"
  by (auto simp: fromisoformat_def Let_def Option.bind_eq_Some_conv split: if_splits prod.splits)

lemma allowed_default: "allowed_details (task_state t) (default_details t)"
  by (simp add: default_details_def allowed_detail_def REASONS_def ACTIONS_def Let_def)

lemma allowed_execution: "allowed_details st d \<Longrightarrow> allowed_details st (put_execution_started v d)"
  by (auto simp: put_execution_started_def allowed_detail_def intro!: allowed_jput split: json.splits)

lemma allowed_retry_after: "allowed_details st d \<Longrightarrow> allowed_details st (put_retry_after v d)"
  by (auto simp: put_retry_after_def allowed_detail_def intro!: allowed_jput split: json.splits)

lemma allowed_retry_at: "allowed_details st d \<Longrightarrow> allowed_details st (put_retry_at v d)"
  by (auto simp: put_retry_at_def allowed_detail_def intro!: allowed_jput split: json.splits option.splits dest: fromisoformat_valid)

lemma allowed_action: "allowed_details st d \<Longrightarrow> allowed_details st (put_action v d)"
  by (auto simp: put_action_def allowed_detail_def intro!: allowed_jput split: json.splits)

text \<open>C14: Diagnostics of a refused task are allowlisted: whatever metadata the peer sends, the details hold only
  the known keys, each with one of the fixed reasons or actions, a boolean, a delay of at most a day, a valid
  instant in canonical form, or the task's own state.\<close>

theorem details_allowlisted: "allowed_details (task_state t) (peer_error_details t)"
proof -
  let ?v = "jget (jget (raw t) ''metadata'') DIAGNOSTICS_URI"
  let ?plain = "if task_state t = ''rejected'' \<and> py_len (task_text t) \<le> 1024 \<and> legacy_turn_limit (context_id t) (task_text t)
    then jput ''reason'' (JStr ''context_turn_limit'') (default_details t) else default_details t"
  have plain: "allowed_details (task_state t) ?plain"
    using allowed_jput [OF allowed_default, of t "JStr ''context_turn_limit''" "''reason''"] allowed_default [of t]
    by (cases "task_state t = ''rejected'' \<and> py_len (task_text t) \<le> 1024 \<and> legacy_turn_limit (context_id t) (task_text t)")
      (simp_all only: if_True if_False, simp_all add: allowed_detail_def REASONS_def del: allowed_details.simps)
  have full: "allowed_details (task_state t) (put_action ?v (put_retry_at ?v (put_retry_after ?v (put_execution_started ?v
      (jput ''reason'' (JStr r) (default_details t))))))" if "r \<in> set REASONS" for r
    using that by (intro allowed_action allowed_retry_at allowed_retry_after allowed_execution allowed_jput allowed_default)
      (simp add: allowed_detail_def)
  show ?thesis
    unfolding peer_error_details_def Let_def
    using plain full by (cases "jget ?v ''reason''") (simp_all del: allowed_details.simps)
qed

section \<open>The stream\<close>

lemma peer_event_cases:
  assumes "peer_event bound ctx ev (acc, handle) = Inr (st, y)"
  obtains (skipped) "y = None" "st = (acc, handle)"
  | (yielded) parsed acc1 txt' where "task_id parsed \<noteq> []" "handle = None \<or> handle = Some (task_id parsed)"
      "st = (acc1, Some (task_id parsed))" "y = Some (parsed\<lparr>artifacts := map snd acc1, task_text := txt'\<rparr>)"
      "snapshot_size acc1 (task_text parsed) \<le> bound"
proof -
  obtain p0 where p0: "parse_stream_event ctx ev = Inr p0" using assms by (cases "parse_stream_event ctx ev") (simp_all add: peer_event_def)
  show thesis
  proof (cases p0)
    case None
    then show thesis using assms p0 skipped by (simp add: peer_event_def)
  next
    case (Some parsed)
    let ?acc = "if is_obj (jget ev ''task'') \<and> artifacts parsed \<noteq> [] then [] else acc"
    let ?bad = "task_id parsed = [] \<or> (case handle of Some h \<Rightarrow> task_id parsed \<noteq> h | None \<Rightarrow> False)"
    have good: "\<not> ?bad" using assms p0 Some by (cases ?bad) (simp_all add: peer_event_def)
    note eq = assms [unfolded peer_event_def prod.case p0 bind_r_simps Some option.case if_not_P [OF good]]
    obtain acc1 where a: "add_artifacts bound (jget ev ''artifactUpdate'') (enumerate 0 (artifacts parsed)) ?acc = Inr acc1" using eq by auto
    note eq2 = eq [unfolded a bind_r_simps]
    have size: "\<not> snapshot_size acc1 (task_text parsed) > bound" using eq2 by (auto split: if_splits)
    note eq3 = eq2 [unfolded if_not_P [OF size]]
    obtain texts where "map_r message_text (map snd acc1) = Inr texts" using eq3 by auto
    note eq4 = eq3 [unfolded this bind_r_simps Let_def]
    show thesis
    proof (rule yielded)
      show "handle = None \<or> handle = Some (task_id parsed)" using good by (cases handle) auto
      show "st = (acc1, Some (task_id parsed))" using eq4 by simp
      show "y = Some (parsed\<lparr>artifacts := map snd acc1, task_text := (if join [CHR 0x0A] (filter (\<lambda>t. t \<noteq> []) texts) = [] then task_text parsed
          else join [CHR 0x0A] (filter (\<lambda>t. t \<noteq> []) texts))\<rparr>)" using eq4 by simp
    qed (use good size in auto)
  qed
qed

lemma peer_event_yield:
  assumes "peer_event bound ctx ev (acc, handle) = Inr ((acc1, handle1), Some r)"
  shows "task_id r \<noteq> [] \<and> handle1 = Some (task_id r) \<and> (handle = None \<or> handle = Some (task_id r)) \<and>
    artifacts r = map snd acc1 \<and> (\<exists>t. snapshot_size acc1 t \<le> bound)"
  using assms by (cases rule: peer_event_cases) auto

lemma peer_event_skip: "peer_event bound ctx ev (acc, handle) = Inr (st, None) \<Longrightarrow> st = (acc, handle)"
  by (erule peer_event_cases) auto

lemma canonical_artifacts_le: "int (length (canonical (JList (map snd acc)))) \<le> snapshot_size acc t"
  by (simp add: snapshot_size_def canonical_def)

lemma peer_stream_handles:
  "peer_stream bound ctx evs e (acc, handle) = (rs, x) \<Longrightarrow> r \<in> set rs \<Longrightarrow>
   (\<exists>h. h \<noteq> [] \<and> (handle = None \<or> handle = Some h) \<and> (\<forall>q \<in> set rs. task_id q = h)) \<and> int (length (canonical (JList (artifacts r)))) \<le> bound"
proof (induction evs arbitrary: acc handle rs r)
  case (Cons ev evs)
  note IH = Cons.IH
  show ?case
  proof (cases "peer_event bound ctx ev (acc, handle)")
    case (Inl y)
    then show ?thesis using Cons.prems by simp
  next
    case (Inr p)
    obtain acc1 handle1 y where p: "p = ((acc1, handle1), y)" by (cases p) auto
    show ?thesis
    proof (cases y)
      case None
      then have "acc1 = acc" "handle1 = handle" using Inr p peer_event_skip by auto
      then show ?thesis using Cons.IH [of acc handle rs r] Cons.prems Inr p None by simp
    next
      case (Some q)
      obtain rs' where rs': "rs = q # rs'" "peer_stream bound ctx evs e (acc1, handle1) = (rs', x)"
        using Cons.prems(1) Inr p Some by (auto split: prod.splits)
      have y: "task_id q \<noteq> []" "handle1 = Some (task_id q)" "handle = None \<or> handle = Some (task_id q)" "artifacts q = map snd acc1"
        "\<exists>t. snapshot_size acc1 t \<le> bound" using peer_event_yield Inr p Some by blast+
      have "\<forall>q' \<in> set rs'. task_id q' = task_id q"
      proof (cases rs')
        case (Cons q0 rest)
        then have "q0 \<in> set rs'" by simp
        from IH [OF rs'(2) this] obtain h where "handle1 = None \<or> handle1 = Some h" "\<forall>q' \<in> set rs'. task_id q' = h" by blast
        then show ?thesis using y(2) by simp
      qed simp
      moreover have "int (length (canonical (JList (artifacts r)))) \<le> bound"
      proof (cases "r = q")
        case True
        obtain t where "snapshot_size acc1 t \<le> bound" using y(5) by blast
        then show ?thesis using True y(4) canonical_artifacts_le [of acc1 t] by simp
      next
        case False
        then show ?thesis using Cons.IH [OF rs'(2), of r] Cons.prems(2) rs'(1) by simp
      qed
      ultimately show ?thesis using y(1,3) rs'(1) by auto
    qed
  qed
qed simp

text \<open>All snapshots of one submission carry the same nonempty task handle, and the artifacts of each stay
  within the configured size, whatever the peer streams.\<close>

theorem stream_one_handle:
  assumes "peer_submit uuid5 bound found rid ls e cl = (rs, x)" "r \<in> set rs" "r' \<in> set rs"
  shows "task_id r = task_id r' \<and> task_id r \<noteq> [] \<and> int (length (canonical (JList (artifacts r)))) \<le> bound"
proof -
  obtain ctx evs y where "peer_stream bound ctx evs y ([], None) = (rs, x)"
    using assms(1,2) by (auto simp: peer_submit_def split: sum.splits prod.splits)
  from peer_stream_handles [OF this assms(2)] show ?thesis using assms(2,3) by auto
qed

definition demo_peer_claim :: claim_t where
  "demo_peer_claim = \<lparr>cl_device = ''dev'', cl_request = JObj [(''flow_id'', JStr ''f''), (''prompt'', JStr ''p''), (''operation_id'', JStr ''o'')], cl_attachments = []\<rparr>"

definition demo_event :: json where
  "demo_event = JObj [(''statusUpdate'', JObj [(''taskId'', JStr ''t1''), (''status'', JObj [(''state'', JStr ''TASK_STATE_WORKING'')])])]"

definition demo_line :: string where
  "demo_line = ''data: '' @ canonical (JObj [(''jsonrpc'', JStr ''2.0''), (''id'', JStr ''i''), (''result'', demo_event)])"

lemma demo_submit: "map task_id (fst (peer_submit (\<lambda>_. ''c'') 100 (Inr ()) ''i'' [demo_line, [], demo_line] SseEof demo_peer_claim)) = [''t1'', ''t1'']"
  by code_simp

theorem stream_one_handle_witness:
  "\<exists>r r'. fst (peer_submit (\<lambda>_. ''c'') 100 (Inr ()) ''i'' [demo_line, [], demo_line] SseEof demo_peer_claim) = [r, r'] \<and>
     task_id r = task_id r' \<and> task_id r \<noteq> []"
proof -
  obtain rs x where p: "peer_submit (\<lambda>_. ''c'') 100 (Inr ()) ''i'' [demo_line, [], demo_line] SseEof demo_peer_claim = (rs, x)"
    by (cases "peer_submit (\<lambda>_. ''c'') 100 (Inr ()) ''i'' [demo_line, [], demo_line] SseEof demo_peer_claim")
  then obtain r r' where "rs = [r, r']" using demo_submit by auto
  then show ?thesis using stream_one_handle [OF p, of r r'] p by auto
qed

section \<open>Chunks\<close>

text \<open>A part that carries text, or bytes, and nothing else the merge looks at.\<close>

definition text_part :: "string \<Rightarrow> json" where
  "text_part t = JObj [(''text'', JStr t)]"

definition raw_part :: "string \<Rightarrow> json" where
  "raw_part t = JObj [(''raw'', JStr t)]"

lemma merge_text: "merge_part bound (ps @ [text_part a]) (text_part b) = Inr (ps @ [text_part (a @ b)])"
  by (simp add: merge_part_def text_part_def)

lemma merge_raw: "b64decode a = Some x \<Longrightarrow> b64decode b = Some y \<Longrightarrow> int (py_len a + py_len b) \<le> bound \<Longrightarrow>
    merge_part bound (ps @ [raw_part a]) (raw_part b) = Inr (ps @ [raw_part (b64encode (x @ y))])"
  by (simp add: merge_part_def raw_part_def)

text \<open>Appended chunks are put together again: text chunks are concatenated, and base64 chunks become the base64
  text of the concatenated bytes, so that decoding the stored part gives the bytes the peer sent.\<close>

theorem chunks_reassembled:
  "merge_parts bound (ps @ [text_part a]) (map text_part ts) = Inr (ps @ [text_part (a @ concat ts)]) \<and>
   (\<forall>acc. merge_parts bound (ps @ [raw_part (b64encode x)]) (map (raw_part \<circ> b64encode) ys) = Inr acc \<longrightarrow>
      acc = ps @ [raw_part (b64encode (x @ concat ys))] \<and> b64decode (b64encode (x @ concat ys)) = Some (x @ concat ys))"
proof
  show "merge_parts bound (ps @ [text_part a]) (map text_part ts) = Inr (ps @ [text_part (a @ concat ts)])"
    by (induction ts arbitrary: a) (simp_all add: merge_text)
  show "\<forall>acc. merge_parts bound (ps @ [raw_part (b64encode x)]) (map (raw_part \<circ> b64encode) ys) = Inr acc \<longrightarrow>
      acc = ps @ [raw_part (b64encode (x @ concat ys))] \<and> b64decode (b64encode (x @ concat ys)) = Some (x @ concat ys)"
  proof (induction ys arbitrary: x)
    case (Cons y ys)
    show ?case
    proof (cases "int (py_len (b64encode x) + py_len (b64encode y)) \<le> bound")
      case True
      then show ?thesis using Cons.IH [of "x @ y"] by (simp add: merge_raw b64_roundtrip)
    next
      case False
      then have "merge_part bound (ps @ [raw_part (b64encode x)]) (raw_part (b64encode y)) = Inl too_large"
        by (simp add: merge_part_def raw_part_def)
      then show ?thesis by simp
    qed
  qed (simp add: b64_roundtrip)
qed

theorem chunks_reassembled_witness:
  "\<exists>acc. merge_parts 100 [raw_part (b64encode ''ab'')] [raw_part (b64encode ''c''), raw_part (b64encode ''de'')] = Inr acc \<and>
     acc = [raw_part (b64encode ''abcde'')]"
proof -
  have "\<not> isl (merge_parts 100 [raw_part (b64encode ''ab'')] [raw_part (b64encode ''c''), raw_part (b64encode ''de'')])" by code_simp
  then obtain acc where a: "merge_parts 100 [raw_part (b64encode ''ab'')] [raw_part (b64encode ''c''), raw_part (b64encode ''de'')] = Inr acc"
    unfolding isl_def by (metis sum.exhaust)
  then show ?thesis using chunks_reassembled [of 100 "[]" "[]" "[]" "''ab''" "[''c'', ''de'']"] by simp
qed

section \<open>Contexts\<close>

lemma dec_nat_inj: "dec_nat m = dec_nat n \<Longrightarrow> m = n"
  using digits_val_dec_nat by metis

text \<open>Distinct devices or flows have distinct context names: the length prefix ends where the first colon is.\<close>

lemma context_name_inj:
  assumes "context_name d f = context_name d' f'" "length d = py_len d" "length d' = py_len d'"
  shows "d = d' \<and> f = f'"
proof -
  have split: "a = a' \<and> b = b'" if "dec_nat m @ CHR '':'' # a @ b = dec_nat n @ CHR '':'' # a' @ b'" "length a = m" "length a' = n" for m n a b a' b'
  proof -
    have "takeWhile is_digit (dec_nat k @ CHR '':'' # c) = dec_nat k" for k c
      using dec_nat_digits [of k] by (induction "dec_nat k" arbitrary: k) (auto simp: takeWhile_append2 list_all_iff is_digit_def)
    then have "dec_nat m = dec_nat n" using that(1) by metis
    then show ?thesis using that dec_nat_inj by auto
  qed
  show ?thesis using split [of "py_len d" d "CHR '':'' # f" "py_len d'" d' "CHR '':'' # f'"] assms by (simp add: context_name_def)
qed

end
