(* ===== verification/Client_Store.thy ===== *)
theory Client_Store
  imports Native_Delivery
begin

text \<open>
  The single-writer SQLite ledger of \<open>client_store.py\<close>. Each table is a field of \<open>client_store\<close>; each
  method of \<open>ClientStore\<close> is one definition, with the time it reads and the UUIDs it draws as arguments.
  The \<open>snapshot\<close> column holds the canonical JSON text of a value; reading it back gives the value with
  sorted keys (\<open>Json_Codec.loads_canonical\<close>), which is what the model stores.
\<close>

section \<open>Rows and tables\<close>

datatype submission = SPending | SAccepted | SRejected | SOutcomeUnknown | SKeyUnavailable

datatype delivery = InlinePending | Ready | Enqueueing | Queued | Unsupported | DeliveryUnknown | InlineReturned

datatype cancellation = CancelSending | CancelRequested | CancelUnknown

fun submission_text :: "submission \<Rightarrow> string" where
  "submission_text SPending = ''pending''"
| "submission_text SAccepted = ''accepted''"
| "submission_text SRejected = ''rejected''"
| "submission_text SOutcomeUnknown = ''outcome_unknown''"
| "submission_text SKeyUnavailable = ''payload_key_unavailable''"

fun delivery_text :: "delivery \<Rightarrow> string" where
  "delivery_text InlinePending = ''inline_pending''"
| "delivery_text Ready = ''ready''"
| "delivery_text Enqueueing = ''enqueueing''"
| "delivery_text Queued = ''queued''"
| "delivery_text Unsupported = ''unsupported''"
| "delivery_text DeliveryUnknown = ''delivery_outcome_unknown''"
| "delivery_text InlineReturned = ''inline_returned''"

fun cancel_text :: "cancellation \<Rightarrow> string" where
  "cancel_text CancelSending = ''sending''"
| "cancel_text CancelRequested = ''requested''"
| "cancel_text CancelUnknown = ''outcome_unknown''"

definition TERMINAL_TEXT :: "string list" where
  "TERMINAL_TEXT = [''completed'', ''failed'', ''canceled'', ''outcome_unknown'']"

definition FINAL_TEXT :: "string list" where
  "FINAL_TEXT = [''completed'', ''failed'', ''canceled'']"

definition STATES_TEXT :: "string list" where
  "STATES_TEXT = TERMINAL_TEXT @ [''accepted'', ''running'']"

record client_env =
  cs_payload_ttl_seconds :: rat
  cs_retention_seconds :: rat
  cs_max_pending :: int
  cs_sha256 :: "bytes \<Rightarrow> string"
  cs_encrypt :: "bytes \<Rightarrow> bytes"
  cs_decrypt :: "bytes \<Rightarrow> bytes option"

record c_row =
  c_flow_id :: string
  c_thread_id :: string
  c_turn_id :: string
  c_call_id :: string
  c_digest :: string
  c_payload :: "bytes option"
  c_payload_expires :: rat
  c_snapshot :: "json option"
  c_submission :: submission
  c_delivery :: delivery
  c_delivery_id :: "string option"
  c_queue_id :: "string option"
  c_inline_deadline :: rat
  c_cancel_state :: "cancellation option"
  c_conflict :: bool
  c_created :: rat
  c_updated :: rat
  c_expires :: rat
  c_expired :: bool

record client_store =
  flows_t :: "(string \<times> string) list"
  cops_t :: "(string \<times> c_row) list"
  c_cursor :: int
  creceipts_t :: "((string \<times> string \<times> string) \<times> bool) list"

definition new_client_store :: client_store where
  "new_client_store = \<lparr>flows_t = [], cops_t = [], c_cursor = 0, creceipts_t = []\<rparr>"

definition set_row :: "string \<Rightarrow> (c_row \<Rightarrow> c_row) \<Rightarrow> client_store \<Rightarrow> client_store" where
  "set_row op f s = s\<lparr>cops_t := update_row op f (cops_t s)\<rparr>"

definition add_receipt :: "string \<Rightarrow> string \<Rightarrow> string \<Rightarrow> client_store \<Rightarrow> client_store" where
  "add_receipt op rid st s = s\<lparr>creceipts_t := insert_ignore (op, rid, st) False (creceipts_t s)\<rparr>"

section \<open>Opening the database\<close>

text \<open>The recovery statements of \<open>__init__\<close>: a claimed enqueue or a cancellation in flight when the
  daemon stopped has an unknown outcome, a waiting caller is gone.\<close>

definition reopen_row :: "c_row \<Rightarrow> c_row" where
  "reopen_row r =
     (let r1 = (if c_delivery r = Enqueueing then r\<lparr>c_delivery := DeliveryUnknown\<rparr> else r);
          r2 = (if c_delivery r1 = InlinePending then r1\<lparr>c_inline_deadline := 0, c_delivery := Ready\<rparr> else r1)
      in if c_cancel_state r2 = Some CancelSending then r2\<lparr>c_cancel_state := Some CancelUnknown\<rparr> else r2)"

definition unknown_receipt :: "string \<times> c_row \<Rightarrow> client_store \<Rightarrow> client_store" where
  "unknown_receipt = (\<lambda>(op, r) s.
     case (c_delivery r, c_snapshot r) of
       (DeliveryUnknown, Some snap) \<Rightarrow>
         (case jget snap ''result_id'' of JStr rid \<Rightarrow> add_receipt op rid ''delivery_outcome_unknown'' s | _ \<Rightarrow> s)
     | _ \<Rightarrow> s)"

definition reopen :: "client_store \<Rightarrow> client_store" where
  "reopen s =
     (let ops = map (\<lambda>(op, r). (op, reopen_row r)) (cops_t s)
      in fold unknown_receipt ops (s\<lparr>cops_t := ops\<rparr>))"

section \<open>Rows and views\<close>

definition row_of :: "string \<Rightarrow> native_origin option \<Rightarrow> client_store \<Rightarrow> exn + c_row" where
  "row_of op origin s =
     (case map_of (cops_t s) op of
        None \<Rightarrow> Inl (KeyError ''operation is not bound to this native thread'')
      | Some r \<Rightarrow>
          if (case origin of Some g \<Rightarrow> c_thread_id r \<noteq> thread_id g | None \<Rightarrow> False)
          then Inl (KeyError ''operation is not bound to this native thread'')
          else Inr r)"

definition snap_in :: "string list \<Rightarrow> json \<Rightarrow> bool" where
  "snap_in xs snap = (case jget snap ''state'' of JStr t \<Rightarrow> t \<in> set xs | _ \<Rightarrow> False)"

definition view_snapshot :: "string \<Rightarrow> c_row \<Rightarrow> json" where
  "view_snapshot op r = (case c_snapshot r of
     Some snap \<Rightarrow> snap
   | None \<Rightarrow> JObj [(''operation_id'', JStr op), (''flow_id'', JStr (c_flow_id r)), (''state'', JStr ''outcome_unknown''),
       (''result_id'', JNull), (''result'', JNull), (''error'', JNull), (''remote_task_id'', JNull)])"

definition view_json :: "string \<Rightarrow> c_row \<Rightarrow> json" where
  "view_json op r =
     fold (\<lambda>(k, v) j. jput k v j)
       [(''submission_state'', JStr (submission_text (c_submission r))),
        (''delivery_state'', JStr (delivery_text (c_delivery r))),
        (''queue_submission_id'', jopt (c_queue_id r)),
        (''snapshot_conflict'', JBool (c_conflict r)),
        (''result_expired'', JBool (c_expired r)),
        (''cancel_state'', jopt (map_option cancel_text (c_cancel_state r))),
        (''delivery_note'', JStr ''Queue acceptance and tool return do not prove native consumption. Use gateway_get/wait.'')]
       (view_snapshot op r)"

definition view :: "string \<Rightarrow> native_origin \<Rightarrow> bool \<Rightarrow> client_store \<Rightarrow> exn + json \<times> client_store" where
  "view op origin consume s =
     bind_r (row_of op (Some origin) s) (\<lambda>r.
       let snap = view_snapshot op r; rid = jget snap ''result_id'' in
       if consume \<and> truthy rid \<and> snap_in FINAL_TEXT snap \<and> \<not> c_expired r
       then
         let pull = c_delivery r \<in> {InlinePending, Ready, Unsupported};
             r' = (if pull then r\<lparr>c_delivery := InlineReturned\<rparr> else r);
             s1 = (if pull then set_row op (\<lambda>q. q\<lparr>c_delivery := InlineReturned\<rparr>) s else s)
         in (case rid of
               JStr t \<Rightarrow> Inr (view_json op r', add_receipt op t ''delivered'' s1)
             | _ \<Rightarrow> Inl TypeError)
       else Inr (view_json op r, s))"

definition call_rows :: "native_origin \<Rightarrow> client_store \<Rightarrow> (string \<times> c_row) list" where
  "call_rows origin s = select_where (\<lambda>_ r. c_thread_id r = thread_id origin \<and> c_turn_id r = turn_id origin
     \<and> c_call_id r = call_id origin) (cops_t s)"

definition resolve_call :: "native_origin \<Rightarrow> client_store \<Rightarrow> exn + json" where
  "resolve_call origin s =
     (case call_rows origin s of
        [] \<Rightarrow> Inl (KeyError ''no durable operation for this exact native tool call'')
      | (op, _) # _ \<Rightarrow> bind_r (view op origin False s) (\<lambda>(v, _). Inr v))"

section \<open>Submission\<close>

definition command_digest :: "client_env \<Rightarrow> string \<Rightarrow> string list \<Rightarrow> string" where
  "command_digest env prompt aids = cs_sha256 env (canonical (JObj [(''prompt'', JStr prompt), (''artifact_ids'', JList (map JStr aids))]))"

definition c_pending :: "client_store \<Rightarrow> int" where
  "c_pending s = int (length (select_where (\<lambda>_ r. c_submission r \<in> {SPending, SAccepted} \<and> \<not> c_expired r
     \<and> (case c_snapshot r of None \<Rightarrow> True | Some snap \<Rightarrow> \<not> snap_in FINAL_TEXT snap)) (cops_t s)))"

definition submit_json :: "string \<Rightarrow> string \<Rightarrow> string \<Rightarrow> string list \<Rightarrow> json" where
  "submit_json op flow prompt aids = JObj [(''operation_id'', JStr op), (''flow_id'', JStr flow), (''prompt'', JStr prompt),
     (''artifact_ids'', JList (map JStr aids))]"

definition insert_flow :: "string \<Rightarrow> string \<Rightarrow> client_store \<Rightarrow> client_store" where
  "insert_flow th fl s = (if map_of (flows_t s) th = None \<and> fl \<notin> snd ` set (flows_t s)
     then s\<lparr>flows_t := flows_t s @ [(th, fl)]\<rparr> else s)"

definition new_c_row :: "client_env \<Rightarrow> rat \<Rightarrow> rat \<Rightarrow> native_origin \<Rightarrow> string \<Rightarrow> string \<Rightarrow> bytes \<Rightarrow> c_row" where
  "new_c_row env now wait origin flow dig payload =
     \<lparr>c_flow_id = flow, c_thread_id = thread_id origin, c_turn_id = turn_id origin, c_call_id = call_id origin, c_digest = dig,
      c_payload = Some payload, c_payload_expires = now + cs_payload_ttl_seconds env, c_snapshot = None, c_submission = SPending,
      c_delivery = InlinePending, c_delivery_id = None, c_queue_id = None, c_inline_deadline = now + wait, c_cancel_state = None,
      c_conflict = False, c_created = now, c_updated = now, c_expires = now + cs_retention_seconds env, c_expired = False\<rparr>"

text \<open>\<open>create\<close>. A second row for the same native call violates the table's \<open>UNIQUE\<close> constraint; the
  check above it makes that unreachable.\<close>

definition create :: "client_env \<Rightarrow> rat \<Rightarrow> string \<Rightarrow> string \<Rightarrow> native_origin \<Rightarrow> string \<Rightarrow> string list \<Rightarrow> rat \<Rightarrow> client_store
    \<Rightarrow> exn + string \<times> client_store" where
  "create env now op flow origin prompt aids wait s =
     (if py_blank prompt \<or> length prompt > 256 * 1024
      then Inl (ValueError ''prompt must contain 1..262144 UTF-8 bytes'')
      else if length aids > 32 then Inl (ValueError ''at most 32 artifacts are permitted'')
      else bind_r (map_r (\<lambda>a. native_uuid (JStr a) ''artifact_id'') aids) (\<lambda>_.
        let dig = command_digest env prompt aids in
        case call_rows origin s of
          (op0, r0) # _ \<Rightarrow>
            if c_digest r0 \<noteq> dig then Inl (ValueError ''native tool call identity was reused with a different command'')
            else Inr (op0, s)
        | [] \<Rightarrow>
            if c_pending s \<ge> cs_max_pending env then Inl (ValueError ''client pending operation limit reached'')
            else let s1 = insert_flow (thread_id origin) flow s in
              case map_of (flows_t s1) (thread_id origin) of
                None \<Rightarrow> Inl TypeError
              | Some fl \<Rightarrow>
                  bind_r (insert_row op (new_c_row env now wait origin fl dig
                            (cs_encrypt env (canonical (submit_json op fl prompt aids)))) (cops_t s1))
                    (\<lambda>ops. Inr (op, s1\<lparr>cops_t := ops\<rparr>))))"

definition payload :: "client_env \<Rightarrow> rat \<Rightarrow> string \<Rightarrow> client_store \<Rightarrow> exn + json option" where
  "payload env now op s =
     bind_r (row_of op None s) (\<lambda>r.
       case c_payload r of
         None \<Rightarrow> Inr None
       | Some c \<Rightarrow>
           if c_payload_expires r \<le> now then Inr None
           else (case cs_decrypt env c of
                   None \<Rightarrow> Inl InvalidToken
                 | Some m \<Rightarrow> (case json_loads m of
                     Some (JObj kvs) \<Rightarrow> Inr (Some (JObj kvs))
                   | _ \<Rightarrow> Inl (ValueError ''payload''))))"

definition ids :: "bool \<Rightarrow> client_store \<Rightarrow> string list" where
  "ids pending s = map fst (select_where (\<lambda>_ r. \<not> c_expired r \<and> (pending \<longrightarrow> c_submission r = SPending)) (cops_t s))"

section \<open>Broker snapshots\<close>

definition advance :: "int \<Rightarrow> client_store \<Rightarrow> exn + client_store" where
  "advance seq s = (if seq < 0 then Inl (ValueError ''invalid event cursor'') else Inr (s\<lparr>c_cursor := max (c_cursor s) seq\<rparr>))"

definition required_keys :: "string list" where
  "required_keys = [''result_id'', ''result'', ''error'', ''remote_task_id'', ''created_at'', ''updated_at'']"

text \<open>The validation at the head of \<open>accept_snapshot\<close>. An unhashable \<open>state\<close> makes the set test raise
  \<open>TypeError\<close>.\<close>

definition check_snapshot :: "json \<Rightarrow> int option \<Rightarrow> exn + string \<times> string" where
  "check_snapshot snap seq =
     bind_r (native_uuid (jget snap ''operation_id'') ''operation_id'') (\<lambda>op.
     bind_r (native_uuid (jget snap ''flow_id'') ''flow_id'') (\<lambda>fl.
     bind_r (case jget snap ''state'' of
               JStr t \<Rightarrow> raise_if (t \<notin> set STATES_TEXT) (ValueError ''invalid broker operation state'')
             | JList _ \<Rightarrow> Inl TypeError
             | JObj _ \<Rightarrow> Inl TypeError
             | _ \<Rightarrow> Inl (ValueError ''invalid broker operation state'')) (\<lambda>_.
     bind_r (raise_if (\<not> list_all (jhas snap) required_keys) (ValueError ''incomplete broker snapshot'')) (\<lambda>_.
     bind_r (if jget snap ''result_id'' = JNull then Inr [] else native_uuid (jget snap ''result_id'') ''result_id'') (\<lambda>_.
     bind_r (raise_if (snap_in TERMINAL_TEXT snap \<and> jget snap ''result_id'' = JNull)
               (ValueError ''terminal broker snapshot requires stable result_id'')) (\<lambda>_.
     bind_r (raise_if (case seq of Some n \<Rightarrow> n < 0 | None \<Rightarrow> False) (ValueError ''invalid event cursor'')) (\<lambda>_.
       Inr (op, fl))))))))"

definition exact_resolution :: "json \<Rightarrow> json \<Rightarrow> bool" where
  "exact_resolution previous snap \<longleftrightarrow> jget previous ''state'' = JStr ''outcome_unknown'' \<and> snap_in FINAL_TEXT snap
     \<and> truthy (jget previous ''remote_task_id'') \<and> py_eq (jget previous ''remote_task_id'') (jget snap ''remote_task_id'')
     \<and> py_eq (jget previous ''result_id'') (jget snap ''result_id'')"

definition differs :: "json \<Rightarrow> json \<Rightarrow> bool" where
  "differs previous snap \<longleftrightarrow> list_ex (\<lambda>k. \<not> py_eq (jget previous k) (jget snap k)) [''state'', ''result_id'', ''result'', ''error'']"

datatype snapshot_verdict = Conflict | Store | Ignore

definition judge :: "json option \<Rightarrow> json \<Rightarrow> snapshot_verdict" where
  "judge previous snap =
     (let stale = (case previous of Some p \<Rightarrow> snap_in TERMINAL_TEXT p | None \<Rightarrow> False);
          exact = (case previous of Some p \<Rightarrow> exact_resolution p snap | None \<Rightarrow> False)
      in if stale \<and> \<not> exact \<and> snap_in TERMINAL_TEXT snap \<and> differs (the previous) snap then Conflict
         else if \<not> stale \<or> exact then Store
         else Ignore)"

text \<open>What the transaction does with the row of the operation.\<close>

definition stored_snapshot :: "client_env \<Rightarrow> rat \<Rightarrow> json \<Rightarrow> c_row \<Rightarrow> c_row" where
  "stored_snapshot env now snap r = r\<lparr>c_snapshot := Some (jsort snap), c_submission := SAccepted, c_payload := None,
     c_updated := now, c_expires := now + cs_retention_seconds env\<rparr>"

definition store_snapshot :: "client_env \<Rightarrow> rat \<Rightarrow> string \<Rightarrow> string \<Rightarrow> json \<Rightarrow> client_store \<Rightarrow> exn + client_store" where
  "store_snapshot env now op fl snap s =
     (case map_of (cops_t s) op of
        None \<Rightarrow> Inr s
      | Some r \<Rightarrow>
          if c_expired r then Inr s
          else if fl \<noteq> c_flow_id r then Inl (ValueError ''broker flow identity disagrees'')
          else (case judge (c_snapshot r) snap of
              Conflict \<Rightarrow> Inr (set_row op (\<lambda>q. q\<lparr>c_conflict := True\<rparr>) s)
            | Store \<Rightarrow>
                Inr (case jget snap ''result_id'' of
                       JStr rid \<Rightarrow> add_receipt op rid ''stored'' (set_row op (stored_snapshot env now snap) s)
                     | _ \<Rightarrow> set_row op (stored_snapshot env now snap) s)
            | Ignore \<Rightarrow> Inr s))"

definition accept_snapshot :: "client_env \<Rightarrow> rat \<Rightarrow> json \<Rightarrow> int option \<Rightarrow> client_store \<Rightarrow> exn + client_store" where
  "accept_snapshot env now snap seq s =
     bind_r (check_snapshot snap seq) (\<lambda>(op, fl).
     bind_r (store_snapshot env now op fl snap s) (\<lambda>s1.
       Inr (case seq of Some n \<Rightarrow> s1\<lparr>c_cursor := max (c_cursor s1) n\<rparr> | None \<Rightarrow> s1)))"

section \<open>Native delivery\<close>

definition release_inline :: "string \<Rightarrow> client_store \<Rightarrow> client_store" where
  "release_inline op s = set_row op (\<lambda>r. if c_delivery r = InlinePending then r\<lparr>c_inline_deadline := 0, c_delivery := Ready\<rparr> else r) s"

definition claim_delivery :: "rat \<Rightarrow> string \<Rightarrow> string \<Rightarrow> client_store \<Rightarrow> exn + (c_row \<times> json) option \<times> client_store" where
  "claim_delivery now did op s =
     bind_r (row_of op None s) (\<lambda>r.
       if c_expired r \<or> c_delivery r \<noteq> Ready then Inr (None, s)
       else case c_snapshot r of
         None \<Rightarrow> Inr (None, s)
       | Some snap \<Rightarrow>
           if c_inline_deadline r > now then Inr (None, s)
           else if \<not> truthy (jget snap ''result_id'') \<or> \<not> snap_in FINAL_TEXT snap then Inr (None, s)
           else Inr (Some (r\<lparr>c_delivery_id := Some did\<rparr>, snap),
                     set_row op (\<lambda>q. q\<lparr>c_delivery := Enqueueing, c_delivery_id := Some did\<rparr>) s))"

definition finish_delivery :: "string \<Rightarrow> delivery \<Rightarrow> string option \<Rightarrow> client_store \<Rightarrow> exn + client_store" where
  "finish_delivery op st queue s =
     (let s1 = set_row op (\<lambda>q. q\<lparr>c_delivery := st, c_queue_id := queue\<rparr>) s in
      if st = DeliveryUnknown
      then bind_r (row_of op None s1) (\<lambda>r.
        case c_snapshot r of
          None \<Rightarrow> Inl TypeError
        | Some snap \<Rightarrow> (case jget snap ''result_id'' of
            JStr rid \<Rightarrow> Inr (add_receipt op rid (delivery_text st) s1)
          | _ \<Rightarrow> Inl TypeError))
      else Inr s1)"

definition mark_submission :: "string \<Rightarrow> submission \<Rightarrow> client_store \<Rightarrow> client_store" where
  "mark_submission op st s = set_row op (\<lambda>q. q\<lparr>c_submission := st\<rparr>) s"

definition cancel_state :: "string \<Rightarrow> cancellation \<Rightarrow> client_store \<Rightarrow> client_store" where
  "cancel_state op st s = set_row op (\<lambda>q. q\<lparr>c_cancel_state := Some st\<rparr>) s"

definition receipts :: "client_store \<Rightarrow> (string \<times> string \<times> string) list" where
  "receipts s = map fst (select_where (\<lambda>_ sent. \<not> sent) (creceipts_t s))"

definition receipt_sent :: "string \<times> string \<times> string \<Rightarrow> client_store \<Rightarrow> client_store" where
  "receipt_sent k s = s\<lparr>creceipts_t := update_row k (\<lambda>_. True) (creceipts_t s)\<rparr>"

section \<open>Retention\<close>

definition prune_row :: "rat \<Rightarrow> c_row \<Rightarrow> c_row" where
  "prune_row now r =
     (let r1 = (if c_payload_expires r \<le> now then r\<lparr>c_payload := None\<rparr> else r) in
      if c_expires r1 \<le> now \<and> \<not> c_expired r1
      then (case c_snapshot r1 of
              Some snap \<Rightarrow> if snap_in FINAL_TEXT snap
                then r1\<lparr>c_snapshot := Some (jput ''error'' JNull (jput ''result'' JNull snap)), c_expired := True, c_payload := None\<rparr>
                else r1
            | None \<Rightarrow> r1)
      else r1)"

definition prune :: "rat \<Rightarrow> client_store \<Rightarrow> client_store" where
  "prune now s = s\<lparr>cops_t := map (\<lambda>(op, r). (op, prune_row now r)) (cops_t s)\<rparr>"

end
