(* ===== verification/Client_Ledger.thy ===== *)
theory Client_Ledger
  imports Client_Store
begin

text \<open>
  What the client ledger promises: its invariant, what a row keeps (\<open>crow_le\<close>), the step relation of
  all methods together with a restart of the daemon, and the properties of runs: a result is put into
  the native queue at most once, a definitive outcome and the event cursor never go back, submission is
  idempotent per native call.
\<close>

declare split_paired_All [simp del] split_paired_Ex [simp del]

section \<open>Table views\<close>

lemma set_row_views [simp]:
  "map_of (cops_t (set_row op f s)) op' = (if op' = op then map_option f (map_of (cops_t s) op) else map_of (cops_t s) op')"
  "flows_t (set_row op f s) = flows_t s" "c_cursor (set_row op f s) = c_cursor s" "creceipts_t (set_row op f s) = creceipts_t s"
  "keys_ok (cops_t (set_row op f s)) = keys_ok (cops_t s)"
  by (simp_all add: set_row_def map_of_update_row)

lemma add_receipt_views [simp]:
  "cops_t (add_receipt op rid st s) = cops_t s" "flows_t (add_receipt op rid st s) = flows_t s"
  "c_cursor (add_receipt op rid st s) = c_cursor s"
  by (simp_all add: add_receipt_def)

lemma map_rows: "map_of (map (\<lambda>(op, r). (op, f r)) t) op = map_option f (map_of t op)"
  by (induction t) auto

lemma keys_map_rows: "keys_ok (map (\<lambda>(op, r). (op, f r)) t) = keys_ok t"
  by (simp add: keys_ok_def comp_def case_prod_beta)

lemma reopen_views [simp]:
  "map_of (cops_t (reopen s)) op = map_option reopen_row (map_of (cops_t s) op)"
  "flows_t (reopen s) = flows_t s" "c_cursor (reopen s) = c_cursor s" "keys_ok (cops_t (reopen s)) = keys_ok (cops_t s)"
proof -
  have one: "cops_t (unknown_receipt x t) = cops_t t \<and> flows_t (unknown_receipt x t) = flows_t t \<and> c_cursor (unknown_receipt x t) = c_cursor t" for x t
    by (cases x) (simp add: unknown_receipt_def split: delivery.split option.split json.split)
  have "cops_t (fold unknown_receipt ops t) = cops_t t \<and> flows_t (fold unknown_receipt ops t) = flows_t t
      \<and> c_cursor (fold unknown_receipt ops t) = c_cursor t" for ops t
    by (induction ops arbitrary: t) (simp_all add: one)
  then show "map_of (cops_t (reopen s)) op = map_option reopen_row (map_of (cops_t s) op)"
    "flows_t (reopen s) = flows_t s" "c_cursor (reopen s) = c_cursor s" "keys_ok (cops_t (reopen s)) = keys_ok (cops_t s)"
    by (simp_all add: reopen_def map_rows keys_map_rows Let_def)
qed

lemma prune_views [simp]:
  "map_of (cops_t (prune now s)) op = map_option (prune_row now) (map_of (cops_t s) op)"
  "flows_t (prune now s) = flows_t s" "c_cursor (prune now s) = c_cursor s" "creceipts_t (prune now s) = creceipts_t s"
  "keys_ok (cops_t (prune now s)) = keys_ok (cops_t s)"
  by (simp_all add: prune_def map_rows keys_map_rows)

lemma row_of_Inr: "row_of op origin s = Inr r \<longleftrightarrow> map_of (cops_t s) op = Some r \<and> (\<forall>g. origin = Some g \<longrightarrow> c_thread_id r = thread_id g)"
  by (auto simp: row_of_def split: option.splits if_splits)

section \<open>What a row keeps\<close>

definition final_row :: "c_row \<Rightarrow> bool" where
  "final_row r \<longleftrightarrow> (case c_snapshot r of Some snap \<Rightarrow> snap_in FINAL_TEXT snap | None \<Rightarrow> False)"

definition pruned :: "json \<Rightarrow> json" where
  "pruned snap = jput ''error'' JNull (jput ''result'' JNull snap)"

definition crow_le :: "c_row \<Rightarrow> c_row \<Rightarrow> bool" where
  "crow_le r r' \<longleftrightarrow> c_flow_id r' = c_flow_id r \<and> c_thread_id r' = c_thread_id r \<and> c_turn_id r' = c_turn_id r \<and>
     c_call_id r' = c_call_id r \<and> c_digest r' = c_digest r \<and>
     (c_delivery r \<notin> {InlinePending, Ready} \<longrightarrow> c_delivery r' \<notin> {InlinePending, Ready}) \<and>
     (final_row r \<longrightarrow> final_row r' \<and> (c_snapshot r' = c_snapshot r \<or> c_expired r' \<and> \<not> c_expired r \<and> c_snapshot r' = map_option pruned (c_snapshot r))) \<and>
     (c_expired r \<longrightarrow> c_expired r')"

lemma crow_le_refl [simp]: "crow_le r r"
  by (simp add: crow_le_def)

lemma crow_le_trans: "crow_le r r' \<Longrightarrow> crow_le r' r'' \<Longrightarrow> crow_le r r''"
  by (cases "final_row r"; cases "c_snapshot r' = c_snapshot r") (simp_all add: crow_le_def, (elim conjE disjE; simp)+)

lemma terminal_of_final: "snap_in FINAL_TEXT snap \<Longrightarrow> snap_in TERMINAL_TEXT snap"
  by (auto simp: snap_in_def FINAL_TEXT_def TERMINAL_TEXT_def split: json.splits)

lemma judge_final: "snap_in FINAL_TEXT p \<Longrightarrow> judge (Some p) snap \<noteq> Store"
proof -
  assume f: "snap_in FINAL_TEXT p"
  then have "\<not> exact_resolution p snap" by (auto simp: exact_resolution_def snap_in_def FINAL_TEXT_def)
  with terminal_of_final [OF f] show ?thesis by (simp add: judge_def Let_def)
qed

lemma snap_in_pruned: "is_obj snap \<Longrightarrow> snap_in xs (pruned snap) = snap_in xs snap"
  by (cases snap) (auto simp: snap_in_def pruned_def AList.update_conv)

lemma snap_in_obj: "snap_in xs snap \<Longrightarrow> is_obj snap"
  by (cases snap) (auto simp: snap_in_def)

lemma snap_in_pruned': "snap_in xs snap \<Longrightarrow> snap_in xs (pruned snap)"
  using snap_in_pruned snap_in_obj by blast

lemma crow_le_prune [simp]: "crow_le r (prune_row now r)"
  by (auto simp: crow_le_def prune_row_def final_row_def Let_def pruned_def [symmetric] snap_in_pruned' split: option.splits)

lemma crow_le_reopen [simp]: "crow_le r (reopen_row r)"
  by (auto simp: crow_le_def reopen_row_def Let_def final_row_def split: option.splits)

section \<open>Steps\<close>

datatype client_label =
    CCreate native_origin string
  | CAdvance int
  | CSnapshot json "int option"
  | CView string
  | CRelease string
  | CClaim string "(c_row \<times> json) option"
  | CFinish string delivery
  | CMark string submission
  | CCancel string cancellation
  | CSent "string \<times> string \<times> string"
  | CPrune
  | CRestart

text \<open>
  \<open>finish_delivery\<close> is called for an operation whose delivery was claimed or is being reconciled, with
  one of the three outcomes of a native call.
\<close>

definition delivering :: "client_store \<Rightarrow> string \<Rightarrow> bool" where
  "delivering s op \<longleftrightarrow> (case map_of (cops_t s) op of Some r \<Rightarrow> c_delivery r \<in> {Enqueueing, DeliveryUnknown} | None \<Rightarrow> True)"

inductive client_step :: "client_env \<Rightarrow> client_store \<Rightarrow> client_label \<Rightarrow> client_store \<Rightarrow> bool" for env where
  cs_create: "create env now new_op flow origin prompt aids wait s = Inr (op, t) \<Longrightarrow> client_step env s (CCreate origin op) t"
| cs_advance: "advance n s = Inr t \<Longrightarrow> client_step env s (CAdvance n) t"
| cs_snapshot: "accept_snapshot env now snap seq s = Inr t \<Longrightarrow> client_step env s (CSnapshot snap seq) t"
| cs_view: "view op origin consume s = Inr (v, t) \<Longrightarrow> client_step env s (CView op) t"
| cs_release: "client_step env s (CRelease op) (release_inline op s)"
| cs_claim: "claim_delivery now did op s = Inr (x, t) \<Longrightarrow> client_step env s (CClaim op x) t"
| cs_finish: "finish_delivery op st queue s = Inr t \<Longrightarrow> st \<in> {Queued, Unsupported, DeliveryUnknown} \<Longrightarrow> delivering s op \<Longrightarrow>
    client_step env s (CFinish op st) t"
| cs_mark: "client_step env s (CMark op sub) (mark_submission op sub s)"
| cs_cancel: "client_step env s (CCancel op cs) (cancel_state op cs s)"
| cs_sent: "client_step env s (CSent k) (receipt_sent k s)"
| cs_prune: "client_step env s CPrune (prune now s)"
| cs_restart: "client_step env s CRestart (reopen s)"

inductive_cases client_claimE: "client_step env s (CClaim op x) t"

lemma create_cases:
  assumes "create env now new_op flow origin prompt aids wait s = Inr (op, t)"
  obtains (again) r rest where "call_rows origin s = (op, r) # rest" "c_digest r = command_digest env prompt aids" "t = s"
  | (fresh) fl where "call_rows origin s = []" "op = new_op" "c_pending s < cs_max_pending env"
      "map_of (flows_t (insert_flow (thread_id origin) flow s)) (thread_id origin) = Some fl" "map_of (cops_t s) op = None"
      "t = (insert_flow (thread_id origin) flow s)\<lparr>cops_t := cops_t s @ [(op, new_c_row env now wait origin fl
         (command_digest env prompt aids) (cs_encrypt env (canonical (submit_json op fl prompt aids))))]\<rparr>"
proof -
  have cops: "cops_t (insert_flow th fl s) = cops_t s" for th fl by (simp add: insert_flow_def)
  show thesis
  proof (cases "call_rows origin s")
    case Nil
    then show thesis using assms fresh by (auto simp: create_def Let_def cops split: if_splits option.splits)
  next
    case (Cons x rest)
    then show thesis using assms again by (cases x) (auto simp: create_def Let_def split: if_splits)
  qed
qed

lemma store_snapshot_cases:
  assumes "store_snapshot env now op fl snap s = Inr t"
  obtains (kept) "t = s"
  | (conflict) r where "map_of (cops_t s) op = Some r" "\<not> c_expired r" "judge (c_snapshot r) snap = Conflict"
      "t = set_row op (\<lambda>q. q\<lparr>c_conflict := True\<rparr>) s"
  | (stored) r where "map_of (cops_t s) op = Some r" "\<not> c_expired r" "fl = c_flow_id r" "judge (c_snapshot r) snap = Store"
      "t = (case jget snap ''result_id'' of
              JStr rid \<Rightarrow> add_receipt op rid ''stored'' (set_row op (stored_snapshot env now snap) s)
            | _ \<Rightarrow> set_row op (stored_snapshot env now snap) s)"
proof (cases "map_of (cops_t s) op")
  case None
  then show thesis using assms kept by (simp add: store_snapshot_def)
next
  case (Some r)
  show thesis
  proof (cases "c_expired r")
    case True
    then show thesis using assms kept Some by (simp add: store_snapshot_def)
  next
    case False
    then have fl: "fl = c_flow_id r" using assms Some by (simp add: store_snapshot_def split: if_splits)
    show thesis
      using assms Some False fl kept conflict [OF Some False] stored [OF Some False fl]
      by (cases "judge (c_snapshot r) snap") (simp_all add: store_snapshot_def)
  qed
qed

lemma accept_snapshot_cases:
  assumes "accept_snapshot env now snap seq s = Inr t"
  obtains op fl s1 where "check_snapshot snap seq = Inr (op, fl)" "store_snapshot env now op fl snap s = Inr s1"
    "t = (case seq of Some n \<Rightarrow> s1\<lparr>c_cursor := max (c_cursor s1) n\<rparr> | None \<Rightarrow> s1)"
  using assms by (auto simp: accept_snapshot_def)

lemma finish_delivery_views:
  assumes "finish_delivery op st queue s = Inr t"
  shows "cops_t t = cops_t (set_row op (\<lambda>q. q\<lparr>c_delivery := st, c_queue_id := queue\<rparr>) s)" "flows_t t = flows_t s" "c_cursor t = c_cursor s"
proof -
  let ?s = "set_row op (\<lambda>q. q\<lparr>c_delivery := st, c_queue_id := queue\<rparr>) s"
  have "t = ?s \<or> (\<exists>rid. t = add_receipt op rid (delivery_text st) ?s)"
  proof (cases "st = DeliveryUnknown")
    case True
    then obtain r where "row_of op None ?s = Inr r"
      "(case c_snapshot r of None \<Rightarrow> Inl TypeError
        | Some snap \<Rightarrow> (case jget snap ''result_id'' of JStr rid \<Rightarrow> Inr (add_receipt op rid (delivery_text st) ?s) | _ \<Rightarrow> Inl TypeError)) = Inr t"
      using assms by (auto simp: finish_delivery_def Let_def)
    then show ?thesis by (cases "c_snapshot r"; cases "jget (the (c_snapshot r)) ''result_id''") auto
  qed (use assms in \<open>simp add: finish_delivery_def Let_def\<close>)
  then show "cops_t t = cops_t ?s" "flows_t t = flows_t s" "c_cursor t = c_cursor s" by auto
qed

lemma claim_delivery_cases:
  assumes "claim_delivery now did op s = Inr (x, t)"
  obtains (idle) "x = None" "t = s"
  | (taken) r snap where "x = Some (r\<lparr>c_delivery_id := Some did\<rparr>, snap)" "map_of (cops_t s) op = Some r" "c_delivery r = Ready"
      "\<not> c_expired r" "c_inline_deadline r \<le> now" "c_snapshot r = Some snap" "snap_in FINAL_TEXT snap"
      "t = set_row op (\<lambda>q. q\<lparr>c_delivery := Enqueueing, c_delivery_id := Some did\<rparr>) s"
proof -
  obtain r where r: "map_of (cops_t s) op = Some r" using assms by (auto simp: claim_delivery_def row_of_Inr)
  show thesis
  proof (cases x)
    case None
    then show thesis using assms idle by (auto simp: claim_delivery_def split: if_splits option.splits)
  next
    case (Some y)
    then show thesis using assms r taken by (auto simp: claim_delivery_def row_of_def split: if_splits option.splits)
  qed
qed

lemma receipt_case_views [simp]:
  "cops_t (case j of JStr rid \<Rightarrow> add_receipt op rid st s | _ \<Rightarrow> s) = cops_t s"
  "flows_t (case j of JStr rid \<Rightarrow> add_receipt op rid st s | _ \<Rightarrow> s) = flows_t s"
  "c_cursor (case j of JStr rid \<Rightarrow> add_receipt op rid st s | _ \<Rightarrow> s) = c_cursor s"
  by (simp_all split: json.split)

lemma cursor_case_views [simp]:
  "cops_t (case seq of Some n \<Rightarrow> s\<lparr>c_cursor := f n\<rparr> | None \<Rightarrow> s) = cops_t s"
  "flows_t (case seq of Some n \<Rightarrow> s\<lparr>c_cursor := f n\<rparr> | None \<Rightarrow> s) = flows_t s"
  by (simp_all split: option.split)

lemma set_row_le:
  assumes "map_of (cops_t s) op' = Some r" "\<And>q. map_of (cops_t s) op = Some q \<Longrightarrow> crow_le q (f q)"
  shows "\<exists>r'. map_of (cops_t (set_row op f s)) op' = Some r' \<and> crow_le r r'"
  using assms by auto

lemma client_step_row:
  assumes "client_step env s l t" "map_of (cops_t s) op = Some r"
  shows "\<exists>r'. map_of (cops_t t) op = Some r' \<and> crow_le r r'"
  using assms(1)
proof (cases rule: client_step.cases)
  case (cs_create now new_op flow origin prompt aids wait op')
  from cs_create(2) show ?thesis
  proof (cases rule: create_cases)
    case (fresh fl)
    then show ?thesis using assms(2) by (auto simp: map_of_snoc simp del: map_of_append)
  qed (use assms(2) in simp)
next
  case (cs_advance n)
  then show ?thesis using assms(2) by (auto simp: advance_def split: if_splits)
next
  case (cs_snapshot now snap seq)
  from cs_snapshot(2) obtain op' fl s1 where s1: "store_snapshot env now op' fl snap s = Inr s1"
    and t: "cops_t t = cops_t s1" by (rule accept_snapshot_cases) simp
  from s1 have "\<exists>r'. map_of (cops_t s1) op = Some r' \<and> crow_le r r'"
  proof (cases rule: store_snapshot_cases)
    case (conflict q)
    then show ?thesis using assms(2) by (cases "op = op'") (simp_all add: crow_le_def final_row_def)
  next
    case (stored q)
    have "crow_le q (stored_snapshot env now snap q)"
      using stored(4) judge_final by (auto simp: crow_le_def final_row_def stored_snapshot_def split: option.splits)
    then show ?thesis using assms(2) stored by (cases "op = op'") simp_all
  qed (use assms(2) in simp)
  then show ?thesis by (simp add: t)
next
  case (cs_view op' origin consume v)
  have "crow_le q (q\<lparr>c_delivery := InlineReturned\<rparr>)" for q by (simp add: crow_le_def final_row_def)
  then show ?thesis using cs_view assms(2)
    by (auto simp: view_def Let_def split: if_splits json.splits)
next
  case (cs_release op')
  have "crow_le q (if c_delivery q = InlinePending then q\<lparr>c_inline_deadline := 0, c_delivery := Ready\<rparr> else q)" for q
    by (simp add: crow_le_def final_row_def)
  with set_row_le [OF assms(2)] show ?thesis unfolding cs_release release_inline_def by simp
next
  case (cs_claim now did op' x)
  from cs_claim(2) show ?thesis
  proof (cases rule: claim_delivery_cases)
    case (taken q snap)
    have "crow_le q (q\<lparr>c_delivery := Enqueueing, c_delivery_id := Some did\<rparr>)" for q by (simp add: crow_le_def final_row_def)
    with set_row_le [OF assms(2)] show ?thesis unfolding taken by simp
  qed (use assms(2) in simp)
next
  case (cs_finish op' st queue)
  have "crow_le q (q\<lparr>c_delivery := st, c_queue_id := queue\<rparr>)" for q using cs_finish(3) by (auto simp: crow_le_def final_row_def)
  with set_row_le [OF assms(2)] show ?thesis unfolding finish_delivery_views(1) [OF cs_finish(2)] by simp
next
  case (cs_mark op' sub)
  then show ?thesis using assms(2) by (auto simp: mark_submission_def crow_le_def final_row_def)
next
  case (cs_cancel op' cs)
  then show ?thesis using assms(2) by (auto simp: cancel_state_def crow_le_def final_row_def)
next
  case (cs_sent k)
  then show ?thesis using assms(2) by (simp add: receipt_sent_def)
qed (use assms(2) in auto)

lemma client_step_cursor: "client_step env s l t \<Longrightarrow> c_cursor s \<le> c_cursor t"
proof (induction rule: client_step.induct)
  case (cs_create now new_op flow origin prompt aids wait s op t)
  then show ?case by (cases rule: create_cases) (auto simp: insert_flow_def)
next
  case (cs_snapshot now snap seq s t)
  from cs_snapshot obtain op fl s1 where s1: "store_snapshot env now op fl snap s = Inr s1" "c_cursor s1 \<le> c_cursor t"
    by (rule accept_snapshot_cases) (auto split: option.splits)
  from s1(1) have "c_cursor s1 = c_cursor s" by (cases rule: store_snapshot_cases) simp_all
  with s1(2) show ?case by simp
next
  case (cs_finish op st queue s t)
  then show ?case by (simp add: finish_delivery_views)
qed (auto simp: advance_def view_def Let_def release_inline_def claim_delivery_def mark_submission_def cancel_state_def receipt_sent_def
      split: if_splits json.splits option.splits)

section \<open>The client invariant\<close>

definition crow_ok :: "c_row \<Rightarrow> bool" where
  "crow_ok r \<longleftrightarrow> (case c_snapshot r of
     None \<Rightarrow> c_delivery r \<in> {InlinePending, Ready}
   | Some snap \<Rightarrow> snap_in STATES_TEXT snap \<and> (snap_in TERMINAL_TEXT snap \<longrightarrow> is_str (jget snap ''result_id'')) \<and>
       c_payload r = None \<and> (c_delivery r \<notin> {InlinePending, Ready} \<longrightarrow> snap_in FINAL_TEXT snap))"

definition client_inv :: "client_store \<Rightarrow> bool" where
  "client_inv s \<longleftrightarrow> keys_ok (cops_t s) \<and> 0 \<le> c_cursor s \<and> distinct (map snd (flows_t s)) \<and>
     (\<forall>op r. map_of (cops_t s) op = Some r \<longrightarrow> crow_ok r \<and> map_of (flows_t s) (c_thread_id r) = Some (c_flow_id r)) \<and>
     (\<forall>op op' r r'. map_of (cops_t s) op = Some r \<longrightarrow> map_of (cops_t s) op' = Some r' \<longrightarrow> c_thread_id r = c_thread_id r' \<longrightarrow>
        c_turn_id r = c_turn_id r' \<longrightarrow> c_call_id r = c_call_id r' \<longrightarrow> op = op')"

lemma map_of_filter: "map_of t k = (case filter (\<lambda>x. fst x = k) t of [] \<Rightarrow> None | x # _ \<Rightarrow> Some (snd x))"
  by (induction t) auto

lemma map_of_sort_key: "map_of (sort_key fst t) k = map_of t k"
  unfolding map_of_filter [of "sort_key fst t"] map_of_filter [of t] sort_key_stable ..

lemma jget_jsort: "is_obj j \<Longrightarrow> jget (jsort j) k = jsort (jget j k)"
proof (cases j)
  case (JObj kvs)
  have "map_of (map (\<lambda>(k, v). (k, jsort v)) kvs) k = map_option jsort (map_of kvs k)" by (induction kvs) auto
  then show ?thesis using JObj by (simp add: map_of_sort_key split: option.split)
qed simp_all

lemma snap_in_jsort: "snap_in xs (jsort j) = snap_in xs j"
proof (cases "is_obj j")
  case True
  then show ?thesis by (simp add: snap_in_def jget_jsort split: json.split)
next
  case False
  then show ?thesis by (cases j) (auto simp: snap_in_def)
qed

lemma check_snapshot_ok:
  assumes "check_snapshot snap seq = Inr (op, fl)"
  shows "snap_in STATES_TEXT snap" "snap_in TERMINAL_TEXT snap \<Longrightarrow> is_str (jget snap ''result_id'')" "\<forall>n. seq = Some n \<longrightarrow> 0 \<le> n"
  using assms by (auto simp: check_snapshot_def snap_in_def native_uuid_def split: json.splits if_splits option.splits)

lemma crow_ok_stored:
  assumes "check_snapshot snap seq = Inr (op, fl)" "crow_ok r" "judge (c_snapshot r) snap = Store"
  shows "crow_ok (stored_snapshot env now snap r)"
proof -
  have "c_delivery r \<in> {InlinePending, Ready}"
  proof (cases "c_snapshot r")
    case (Some p)
    then show ?thesis using assms(2,3) judge_final [of p snap] by (auto simp: crow_ok_def)
  qed (use assms(2) in \<open>simp add: crow_ok_def\<close>)
  moreover have "is_obj snap" using check_snapshot_ok(1) [OF assms(1)] by (rule snap_in_obj)
  moreover have "is_str (jsort j)" if "is_str j" for j using that by (cases j) auto
  ultimately show ?thesis
    using check_snapshot_ok [OF assms(1)] by (simp add: crow_ok_def stored_snapshot_def snap_in_jsort jget_jsort)
qed

lemma jget_pruned: "is_obj j \<Longrightarrow> jget (pruned j) k = (if k \<in> {''error'', ''result''} then JNull else jget j k)"
  by (cases j) (auto simp: pruned_def AList.update_conv)

lemma crow_ok_prune: "crow_ok r \<Longrightarrow> crow_ok (prune_row now r)"
  by (auto simp: crow_ok_def prune_row_def Let_def pruned_def [symmetric] snap_in_pruned jget_pruned dest: snap_in_obj split: option.splits)

lemma crow_ok_reopen: "crow_ok r \<Longrightarrow> crow_ok (reopen_row r)"
  by (auto simp: crow_ok_def reopen_row_def Let_def split: option.splits)

text \<open>A step that rewrites rows in place, keeping what \<open>crow_le\<close> says and the row invariant.\<close>

lemma client_inv_rows:
  assumes "client_inv s" "keys_ok (cops_t t)" "flows_t t = flows_t s" "c_cursor s \<le> c_cursor t"
    and "\<And>op r'. map_of (cops_t t) op = Some r' \<Longrightarrow> \<exists>r. map_of (cops_t s) op = Some r \<and> crow_le r r' \<and> crow_ok r'"
  shows "client_inv t"
proof -
  have "op = op'" if r: "map_of (cops_t t) op = Some r" "map_of (cops_t t) op' = Some r'" "c_thread_id r = c_thread_id r'"
    "c_turn_id r = c_turn_id r'" "c_call_id r = c_call_id r'" for op op' r r'
  proof -
    obtain q where q: "map_of (cops_t s) op = Some q" "crow_le q r" using assms(5) [OF r(1)] by blast
    obtain q' where q': "map_of (cops_t s) op' = Some q'" "crow_le q' r'" using assms(5) [OF r(2)] by blast
    have "c_thread_id q = c_thread_id q'" "c_turn_id q = c_turn_id q'" "c_call_id q = c_call_id q'"
      using q(2) q'(2) r(3-5) by (simp_all add: crow_le_def)
    with assms(1) q(1) q'(1) show ?thesis unfolding client_inv_def by blast
  qed
  moreover have "crow_ok r \<and> map_of (flows_t t) (c_thread_id r) = Some (c_flow_id r)" if row: "map_of (cops_t t) op = Some r" for op r
  proof -
    obtain q where q: "map_of (cops_t s) op = Some q" "crow_le q r" "crow_ok r" using assms(5) [OF row] by blast
    then show ?thesis using assms(1,3) by (auto simp: client_inv_def crow_le_def)
  qed
  moreover have "0 \<le> c_cursor t" "distinct (map snd (flows_t t))" using assms(1,3,4) by (simp_all add: client_inv_def)
  ultimately show ?thesis using assms(2) unfolding client_inv_def by blast
qed

lemma client_inv_set_row:
  assumes "client_inv s" "\<And>r. map_of (cops_t s) op = Some r \<Longrightarrow> crow_ok r \<Longrightarrow> crow_le r (f r) \<and> crow_ok (f r)"
    and "cops_t t = cops_t (set_row op f s)" "flows_t t = flows_t s" "c_cursor s \<le> c_cursor t"
  shows "client_inv t"
proof (rule client_inv_rows [OF assms(1) _ assms(4,5)])
  have rows: "crow_ok r" if "map_of (cops_t s) op' = Some r" for op' r using assms(1) that unfolding client_inv_def by blast
  show "keys_ok (cops_t t)" using assms(1,3) by (simp add: client_inv_def)
  show "\<exists>r. map_of (cops_t s) op' = Some r \<and> crow_le r r' \<and> crow_ok r'" if "map_of (cops_t t) op' = Some r'" for op' r'
    using that rows assms(2) unfolding assms(3) by (auto split: if_splits)
qed

lemma client_inv_create:
  assumes "client_inv s" "create env now new_op flow origin prompt aids wait s = Inr (op, t)"
  shows "client_inv t"
  using assms(2)
proof (cases rule: create_cases)
  case (fresh fl)
  let ?n = "new_c_row env now wait origin fl (command_digest env prompt aids) (cs_encrypt env (canonical (submit_json op fl prompt aids)))"
  have cops: "map_of (cops_t t) op' = (if op' = op then Some ?n else map_of (cops_t s) op')" for op'
    using fresh(5,6) by (auto simp: map_of_snoc simp del: map_of_append split: option.splits)
  have flows: "map_of (flows_t t) th = Some x" if "map_of (flows_t s) th = Some x" for th x
    using that fresh(6) by (auto simp: insert_flow_def map_of_snoc simp del: map_of_append)
  have new: "c_thread_id ?n = thread_id origin" "c_turn_id ?n = turn_id origin" "c_call_id ?n = call_id origin" "c_flow_id ?n = fl" "crow_ok ?n"
    by (simp_all add: new_c_row_def crow_ok_def)
  have none: "\<not> (c_thread_id r = thread_id origin \<and> c_turn_id r = turn_id origin \<and> c_call_id r = call_id origin)"
    if "map_of (cops_t s) op' = Some r" for op' r
    using fresh(1) map_of_SomeD [OF that] by (auto simp: call_rows_def select_where_def filter_empty_conv)
  have "distinct (map snd (flows_t t))" using assms(1) fresh(6) by (auto simp: client_inv_def insert_flow_def)
  moreover have "keys_ok (cops_t t)" "0 \<le> c_cursor t"
    using assms(1) fresh(5,6) by (simp_all add: client_inv_def insert_flow_def)
  moreover have "crow_ok r \<and> map_of (flows_t t) (c_thread_id r) = Some (c_flow_id r)" if "map_of (cops_t t) op' = Some r" for op' r
    using that assms(1) fresh(4,6) new flows unfolding cops client_inv_def by (auto split: if_splits)
  moreover have "op1 = op2" if "map_of (cops_t t) op1 = Some r1" "map_of (cops_t t) op2 = Some r2" "c_thread_id r1 = c_thread_id r2"
    "c_turn_id r1 = c_turn_id r2" "c_call_id r1 = c_call_id r2" for op1 op2 r1 r2
  proof (cases "op1 = op \<or> op2 = op")
    case True
    then show ?thesis using that new none [of op1 r1] none [of op2 r2] unfolding cops by (auto split: if_splits)
  next
    case False
    then show ?thesis using that assms(1) unfolding cops client_inv_def by (auto split: if_splits)
  qed
  ultimately show ?thesis unfolding client_inv_def by blast
qed (use assms(1) in simp)

lemma client_inv_snapshot:
  assumes "client_inv s" "accept_snapshot env now snap seq s = Inr t"
  shows "client_inv t"
proof -
  obtain op fl s1 where c: "check_snapshot snap seq = Inr (op, fl)" "store_snapshot env now op fl snap s = Inr s1"
    and t: "t = (case seq of Some n \<Rightarrow> s1\<lparr>c_cursor := max (c_cursor s1) n\<rparr> | None \<Rightarrow> s1)"
    using assms(2) by (rule accept_snapshot_cases)
  have "client_inv s1"
    using c(2)
  proof (cases rule: store_snapshot_cases)
    case kept
    then show ?thesis using assms(1) by simp
  next
    case (conflict r)
    show ?thesis
      by (rule client_inv_set_row [OF assms(1), of op "\<lambda>q. q\<lparr>c_conflict := True\<rparr>"])
        (simp_all add: conflict(4) crow_le_def final_row_def crow_ok_def split: option.splits)
  next
    case (stored r)
    show ?thesis
    proof (rule client_inv_set_row [OF assms(1), of op "stored_snapshot env now snap"])
      fix q assume q: "map_of (cops_t s) op = Some q" "crow_ok q"
      then have "q = r" using stored(1) by simp
      then show "crow_le q (stored_snapshot env now snap q) \<and> crow_ok (stored_snapshot env now snap q)"
        using crow_ok_stored [OF c(1) q(2)] stored(4) judge_final
        by (auto simp: crow_le_def final_row_def stored_snapshot_def split: option.splits)
    qed (simp_all add: stored(5))
  qed
  then show ?thesis unfolding t by (cases seq) (auto simp: client_inv_def)
qed

lemma client_inv_view:
  assumes "client_inv s" "view op origin consume s = Inr (v, t)"
  shows "client_inv t"
proof -
  obtain r where r: "map_of (cops_t s) op = Some r" using assms(2) by (auto simp: view_def row_of_Inr)
  consider "t = s" | "t = set_row op (\<lambda>q. q\<lparr>c_delivery := InlineReturned\<rparr>) s \<or> (\<exists>x. t = add_receipt op x ''delivered'' (set_row op (\<lambda>q. q\<lparr>c_delivery := InlineReturned\<rparr>) s))"
      "snap_in FINAL_TEXT (view_snapshot op r)" | x where "t = add_receipt op x ''delivered'' s"
    using assms(2) r by (auto simp: view_def row_of_def Let_def split: if_splits json.splits)
  then show ?thesis
  proof cases
    case 2
    have "c_snapshot r \<noteq> None" using 2(2) by (auto simp: view_snapshot_def snap_in_def FINAL_TEXT_def split: option.splits)
    then have final: "\<exists>snap. c_snapshot r = Some snap \<and> snap_in FINAL_TEXT snap" using 2(2) by (auto simp: view_snapshot_def)
    show ?thesis
      by (rule client_inv_set_row [OF assms(1), of op "\<lambda>q. q\<lparr>c_delivery := InlineReturned\<rparr>"])
        (use r final 2(1) in \<open>auto simp: crow_le_def final_row_def crow_ok_def\<close>)
  next
    case (3 x)
    then show ?thesis using assms(1) by (simp add: client_inv_def)
  qed (use assms(1) in simp)
qed

lemma client_inv_step: "client_step env s l t \<Longrightarrow> client_inv s \<Longrightarrow> client_inv t"
proof (induction rule: client_step.induct)
  case (cs_release s op)
  show ?case
    by (rule client_inv_set_row [OF cs_release, of op "\<lambda>r. if c_delivery r = InlinePending then r\<lparr>c_inline_deadline := 0, c_delivery := Ready\<rparr> else r"])
      (simp_all add: release_inline_def crow_le_def final_row_def crow_ok_def split: option.splits)
next
  case (cs_claim now did op s x t)
  from cs_claim.hyps show ?case
  proof (cases rule: claim_delivery_cases)
    case (taken r snap)
    show ?thesis
      by (rule client_inv_set_row [OF cs_claim.prems, of op "\<lambda>q. q\<lparr>c_delivery := Enqueueing, c_delivery_id := Some did\<rparr>"])
        (use taken in \<open>auto simp: crow_le_def final_row_def crow_ok_def\<close>)
  qed (use cs_claim.prems in simp)
next
  case (cs_finish op st queue s t)
  show ?case
  proof (rule client_inv_set_row [OF cs_finish.prems, of op "\<lambda>q. q\<lparr>c_delivery := st, c_queue_id := queue\<rparr>"])
    fix r assume "map_of (cops_t s) op = Some r" "crow_ok r"
    then show "crow_le r (r\<lparr>c_delivery := st, c_queue_id := queue\<rparr>) \<and> crow_ok (r\<lparr>c_delivery := st, c_queue_id := queue\<rparr>)"
      using cs_finish.hyps(2,3) by (auto simp: delivering_def crow_le_def final_row_def crow_ok_def split: option.splits)
  qed (simp_all add: finish_delivery_views [OF cs_finish.hyps(1)])
next
  case (cs_mark s op sub)
  show ?case
    by (rule client_inv_set_row [OF cs_mark, of op "\<lambda>q. q\<lparr>c_submission := sub\<rparr>"])
      (simp_all add: mark_submission_def crow_le_def final_row_def crow_ok_def split: option.splits)
next
  case (cs_cancel s op cs)
  show ?case
    by (rule client_inv_set_row [OF cs_cancel, of op "\<lambda>q. q\<lparr>c_cancel_state := Some cs\<rparr>"])
      (simp_all add: cancel_state_def crow_le_def final_row_def crow_ok_def split: option.splits)
next
  case (cs_prune s now)
  show ?case
    by (rule client_inv_rows [OF cs_prune]) (use cs_prune in \<open>auto simp: client_inv_def crow_ok_prune\<close>)
next
  case (cs_restart s)
  show ?case
    by (rule client_inv_rows [OF cs_restart]) (use cs_restart in \<open>auto simp: client_inv_def crow_ok_reopen\<close>)
next
  case (cs_create now new_op flow origin prompt aids wait s op t)
  show ?case by (rule client_inv_create [OF cs_create.prems cs_create.hyps])
next
  case (cs_snapshot now snap seq s t)
  show ?case by (rule client_inv_snapshot [OF cs_snapshot.prems cs_snapshot.hyps])
next
  case (cs_view op origin consume s v t)
  show ?case by (rule client_inv_view [OF cs_view.prems cs_view.hyps])
qed (auto simp: client_inv_def advance_def receipt_sent_def split: if_splits)

interpretation client_run: invariant_system "client_step env" client_inv for env
  by unfold_locales (rule client_inv_step)

fun enqueues :: "client_label \<Rightarrow> string option" where
  "enqueues (CClaim op (Some x)) = Some op"
| "enqueues _ = None"

definition delivery_spent :: "client_store \<Rightarrow> string \<Rightarrow> bool" where
  "delivery_spent s op \<longleftrightarrow> (case map_of (cops_t s) op of Some r \<Rightarrow> c_delivery r \<notin> {InlinePending, Ready} | None \<Rightarrow> False)"

interpretation client_delivery: at_most_once "client_step env" client_inv enqueues delivery_spent for env
proof
  fix s l t op
  assume "client_inv s" and step: "client_step env s l t"
  show "delivery_spent t op" if spent: "delivery_spent s op"
  proof -
    obtain r where r: "map_of (cops_t s) op = Some r" "c_delivery r \<notin> {InlinePending, Ready}"
      using spent by (auto simp: delivery_spent_def split: option.splits)
    obtain r' where "map_of (cops_t t) op = Some r'" "crow_le r r'" using client_step_row [OF step r(1)] by blast
    then show ?thesis using r(2) by (auto simp: delivery_spent_def crow_le_def)
  qed
  show "\<not> delivery_spent s op" "delivery_spent t op" if take: "enqueues l = Some op"
  proof -
    obtain x where l: "l = CClaim op (Some x)" using take by (cases l rule: enqueues.cases) auto
    obtain now did where claim: "claim_delivery now did op s = Inr (Some x, t)"
      using step unfolding l by (rule client_claimE)
    then show "\<not> delivery_spent s op" "delivery_spent t op"
      by (cases rule: claim_delivery_cases; simp add: delivery_spent_def)+
  qed
qed

end
