(* ===== verification/Client_Properties.thy ===== *)
theory Client_Properties
  imports Client_Ledger
begin

text \<open>
  The properties of the client ledger over its runs, with a concrete run: one native call is submitted,
  its completed snapshot arrives, the caller's inline wait is released and the delivery is claimed.
\<close>

section \<open>A concrete run\<close>

definition uA :: string where "uA = ''0190b5b0-7c00-7000-8000-00000000000a''"
definition uB :: string where "uB = ''0190b5b0-7c00-7000-8000-00000000000b''"
definition uC :: string where "uC = ''0190b5b0-7c00-7000-8000-00000000000c''"

lemma native_uuids:
  "native_uuid (JStr uA) n = Inr uA" "native_uuid (JStr uB) n = Inr uB" "native_uuid (JStr uC) n = Inr uC"
proof -
  have "uuid_text uA = Some (lower uA)" "uuid_text uB = Some (lower uB)" "uuid_text uC = Some (lower uC)"
    "lower uA = uA" "lower uB = uB" "lower uC = uC" by code_simp+
  then show "native_uuid (JStr uA) n = Inr uA" "native_uuid (JStr uB) n = Inr uB" "native_uuid (JStr uC) n = Inr uC"
    by (simp_all add: native_uuid_def)
qed

definition demo_cenv :: client_env where
  "demo_cenv = \<lparr>cs_payload_ttl_seconds = 86400, cs_retention_seconds = 604800, cs_max_pending = 2, cs_sha256 = (\<lambda>m. m),
     cs_encrypt = (\<lambda>m. m), cs_decrypt = Some\<rparr>"

definition demo_origin :: native_origin where
  "demo_origin = \<lparr>thread_id = ''th'', turn_id = ''tu'', call_id = ''call''\<rparr>"

definition cdemo_row :: c_row where
  "cdemo_row = new_c_row demo_cenv 100 15 demo_origin uB (command_digest demo_cenv ''hello'' [])
     (cs_encrypt demo_cenv (canonical (submit_json uA uB ''hello'' [])))"

definition demo_done :: json where
  "demo_done = JObj [(''operation_id'', JStr uA), (''flow_id'', JStr uB), (''state'', JStr ''completed''), (''result_id'', JStr uC),
     (''result'', JObj [(''text'', JStr ''ok'')]), (''error'', JNull), (''remote_task_id'', JStr ''task''),
     (''created_at'', JStr ''t''), (''updated_at'', JStr ''t'')]"

definition cdemo1 :: client_store where
  "cdemo1 = \<lparr>flows_t = [(''th'', uB)], cops_t = [(uA, cdemo_row)], c_cursor = 0, creceipts_t = []\<rparr>"

definition cdemo2 :: client_store where
  "cdemo2 = \<lparr>flows_t = [(''th'', uB)], cops_t = [(uA, stored_snapshot demo_cenv 110 demo_done cdemo_row)], c_cursor = 7,
     creceipts_t = [((uA, uC, ''stored''), False)]\<rparr>"

definition cdemo3 :: client_store where
  "cdemo3 = release_inline uA cdemo2"

definition cdemo4 :: client_store where
  "cdemo4 = set_row uA (\<lambda>q. q\<lparr>c_delivery := Enqueueing, c_delivery_id := Some ''did''\<rparr>) cdemo3"

lemma cdemo1_step: "create demo_cenv 100 uA uB demo_origin ''hello'' [] 15 new_client_store = Inr (uA, cdemo1)"
  by (simp add: create_def is_space_def call_rows_def select_where_def new_client_store_def c_pending_def insert_flow_def demo_origin_def
      cdemo1_def cdemo_row_def insert_row_def Let_def) (simp add: demo_cenv_def)

lemma check_done: "check_snapshot demo_done (Some 7) = Inr (uA, uB)"
  by (simp add: check_snapshot_def demo_done_def native_uuids STATES_TEXT_def TERMINAL_TEXT_def required_keys_def snap_in_def)

lemma cdemo2_step: "accept_snapshot demo_cenv 110 demo_done (Some 7) cdemo1 = Inr cdemo2"
  by (simp add: accept_snapshot_def check_done store_snapshot_def cdemo1_def cdemo2_def set_row_def add_receipt_def insert_ignore_def
      judge_def) (simp add: cdemo_row_def new_c_row_def demo_done_def set_row_def add_receipt_def insert_ignore_def)

lemma cdemo_rows:
  "map_of (cops_t cdemo2) uA = Some (stored_snapshot demo_cenv 110 demo_done cdemo_row)"
  "map_of (cops_t cdemo3) uA = Some ((stored_snapshot demo_cenv 110 demo_done cdemo_row)\<lparr>c_inline_deadline := 0, c_delivery := Ready\<rparr>)"
  by (simp_all add: cdemo2_def cdemo3_def release_inline_def stored_snapshot_def cdemo_row_def new_c_row_def)

lemma demo_done_final: "snap_in FINAL_TEXT demo_done" "snap_in FINAL_TEXT (jsort demo_done)"
  by (simp_all add: snap_in_jsort, simp_all add: snap_in_def demo_done_def FINAL_TEXT_def)

lemma cdemo4_step: "\<exists>x. claim_delivery 120 ''did'' uA cdemo3 = Inr (Some x, cdemo4)"
  by (simp add: claim_delivery_def row_of_def cdemo_rows cdemo4_def demo_done_final)
    (simp add: stored_snapshot_def cdemo_row_def new_c_row_def demo_done_final jget_jsort, simp add: demo_done_def uC_def)

lemma new_inv: "client_inv new_client_store"
  by (simp add: client_inv_def new_client_store_def)

definition demo_taken :: "c_row \<times> json" where
  "demo_taken = the (fst (projr (claim_delivery 120 ''did'' uA cdemo3)))"

lemma demo_taken_step: "claim_delivery 120 ''did'' uA cdemo3 = Inr (Some demo_taken, cdemo4)"
  using cdemo4_step by (auto simp: demo_taken_def)

lemma cdemo_trace:
  "client_step demo_cenv new_client_store (CCreate demo_origin uA) cdemo1"
  "client_step demo_cenv cdemo1 (CSnapshot demo_done (Some 7)) cdemo2"
  "client_step demo_cenv cdemo2 (CRelease uA) cdemo3"
  "client_step demo_cenv cdemo3 (CClaim uA (Some demo_taken)) cdemo4"
  by (rule cs_create [OF cdemo1_step], rule cs_snapshot [OF cdemo2_step], simp add: cdemo3_def cs_release, rule cs_claim [OF demo_taken_step])

lemma cdemo_run: "run (client_step demo_cenv) new_client_store
   [CCreate demo_origin uA, CSnapshot demo_done (Some 7), CRelease uA, CClaim uA (Some demo_taken)] cdemo4"
  using cdemo_trace by (meson run_Cons run_Nil)

lemma cdemo_tail: "run (client_step demo_cenv) cdemo1 [CSnapshot demo_done (Some 7), CRelease uA, CClaim uA (Some demo_taken)] cdemo4"
  using cdemo_trace by (meson run_Cons run_Nil)

lemma cdemo_invs: "client_inv cdemo1" "client_inv cdemo2" "client_inv cdemo3"
  using new_inv cdemo_trace client_inv_step by blast+

section \<open>Delivery\<close>

text \<open>The result of an operation is put into the native queue at most once in any run, daemon
  restarts included: a claimed delivery is never claimed again, whatever became of it.\<close>

theorem enqueued_at_most_once:
  assumes "run (client_step env) s ls t" "client_inv s"
  shows "length (filter (\<lambda>l. enqueues l = Some op) ls) \<le> 1"
  using assms by (rule client_delivery.run_takes_count)

theorem enqueued_at_most_once_witness:
  "length (filter (\<lambda>l. enqueues l = Some uA) [CCreate demo_origin uA, CSnapshot demo_done (Some 7), CRelease uA,
     CClaim uA (Some demo_taken)]) \<le> 1 \<and> enqueues (CClaim uA (Some demo_taken)) = Some uA"
  using enqueued_at_most_once [OF cdemo_run new_inv, of uA] by simp

text \<open>Only a definitive result of an operation that its caller no longer waits for is queued: a
  claimed delivery was ready, not expired, past its inline deadline and has a completed, failed or
  canceled snapshot with a result identifier.\<close>

theorem claimed_delivery_definitive:
  assumes "claim_delivery now did op s = Inr (Some (r, snap), t)" "client_inv s"
  shows "\<exists>q. map_of (cops_t s) op = Some q \<and> c_delivery q = Ready \<and> \<not> c_expired q \<and> c_inline_deadline q \<le> now \<and>
    c_snapshot q = Some snap \<and> snap_in FINAL_TEXT snap \<and> is_str (jget snap ''result_id'') \<and>
    (\<exists>q'. map_of (cops_t t) op = Some q' \<and> c_delivery q' = Enqueueing \<and> c_delivery_id q' = Some did)"
  using assms(1)
proof (cases rule: claim_delivery_cases)
  case (taken q sn)
  have "crow_ok q" using assms(2) taken(2) unfolding client_inv_def by blast
  then have "is_str (jget snap ''result_id'')"
    using taken terminal_of_final by (auto simp: crow_ok_def)
  then show ?thesis using taken by auto
qed simp

theorem claimed_delivery_definitive_witness:
  "\<exists>q. map_of (cops_t cdemo3) uA = Some q \<and> c_delivery q = Ready \<and> snap_in FINAL_TEXT (snd demo_taken)"
  using claimed_delivery_definitive [of 120 "''did''" uA cdemo3 "fst demo_taken" "snd demo_taken" cdemo4] demo_taken_step cdemo_invs
  by auto

section \<open>Snapshots and cursor\<close>

lemma run_client_row:
  assumes "run (client_step env) s ls t" "map_of (cops_t s) op = Some r"
  shows "\<exists>r'. map_of (cops_t t) op = Some r' \<and> crow_le r r'"
  using assms
proof (induction arbitrary: r rule: run.induct)
  case (run_Cons s e s1 es s2)
  then show ?case using client_step_row [OF run_Cons.hyps(1) run_Cons.prems] crow_le_trans by blast
qed simp

text \<open>A definitive snapshot is kept: later events, refreshes, restarts and deliveries leave it as it
  is, until retention removes its result and error and marks the row expired.\<close>

theorem final_snapshot_kept:
  assumes "run (client_step env) s ls t" "map_of (cops_t s) op = Some r" "c_snapshot r = Some snap" "snap_in FINAL_TEXT snap"
  shows "\<exists>r'. map_of (cops_t t) op = Some r' \<and> (c_snapshot r' = Some snap \<or> c_expired r' \<and> c_snapshot r' = Some (pruned snap))"
  using run_client_row [OF assms(1,2)] assms(3,4) by (auto simp: crow_le_def final_row_def)

theorem final_snapshot_kept_witness:
  "\<exists>r'. map_of (cops_t cdemo4) uA = Some r' \<and> (c_snapshot r' = Some (jsort demo_done) \<or> c_expired r' \<and> c_snapshot r' = Some (pruned (jsort demo_done)))"
proof (rule final_snapshot_kept)
  show "run (client_step demo_cenv) cdemo2 [CRelease uA, CClaim uA (Some demo_taken)] cdemo4"
    using cdemo_trace by (meson run_Cons run_Nil)
qed (rule cdemo_rows(1), simp_all add: stored_snapshot_def demo_done_final)

text \<open>The event cursor never moves back, so no acknowledged event is applied as new again.\<close>

theorem cursor_monotone:
  assumes "run (client_step env) s ls t"
  shows "c_cursor s \<le> c_cursor t"
  using assms by (induction rule: run.induct) (auto dest: client_step_cursor)

theorem cursor_monotone_witness: "c_cursor cdemo1 \<le> c_cursor cdemo4"
  by (rule cursor_monotone [OF cdemo_tail])

text \<open>A row that already holds a terminal snapshot takes another one only as the resolution of an
  unknown outcome, definitive, with the same peer handle and result identifier; any other difference
  only raises the conflict mark.\<close>

theorem terminal_replaced_only_exactly:
  assumes "accept_snapshot env now snap seq s = Inr t" "map_of (cops_t s) op = Some r" "c_snapshot r = Some p"
    and "snap_in TERMINAL_TEXT p" "map_of (cops_t t) op = Some r'" "c_snapshot r' \<noteq> Some p"
  shows "jget p ''state'' = JStr ''outcome_unknown'' \<and> snap_in FINAL_TEXT snap \<and>
    py_eq (jget p ''remote_task_id'') (jget snap ''remote_task_id'') \<and> py_eq (jget p ''result_id'') (jget snap ''result_id'')"
proof -
  obtain op' fl s1 where s1: "store_snapshot env now op' fl snap s = Inr s1" and t: "cops_t t = cops_t s1"
    using assms(1) by (rule accept_snapshot_cases) simp
  from s1 show ?thesis
  proof (cases rule: store_snapshot_cases)
    case kept
    then show ?thesis using assms(2,3,5,6) t by simp
  next
    case (conflict q)
    then show ?thesis using assms(2,3,5,6) t by (cases "op = op'") auto
  next
    case (stored q)
    then have q: "op = op'" using assms(2,3,5,6) t by (cases "op = op'") auto
    then have "judge (Some p) snap = Store" using stored(1,4) assms(2,3) by simp
    then show ?thesis using assms(4) by (auto simp: judge_def exact_resolution_def Let_def split: if_splits)
  qed
qed

definition demo_unknown :: json where
  "demo_unknown = jput ''state'' (JStr ''outcome_unknown'') (jput ''result'' JNull demo_done)"

definition cdemo_u :: client_store where
  "cdemo_u = cdemo1\<lparr>cops_t := [(uA, stored_snapshot demo_cenv 105 demo_unknown cdemo_row)]\<rparr>"

theorem terminal_replaced_only_exactly_witness:
  "jget (jsort demo_unknown) ''state'' = JStr ''outcome_unknown'' \<and>
   py_eq (jget (jsort demo_unknown) ''result_id'') (jget demo_done ''result_id'')"
proof -
  have r: "map_of (cops_t cdemo_u) uA = Some (stored_snapshot demo_cenv 105 demo_unknown cdemo_row)" by (simp add: cdemo_u_def)
  have u: "jsort demo_unknown = JObj [(''created_at'', JStr ''t''), (''error'', JNull), (''flow_id'', JStr uB), (''operation_id'', JStr uA),
      (''remote_task_id'', JStr ''task''), (''result'', JNull), (''result_id'', JStr uC), (''state'', JStr ''outcome_unknown''), (''updated_at'', JStr ''t'')]"
    by (simp add: demo_unknown_def demo_done_def)
  have fl: "c_flow_id (stored_snapshot demo_cenv 105 demo_unknown cdemo_row) = uB" "\<not> c_expired (stored_snapshot demo_cenv 105 demo_unknown cdemo_row)"
    "c_snapshot (stored_snapshot demo_cenv 105 demo_unknown cdemo_row) = Some (jsort demo_unknown)"
    by (simp_all add: stored_snapshot_def cdemo_row_def new_c_row_def)
  have j: "judge (Some (jsort demo_unknown)) demo_done = Store"
    unfolding u by (simp add: judge_def exact_resolution_def demo_done_final) (simp add: demo_done_def)
  have t: "accept_snapshot demo_cenv 110 demo_done (Some 7) cdemo_u = Inr ((add_receipt uA uC ''stored''
      (set_row uA (stored_snapshot demo_cenv 110 demo_done) cdemo_u))\<lparr>c_cursor := max (c_cursor cdemo_u) 7\<rparr>)"
    using r fl j by (simp add: accept_snapshot_def check_done store_snapshot_def) (simp add: demo_done_def)
  show ?thesis
    using terminal_replaced_only_exactly [OF t r fl(3)] r unfolding u
    by (simp add: snap_in_def TERMINAL_TEXT_def stored_snapshot_def)
      (simp add: demo_done_def py_eq_def)
qed

section \<open>Submission and isolation\<close>

lemma client_call_unique:
  assumes "client_inv u" "map_of (cops_t u) op' = Some r'" "map_of (cops_t u) op = Some r"
    and "c_thread_id r' = c_thread_id r" "c_turn_id r' = c_turn_id r" "c_call_id r' = c_call_id r"
  shows "op' = op"
  using assms unfolding client_inv_def by blast

text \<open>The row of a native call is found again whatever ran after its submission.\<close>

lemma created_call_rows:
  assumes "create env now new_op flow origin prompt aids wait s = Inr (op, t)" "client_inv s" "run (client_step env) t ls u"
  obtains r rest where "call_rows origin u = (op, r) # rest" "map_of (cops_t u) op = Some r" "c_digest r = command_digest env prompt aids"
    "c_thread_id r = thread_id origin"
proof -
  have t: "client_inv t" by (rule client_inv_create [OF assms(2,1)])
  then have u: "client_inv u" by (rule client_run.run_good [OF assms(3)])
  have ok: "keys_ok (cops_t u)" "keys_ok (cops_t s)" using u assms(2) by (simp_all add: client_inv_def)
  have "\<exists>r. map_of (cops_t t) op = Some r \<and> c_digest r = command_digest env prompt aids \<and> c_thread_id r = thread_id origin \<and>
      c_turn_id r = turn_id origin \<and> c_call_id r = call_id origin"
    using assms(1)
  proof (cases rule: create_cases)
    case (again r rest)
    then have "(op, r) \<in> set (call_rows origin s)" by simp
    then show ?thesis using again ok(2) by (auto simp: call_rows_def select_where_lookup)
  next
    case (fresh fl)
    then show ?thesis by (auto simp: map_of_snoc new_c_row_def simp del: map_of_append)
  qed
  then obtain r where r: "map_of (cops_t u) op = Some r" "c_digest r = command_digest env prompt aids" "c_thread_id r = thread_id origin"
      "c_turn_id r = turn_id origin" "c_call_id r = call_id origin"
    using run_client_row [OF assms(3), of op] by (auto simp: crow_le_def)
  have mem: "(op', r') \<in> set (call_rows origin u) \<longleftrightarrow> op' = op \<and> r' = r" for op' r'
  proof
    assume "(op', r') \<in> set (call_rows origin u)"
    then have r': "map_of (cops_t u) op' = Some r'" "c_thread_id r' = thread_id origin" "c_turn_id r' = turn_id origin" "c_call_id r' = call_id origin"
      unfolding call_rows_def select_where_lookup [OF ok(1)] by auto
    then have "op' = op" using client_call_unique [OF u r'(1) r(1)] r by simp
    then show "op' = op \<and> r' = r" using r r' by simp
  next
    assume "op' = op \<and> r' = r"
    then show "(op', r') \<in> set (call_rows origin u)" using r unfolding call_rows_def select_where_lookup [OF ok(1)] by simp
  qed
  obtain x rest where c: "call_rows origin u = x # rest" using mem [of op r] by (cases "call_rows origin u") auto
  then have "x = (op, r)" using mem [of "fst x" "snd x"] by (cases x) auto
  then show thesis using that c r by blast
qed

text \<open>Submission is idempotent per native call: after \<open>create\<close>, and whatever ran in between, the
  same call with the same command yields the same operation and changes nothing, and with a different
  command it is refused.\<close>

theorem create_idempotent:
  assumes "create env now new_op flow origin prompt aids wait s = Inr (op, t)" "client_inv s" "run (client_step env) t ls u"
    and "\<not> py_blank prompt'" "length prompt' \<le> 262144" "length aids' \<le> 32" "map_r (\<lambda>a. native_uuid (JStr a) ''artifact_id'') aids' = Inr xs"
  shows "create env now' new_op' flow' origin prompt' aids' wait' u =
    (if command_digest env prompt' aids' = command_digest env prompt aids then Inr (op, u)
     else Inl (ValueError ''native tool call identity was reused with a different command''))"
proof -
  obtain r rest where "call_rows origin u = (op, r) # rest" "c_digest r = command_digest env prompt aids"
    using created_call_rows [OF assms(1-3)] by metis
  then show ?thesis using assms(4-7) by (auto simp: create_def Let_def)
qed

theorem create_idempotent_witness: "create demo_cenv 999 ''other'' ''flow'' demo_origin ''hello'' [] 3 cdemo4 = Inr (uA, cdemo4)"
  using create_idempotent [OF cdemo1_step new_inv cdemo_tail, of "''hello''" "[]" "[]" 999 "''other''" "''flow''" 3]
  by (simp add: is_space_def)

text \<open>A native thread reads, waits for and cancels only its own operations: for any other thread
  the ledger answers as if the operation did not exist.\<close>

theorem thread_isolation:
  assumes "map_of (cops_t s) op = Some r" "c_thread_id r \<noteq> thread_id origin"
  shows "view op origin consume s = Inl (KeyError ''operation is not bound to this native thread'') \<and>
    row_of op (Some origin) s = Inl (KeyError ''operation is not bound to this native thread'')"
  using assms by (simp add: view_def row_of_def)

theorem thread_isolation_witness:
  "view uA \<lparr>thread_id = ''x'', turn_id = ''tu'', call_id = ''call''\<rparr> True cdemo2 =
     Inl (KeyError ''operation is not bound to this native thread'')"
  using thread_isolation [OF cdemo_rows(1), of "\<lparr>thread_id = ''x'', turn_id = ''tu'', call_id = ''call''\<rparr>" True]
  by (simp add: stored_snapshot_def cdemo_row_def new_c_row_def demo_origin_def)

end
