(* ===== verification/Client_Service.thy ===== *)
theory Client_Service
  imports Client_Properties Py_Text
begin

text \<open>
  The client daemon, \<open>client.py\<close>: \<open>ClientService\<close> with its worker loop, its event loop and the commands
  of the native tools, over the client ledger. A coroutine is a function on \<open>client_world\<close>. Ledger calls
  are synchronous; every \<open>await\<close> on the broker or the native queue draws its outcome from a
  \<open>client_schedule\<close>, together with what the other coroutines did to the ledger meanwhile. The
  \<open>asyncio\<close> events \<open>wake\<close> and \<open>changed\<close> only decide when a loop turns, not what it does.
\<close>

section \<open>The world of a coroutine\<close>

text \<open>The broker's answer to one request: a status with its body, \<open>None\<close> when it is not JSON, or a
  transport error.\<close>

datatype broker_reply = Reply int "json option" | Down

record client_schedule =
  c_pause :: "nat \<Rightarrow> client_store \<Rightarrow> client_store"
  c_reply :: "nat \<Rightarrow> broker_reply"
  c_now :: "nat \<Rightarrow> rat"
  c_fresh :: "nat \<Rightarrow> string"
  c_enqueue :: "nat \<Rightarrow> exn + string"
  c_reconcile :: "nat \<Rightarrow> exn + string option"

record client_world =
  cw_store :: client_store
  cw_tick :: nat
  cw_reconciled :: "string list"
  cw_error :: "string option"
  cw_sent :: "(string \<times> json) list"
  cw_queued :: "string list"

type_synonym 'a cprog = "('a, client_world) coroutine"

text \<open>A ledger call, with the time and identifier it draws.\<close>

definition ledger :: "client_schedule \<Rightarrow> (rat \<Rightarrow> string \<Rightarrow> client_store \<Rightarrow> exn + 'a \<times> client_store) \<Rightarrow> 'a cprog" where
  "ledger sc f w =
     (case f (c_now sc (cw_tick w)) (c_fresh sc (cw_tick w)) (cw_store w) of
        Inl e \<Rightarrow> (Inl e, w\<lparr>cw_tick := Suc (cw_tick w)\<rparr>)
      | Inr (x, s) \<Rightarrow> (Inr x, w\<lparr>cw_store := s, cw_tick := Suc (cw_tick w)\<rparr>))"

definition reading :: "client_schedule \<Rightarrow> (client_store \<Rightarrow> 'a) \<Rightarrow> 'a cprog" where
  "reading sc f = ledger sc (\<lambda>_ _ s. Inr (f s, s))"

definition writing :: "client_schedule \<Rightarrow> (client_store \<Rightarrow> client_store) \<Rightarrow> unit cprog" where
  "writing sc f = ledger sc (\<lambda>_ _ s. Inr ((), f s))"

definition await :: "client_schedule \<Rightarrow> (nat \<Rightarrow> exn + 'a) \<Rightarrow> 'a cprog" where
  "await sc outcome w =
     (outcome (cw_tick w), w\<lparr>cw_store := c_pause sc (cw_tick w) (cw_store w), cw_tick := Suc (cw_tick w)\<rparr>)"

text \<open>A request to the broker. The world keeps what was sent where.\<close>

definition broker_request :: "client_schedule \<Rightarrow> string \<Rightarrow> json \<Rightarrow> (int \<times> json option) cprog" where
  "broker_request sc path sent w =
     await sc (\<lambda>i. case c_reply sc i of Down \<Rightarrow> Inl HTTPError | Reply st b \<Rightarrow> Inr (st, b)) (w\<lparr>cw_sent := cw_sent w @ [(path, sent)]\<rparr>)"

definition successful :: "int \<Rightarrow> bool" where
  "successful st \<longleftrightarrow> 200 \<le> st \<and> st < 300"

text \<open>\<open>response.raise_for_status()\<close> and then \<open>response.json()\<close>.\<close>

definition checked_json :: "int \<times> json option \<Rightarrow> json cprog" where
  "checked_json = (\<lambda>(st, b). if \<not> successful st then raise_p HTTPError
     else case b of None \<Rightarrow> raise_p (ValueError ''json'') | Some v \<Rightarrow> return_p v)"

section \<open>The worker\<close>

definition unit_of :: "exn + client_store \<Rightarrow> exn + unit \<times> client_store" where
  "unit_of r = (case r of Inl e \<Rightarrow> Inl e | Inr s \<Rightarrow> Inr ((), s))"

definition ingest :: "client_env \<Rightarrow> client_schedule \<Rightarrow> json \<Rightarrow> int option \<Rightarrow> string option \<Rightarrow> unit cprog" where
  "ingest env sc snap seq expected =
     (if \<not> is_obj snap \<or> (case expected of Some op \<Rightarrow> jget snap ''operation_id'' \<noteq> JStr op | None \<Rightarrow> False)
      then raise_p (ValueError ''broker returned a different operation identity'')
      else ledger sc (\<lambda>now _ s. unit_of (accept_snapshot env now snap seq s)))"

definition refresh :: "client_env \<Rightarrow> client_schedule \<Rightarrow> string \<Rightarrow> bool cprog" where
  "refresh env sc op =
     bind_p (broker_request sc (''GET /v1/operations/'' @ op) JNull) (\<lambda>rs.
       if fst rs = 404 then return_p False
       else bind_p (checked_json rs) (\<lambda>v. bind_p (ingest env sc v None (Some op)) (\<lambda>_. return_p True)))"

definition recover_all :: "client_env \<Rightarrow> client_schedule \<Rightarrow> unit cprog" where
  "recover_all env sc = bind_p (reading sc (ids False)) (each_p (\<lambda>op. bind_p (refresh env sc op) (\<lambda>_. return_p ())))"

definition submit_payload :: "client_env \<Rightarrow> client_schedule \<Rightarrow> string \<Rightarrow> json \<Rightarrow> unit cprog" where
  "submit_payload env sc op p =
     bind_p (broker_request sc ''POST /v1/operations'' p) (\<lambda>rs.
       if fst rs \<in> {400, 403, 409, 413, 422} then writing sc (mark_submission op SRejected)
       else bind_p (checked_json rs) (\<lambda>v. ingest env sc v None (Some op)))"

definition dispatch_one :: "client_env \<Rightarrow> client_schedule \<Rightarrow> string \<Rightarrow> unit cprog" where
  "dispatch_one env sc op =
     bind_p (refresh env sc op) (\<lambda>known.
       if known then return_p ()
       else bind_p (catch_p (ledger sc (\<lambda>now _ s. bind_r (payload env now op s) (\<lambda>p. Inr (Some p, s)))) (\<lambda>e.
           if e = InvalidToken then bind_p (writing sc (mark_submission op SKeyUnavailable)) (\<lambda>_. return_p None) else raise_p e))
         (\<lambda>got. case got of
             None \<Rightarrow> return_p ()
           | Some None \<Rightarrow> writing sc (mark_submission op SOutcomeUnknown)
           | Some (Some p) \<Rightarrow> submit_payload env sc op p))"

definition dispatch_pending :: "client_env \<Rightarrow> client_schedule \<Rightarrow> unit cprog" where
  "dispatch_pending env sc = bind_p (reading sc (ids True)) (each_p (dispatch_one env sc))"

definition receipt_json :: "string \<times> string \<times> string \<Rightarrow> json" where
  "receipt_json = (\<lambda>(op, rid, st). JObj [(''operation_id'', JStr op), (''result_id'', JStr rid), (''status'', JStr st)])"

definition flush_receipts :: "client_schedule \<Rightarrow> unit cprog" where
  "flush_receipts sc = bind_p (reading sc receipts) (each_p (\<lambda>k.
     bind_p (broker_request sc ''POST /v1/receipts'' (receipt_json k)) (\<lambda>rs.
       if \<not> successful (fst rs) then raise_p HTTPError else writing sc (receipt_sent k))))"

text \<open>Delivery of one operation. An outcome unknown from before is looked up once; otherwise the delivery is
  claimed first and the claim is closed by the outcome of the native call.\<close>

definition note_reconciled :: "string \<Rightarrow> unit cprog" where
  "note_reconciled op w = (Inr (), w\<lparr>cw_reconciled := op # cw_reconciled w\<rparr>)"

definition close_claim :: "client_schedule \<Rightarrow> string \<Rightarrow> delivery \<Rightarrow> string option \<Rightarrow> unit cprog" where
  "close_claim sc op st queue = ledger sc (\<lambda>_ _ s. unit_of (finish_delivery op st queue s))"

text \<open>\<open>snapshot["result_id"]\<close>.\<close>

definition result_of :: "json \<Rightarrow> exn + json" where
  "result_of snap = (if jhas snap ''result_id'' then Inr (jget snap ''result_id'') else Inl (KeyError ''result_id''))"

definition reconcile_unknown :: "client_schedule \<Rightarrow> bool \<Rightarrow> string \<Rightarrow> c_row \<Rightarrow> unit cprog" where
  "reconcile_unknown sc supported op r =
     bind_p (note_reconciled op) (\<lambda>_.
       case c_snapshot r of
         None \<Rightarrow> return_p ()
       | Some snap \<Rightarrow>
           if \<not> supported then return_p ()
           else (case bind_r (result_of snap) (result_reference op) of
              Inl e \<Rightarrow> raise_p e
            | Inr text \<Rightarrow>
                (\<lambda>w. case await sc (c_reconcile sc) w of
                   (Inl NativeUnsupported, w1) \<Rightarrow> (Inr (), w1)
                 | (Inl NativeOutcomeUnknown, w1) \<Rightarrow> (Inr (), w1)
                 | (Inl e, w1) \<Rightarrow> (Inl e, w1)
                 | (Inr None, w1) \<Rightarrow> (Inr (), w1)
                 | (Inr (Some q), w1) \<Rightarrow> if q = [] then (Inr (), w1) else close_claim sc op Queued (Some q) w1)))"

text \<open>The world keeps for which operations the native queue was called.\<close>

definition enqueue_claimed :: "client_schedule \<Rightarrow> string \<Rightarrow> string \<Rightarrow> unit cprog" where
  "enqueue_claimed sc op text w =
     (case await sc (c_enqueue sc) (w\<lparr>cw_queued := cw_queued w @ [op]\<rparr>) of
        (Inl NativeUnsupported, w1) \<Rightarrow> close_claim sc op Unsupported None w1
      | (Inl NativeOutcomeUnknown, w1) \<Rightarrow> bind_p (close_claim sc op DeliveryUnknown None) (\<lambda>_. note_reconciled op) w1
      | (Inl e, w1) \<Rightarrow> (Inl e, w1)
      | (Inr q, w1) \<Rightarrow> close_claim sc op Queued (Some q) w1)"

definition deliver_claimed :: "client_schedule \<Rightarrow> bool \<Rightarrow> string \<Rightarrow> unit cprog" where
  "deliver_claimed sc supported op =
     bind_p (ledger sc (\<lambda>now did s. claim_delivery now did op s)) (\<lambda>claimed.
       case claimed of
         None \<Rightarrow> return_p ()
       | Some (_, snap) \<Rightarrow>
           if \<not> supported then close_claim sc op Unsupported None
           else (case bind_r (result_of snap) (result_reference op) of
              Inl e \<Rightarrow> raise_p e
            | Inr text \<Rightarrow> enqueue_claimed sc op text))"

definition deliver_one :: "client_schedule \<Rightarrow> bool \<Rightarrow> string \<Rightarrow> unit cprog" where
  "deliver_one sc supported op =
     bind_p (ledger sc (\<lambda>_ _ s. bind_r (row_of op None s) (\<lambda>r. Inr (r, s)))) (\<lambda>r w.
       if c_delivery r = DeliveryUnknown \<and> op \<notin> set (cw_reconciled w) then reconcile_unknown sc supported op r w
       else deliver_claimed sc supported op w)"

definition deliver_ready :: "client_schedule \<Rightarrow> bool \<Rightarrow> unit cprog" where
  "deliver_ready sc supported = bind_p (reading sc (ids False)) (each_p (deliver_one sc supported))"

text \<open>One turn of \<open>_work\<close>. Only transport errors and \<open>ValueError\<close>s of the broker part are handled.\<close>

definition set_error :: "string option \<Rightarrow> unit cprog" where
  "set_error e w = (Inr (), w\<lparr>cw_error := e\<rparr>)"

definition is_value_error :: "exn \<Rightarrow> bool" where
  "is_value_error e = (case e of ValueError _ \<Rightarrow> True | ClientValidationError _ _ _ \<Rightarrow> True | _ \<Rightarrow> False)"

definition broker_part :: "client_env \<Rightarrow> client_schedule \<Rightarrow> nat \<Rightarrow> unit cprog" where
  "broker_part env sc cycle =
     bind_p (if cycle mod 5 = 0 then recover_all env sc else return_p ()) (\<lambda>_.
     bind_p (dispatch_pending env sc) (\<lambda>_. bind_p (flush_receipts sc) (\<lambda>_. set_error None)))"

definition work_turn :: "client_env \<Rightarrow> client_schedule \<Rightarrow> bool \<Rightarrow> nat \<Rightarrow> unit cprog" where
  "work_turn env sc supported cycle =
     bind_p (catch_p (broker_part env sc cycle) (\<lambda>e. if e = HTTPError \<or> is_value_error e
         then set_error (Some ''broker_unavailable_or_invalid_response'') else raise_p e)) (\<lambda>_.
     bind_p (deliver_ready sc supported) (\<lambda>_.
       if cycle mod 60 = 0 then ledger sc (\<lambda>now _ s. Inr ((), prune now s)) else return_p ()))"

text \<open>The loop of \<open>_work\<close>, cut off after some turns; an exception that is not handled ends it.\<close>

fun work_turns :: "client_env \<Rightarrow> client_schedule \<Rightarrow> bool \<Rightarrow> nat \<Rightarrow> nat \<Rightarrow> unit cprog" where
  "work_turns env sc supported cycle 0 = return_p ()"
| "work_turns env sc supported cycle (Suc n) =
     bind_p (work_turn env sc supported cycle) (\<lambda>_. work_turns env sc supported (Suc cycle) n)"

text \<open>A restart of the daemon: the ledger is opened again, what was only in memory is gone.\<close>

definition restarted :: "client_world \<Rightarrow> client_world" where
  "restarted w = w\<lparr>cw_store := reopen (cw_store w), cw_reconciled := [], cw_error := None\<rparr>"

section \<open>The event stream\<close>

text \<open>The parser of the stream: the event being collected.\<close>

record sse_state =
  ev_id :: "int option"
  ev_type :: string
  ev_data :: "string list"
  ev_size :: int

definition sse_start :: sse_state where
  "sse_start = \<lparr>ev_id = None, ev_type = ''message'', ev_data = [], ev_size = 0\<rparr>"

definition finish_event :: "client_env \<Rightarrow> client_schedule \<Rightarrow> sse_state \<Rightarrow> unit cprog" where
  "finish_event env sc st =
     (if ev_data st = [] \<or> ev_type st \<noteq> ''operation'' then return_p ()
      else case ev_id st of
        None \<Rightarrow> raise_p (ValueError ''SSE operation requires a durable cursor'')
      | Some n \<Rightarrow> bind_p (reading sc c_cursor) (\<lambda>c.
          if n \<le> c then return_p ()
          else (case json_loads (join [CHR 0x0A] (ev_data st)) of
             None \<Rightarrow> raise_p (ValueError ''json'')
           | Some v \<Rightarrow> ingest env sc v (Some n) None)))"

definition event_line :: "client_env \<Rightarrow> client_schedule \<Rightarrow> sse_state \<Rightarrow> string \<Rightarrow> sse_state cprog" where
  "event_line env sc st0 line =
     (let st = st0\<lparr>ev_size := ev_size st0 + int (py_len line)\<rparr> in
      if ev_size st > 2 * 1024 * 1024 then raise_p (ValueError ''SSE event exceeds client bound'')
      else if line = [] then bind_p (finish_event env sc st) (\<lambda>_. return_p sse_start)
      else if starts_with ''id:'' line then
        (case py_int (py_strip (drop 3 line)) of None \<Rightarrow> raise_p (ValueError ''int'') | Some n \<Rightarrow> return_p (st\<lparr>ev_id := Some n\<rparr>))
      else if starts_with ''event:'' line then return_p (st\<lparr>ev_type := py_strip (drop 6 line)\<rparr>)
      else if starts_with ''data:'' line then return_p (st\<lparr>ev_data := ev_data st @ [dropWhile (\<lambda>c. c = CHR '' '') (drop 5 line)]\<rparr>)
      else return_p st)"

fun feed_lines :: "client_env \<Rightarrow> client_schedule \<Rightarrow> sse_state \<Rightarrow> string list \<Rightarrow> sse_state cprog" where
  "feed_lines env sc st [] = return_p st"
| "feed_lines env sc st (l # ls) =
     bind_p (await sc (\<lambda>_. Inr ())) (\<lambda>_. bind_p (event_line env sc st l) (\<lambda>st1. feed_lines env sc st1 ls))"

text \<open>One turn of \<open>_events\<close>, by how the broker answered. \<open>get\<close> on something that is no object raises
  \<open>AttributeError\<close>, which the loop does not handle.\<close>

datatype events_reply = EvDown | EvStatus int | EvGone "json option" | EvLines "string list" bool

definition resume_after :: "json \<Rightarrow> exn + json" where
  "resume_after v = bind_r (get_default v ''error'' (JObj [])) (\<lambda>e. bind_r (get_default e ''details'' (JObj [])) (\<lambda>d.
     get_default d ''resume_after'' JNull))"

definition events_session :: "client_env \<Rightarrow> client_schedule \<Rightarrow> events_reply \<Rightarrow> unit cprog" where
  "events_session env sc rs =
     (case rs of
        EvDown \<Rightarrow> raise_p HTTPError
      | EvStatus st \<Rightarrow> raise_p HTTPError
      | EvGone None \<Rightarrow> raise_p (ValueError ''json'')
      | EvGone (Some v) \<Rightarrow>
          (case resume_after v of
             Inl e \<Rightarrow> raise_p e
           | Inr n \<Rightarrow> bind_p (recover_all env sc) (\<lambda>_.
               case n of JInt i \<Rightarrow> if 0 \<le> i then ledger sc (\<lambda>_ _ s. unit_of (advance i s)) else return_p () | _ \<Rightarrow> return_p ()))
      | EvLines ls broken \<Rightarrow> bind_p (feed_lines env sc sse_start ls) (\<lambda>_. if broken then raise_p HTTPError else return_p ()))"

definition events_turn :: "client_env \<Rightarrow> client_schedule \<Rightarrow> events_reply \<Rightarrow> unit cprog" where
  "events_turn env sc rs = catch_p (events_session env sc rs) (\<lambda>e. if e = HTTPError \<or> is_value_error e
     then set_error (Some ''events_disconnected_get_recovery_available'') else raise_p e)"

section \<open>Commands\<close>

text \<open>A number of seconds as decoded from JSON; \<open>float_of\<close> is the value of a float literal, \<open>None\<close> for one that
  is not finite.\<close>

definition wait_seconds :: "(string \<Rightarrow> rat option) \<Rightarrow> string \<Rightarrow> json \<Rightarrow> exn + rat" where
  "wait_seconds float_of fld v =
     (let bad = ClientValidationError ''invalid_wait'' (fld @ '' must be a finite number from 0 to 60 seconds.'') fld;
          ok = (\<lambda>x. if 0 \<le> x \<and> x \<le> 60 then Inr x else Inl bad) in
      case v of
        JInt n \<Rightarrow> ok (of_int n)
      | JFloat t \<Rightarrow> (case float_of t of Some x \<Rightarrow> ok x | None \<Rightarrow> Inl bad)
      | _ \<Rightarrow> Inl bad)"

text \<open>\<open>prompt.encode()\<close> raises on a text with lone surrogates, which JSON escapes can write.\<close>

definition check_prompt :: "json \<Rightarrow> exn + string" where
  "check_prompt v =
     (case v of
        JStr p \<Rightarrow>
          if py_blank p then Inl (ClientValidationError ''invalid_prompt'' ''prompt must contain 1..262144 UTF-8 bytes.'' ''prompt'')
          else if \<not> utf8_valid p then Inl (ValueError ''surrogates not allowed'')
          else if length p > 262144 then Inl (ClientValidationError ''invalid_prompt'' ''prompt must contain 1..262144 UTF-8 bytes.'' ''prompt'')
          else Inr p
      | _ \<Rightarrow> Inl (ClientValidationError ''invalid_prompt'' ''prompt must contain 1..262144 UTF-8 bytes.'' ''prompt''))"

fun jstr_text :: "json \<Rightarrow> string" where
  "jstr_text (JStr s) = s"
| "jstr_text _ = []"

definition check_artifact_ids :: "json \<Rightarrow> exn + string list" where
  "check_artifact_ids v =
     (case v of
        JList xs \<Rightarrow> if length xs > 16
          then Inl (ClientValidationError ''invalid_artifact_ids'' ''artifact_ids must be a list of at most 16 UUIDs.'' ''artifact_ids'')
          else (case map_r (\<lambda>x. native_uuid x ''artifact_id'') xs of
             Inl _ \<Rightarrow> Inl (ClientValidationError ''invalid_artifact_ids'' ''Each artifact_id must be a UUID.'' ''artifact_ids'')
           | Inr _ \<Rightarrow> Inr (map jstr_text xs))
      | _ \<Rightarrow> Inl (ClientValidationError ''invalid_artifact_ids'' ''artifact_ids must be a list of at most 16 UUIDs.'' ''artifact_ids''))"

text \<open>\<open>wait\<close> without its own checks: look, then sleep until something changed, at most until the deadline. The
  loop clock is \<open>c_now\<close>; \<open>None\<close> stands for a loop that has not returned within its fuel.\<close>

definition view_p :: "client_schedule \<Rightarrow> string \<Rightarrow> native_origin \<Rightarrow> bool \<Rightarrow> json cprog" where
  "view_p sc op origin consume = ledger sc (\<lambda>_ _ s. view op origin consume s)"

definition answered :: "json \<Rightarrow> bool" where
  "answered v \<longleftrightarrow> truthy (jget v ''result_id'') \<or> jget v ''submission_state'' \<in> JStr ` {''rejected'', ''payload_key_unavailable''}"

fun wait_loop :: "client_schedule \<Rightarrow> native_origin \<Rightarrow> string \<Rightarrow> rat \<Rightarrow> nat \<Rightarrow> client_world \<Rightarrow> ((exn + json) \<times> client_world) option" where
  "wait_loop sc origin op deadline 0 w = None"
| "wait_loop sc origin op deadline (Suc n) w =
     (case view_p sc op origin False w of
        (Inl e, w1) \<Rightarrow> Some (Inl e, w1)
      | (Inr v, w1) \<Rightarrow>
          if answered v \<or> deadline - c_now sc (cw_tick w1) \<le> 0 then Some (view_p sc op origin True w1)
          else wait_loop sc origin op deadline n (snd (await sc (\<lambda>_. Inr ()) w1)))"

definition row_p :: "client_schedule \<Rightarrow> string \<Rightarrow> native_origin \<Rightarrow> c_row cprog" where
  "row_p sc op origin = ledger sc (\<lambda>_ _ s. bind_r (row_of op (Some origin) s) (\<lambda>r. Inr (r, s)))"

definition wait_cmd :: "client_schedule \<Rightarrow> (string \<Rightarrow> rat option) \<Rightarrow> native_origin \<Rightarrow> json \<Rightarrow> json \<Rightarrow> nat \<Rightarrow> client_world
    \<Rightarrow> ((exn + json) \<times> client_world) option" where
  "wait_cmd sc float_of origin op secs fuel w =
     (case bind_r (wait_seconds float_of ''timeout'' secs) (\<lambda>x. bind_r (native_uuid op ''operation_id'') (\<lambda>_. Inr x)) of
        Inl e \<Rightarrow> Some (Inl e, w)
      | Inr x \<Rightarrow> (case row_p sc (jstr_text op) origin w of
          (Inl e, w1) \<Rightarrow> Some (Inl e, w1)
        | (Inr _, w1) \<Rightarrow> wait_loop sc origin (jstr_text op) (c_now sc (cw_tick w1) + x) fuel w1))"

text \<open>\<open>submit\<close>: whatever the wait does, the caller is released in the end.\<close>

definition submit_cmd :: "client_env \<Rightarrow> client_schedule \<Rightarrow> (string \<Rightarrow> rat option) \<Rightarrow> json \<Rightarrow> native_origin \<Rightarrow> json \<Rightarrow> json \<Rightarrow> json \<Rightarrow> nat
    \<Rightarrow> client_world \<Rightarrow> ((exn + json) \<times> client_world) option" where
  "submit_cmd env sc float_of inline_wait origin prompt aids wait fuel w =
     (let secs = (if wait = JNull then inline_wait else wait) in
      case bind_r (wait_seconds float_of ''wait_seconds'' secs) (\<lambda>x. bind_r (check_prompt prompt) (\<lambda>p.
             bind_r (check_artifact_ids aids) (\<lambda>as. Inr (x, p, as)))) of
        Inl e \<Rightarrow> Some (Inl e, w)
      | Inr (x, p, as) \<Rightarrow>
          (case ledger sc (\<lambda>now new s. create env now new (c_fresh sc (Suc (cw_tick w))) origin p as x s) w of
             (Inl e, w1) \<Rightarrow> Some (Inl e, w1)
           | (Inr op, w1) \<Rightarrow>
               (case wait_cmd sc float_of origin (JStr op) secs fuel w1 of
                  None \<Rightarrow> None
                | Some (r, w2) \<Rightarrow> Some (r, snd (writing sc (release_inline op) w2)))))"

definition get_cmd :: "client_env \<Rightarrow> client_schedule \<Rightarrow> native_origin \<Rightarrow> json \<Rightarrow> json cprog" where
  "get_cmd env sc origin op =
     (case native_uuid op ''operation_id'' of
        Inl e \<Rightarrow> raise_p e
      | Inr _ \<Rightarrow> bind_p (row_p sc (jstr_text op) origin) (\<lambda>_.
          bind_p (catch_p (bind_p (refresh env sc (jstr_text op)) (\<lambda>_. return_p ()))
              (\<lambda>e. if e = HTTPError \<or> is_value_error e then return_p () else raise_p e)) (\<lambda>_.
            view_p sc (jstr_text op) origin True)))"

definition cancel_cmd :: "client_env \<Rightarrow> client_schedule \<Rightarrow> native_origin \<Rightarrow> json \<Rightarrow> json cprog" where
  "cancel_cmd env sc origin v =
     (case native_uuid v ''operation_id'' of
        Inl e \<Rightarrow> raise_p e
      | Inr _ \<Rightarrow>
          let op = jstr_text v in
          bind_p (row_p sc op origin) (\<lambda>r.
          bind_p (if c_cancel_state r \<noteq> None then return_p ()
              else bind_p (writing sc (cancel_state op CancelSending)) (\<lambda>_.
                bind_p (catch_p
                    (bind_p (broker_request sc (''POST /v1/operations/'' @ op @ ''/cancel'') JNull) (\<lambda>rs.
                     bind_p (checked_json rs) (\<lambda>j. bind_p (ingest env sc j None (Some op)) (\<lambda>_. return_p CancelRequested))))
                    (\<lambda>e. if e = HTTPError \<or> is_value_error e then return_p CancelUnknown else raise_p e))
                  (\<lambda>st. writing sc (cancel_state op st)))) (\<lambda>_.
          bind_p (view_p sc op origin False) (\<lambda>j.
            return_p (jput ''cancellation_note'' (JStr ''Best effort; computation may continue.'') j)))))"

definition upload_unknown :: json where
  "upload_unknown = JObj [(''error'', JObj [(''code'', JStr ''upload_outcome_unknown''), (''message'', JStr ''Upload ACK unavailable; not replayed.'')])]"

text \<open>The broker's acknowledgment of an upload must name the digest and size of the bytes.\<close>

definition check_upload :: "string \<Rightarrow> nat \<Rightarrow> json \<Rightarrow> exn + json" where
  "check_upload dig n v =
     (if \<not> is_obj v then Inl AttributeError
      else bind_r (native_uuid (jget v ''artifact_id'') ''artifact_id'') (\<lambda>_.
        if jget v ''sha256'' \<noteq> JStr dig \<or> jget v ''size'' \<noteq> JInt (int n) then Inl (ValueError ''artifact response identity disagrees'') else Inr v))"

definition upload_cmd :: "client_env \<Rightarrow> client_schedule \<Rightarrow> nat \<Rightarrow> bytes \<Rightarrow> string \<Rightarrow> json cprog" where
  "upload_cmd env sc max_upload data ct =
     (if data = [] \<or> length data > max_upload then raise_p (ValueError ''artifact size is outside configured client bounds'')
      else if ct = [] \<or> py_len ct > 128 \<or> CHR 0x0D \<in> set ct \<or> CHR 0x0A \<in> set ct then raise_p (ValueError ''invalid artifact content type'')
      else catch_p
        (bind_p (broker_request sc ''POST /v1/artifacts'' (JStr data)) (\<lambda>rs. bind_p (checked_json rs) (\<lambda>v.
           case check_upload (cs_sha256 env data) (length data) v of Inl e \<Rightarrow> raise_p e | Inr j \<Rightarrow> return_p j)))
        (\<lambda>e. if e = HTTPError \<or> is_value_error e then return_p upload_unknown else raise_p e))"

text \<open>The answer of the command endpoint to the outcome of an action.\<close>

definition error_code_json :: "string \<Rightarrow> json" where
  "error_code_json c = JObj [(''error'', JObj [(''code'', JStr c)])]"

fun command_answer :: "exn + json \<Rightarrow> int \<times> json" where
  "command_answer (Inr v) = (200, v)"
| "command_answer (Inl (ClientValidationError c m f)) =
     (400, JObj [(''error'', JObj [(''code'', JStr c), (''message'', JStr m), (''field'', JStr f)])])"
| "command_answer (Inl (KeyError k)) = (404, error_code_json ''not_found_or_missing_argument'')"
| "command_answer (Inl (ValueError m)) = (400, error_code_json ''invalid_client_request'')"
| "command_answer (Inl TypeError) = (400, error_code_json ''invalid_client_request'')"
| "command_answer (Inl AttributeError) = (400, error_code_json ''invalid_client_request'')"
| "command_answer (Inl e) = (500, error_code_json ''client_internal'')"

end
