(* ===== verification/Service_Steps.thy ===== *)
theory Service_Steps
  imports Client_Service
begin

text \<open>
  The daemon refines the client ledger. A coroutine is \<open>hosted\<close> when all it does to the ledger is a run of
  the labelled step relation of \<open>Client_Ledger\<close>. The locale \<open>client_host\<close> states what a coroutine relies
  on at an \<open>await\<close>: what the others do meanwhile is a run of steps that requests and events make. In it
  the worker and the event loop are shown to be hosted; that discharges the discipline of
  \<open>finish_delivery\<close>, which may only close a claimed delivery.
\<close>

declare split_paired_All [simp del] split_paired_Ex [simp del]

section \<open>Claimed deliveries\<close>

fun from_request :: "client_label \<Rightarrow> bool" where
  "from_request (CCreate g op) = True"
| "from_request (CAdvance n) = True"
| "from_request (CSnapshot snap seq) = True"
| "from_request (CView op) = True"
| "from_request (CRelease op) = True"
| "from_request (CCancel op st) = True"
| "from_request _ = False"

definition claimed :: "client_store \<Rightarrow> string \<Rightarrow> bool" where
  "claimed s op \<longleftrightarrow> (\<exists>r. map_of (cops_t s) op = Some r \<and> c_delivery r \<in> {Enqueueing, DeliveryUnknown})"

lemma claimed_delivering: "claimed s op \<Longrightarrow> delivering s op"
  by (auto simp: claimed_def delivering_def)

lemma claimed_set_row: "claimed s op \<Longrightarrow> (\<And>r. c_delivery r \<in> {Enqueueing, DeliveryUnknown} \<Longrightarrow> c_delivery (f r) = c_delivery r) \<Longrightarrow>
    cops_t t = cops_t (set_row op' f s) \<Longrightarrow> claimed t op"
  by (auto simp: claimed_def)

lemma claimed_same: "claimed s op \<Longrightarrow> cops_t t = cops_t s \<Longrightarrow> claimed t op"
  by (simp add: claimed_def)

lemma claimed_snapshot:
  assumes "claimed s op" "store_snapshot env now op' fl snap s = Inr t"
  shows "claimed t op"
  using assms(2)
proof (cases rule: store_snapshot_cases)
  case (conflict r)
  then show ?thesis using assms(1) by (intro claimed_set_row [of s op "\<lambda>q. q\<lparr>c_conflict := True\<rparr>" t op']) auto
next
  case (stored r)
  then show ?thesis using assms(1) by (intro claimed_set_row [of s op "stored_snapshot env now snap" t op']) (auto simp: stored_snapshot_def)
qed (use assms in auto)

lemma claimed_view:
  assumes "claimed s op" "view op' origin consume s = Inr (v, t)"
  shows "claimed t op"
proof -
  have "cops_t t = cops_t s \<or> (\<exists>r. map_of (cops_t s) op' = Some r \<and> c_delivery r \<in> {InlinePending, Ready, Unsupported} \<and>
      cops_t t = cops_t (set_row op' (\<lambda>q. q\<lparr>c_delivery := InlineReturned\<rparr>) s))"
    using assms(2) by (auto simp: view_def Let_def row_of_Inr split: if_splits json.splits)
  then show ?thesis using assms(1) by (auto simp: claimed_def)
qed

lemma request_keeps_claimed:
  assumes "client_step env s l t" "from_request l" "claimed s op"
  shows "claimed t op"
  using assms(1)
proof (cases rule: client_step.cases)
  case (cs_create now new_op flow origin prompt aids wait op')
  from cs_create(2) show ?thesis
  proof (cases rule: create_cases)
    case (fresh fl)
    then show ?thesis using assms(3) by (auto simp: claimed_def map_of_snoc simp del: map_of_append split: option.splits)
  qed (use assms(3) in simp)
next
  case (cs_advance n)
  then show ?thesis using assms(3) by (auto simp: advance_def claimed_def split: if_splits)
next
  case (cs_snapshot now snap seq)
  obtain op' fl s1 where s1: "store_snapshot env now op' fl snap s = Inr s1" and t: "cops_t t = cops_t s1"
    using cs_snapshot(2) by (rule accept_snapshot_cases) simp
  show ?thesis using claimed_snapshot [OF assms(3) s1] t by (rule claimed_same)
next
  case (cs_view op' origin consume v)
  then show ?thesis using claimed_view [OF assms(3)] by blast
next
  case (cs_release op')
  show ?thesis by (rule claimed_set_row [OF assms(3) _ arg_cong [OF cs_release(2) [unfolded release_inline_def], of cops_t]]) auto
next
  case (cs_cancel op' st)
  then show ?thesis using assms(3) by (auto simp: cancel_state_def claimed_def)
qed (use assms(2) in auto)

lemma requests_keep_claimed:
  "run (client_step env) s ls t \<Longrightarrow> (\<forall>l \<in> set ls. from_request l) \<Longrightarrow> claimed s op \<Longrightarrow> claimed t op"
  by (induction rule: run.induct) (auto dest: request_keeps_claimed)

section \<open>Hosted coroutines\<close>

text \<open>Started in a good ledger that satisfies \<open>P\<close>, all the coroutine does is a run.\<close>

definition once :: "client_world \<Rightarrow> bool" where
  "once w \<longleftrightarrow> distinct (cw_queued w) \<and> (\<forall>op \<in> set (cw_queued w). delivery_spent (cw_store w) op)"

definition leads :: "client_env \<Rightarrow> client_world \<Rightarrow> client_world \<Rightarrow> bool" where
  "leads env w w1 \<longleftrightarrow> (\<exists>ls. run (client_step env) (cw_store w) ls (cw_store w1)) \<and> once w1"

definition hosted_if :: "client_env \<Rightarrow> (client_world \<Rightarrow> bool) \<Rightarrow> 'a cprog \<Rightarrow> bool" where
  "hosted_if env P p \<longleftrightarrow> (\<forall>w. client_inv (cw_store w) \<longrightarrow> once w \<longrightarrow> P w \<longrightarrow> leads env w (snd (p w)))"

abbreviation hosted :: "client_env \<Rightarrow> 'a cprog \<Rightarrow> bool" where
  "hosted env p \<equiv> hosted_if env (\<lambda>_. True) p"

lemma leads_run:
  assumes "run (client_step env) (cw_store w) ls (cw_store w1)" "cw_queued w1 = cw_queued w" "client_inv (cw_store w)" "once w"
  shows "leads env w w1"
  using assms client_delivery.run_spent_stays [OF assms(1,3)] by (auto simp: leads_def once_def)

lemma leads_trans:
  assumes "leads env w w1" "leads env w1 w2"
  shows "leads env w w2"
  using assms run_append by (fastforce simp: leads_def)

lemma leads_good: "leads env w w1 \<Longrightarrow> client_inv (cw_store w) \<Longrightarrow> client_inv (cw_store w1) \<and> once w1"
  using client_run.run_good by (auto simp: leads_def)

lemma hostedD: "hosted_if env P p \<Longrightarrow> client_inv (cw_store w) \<Longrightarrow> once w \<Longrightarrow> P w \<Longrightarrow> leads env w (snd (p w))"
  unfolding hosted_if_def by blast

lemma hosted_ifD: "hosted_if env P p \<Longrightarrow> p w = (r, w1) \<Longrightarrow> client_inv (cw_store w) \<Longrightarrow> once w \<Longrightarrow> P w \<Longrightarrow> leads env w w1"
  unfolding hosted_if_def by (metis snd_conv)

lemma hosted_weaken: "hosted env p \<Longrightarrow> hosted_if env P p"
  by (simp add: hosted_if_def)

lemma hosted_same:
  assumes "\<And>w. cw_store (snd (p w)) = cw_store w" "\<And>w. cw_queued (snd (p w)) = cw_queued w"
  shows "hosted_if env P p"
  unfolding hosted_if_def using assms by (auto intro!: leads_run [where ls = "[]"] run_Nil)

lemma hosted_return [simp]: "hosted_if env P (return_p x)" "hosted_if env P (raise_p e)"
  by (rule hosted_same; simp)+

lemma hosted_pair: "hosted_if env P (Pair r)"
  by (rule hosted_same) simp_all

lemma hosted_choice: "hosted_if env P p \<Longrightarrow> hosted_if env P q \<Longrightarrow> hosted_if env P (\<lambda>w. if b w then p w else q w)"
  by (simp add: hosted_if_def)

text \<open>Composition: the second part starts in what the first leaves, of which \<open>Q\<close> may be known.\<close>

lemma hosted_split:
  assumes "hosted_if env P p"
    and "\<And>w r w1. p w = (r, w1) \<Longrightarrow> client_inv (cw_store w) \<Longrightarrow> P w \<Longrightarrow> \<exists>Q. Q w1 \<and> hosted_if env Q (q' r) \<and> q w = q' r w1"
  shows "hosted_if env P q"
  unfolding hosted_if_def
proof (intro allI impI)
  fix w assume w: "client_inv (cw_store w)" "once w" "P w"
  obtain r w1 where p: "p w = (r, w1)" by (cases "p w")
  have leads1: "leads env w w1" using assms(1) p w by (rule hosted_ifD)
  obtain Q where Q: "Q w1" "hosted_if env Q (q' r)" "q w = q' r w1" using assms(2) [OF p w(1,3)] by blast
  have "leads env w1 (snd (q' r w1))" using Q leads_good [OF leads1 w(1)] by (auto simp: hosted_if_def)
  then show "leads env w (snd (q w))" using leads_trans [OF leads1] Q(3) by simp
qed

lemma hosted_bind_knowing:
  assumes "hosted_if env P p" and "\<And>w x w1. p w = (Inr x, w1) \<Longrightarrow> client_inv (cw_store w) \<Longrightarrow> P w \<Longrightarrow> Q x w1"
    and "\<And>x. hosted_if env (Q x) (f x)"
  shows "hosted_if env P (bind_p p f)"
proof (rule hosted_split [where q' = "\<lambda>r. case r of Inl e \<Rightarrow> raise_p e | Inr x \<Rightarrow> f x", OF assms(1)])
  fix w r w1
  assume *: "p w = (r, w1)" "client_inv (cw_store w)" "P w"
  show "\<exists>Q. Q w1 \<and> hosted_if env Q (case r of Inl e \<Rightarrow> raise_p e | Inr x \<Rightarrow> f x) \<and>
      bind_p p f w = (case r of Inl e \<Rightarrow> raise_p e | Inr x \<Rightarrow> f x) w1"
  proof (cases r)
    case (Inl e)
    then show ?thesis using * by (intro exI [of _ "\<lambda>_. True"]) (simp add: bind_p_def)
  next
    case (Inr x)
    then show ?thesis using * assms(2,3) by (intro exI [of _ "Q x"]) (simp add: bind_p_def)
  qed
qed

lemma hosted_bind: "hosted_if env P p \<Longrightarrow> (\<And>x. hosted env (f x)) \<Longrightarrow> hosted_if env P (bind_p p f)"
  by (rule hosted_bind_knowing [where Q = "\<lambda>_ _. True"]) simp_all

lemma hosted_catch: "hosted_if env P p \<Longrightarrow> (\<And>e. hosted env (h e)) \<Longrightarrow> hosted_if env P (catch_p p h)"
  by (erule hosted_split [where q' = "\<lambda>r. case r of Inl e \<Rightarrow> h e | Inr x \<Rightarrow> return_p x"])
    (force simp: catch_p_def split: sum.splits)

lemma hosted_each: "(\<And>x. hosted env (body x)) \<Longrightarrow> hosted env (each_p body xs)"
  by (induction xs) (auto intro: hosted_bind)

lemma hosted_ledger:
  assumes "\<And>now new w x t. client_inv (cw_store w) \<Longrightarrow> P w \<Longrightarrow> f now new (cw_store w) = Inr (x, t) \<Longrightarrow> \<exists>l. client_step env (cw_store w) l t"
  shows "hosted_if env P (ledger sc f)"
  unfolding hosted_if_def
proof (intro allI impI)
  fix w assume w: "client_inv (cw_store w)" "once w" "P w"
  show "leads env w (snd (ledger sc f w))"
  proof (cases "f (c_now sc (cw_tick w)) (c_fresh sc (cw_tick w)) (cw_store w)")
    case (Inl e)
    then show ?thesis using w by (auto simp: ledger_def intro!: leads_run [where ls = "[]"] run_Nil)
  next
    case (Inr y)
    obtain x t where y: "y = (x, t)" by (cases y)
    then obtain l where "client_step env (cw_store w) l t" using assms [OF w(1,3)] Inr by blast
    then have "run (client_step env) (cw_store w) [l] t" by (rule run_single)
    then show ?thesis using w Inr y by (intro leads_run) (simp_all add: ledger_def)
  qed
qed

lemma hosted_set_error: "hosted_if env P (set_error e)"
  by (rule hosted_same) (simp_all add: set_error_def)

lemma hosted_note: "hosted_if env P (note_reconciled op)"
  by (rule hosted_same) (simp_all add: note_reconciled_def)

lemma snapshot_step: "accept_snapshot env now snap seq s = Inr t \<Longrightarrow> \<exists>l. client_step env s l t"
  by (rule exI, rule cs_snapshot)

lemma hosted_reading: "hosted_if env P (reading sc f)"
  by (rule hosted_same) (simp_all add: reading_def ledger_def)

lemma hosted_ledger_read: "(\<And>now new s x t. f now new s = Inr (x, t) \<Longrightarrow> t = s) \<Longrightarrow> hosted_if env P (ledger sc f)"
  by (rule hosted_same) (auto simp: ledger_def split: sum.splits prod.splits)

lemma hosted_mark: "hosted env (writing sc (mark_submission op st))" "hosted env (writing sc (receipt_sent k))"
  "hosted env (writing sc (cancel_state op cs))" "hosted env (writing sc (release_inline op))"
  unfolding writing_def by (rule hosted_ledger; auto intro: cs_mark cs_sent cs_cancel cs_release)+

lemma hosted_close: "st \<in> {Queued, Unsupported, DeliveryUnknown} \<Longrightarrow> hosted_if env (\<lambda>w. claimed (cw_store w) op) (close_claim sc op st queue)"
  unfolding close_claim_def
proof (rule hosted_ledger)
  fix now :: rat and new :: string and w x t
  assume st: "st \<in> {Queued, Unsupported, DeliveryUnknown}" and cl: "claimed (cw_store w) op"
    and "unit_of (finish_delivery op st queue (cw_store w)) = Inr (x, t)"
  then have "finish_delivery op st queue (cw_store w) = Inr t" by (simp add: unit_of_def split: sum.splits)
  then have "client_step env (cw_store w) (CFinish op st) t" using st claimed_delivering [OF cl] by (rule cs_finish)
  then show "\<exists>l. client_step env (cw_store w) l t" ..
qed

lemma hosted_noting:
  assumes "hosted_if env P q" "\<And>w. p w = q (g w)" "\<And>w. cw_store (g w) = cw_store w" "\<And>w. once w \<Longrightarrow> R w \<Longrightarrow> once (g w) \<and> P (g w)"
  shows "hosted_if env R p"
  unfolding hosted_if_def
proof (intro allI impI)
  fix w assume "client_inv (cw_store w)" "once w" "R w"
  then have "leads env (g w) (snd (q (g w)))" using assms(1,3,4) by (simp add: hosted_if_def)
  then show "leads env w (snd (p w))" using assms(2,3) by (simp add: leads_def)
qed

text \<open>A native call is made for an operation that was just claimed, and not called for before.\<close>

definition fresh_claim :: "string \<Rightarrow> client_world \<Rightarrow> bool" where
  "fresh_claim op w \<longleftrightarrow> claimed (cw_store w) op \<and> op \<notin> set (cw_queued w)"

lemma claim_delivery_claimed: "claim_delivery now did op s = Inr (Some x, t) \<Longrightarrow> claimed t op"
  by (auto simp: claim_delivery_def claimed_def row_of_Inr split: if_splits option.splits)

lemma claim_was_ready: "claim_delivery now did op s = Inr (Some x, t) \<Longrightarrow> \<not> delivery_spent s op"
  by (auto simp: claim_delivery_def delivery_spent_def row_of_Inr split: if_splits option.splits)

lemma claim_fresh:
  assumes "once w" "ledger sc (\<lambda>now did s. claim_delivery now did op s) w = (Inr (Some x), w1)"
  shows "fresh_claim op w1"
  using assms claim_was_ready claim_delivery_claimed
  by (fastforce simp: fresh_claim_def once_def ledger_def split: sum.splits prod.splits)

section \<open>What a coroutine relies on\<close>

text \<open>The event loop and the commands are guests: while they wait anything may happen to the ledger that its
  step relation allows, the worker's deliveries included.\<close>

locale client_guest =
  fixes env :: client_env and sc :: client_schedule
  assumes pause_run: "client_inv s \<Longrightarrow> \<exists>ls. run (client_step env) s ls (c_pause sc i s)"
begin

lemma hosted_await: "hosted_if env P (await sc out)"
  using pause_run by (fastforce simp: hosted_if_def await_def intro: leads_run)

lemma hosted_request: "hosted_if env P (broker_request sc path sent)"
proof -
  have "snd (broker_request sc path sent w) = (snd (await sc (\<lambda>_. Inr ()) w))\<lparr>cw_sent := cw_sent w @ [(path, sent)]\<rparr>" for w
    by (simp add: broker_request_def await_def)
  then show ?thesis using hosted_await [of P "\<lambda>_. Inr ()"] by (simp add: hosted_if_def leads_def once_def)
qed

lemma hosted_checked: "hosted_if env P (checked_json rs)"
  by (rule hosted_same) (simp_all add: checked_json_def split: prod.splits option.splits)

lemma hosted_ingest: "hosted_if env P (ingest env sc snap seq expected)"
  unfolding ingest_def
  by (auto intro!: hosted_ledger simp: unit_of_def split: sum.splits intro: snapshot_step)

lemma hosted_refresh: "hosted env (refresh env sc op)"
  unfolding refresh_def by (auto intro!: hosted_bind hosted_request hosted_checked hosted_ingest)

lemma hosted_recover: "hosted env (recover_all env sc)"
  unfolding recover_all_def by (auto intro!: hosted_bind hosted_reading hosted_each hosted_refresh)

lemma hosted_submit_payload: "hosted env (submit_payload env sc op p)"
  unfolding submit_payload_def by (auto intro!: hosted_bind hosted_request hosted_mark hosted_checked hosted_ingest)

lemma hosted_dispatch_one: "hosted env (dispatch_one env sc op)"
  unfolding dispatch_one_def
  by (auto intro!: hosted_bind hosted_refresh hosted_catch hosted_mark hosted_submit_payload hosted_ledger_read split: option.splits)

lemma hosted_dispatch: "hosted env (dispatch_pending env sc)"
  unfolding dispatch_pending_def by (intro hosted_bind hosted_reading hosted_each hosted_dispatch_one)

lemma hosted_flush: "hosted env (flush_receipts sc)"
  unfolding flush_receipts_def by (auto intro!: hosted_bind hosted_reading hosted_each hosted_request hosted_mark)

lemma hosted_broker_part: "hosted env (broker_part env sc cycle)"
  unfolding broker_part_def
  by (auto intro!: hosted_bind hosted_recover hosted_dispatch hosted_flush hosted_set_error)

lemma hosted_finish_event: "hosted env (finish_event env sc st)"
  unfolding finish_event_def by (auto intro!: hosted_bind hosted_reading hosted_ingest split: option.splits)

lemma hosted_event_line: "hosted env (event_line env sc st line)"
  unfolding event_line_def Let_def by (auto intro!: hosted_bind hosted_finish_event split: option.splits)

lemma hosted_feed: "hosted env (feed_lines env sc st ls)"
  by (induction ls arbitrary: st) (auto intro!: hosted_bind hosted_await hosted_event_line)

lemma hosted_advance: "hosted env (ledger sc (\<lambda>_ _ s. unit_of (advance i s)))"
  by (rule hosted_ledger) (auto simp: unit_of_def split: sum.splits intro: cs_advance)

lemma hosted_session: "hosted env (events_session env sc rs)"
  unfolding events_session_def
  by (auto intro!: hosted_bind hosted_recover hosted_advance hosted_feed split: events_reply.split option.split sum.split json.split)

lemma hosted_events: "hosted env (events_turn env sc rs)"
  unfolding events_turn_def by (auto intro!: hosted_catch hosted_session hosted_set_error)

lemma hosted_view: "hosted env (view_p sc op origin consume)"
  unfolding view_p_def by (rule hosted_ledger) (auto intro: cs_view)

lemma hosted_row: "hosted env (row_p sc op origin)"
  unfolding row_p_def by (rule hosted_ledger_read) auto

lemma hosted_get: "hosted env (get_cmd env sc origin op)"
  unfolding get_cmd_def
  by (auto intro!: hosted_bind hosted_row hosted_catch hosted_refresh hosted_view split: sum.splits)

lemma hosted_cancel: "hosted env (cancel_cmd env sc origin op)"
  unfolding cancel_cmd_def Let_def
  by (auto intro!: hosted_bind hosted_row hosted_mark hosted_catch hosted_request hosted_checked hosted_ingest hosted_view split: sum.splits)

lemma wait_loop_leads: "wait_loop sc origin op deadline n w = Some (r, w1) \<Longrightarrow> client_inv (cw_store w) \<Longrightarrow> once w \<Longrightarrow> leads env w w1"
proof (induction n arbitrary: w)
  case (Suc n)
  obtain v w2 where v: "view_p sc op origin False w = (v, w2)" by (cases "view_p sc op origin False w")
  have w2: "leads env w w2" using hosted_view v Suc.prems(2,3) by (rule hosted_ifD) simp
  show ?case
  proof (cases "wait_loop sc origin op deadline (Suc n) w = Some (v, w2)")
    case True
    then show ?thesis using w2 Suc.prems by simp
  next
    case False
    then obtain x where x: "v = Inr x" using v by (cases v) simp_all
    show ?thesis
    proof (cases "answered x \<or> deadline - c_now sc (cw_tick w2) \<le> 0")
      case True
      then have "view_p sc op origin True w2 = (r, w1)" using Suc.prems v x by auto
      then have "leads env w2 w1" using leads_good [OF w2] Suc.prems by (intro hosted_ifD [OF hosted_view]) auto
      then show ?thesis using leads_trans w2 by blast
    next
      case False
      have w3: "leads env w2 (snd (await sc (\<lambda>_. Inr ()) w2))"
        by (rule hostedD [OF hosted_await [of "\<lambda>_. True"]]) (use leads_good [OF w2] Suc.prems in simp_all)
      have "leads env (snd (await sc (\<lambda>_. Inr ()) w2)) w1"
        using Suc.IH Suc.prems v x False leads_good [OF w3] leads_good [OF w2] by auto
      then show ?thesis using leads_trans w2 w3 by blast
    qed
  qed
qed simp

lemma wait_leads:
  assumes "wait_cmd sc float_of origin op secs fuel w = Some (r, w1)" "client_inv (cw_store w)" "once w"
  shows "leads env w w1"
proof -
  have row: "leads env w (snd (row_p sc (jstr_text op) origin w))"
    using hosted_row [of "jstr_text op" origin] assms by (simp add: hosted_if_def)
  moreover have "leads env w w" using hosted_return(1) assms by (fastforce simp: hosted_if_def)
  ultimately show ?thesis
    using assms(1) leads_good [OF row] assms wait_loop_leads leads_trans [OF row]
    by (auto simp: wait_cmd_def split: sum.splits prod.splits)
qed

end

text \<open>The worker alone delivers: while it waits, the others make requests' and events' steps only. Then a
  delivery it has claimed stays claimed.\<close>

locale client_host =
  fixes env :: client_env and sc :: client_schedule
  assumes requests_only: "client_inv s \<Longrightarrow>
    \<exists>ls. run (client_step env) s ls (c_pause sc i s) \<and> (\<forall>l \<in> set ls. from_request l)"

sublocale client_host \<subseteq> client_guest
  by unfold_locales (use requests_only in blast)

context client_host
begin

lemma await_claimed: "client_inv (cw_store w) \<Longrightarrow> claimed (cw_store w) op \<Longrightarrow> await sc out w = (r, w1) \<Longrightarrow> claimed (cw_store w1) op"
  using requests_only [of "cw_store w" "cw_tick w"] by (auto simp: await_def dest: requests_keep_claimed)

lemma hosted_await_claimed:
  assumes "\<And>r. hosted_if env (\<lambda>w. claimed (cw_store w) op) (q' r)" and "\<And>w. q w = (case await sc out w of (r, w1) \<Rightarrow> q' r w1)"
  shows "hosted_if env (\<lambda>w. claimed (cw_store w) op) q"
proof (rule hosted_split [where q' = q', OF hosted_await])
  fix w r w1
  assume "await sc out w = (r, w1)" "client_inv (cw_store w)" "claimed (cw_store w) op"
  then show "\<exists>Q. Q w1 \<and> hosted_if env Q (q' r) \<and> q w = q' r w1"
    using assms await_claimed by (intro exI [of _ "\<lambda>w. claimed (cw_store w) op"]) simp
qed

lemma hosted_enqueue: "hosted_if env (fresh_claim op) (enqueue_claimed sc op text)"
proof -
  let ?q = "\<lambda>w. case await sc (c_enqueue sc) w of (r, w1) \<Rightarrow> (case r of
      Inl NativeUnsupported \<Rightarrow> close_claim sc op Unsupported None
    | Inl NativeOutcomeUnknown \<Rightarrow> bind_p (close_claim sc op DeliveryUnknown None) (\<lambda>_. note_reconciled op)
    | Inl e \<Rightarrow> Pair (Inl e)
    | Inr q \<Rightarrow> close_claim sc op Queued (Some q)) w1"
  let ?w = "\<lambda>w. w\<lparr>cw_queued := cw_queued w @ [op]\<rparr>"
  have q: "hosted_if env (\<lambda>w. claimed (cw_store w) op) ?q"
    by (rule hosted_await_claimed [where out = "c_enqueue sc"])
      (auto intro!: hosted_bind hosted_close hosted_note hosted_pair split: sum.split exn.split)
  have step: "enqueue_claimed sc op text w = ?q (?w w)" for w
    by (auto simp: enqueue_claimed_def split: sum.split exn.split prod.split)
  show ?thesis
    by (rule hosted_noting [where g = ?w, OF q step])
      (auto simp: once_def fresh_claim_def claimed_def delivery_spent_def)
qed

lemma hosted_lookup: "hosted_if env (\<lambda>w. claimed (cw_store w) op) (\<lambda>w. case await sc (c_reconcile sc) w of
      (Inl NativeUnsupported, w1) \<Rightarrow> (Inr (), w1)
    | (Inl NativeOutcomeUnknown, w1) \<Rightarrow> (Inr (), w1)
    | (Inl e, w1) \<Rightarrow> (Inl e, w1)
    | (Inr None, w1) \<Rightarrow> (Inr (), w1)
    | (Inr (Some q), w1) \<Rightarrow> if q = [] then (Inr (), w1) else close_claim sc op Queued (Some q) w1)"
  by (rule hosted_await_claimed [where out = "c_reconcile sc" and q' = "\<lambda>r. case r of
      Inl NativeUnsupported \<Rightarrow> Pair (Inr ())
    | Inl NativeOutcomeUnknown \<Rightarrow> Pair (Inr ())
    | Inl e \<Rightarrow> Pair (Inl e)
    | Inr None \<Rightarrow> Pair (Inr ())
    | Inr (Some q) \<Rightarrow> if q = [] then Pair (Inr ()) else close_claim sc op Queued (Some q)"])
    (auto intro!: hosted_close hosted_pair split: sum.split exn.split prod.split option.split)

lemma hosted_reconcile: "hosted_if env (\<lambda>w. claimed (cw_store w) op) (reconcile_unknown sc supported op r)"
  unfolding reconcile_unknown_def
  by (rule hosted_bind_knowing [where Q = "\<lambda>_ w. claimed (cw_store w) op", OF hosted_note])
    (auto simp: note_reconciled_def intro!: hosted_lookup split: option.split sum.split)

lemma hosted_claim: "hosted_if env P (ledger sc (\<lambda>now did s. claim_delivery now did op s))"
  by (rule hosted_ledger) (auto intro: cs_claim)

lemma hosted_deliver_claimed: "hosted_if env once (deliver_claimed sc supported op)"
  unfolding deliver_claimed_def
proof (rule hosted_bind_knowing [where Q = "\<lambda>x w. x \<noteq> None \<longrightarrow> fresh_claim op w", OF hosted_claim])
  have "hosted_if env (fresh_claim op) (close_claim sc op Unsupported None)"
    using hosted_close [of Unsupported env op sc None] by (simp add: hosted_if_def fresh_claim_def)
  then show "hosted_if env (\<lambda>w. x \<noteq> None \<longrightarrow> fresh_claim op w) (case x of
      None \<Rightarrow> return_p ()
    | Some (_, snap) \<Rightarrow>
        if \<not> supported then close_claim sc op Unsupported None
        else (case bind_r (result_of snap) (result_reference op) of
           Inl e \<Rightarrow> raise_p e
         | Inr text \<Rightarrow> enqueue_claimed sc op text))" for x
    by (auto simp: hosted_enqueue split: option.split sum.split)
qed (auto intro: claim_fresh)

lemma hosted_deliver_one: "hosted env (deliver_one sc supported op)"
  unfolding deliver_one_def
proof (rule hosted_bind_knowing [where Q = "\<lambda>r w. map_of (cops_t (cw_store w)) op = Some r"])
  show "hosted env (ledger sc (\<lambda>_ _ s. bind_r (row_of op None s) (\<lambda>r. Inr (r, s))))"
    by (rule hosted_ledger_read) auto
next
  fix w x w1
  assume "ledger sc (\<lambda>_ _ s. bind_r (row_of op None s) (\<lambda>r. Inr (r, s))) w = (Inr x, w1)"
  then show "map_of (cops_t (cw_store w1)) op = Some x"
    by (auto simp: ledger_def row_of_Inr split: sum.splits prod.splits)
next
  fix r
  have "hosted_if env (\<lambda>w. map_of (cops_t (cw_store w)) op = Some r) (reconcile_unknown sc supported op r)" if "c_delivery r = DeliveryUnknown"
    using hosted_reconcile that by (simp add: hosted_if_def claimed_def)
  moreover have "hosted_if env P (deliver_claimed sc supported op)" for P
    using hosted_deliver_claimed by (simp add: hosted_if_def)
  ultimately show "hosted_if env (\<lambda>w. map_of (cops_t (cw_store w)) op = Some r) (\<lambda>w.
      if c_delivery r = DeliveryUnknown \<and> op \<notin> set (cw_reconciled w) then reconcile_unknown sc supported op r w
      else deliver_claimed sc supported op w)"
    by (cases "c_delivery r = DeliveryUnknown") (simp_all add: hosted_choice)
qed

lemma hosted_deliver: "hosted env (deliver_ready sc supported)"
  unfolding deliver_ready_def by (intro hosted_bind hosted_reading hosted_each hosted_deliver_one)

lemma hosted_prune: "hosted env (ledger sc (\<lambda>now _ s. Inr ((), prune now s)))"
  by (rule hosted_ledger) (auto intro: cs_prune)

lemma hosted_work: "hosted env (work_turn env sc supported cycle)"
  unfolding work_turn_def
  by (auto intro!: hosted_bind hosted_catch hosted_broker_part hosted_deliver hosted_prune hosted_set_error)

lemma hosted_turns: "hosted env (work_turns env sc supported cycle n)"
  by (induction n arbitrary: cycle) (auto intro: hosted_bind hosted_work)

end

section \<open>The daemon's own schedules\<close>

text \<open>What the commands and the event loop do to the ledger between two turns of the scheduler.\<close>

datatype client_action =
    ACreate rat string string native_origin string "string list" rat
  | AAdvance int
  | ASnapshot rat json "int option"
  | AView string native_origin bool
  | ARelease string
  | ACancel string cancellation

definition orelse :: "client_store \<Rightarrow> exn + client_store \<Rightarrow> client_store" where
  "orelse s r = (case r of Inl _ \<Rightarrow> s | Inr t \<Rightarrow> t)"

fun act :: "client_env \<Rightarrow> client_action \<Rightarrow> client_store \<Rightarrow> client_store" where
  "act env (ACreate now new fl origin p aids wait) s = orelse s (map_sum id snd (create env now new fl origin p aids wait s))"
| "act env (AAdvance n) s = orelse s (advance n s)"
| "act env (ASnapshot now snap seq) s = orelse s (accept_snapshot env now snap seq s)"
| "act env (AView op origin consume) s = orelse s (map_sum id snd (view op origin consume s))"
| "act env (ARelease op) s = release_inline op s"
| "act env (ACancel op st) s = cancel_state op st s"

lemma act_step: "act env a s = s \<or> (\<exists>l. client_step env s l (act env a s) \<and> from_request l)"
proof (cases a)
  case (ACreate now new fl origin p aids wait)
  then show ?thesis
    using cs_create [of env now new fl origin p aids wait s] by (cases "create env now new fl origin p aids wait s") (force simp: orelse_def)+
next
  case (AView op origin consume)
  then show ?thesis using cs_view [of op origin consume s _ _ env] by (cases "view op origin consume s") (force simp: orelse_def)+
qed (force simp: orelse_def split: sum.split intro: client_step.intros)+

lemma acts_run: "client_inv s \<Longrightarrow> \<exists>ls. run (client_step env) s ls (fold (act env) as s) \<and> (\<forall>l \<in> set ls. from_request l)"
proof (induction as arbitrary: s)
  case Nil
  show ?case by (intro exI [of _ "[]"]) (simp add: run_Nil)
next
  case (Cons a as)
  show ?case
  proof (cases "act env a s = s")
    case True
    then show ?thesis using Cons by simp
  next
    case False
    then obtain l where l: "client_step env s l (act env a s)" "from_request l" using act_step by blast
    then obtain ls where "run (client_step env) (act env a s) ls (fold (act env) as (act env a s))" "\<forall>l \<in> set ls. from_request l"
      using Cons.IH client_inv_step [OF _ Cons.prems] Cons.prems by blast
    then show ?thesis using l by (intro exI [of _ "l # ls"]) (auto intro: run_Cons)
  qed
qed

definition worker_schedule :: "client_env \<Rightarrow> (nat \<Rightarrow> client_action list) \<Rightarrow> client_schedule \<Rightarrow> client_schedule" where
  "worker_schedule env acts sc = sc\<lparr>c_pause := \<lambda>i. fold (act env) (acts i)\<rparr>"

interpretation worker: client_host env "worker_schedule env acts sc" for env acts sc
  by unfold_locales (simp add: worker_schedule_def acts_run)

text \<open>The event loop and the commands wait while the worker takes turns.\<close>

definition world_of :: "client_store \<Rightarrow> nat \<Rightarrow> client_world" where
  "world_of s i = \<lparr>cw_store = s, cw_tick = i, cw_reconciled = [], cw_error = None, cw_sent = [], cw_queued = []\<rparr>"

definition guest_schedule :: "client_env \<Rightarrow> (nat \<Rightarrow> client_action list) \<Rightarrow> (nat \<Rightarrow> nat) \<Rightarrow> bool \<Rightarrow> client_schedule \<Rightarrow> client_schedule" where
  "guest_schedule env acts turns supported sc = sc\<lparr>c_pause := \<lambda>i s.
     cw_store (snd (work_turns env (worker_schedule env acts sc) supported i (turns i) (world_of s i)))\<rparr>"

interpretation guest: client_guest env "guest_schedule env acts turns supported sc" for env acts turns supported sc
proof
  fix s i assume "client_inv s"
  then have "leads env (world_of s i) (snd (work_turns env (worker_schedule env acts sc) supported i (turns i) (world_of s i)))"
    by (intro hostedD [OF worker.hosted_turns]) (simp_all add: world_of_def once_def)
  then show "\<exists>ls. run (client_step env) s ls (c_pause (guest_schedule env acts turns supported sc) i s)"
    by (simp add: guest_schedule_def leads_def world_of_def)
qed

end
