(* ===== verification/Service_Properties.thy ===== *)
theory Service_Properties
  imports Service_Steps
begin

text \<open>
  The properties of the client daemon: its worker over any number of restarts, its event loop and its
  commands, with a concrete session in which a result is queued.
\<close>

declare split_paired_All [simp del] split_paired_Ex [simp del]

section \<open>The worker over restarts\<close>

record session =
  s_actions :: "nat \<Rightarrow> client_action list"
  s_schedule :: client_schedule
  s_supported :: bool
  s_turns :: nat

fun daemon :: "client_env \<Rightarrow> session list \<Rightarrow> client_world \<Rightarrow> client_world" where
  "daemon env [] w = w"
| "daemon env (x # xs) w = daemon env xs (snd (work_turns env (worker_schedule env (s_actions x) (s_schedule x)) (s_supported x) 0
     (s_turns x) (restarted w)))"

lemma restarted_leads: "client_inv (cw_store w) \<Longrightarrow> once w \<Longrightarrow> leads env w (restarted w)"
  by (rule leads_run [where ls = "[CRestart]"], simp add: restarted_def, rule run_single, rule cs_restart) (simp_all add: restarted_def)

lemma daemon_leads: "client_inv (cw_store w) \<Longrightarrow> once w \<Longrightarrow> leads env w (daemon env xs w)"
proof (induction xs arbitrary: w)
  case Nil
  then show ?case by (auto intro!: leads_run [where ls = "[]"] run_Nil)
next
  case (Cons x xs)
  let ?w = "snd (work_turns env (worker_schedule env (s_actions x) (s_schedule x)) (s_supported x) 0 (s_turns x) (restarted w))"
  have 1: "leads env w (restarted w)" using Cons.prems by (rule restarted_leads)
  have 2: "leads env (restarted w) ?w"
    by (rule hostedD [OF worker.hosted_turns]) (use leads_good [OF 1 Cons.prems(1)] in simp_all)
  have "leads env ?w (daemon env xs ?w)"
    by (rule Cons.IH) (use leads_good [OF 2] leads_good [OF 1 Cons.prems(1)] in simp_all)
  then show ?case using leads_trans 1 2 by (metis daemon.simps(2))
qed

text \<open>C15: The daemon hands each result to the native queue at most once in its whole life, whatever the broker
  and the queue answer, whatever commands and events come in between, and however often it is restarted;
  and all its worker does to the ledger is a run of the ledger's step relation.\<close>

theorem queued_at_most_once:
  assumes "client_inv (cw_store w)" "cw_queued w = []"
  shows "distinct (cw_queued (daemon env xs w)) \<and> (\<exists>ls. run (client_step env) (cw_store w) ls (cw_store (daemon env xs w)))"
  using daemon_leads [of w env xs] assms by (auto simp: leads_def once_def)

definition demo_csched :: client_schedule where
  "demo_csched = \<lparr>c_pause = (\<lambda>_ s. s), c_reply = (\<lambda>_. Down), c_now = (\<lambda>i. 200 + of_nat i), c_fresh = (\<lambda>_. ''did''),
     c_enqueue = (\<lambda>_. Inr ''queue''), c_reconcile = (\<lambda>_. Inr None)\<rparr>"

definition demo_session :: session where
  "demo_session = \<lparr>s_actions = (\<lambda>_. [ARelease uA]), s_schedule = demo_csched, s_supported = True, s_turns = 1\<rparr>"

theorem queued_at_most_once_witness:
  "distinct (cw_queued (daemon demo_cenv [demo_session, demo_session] (world_of cdemo3 0))) \<and>
   cw_queued (daemon demo_cenv [demo_session, demo_session] (world_of cdemo3 0)) = [uA]"
proof -
  have "cw_queued (daemon demo_cenv [demo_session, demo_session] (world_of cdemo3 0)) = [uA]" by code_simp
  then show ?thesis
    using queued_at_most_once [of "world_of cdemo3 0" demo_cenv "[demo_session, demo_session]"] cdemo_invs by (simp add: world_of_def)
qed

section \<open>Waiting\<close>

text \<open>A view that is handed out says the same about the result and the submission whether it is consumed
  or not.\<close>

lemma view_row:
  assumes "view op origin consume s = Inr (v, t)"
  obtains r d where "map_of (cops_t s) op = Some r" "c_thread_id r = thread_id origin" "v = view_json op (r\<lparr>c_delivery := d\<rparr>)"
proof -
  obtain r where r: "row_of op (Some origin) s = Inr r" using assms by (auto simp: view_def)
  have same: "r = r\<lparr>c_delivery := c_delivery r\<rparr>" by simp
  have "v = view_json op r \<or> v = view_json op (r\<lparr>c_delivery := InlineReturned\<rparr>)"
    using assms r by (auto simp: view_def Let_def split: if_splits json.splits)
  then obtain d where "v = view_json op (r\<lparr>c_delivery := d\<rparr>)" using same by metis
  then show thesis using that r by (auto simp: row_of_Inr)
qed

lemma is_obj_jput: "is_obj j \<Longrightarrow> is_obj (jput k v j)"
  by (cases j) simp_all

lemma answered_view:
  assumes "client_inv s" "map_of (cops_t s) op = Some r"
  shows "answered (view_json op (r\<lparr>c_delivery := d\<rparr>)) \<longleftrightarrow>
    truthy (jget (view_snapshot op r) ''result_id'') \<or> c_submission r \<in> {SRejected, SKeyUnavailable}"
proof -
  have "crow_ok r" using assms unfolding client_inv_def by blast
  then have "is_obj (view_snapshot op r)" by (auto simp: view_snapshot_def crow_ok_def dest: snap_in_obj split: option.splits)
  moreover have "view_snapshot op (r\<lparr>c_delivery := d\<rparr>) = view_snapshot op r" by (simp add: view_snapshot_def split: option.split)
  ultimately show ?thesis by (cases "c_submission r") (auto simp: answered_def view_json_def jget_jput is_obj_jput)
qed

lemma views_agree:
  assumes "client_inv s" "view op origin c s = Inr (v, t)" "view op origin c' s = Inr (v', t')"
  shows "answered v \<longleftrightarrow> answered v'"
proof -
  obtain r d where r: "map_of (cops_t s) op = Some r" "v = view_json op (r\<lparr>c_delivery := d\<rparr>)" using assms(2) by (rule view_row)
  obtain r' d' where "map_of (cops_t s) op = Some r'" "v' = view_json op (r'\<lparr>c_delivery := d'\<rparr>)" using assms(3) by (rule view_row)
  then show ?thesis using r answered_view [OF assms(1)] by auto
qed

lemma view_unread: "view op origin False s = Inr (v, t) \<Longrightarrow> t = s"
  by (auto simp: view_def Let_def)

lemma view_p_cases:
  assumes "view_p sc op origin consume w = (r, w1)"
  obtains (fails) e where "r = Inl e" "w1 = w\<lparr>cw_tick := Suc (cw_tick w)\<rparr>"
  | (gives) v t where "r = Inr v" "view op origin consume (cw_store w) = Inr (v, t)" "w1 = w\<lparr>cw_store := t, cw_tick := Suc (cw_tick w)\<rparr>"
  using assms by (auto simp: view_p_def ledger_def split: sum.splits prod.splits)

text \<open>The last look of the loop: what is handed out is answered if the look before it was.\<close>

lemma last_view:
  assumes "view_p sc op origin False w = (Inr v, w1)" "view_p sc op origin True w1 = (Inr v', w2)" "client_inv (cw_store w)"
  shows "answered v' = answered v" "cw_tick w1 < cw_tick w2"
proof -
  obtain t where t: "view op origin False (cw_store w) = Inr (v, t)" "cw_store w1 = t"
    using assms(1) by (rule view_p_cases) simp_all
  have same: "cw_store w1 = cw_store w" using t view_unread by blast
  obtain t' where t': "view op origin True (cw_store w1) = Inr (v', t')" "w2 = w1\<lparr>cw_store := t', cw_tick := Suc (cw_tick w1)\<rparr>"
    using assms(2) by (rule view_p_cases) simp_all
  show "answered v' = answered v" using assms(3) t'(1) [unfolded same] t(1) by (rule views_agree)
  show "cw_tick w1 < cw_tick w2" using t'(2) by simp
qed

context client_guest
begin

lemma wait_last_look:
  assumes "view_p sc op origin False w = (Inr v, w1)" "client_inv (cw_store w)" "answered v \<or> deadline - c_now sc (cw_tick w1) \<le> 0"
  shows "\<exists>r w2. wait_loop sc origin op deadline (Suc n) w = Some (r, w2) \<and> cw_tick w2 \<le> cw_tick w + 2 \<and>
    (\<forall>x. r = Inr x \<longrightarrow> answered x \<or> (\<exists>i < cw_tick w2. deadline \<le> c_now sc i))"
proof -
  obtain r w2 where r: "view_p sc op origin True w1 = (r, w2)" by (cases "view_p sc op origin True w1")
  have "answered x \<or> (\<exists>i < cw_tick w2. deadline \<le> c_now sc i)" if "r = Inr x" for x
    using last_view [OF assms(1) r [unfolded that] assms(2)] assms(3) by auto
  moreover have "cw_tick w2 = cw_tick w + 2"
    using assms(1) r by (auto simp: view_p_def ledger_def split: sum.splits prod.splits)
  ultimately show ?thesis using assms r by auto
qed

lemma wait_loop_returns:
  assumes "client_inv (cw_store w)" "once w" "\<And>i. N \<le> i \<Longrightarrow> deadline \<le> c_now sc i" "N \<le> cw_tick w + 2 * n"
  shows "\<exists>r w1. wait_loop sc origin op deadline (Suc n) w = Some (r, w1) \<and> cw_tick w1 \<le> max (cw_tick w) N + 2 \<and>
    (\<forall>v. r = Inr v \<longrightarrow> answered v \<or> (\<exists>i < cw_tick w1. deadline \<le> c_now sc i))"
  using assms(1,2,4)
proof (induction n arbitrary: w)
  case 0
  obtain r w1 where r: "view_p sc op origin False w = (r, w1)" by (cases "view_p sc op origin False w")
  then show ?case
  proof (cases rule: view_p_cases)
    case (gives v t)
    then have "deadline - c_now sc (cw_tick w1) \<le> 0" using 0 assms(3) [of "cw_tick w1"] by simp
    then obtain q w2 where "wait_loop sc origin op deadline (Suc 0) w = Some (q, w2)" "cw_tick w2 \<le> cw_tick w + 2"
      "\<forall>v. q = Inr v \<longrightarrow> answered v \<or> (\<exists>i < cw_tick w2. deadline \<le> c_now sc i)"
      using wait_last_look [where deadline = deadline and n = 0 and w = w and ?w1.0 = w1 and op = op and origin = origin and v = v] r gives 0 by auto
    then show ?thesis by (auto simp del: wait_loop.simps)
  qed (use r in auto)
next
  case (Suc n)
  obtain r w1 where r: "view_p sc op origin False w = (r, w1)" by (cases "view_p sc op origin False w")
  then show ?case
  proof (cases rule: view_p_cases)
    case (gives v t)
    have w1: "leads env w w1" using hosted_view r Suc.prems(1,2) by (rule hosted_ifD) simp
    show ?thesis
    proof (cases "answered v \<or> deadline - c_now sc (cw_tick w1) \<le> 0")
      case True
      then obtain q w2 where "wait_loop sc origin op deadline (Suc (Suc n)) w = Some (q, w2)" "cw_tick w2 \<le> cw_tick w + 2"
        "\<forall>v. q = Inr v \<longrightarrow> answered v \<or> (\<exists>i < cw_tick w2. deadline \<le> c_now sc i)"
        using wait_last_look [where deadline = deadline and n = "Suc n" and w = w and ?w1.0 = w1 and op = op and origin = origin and v = v] r gives Suc.prems(1) by auto
      then show ?thesis by (auto simp del: wait_loop.simps)
    next
      case False
      let ?w = "snd (await sc (\<lambda>_. Inr ()) w1)"
      have "leads env w1 ?w" by (rule hostedD [OF hosted_await [of "\<lambda>_. True"]]) (use leads_good [OF w1 Suc.prems(1)] in simp_all)
      then have "client_inv (cw_store ?w) \<and> once ?w" using leads_good [OF w1 Suc.prems(1)] leads_good by blast
      moreover have "N \<le> cw_tick ?w + 2 * n" using Suc.prems(3) gives by (simp add: await_def)
      ultimately obtain q w2 where "wait_loop sc origin op deadline (Suc n) ?w = Some (q, w2)" "cw_tick w2 \<le> max (cw_tick ?w) N + 2"
        "\<forall>v. q = Inr v \<longrightarrow> answered v \<or> (\<exists>i < cw_tick w2. deadline \<le> c_now sc i)" using Suc.IH [of ?w] by blast
      moreover have "cw_tick ?w \<le> N"
        using False gives assms(3) [of "cw_tick w1"] by (simp add: await_def not_le) (metis not_less_eq_eq leD)
      ultimately show ?thesis using r gives False by (auto simp del: wait_loop.simps simp: wait_loop.simps(2) [of sc origin op deadline "Suc n" w])
    qed
  qed (use r in auto)
qed

lemma wait_cmd_returns:
  assumes "client_inv (cw_store w)" "once w" "\<And>i j. i + k \<le> j \<Longrightarrow> c_now sc i + x \<le> c_now sc j"
    "wait_seconds float_of ''timeout'' secs = Inr x"
  shows "\<exists>r w1. wait_cmd sc float_of origin op secs (Suc k) w = Some (r, w1) \<and> cw_tick w1 \<le> cw_tick w + k + 3 \<and>
    (\<forall>v. r = Inr v \<longrightarrow> answered v \<or> (\<exists>i < cw_tick w1. c_now sc (Suc (cw_tick w)) + x \<le> c_now sc i))"
proof (cases "native_uuid op ''operation_id''")
  case (Inl e)
  then show ?thesis using assms(4) by (simp add: wait_cmd_def)
next
  case u: (Inr u)
  obtain r w1 where r: "row_p sc (jstr_text op) origin w = (r, w1)" by (cases "row_p sc (jstr_text op) origin w")
  have w1: "client_inv (cw_store w1) \<and> once w1"
    using leads_good [OF hosted_ifD [OF hosted_row r assms(1,2)] assms(1)] by simp
  have clock: "c_now sc (cw_tick w1) + x \<le> c_now sc i" if "cw_tick w1 + k \<le> i" for i using assms(3) [OF that] .
  have tick: "cw_tick w1 = Suc (cw_tick w)" using r by (auto simp: row_p_def ledger_def split: sum.splits prod.splits)
  show ?thesis
  proof (cases r)
    case (Inl e)
    then show ?thesis using r u assms(4) tick by (simp add: wait_cmd_def)
  next
    case (Inr y)
    let ?d = "c_now sc (Suc (cw_tick w)) + x"
    have "\<exists>r w2. wait_loop sc origin (jstr_text op) ?d (Suc k) w1 = Some (r, w2) \<and> cw_tick w2 \<le> max (cw_tick w1) (cw_tick w1 + k) + 2 \<and>
      (\<forall>v. r = Inr v \<longrightarrow> answered v \<or> (\<exists>i < cw_tick w2. ?d \<le> c_now sc i))"
      by (rule wait_loop_returns [where N = "cw_tick w1 + k"]) (use w1 clock tick in auto)
    moreover have "wait_cmd sc float_of origin op secs (Suc k) w = wait_loop sc origin (jstr_text op) ?d (Suc k) w1"
      using r Inr u assms(4) tick by (simp add: wait_cmd_def del: wait_loop.simps)
    ultimately show ?thesis using tick by (auto simp del: wait_loop.simps)
  qed
qed

end

text \<open>C18: Waiting ends in time: whatever the worker and the other commands do meanwhile, \<open>wait\<close> returns, and at the latest three
  scheduler events after those in which the requested time \<open>x\<close> passes. It returns before the requested time is over only with an
  answer: a result, or a submission that was rejected or whose payload cannot be read any more.\<close>

theorem wait_returns:
  assumes "client_inv (cw_store w)" "cw_queued w = []" "\<And>i j. i + k \<le> j \<Longrightarrow> c_now sc i + x \<le> c_now sc j"
    "wait_seconds float_of ''timeout'' secs = Inr x"
  shows "\<exists>r w1. wait_cmd (guest_schedule env acts turns supported sc) float_of origin op secs (Suc k) w = Some (r, w1) \<and> cw_tick w1 \<le> cw_tick w + k + 3 \<and>
    (\<forall>v. r = Inr v \<longrightarrow> answered v \<or> (\<exists>i < cw_tick w1. c_now sc (Suc (cw_tick w)) + x \<le> c_now sc i))"
  using guest.wait_cmd_returns [where w = w and k = k and x = x and sc = sc and float_of = float_of and secs = secs] assms
  by (simp add: once_def guest_schedule_def)

theorem wait_returns_witness:
  "\<exists>r w1. wait_cmd (guest_schedule demo_cenv (\<lambda>_. [ARelease uA]) (\<lambda>_. 1) True demo_csched) (\<lambda>_. None) demo_origin (JStr uA) (JInt 2) 3
      (world_of cdemo1 0) = Some (r, w1) \<and> cw_tick w1 \<le> 5"
proof -
  have clock: "c_now demo_csched i + 2 \<le> c_now demo_csched j" if "i + 2 \<le> j" for i j
  proof -
    have "(of_nat (i + 2) :: rat) \<le> of_nat j" using that by (simp only: of_nat_le_iff)
    then show ?thesis by (simp add: demo_csched_def)
  qed
  have "wait_seconds (\<lambda>_. None) ''timeout'' (JInt 2) = Inr 2" by (simp add: wait_seconds_def)
  moreover have "client_inv (cw_store (world_of cdemo1 0))" "cw_queued (world_of cdemo1 0) = []" using cdemo_invs by (simp_all add: world_of_def)
  ultimately show ?thesis using wait_returns [where w = "world_of cdemo1 0" and k = 2 and x = 2 and sc = demo_csched and float_of = "\<lambda>_. None" and secs = "JInt 2"] clock by (fastforce simp: numeral_3_eq_3 numeral_2_eq_2 world_of_def)
qed

end
