(* ===== verification/Py_Lines.thy ===== *)
theory Py_Lines
  imports Py_Text
begin

text \<open>
  Lines: \<open>str.splitlines\<close>, by which \<open>httpx\<close> cuts the text of an event stream, and what keeps a text on one line - printed JSON values do, unless
  a string in them holds one of the line separators beyond ASCII.
\<close>

section \<open>ASCII text\<close>

definition ascii :: "char \<Rightarrow> bool" where
  "ascii c \<longleftrightarrow> (of_char c :: nat) < 128"

text \<open>Text without blanks is not stripped.\<close>

definition solid :: "string \<Rightarrow> bool" where
  "solid s \<longleftrightarrow> list_all (\<lambda>c. ascii c \<and> \<not> is_space c) s"

lemma solid_points: "solid s \<Longrightarrow> code_points s = map (\<lambda>c. [c]) s"
proof (induction s)
  case (Cons c s)
  have "takeWhile cont_byte s = []" "dropWhile cont_byte s = s" using Cons.prems by (cases s; simp add: solid_def ascii_def cont_byte_def)+
  then show ?case using Cons by (simp add: solid_def)
qed simp

lemma solid_strip: "solid s \<Longrightarrow> py_strip s = s"
proof -
  assume s: "solid s"
  have nb: "dropWhile py_blank (map (\<lambda>c. [c]) t) = map (\<lambda>c. [c]) t" if "solid t" for t
    using that by (cases t) (auto simp: solid_def)
  have "solid (rev s)" using s by (simp add: solid_def)
  then show ?thesis using s nb [of s] nb [of "rev s"] by (simp add: py_strip_def solid_points rev_map [symmetric])
qed

lemma solid_strip_blank: "solid s \<Longrightarrow> py_strip (CHR '' '' # s) = s"
proof -
  assume s: "solid s"
  have "code_points (CHR '' '' # s) = [CHR '' ''] # code_points s"
    using s by (cases s) (simp_all add: solid_def ascii_def cont_byte_def)
  then have "py_strip (CHR '' '' # s) = py_strip s" by (simp add: py_strip_def is_space_def)
  then show ?thesis using solid_strip [OF s] by simp
qed

lemma digits_solid: "list_all is_digit s \<Longrightarrow> solid s"
  by (induction s) (auto simp: solid_def is_digit_def ascii_def is_space_def)

section \<open>Lines\<close>

text \<open>The rest of the text after a line break at its head, if there is one: the ASCII breaks, \<open>U+0085\<close>, and
  \<open>U+2028\<close>, \<open>U+2029\<close> in their UTF-8 form.\<close>

definition ascii_break :: "char \<Rightarrow> bool" where
  "ascii_break c \<longleftrightarrow> c \<in> {CHR 0x0A, CHR 0x0B, CHR 0x0C, CHR 0x0D, CHR 0x1C, CHR 0x1D, CHR 0x1E}"

fun wide_break :: "string \<Rightarrow> bool" where
  "wide_break (a # b # c # r) \<longleftrightarrow> a = CHR 0xC2 \<and> b = CHR 0x85 \<or> a = CHR 0xE2 \<and> b = CHR 0x80 \<and> c \<in> {CHR 0xA8, CHR 0xA9}"
| "wide_break [a, b] \<longleftrightarrow> a = CHR 0xC2 \<and> b = CHR 0x85"
| "wide_break _ \<longleftrightarrow> False"

definition line_break :: "string \<Rightarrow> string option" where
  "line_break s =
     (case s of
        [] \<Rightarrow> None
      | c # r \<Rightarrow>
          if c = CHR 0x0D \<and> starts_with [CHR 0x0A] r then Some (tl r)
          else if ascii_break c then Some r
          else if wide_break s then Some (if c = CHR 0xC2 then drop 2 s else drop 3 s)
          else None)"

lemma line_break_shorter [termination_simp]: "line_break (c # r) = Some t \<Longrightarrow> length t < Suc (length r)"
  by (auto simp: line_break_def split: if_splits)

fun split_lines :: "string \<Rightarrow> string \<Rightarrow> string list" where
  "split_lines cur [] = (if cur = [] then [] else [cur])"
| "split_lines cur (c # r) = (case line_break (c # r) of Some t \<Rightarrow> cur # split_lines [] t | None \<Rightarrow> split_lines (cur @ [c]) r)"

definition splitlines :: "string \<Rightarrow> string list" where
  "splitlines s = split_lines [] s"

lemma splitlines_examples:
  "splitlines [CHR ''a'', CHR 0x0A, CHR ''b'', CHR 0x0A, CHR 0x0A] = [''a'', ''b'', []]"
  "splitlines [CHR ''a'', CHR 0x0D, CHR 0x0A, CHR ''b''] = [''a'', ''b'']"
  "splitlines [CHR ''a'', CHR 0xE2, CHR 0x80, CHR 0xA8, CHR ''b''] = [''a'', ''b'']"
  by code_simp+

text \<open>A text without breaks stays in one piece.\<close>

fun plain :: "string \<Rightarrow> bool" where
  "plain [] \<longleftrightarrow> True"
| "plain (c # r) \<longleftrightarrow> \<not> wide_break (c # r) \<and> plain r"

definition ascii_start :: "string \<Rightarrow> bool" where
  "ascii_start s \<longleftrightarrow> (case s of [] \<Rightarrow> True | c # _ \<Rightarrow> ascii c)"

lemma wide_break_ascii [simp]: "ascii c \<Longrightarrow> \<not> wide_break (c # r)"
  by (cases r rule: remdups_adj.cases) (auto simp: ascii_def)

lemma wide_break_append:
  assumes "ascii_start b" "\<not> wide_break (c # a)"
  shows "\<not> wide_break (c # a @ b)"
proof (cases a rule: remdups_adj.cases)
  case 1
  then show ?thesis using assms by (cases b rule: remdups_adj.cases) (auto simp: ascii_start_def ascii_def)
next
  case (2 x)
  then show ?thesis using assms by (cases b) (auto simp: ascii_start_def ascii_def)
qed (use assms in auto)

lemma plain_append: "plain a \<Longrightarrow> plain b \<Longrightarrow> ascii_start b \<Longrightarrow> plain (a @ b)"
  by (induction a) (auto dest: wide_break_append)

definition no_controls :: "string \<Rightarrow> bool" where
  "no_controls s \<longleftrightarrow> list_all (\<lambda>c. 32 \<le> (of_char c :: nat)) s"

lemma no_controls_simps [simp]:
  "no_controls []" "no_controls (c # s) \<longleftrightarrow> 32 \<le> (of_char c :: nat) \<and> no_controls s" "no_controls (s @ t) \<longleftrightarrow> no_controls s \<and> no_controls t"
  by (simp_all add: no_controls_def)

lemma split_lines_piece:
  assumes "plain s" "no_controls s"
  shows "split_lines cur (s @ CHR 0x0A # rest) = (cur @ s) # split_lines [] rest"
  using assms
proof (induction s arbitrary: cur)
  case Nil
  then show ?case by (simp add: line_break_def ascii_break_def)
next
  case (Cons c s)
  have "\<not> wide_break (c # s @ CHR 0x0A # rest)" using Cons.prems by (intro wide_break_append) (auto simp: ascii_start_def ascii_def)
  moreover have "c \<noteq> CHR 0x0D" "\<not> ascii_break c" using Cons.prems by (auto simp: ascii_break_def)
  ultimately have "line_break (c # s @ CHR 0x0A # rest) = None" by (simp add: line_break_def)
  then show ?case using Cons by simp
qed

section \<open>Printed values stay on one line\<close>

text \<open>Values none of whose strings holds one of the wide breaks; control characters are escaped.\<close>

fun plain_json :: "json \<Rightarrow> bool" where
  "plain_json (JStr s) \<longleftrightarrow> plain s"
| "plain_json (JFloat t) \<longleftrightarrow> list_all ascii t \<and> no_controls t"
| "plain_json (JList xs) \<longleftrightarrow> list_all plain_json xs"
| "plain_json (JObj kvs) \<longleftrightarrow> list_all (\<lambda>(k, v). plain k \<and> plain_json v) kvs"
| "plain_json _ \<longleftrightarrow> True"

definition one_line :: "string \<Rightarrow> bool" where
  "one_line s \<longleftrightarrow> plain s \<and> no_controls s \<and> ascii_start s"

lemma plain_ascii: "list_all ascii s \<Longrightarrow> plain s"
  by (induction s) auto

lemma one_line_ascii: "list_all ascii s \<Longrightarrow> no_controls s \<Longrightarrow> one_line s"
  by (auto simp: one_line_def plain_ascii ascii_start_def split: list.split)

lemma one_line_append: "one_line a \<Longrightarrow> one_line b \<Longrightarrow> one_line (a @ b)"
  by (auto simp: one_line_def plain_append) (auto simp: ascii_start_def split: list.splits)

lemma escape_char_ascii: "escape_char c = [c] \<and> 32 \<le> (of_char c :: nat) \<or> (list_all ascii (escape_char c) \<and> no_controls (escape_char c) \<and> ascii c)"
proof -
  have "ascii (hex_digit n) \<and> 32 \<le> (of_char (hex_digit n) :: nat)" if "n < 16" for n
  proof -
    have "(of_char (hex_digit n) :: nat) = (if n < 10 then 48 + n else 87 + n)"
      using that by (simp add: hex_digit_def)
    then show ?thesis using that by (simp add: ascii_def)
  qed
  then show ?thesis by (auto simp: escape_char_def ascii_def)
qed

lemma escape_char_cases:
  obtains (same) "escape_char c = [c]" | (escaped) y t where "escape_char c = y # t" "ascii y"
proof -
  have "escape_char c \<noteq> []" by (simp add: escape_char_def)
  then show thesis using that escape_char_ascii [of c] by (cases "escape_char c") auto
qed

lemma wide_break_escaped: "\<not> wide_break (c # s) \<Longrightarrow> \<not> wide_break (c # concat (map escape_char s))"
proof (cases s)
  case (Cons x u)
  assume nb: "\<not> wide_break (c # s)"
  show ?thesis
  proof (cases rule: escape_char_cases [of x])
    case same
    show ?thesis
    proof (cases u)
      case Nil
      then show ?thesis using nb Cons same by simp
    next
      case (Cons z v)
      then show ?thesis using nb \<open>s = x # u\<close> same by (cases rule: escape_char_cases [of z]) (auto simp: ascii_def)
    qed
  next
    case (escaped y t)
    have "\<not> wide_break (c # y # w)" for w using escaped(2) by (cases w) (auto simp: ascii_def)
    then show ?thesis using escaped Cons by simp
  qed
qed simp

lemma one_line_quote: "plain s \<Longrightarrow> one_line (quote s)"
proof -
  have quo: "one_line [CHR 0x22]" by (simp add: one_line_def ascii_start_def ascii_def)
  have "no_controls (escape_char c)" for c using escape_char_ascii [of c] by auto
  then have ctl: "no_controls (concat (map escape_char s))" by (induction s) auto
  have "plain (concat (map escape_char s))" if "plain s" for s
    using that
  proof (induction s)
    case (Cons c s)
    consider "escape_char c = [c]" | "list_all ascii (escape_char c)" using escape_char_ascii by blast
    then show ?case
    proof cases
      case 1
      then show ?thesis using Cons wide_break_escaped by simp
    next
      case 2
      have "plain (a @ concat (map escape_char s))" if "list_all ascii a" for a
        using that Cons by (induction a) auto
      then show ?thesis using 2 by simp
    qed
  qed simp
  then show "plain s \<Longrightarrow> one_line (quote s)"
    using ctl plain_append [OF _ _ , of _ "[CHR 0x22]"] by (auto simp: quote_def one_line_def ascii_start_def ascii_def)
qed

lemma one_line_join: "one_line sep \<Longrightarrow> list_all one_line xs \<Longrightarrow> one_line (join sep xs)"
  by (induction sep xs rule: join.induct) (auto intro: one_line_append simp: one_line_def [of "[]"] ascii_start_def)

lemma one_line_digits: "list_all is_digit s \<Longrightarrow> one_line s"
  by (rule one_line_ascii) (induction s; auto simp: is_digit_def ascii_def)+

lemma one_line_dec_int: "one_line (dec_int i)"
proof -
  have "one_line ''-''" by (simp add: one_line_def ascii_start_def ascii_def)
  then show ?thesis using one_line_digits [OF dec_nat_digits] one_line_append [of "''-''"] by (simp add: dec_int_def)
qed

lemma one_line_printed:
  assumes "one_line isep" "one_line ksep" "plain_json j"
  shows "one_line (json_dumps isep ksep j)"
  using assms(3)
proof (induction j)
  case (JFloat t)
  then show ?case by (simp add: one_line_ascii)
next
  case (JStr s)
  then show ?case by (simp add: one_line_quote)
next
  case (JList xs)
  have "one_line (''['' @ join isep (map (json_dumps isep ksep) xs) @ '']'')"
    using JList assms(1) by (intro one_line_append one_line_join) (auto simp: list_all_iff one_line_def [of "[_]"] ascii_start_def ascii_def)
  then show ?case by simp
next
  case (JObj kvs)
  have item: "one_line (quote k @ ksep @ json_dumps isep ksep v)" if "(k, v) \<in> set kvs" for k v
    using that JObj.IH [of "(k, v)" v] JObj.prems assms(2) by (intro one_line_append one_line_quote) (auto simp: list_all_iff)
  have "one_line (''{'' @ join isep (map (\<lambda>(k, v). quote k @ ksep @ json_dumps isep ksep v) kvs) @ ''}'')"
    using item assms(1) by (intro one_line_append one_line_join) (auto simp: list_all_iff one_line_def [of "[_]"] ascii_start_def ascii_def)
  then show ?case by simp
next
  case (JInt i)
  show ?case by (simp add: one_line_dec_int)
qed (auto simp: one_line_def ascii_start_def ascii_def)

lemma one_line_dumps: "plain_json j \<Longrightarrow> one_line (dumps j)" "plain_json j \<Longrightarrow> one_line (json_dumps '', '' '': '' j)"
  by (rule one_line_printed; simp add: one_line_def ascii_start_def ascii_def)+

lemma plain_json_jsort: "plain_json j \<Longrightarrow> plain_json (jsort j)"
proof (induction j)
  case (JObj kvs)
  have "plain_json (jsort v)" if "(k, v) \<in> set kvs" for k v
    using JObj.IH [of "(k, v)" v] JObj.prems that by (auto simp: list_all_iff)
  then show ?case using JObj.prems by (auto simp: list_all_iff)
qed (auto simp: list_all_iff)

lemma one_line_canonical: "plain_json j \<Longrightarrow> one_line (canonical j)"
  by (simp add: canonical_def one_line_dumps plain_json_jsort)

end
