(* ===== verification/Event_Contract.thy ===== *)
theory Event_Contract
  imports Broker_Http Service_Properties Py_Lines
begin

text \<open>
  Broker and client together: the event stream one writes and the other reads, and the snapshots one
  makes and the other validates. The client reads the stream through \<open>httpx\<close>, which cuts the decoded
  text into lines as \<open>str.splitlines\<close> does.
\<close>

declare split_paired_All [simp del] split_paired_Ex [simp del]

section \<open>The event frame\<close>

lemma split_four:
  assumes "one_line a" "one_line b" "one_line c"
  shows "split_lines [] (a @ NL @ b @ NL @ c @ NL @ NL @ rest) = [a, b, c, []] @ split_lines [] rest"
proof -
  have piece: "split_lines [] (s @ NL @ r) = s # split_lines [] r" if "one_line s" for s r
    using split_lines_piece [of s "[]" r] that by (simp add: one_line_def NL_def)
  show ?thesis using assms piece [of "[]"] by (simp add: piece one_line_def [of "[]"] ascii_start_def)
qed

lemma frame_lines:
  assumes "plain_json v"
  shows "split_lines [] (event_frame (n, v) @ rest) =
    [''id: '' @ dec_int n, ''event: operation'', ''data: '' @ canonical v, []] @ split_lines [] rest"
proof -
  have ascii: "one_line ''id: ''" "one_line ''event: operation''" "one_line ''data: ''"
    by (simp_all add: one_line_def ascii_start_def ascii_def)
  have "one_line (''id: '' @ dec_int n)" "one_line (''data: '' @ canonical v)"
    by (rule one_line_append [OF ascii(1) one_line_dec_int], rule one_line_append [OF ascii(3) one_line_canonical [OF assms]])
  then show ?thesis
    using split_four [OF _ ascii(2), of "''id: '' @ dec_int n" "''data: '' @ canonical v" rest] by (simp only: event_frame_def prod.case append_assoc)
qed

lemma digit_groups_digits: "list_all is_digit s \<Longrightarrow> s \<noteq> [] \<or> after \<Longrightarrow> digit_groups after s = Some s"
  by (induction s arbitrary: after) auto

lemma py_int_dec_int: "0 \<le> n \<Longrightarrow> py_int (py_strip ('' '' @ dec_int n)) = Some n"
proof -
  assume n: "0 \<le> n"
  have d: "list_all is_digit (dec_nat (nat n))" by (rule dec_nat_digits)
  obtain c t where c: "dec_nat (nat n) = c # t" by (cases "dec_nat (nat n)") auto
  then have "c \<noteq> CHR ''-''" "c \<noteq> CHR ''+''" using d by (auto simp: is_digit_def)
  then show ?thesis using n d c digit_groups_digits [OF d, of False] digits_val_dec_nat [of "nat n"]
    by (simp add: py_int_def dec_int_def solid_strip_blank solid_strip digits_solid del: digit_groups.simps)
qed

text \<open>What the client does with an event it has read.\<close>

definition take_event :: "client_env \<Rightarrow> client_schedule \<Rightarrow> int \<Rightarrow> json \<Rightarrow> unit cprog" where
  "take_event env sc n v = bind_p (reading sc c_cursor) (\<lambda>c. if n \<le> c then return_p () else ingest env sc v (Some n) None)"

definition four_lines :: "client_schedule \<Rightarrow> unit cprog" where
  "four_lines sc = each_p (\<lambda>_ :: nat. await sc (\<lambda>_. Inr ())) [1, 2, 3, 4]"

lemma bind_assoc: "bind_p (bind_p p f) g = bind_p p (\<lambda>x. bind_p (f x) g)"
  by (rule ext) (simp add: bind_p_def split: sum.split prod.split)

lemma bind_return: "bind_p (return_p x) f = f x"
  by (rule ext) (simp add: bind_p_def)

lemma canonical_head: "json_ok v \<Longrightarrow> dropWhile (\<lambda>c. c = CHR '' '') (canonical v) = canonical v"
  using compact.skip_ws_dumps [OF json_ok_jsort, of v "[]"] compact.dumps_head [OF json_ok_jsort, of v]
  by (cases "canonical v") (auto simp: skip_ws_def canonical_def json_ws_def)

lemma frame_read:
  assumes "json_ok v" "0 \<le> n" "int (py_len (dec_int n) + py_len (canonical v)) + 26 \<le> 2 * 1024 * 1024"
  shows "feed_lines env sc sse_start [''id: '' @ dec_int n, ''event: operation'', ''data: '' @ canonical v, []] =
    bind_p (four_lines sc) (\<lambda>_. bind_p (take_event env sc n (jsort v)) (\<lambda>_. return_p sse_start))"
proof -
  have len: "py_len [] = 0" "ascii c \<Longrightarrow> py_len (c # s) = Suc (py_len s)" for c s
    by (auto simp: py_len_def ascii_def)
  let ?s1 = "sse_start\<lparr>ev_size := 4 + int (py_len (dec_int n)), ev_id := Some n\<rparr>"
  let ?s2 = "?s1\<lparr>ev_size := 20 + int (py_len (dec_int n)), ev_type := ''operation''\<rparr>"
  let ?s3 = "?s2\<lparr>ev_size := 26 + (int (py_len (dec_int n)) + int (py_len (canonical v))), ev_data := [canonical v]\<rparr>"
  have 1: "event_line env sc sse_start (''id: '' @ dec_int n) = return_p ?s1"
    using assms(2,3) py_int_dec_int [OF assms(2)] by (simp add: event_line_def Let_def len ascii_def sse_start_def starts_with_def)
  have "solid ''operation''" by (simp add: solid_def ascii_def is_space_def)
  then have 2: "event_line env sc ?s1 ''event: operation'' = return_p ?s2"
    using assms(3) by (simp add: event_line_def Let_def len ascii_def sse_start_def starts_with_def solid_strip_blank)
  have 3: "event_line env sc ?s2 (''data: '' @ canonical v) = return_p ?s3"
    using assms(3) canonical_head [OF assms(1)] by (simp add: event_line_def Let_def len ascii_def sse_start_def starts_with_def)
  have 4: "event_line env sc ?s3 [] = bind_p (take_event env sc n (jsort v)) (\<lambda>_. return_p sse_start)"
    using assms(3) loads_canonical [OF assms(1)] by (simp add: event_line_def Let_def len ascii_def sse_start_def finish_event_def take_event_def cong: if_cong)
  show ?thesis
    by (simp only: feed_lines.simps 1 2 3 4 bind_return bind_assoc four_lines_def each_p.simps)
qed

lemma feed_append: "feed_lines env sc st (xs @ ys) = bind_p (feed_lines env sc st xs) (\<lambda>st1. feed_lines env sc st1 ys)"
  by (induction xs arbitrary: st) (simp_all add: bind_assoc bind_return)

definition readable :: "int \<times> json \<Rightarrow> bool" where
  "readable = (\<lambda>(n, v). json_ok v \<and> plain_json v \<and> 0 \<le> n \<and> int (py_len (dec_int n) + py_len (canonical v)) + 26 \<le> 2 * 1024 * 1024)"

text \<open>C17: What the broker writes into the event stream is what the client reads from it: for events of at most two
  megabytes whose strings hold no U+0085, U+2028 or U+2029 (see \<open>separator_breaks_stream\<close>), reading the lines of the frames is taking each
  event in turn with its sequence number and its snapshot, and leaves the parser at its start.\<close>

theorem events_read_back:
  assumes "list_all readable batch"
  shows "feed_lines env sc sse_start (splitlines (concat (map event_frame batch))) =
    bind_p (each_p (\<lambda>(n, v). bind_p (four_lines sc) (\<lambda>_. take_event env sc n (jsort v))) batch) (\<lambda>_. return_p sse_start)"
  using assms
proof (induction batch)
  case Nil
  then show ?case by (simp add: splitlines_def bind_return del: prog_simps)
next
  case (Cons e batch)
  obtain n v where e: "e = (n, v)" by (cases e)
  have ok: "json_ok v" "plain_json v" "0 \<le> n" "int (py_len (dec_int n) + py_len (canonical v)) + 26 \<le> 2 * 1024 * 1024"
    using Cons.prems e by (simp_all add: readable_def)
  have "splitlines (concat (map event_frame (e # batch))) =
      [''id: '' @ dec_int n, ''event: operation'', ''data: '' @ canonical v, []] @ splitlines (concat (map event_frame batch))"
    using frame_lines [OF ok(2)] e by (simp add: splitlines_def)
  then show ?case using Cons e frame_read [OF ok(1,3,4)] by (simp only: feed_append) (simp add: bind_assoc bind_return del: prog_simps)
qed

theorem events_read_back_witness:
  "list_all readable [(7, demo_done)] \<and>
   feed_lines demo_cenv demo_csched sse_start (splitlines (concat (map event_frame [(7, demo_done)]))) =
   bind_p (each_p (\<lambda>(n, v). bind_p (four_lines demo_csched) (\<lambda>_. take_event demo_cenv demo_csched n (jsort v))) [(7, demo_done)])
     (\<lambda>_. return_p sse_start)"
proof -
  have "list_all readable [(7, demo_done)]" by code_simp
  then show ?thesis using events_read_back [of "[(7, demo_done)]" demo_cenv demo_csched] by blast
qed

text \<open>The condition on line separators is needed: JSON leaves \<open>U+2028\<close> unescaped, the client's line reader breaks
  the frame there, and the cursor does not move, so that the same event comes again on every connection.\<close>

definition separated :: json where
  "separated = JObj [(''operation_id'', JStr uA), (''flow_id'', JStr uB), (''state'', JStr ''completed''), (''result_id'', JStr uC),
     (''result'', JObj [(''text'', JStr [CHR ''a'', CHR 0xE2, CHR 0x80, CHR 0xA8, CHR ''b''])]), (''error'', JNull),
     (''remote_task_id'', JStr ''task''), (''created_at'', JStr ''t''), (''updated_at'', JStr ''t'')]"

theorem separator_breaks_stream:
  "(case events_turn demo_cenv demo_csched (EvLines (splitlines (event_frame (7, separated))) False) (world_of cdemo1 0) of
      (r, w) \<Rightarrow> (r, c_cursor (cw_store w), cw_error w)) = (Inr (), 0, Some ''events_disconnected_get_recovery_available'')"
  by code_simp

section \<open>Snapshots\<close>

lemma jhas_jsort: "is_obj j \<Longrightarrow> jhas (jsort j) k = jhas j k"
  by (cases j) (force simp: map_of_eq_None_iff)+

lemma state_texts:
  "state_text st \<in> set STATES_TEXT" "snap_in TERMINAL_TEXT v \<longleftrightarrow> st \<in> TERMINAL" if "jget v ''state'' = JStr (state_text st)"
  using that by (cases st; simp add: STATES_TEXT_def TERMINAL_TEXT_def TERMINAL_def FINAL_def snap_in_def)+

lemma check_passes:
  assumes "row_ok r" "0 \<le> n" "jget v ''operation_id'' = JStr op" "jget v ''flow_id'' = JStr (flow_id r)"
    "jget v ''state'' = JStr (state_text (state r))" "jget v ''result_id'' = jopt (result_id r)" "list_all (jhas v) required_keys"
    "native_uuid (JStr op) ''operation_id'' = Inr op" "native_uuid (JStr (flow_id r)) ''flow_id'' = Inr (flow_id r)"
    "\<And>rid. result_id r = Some rid \<Longrightarrow> native_uuid (JStr rid) ''result_id'' = Inr rid"
  shows "check_snapshot v (Some n) = Inr (op, flow_id r)"
proof -
  have "state r \<in> TERMINAL \<Longrightarrow> result_id r \<noteq> None" using assms(1) by (auto simp: row_ok_def)
  then show ?thesis
    using assms state_texts [OF assms(5)] by (cases "result_id r") (auto simp: check_snapshot_def)
qed

lemma snapshot_checks:
  assumes "row_ok r" "do_snapshot benv now op r = Inr snap" "v \<in> {snap, jsort snap}" "0 \<le> n" "native_uuid (JStr op) ''operation_id'' = Inr op"
    "native_uuid (JStr (flow_id r)) ''flow_id'' = Inr (flow_id r)"
    "\<And>rid. result_id r = Some rid \<Longrightarrow> native_uuid (JStr rid) ''result_id'' = Inr rid"
  shows "check_snapshot v (Some n) = Inr (op, flow_id r)"
proof -
  obtain res er where snap: "snap = JObj [(''operation_id'', JStr op), (''flow_id'', JStr (flow_id r)),
      (''state'', JStr (state_text (state r))), (''result_id'', jopt (result_id r)), (''result'', res), (''error'', er),
      (''remote_task_id'', jopt (remote_task_id r)), (''created_at'', JStr (iso (created_at r))), (''updated_at'', JStr (iso (updated_at r)))]"
    using assms(2) by (auto simp: do_snapshot_def)
  have obj: "is_obj snap" by (simp add: snap)
  have gets: "jget v k = jget snap k" if "k \<in> {''operation_id'', ''flow_id'', ''state'', ''result_id''}" for k
  proof -
    have "jsort (jget snap k) = jget snap k" using that by (cases "result_id r") (auto simp: snap simp del: jsort.simps(2))
    then show ?thesis using assms(3) jget_jsort [OF obj, of k] by auto
  qed
  have has: "jhas v = jhas snap" using assms(3) jhas_jsort [OF obj] by (auto simp: fun_eq_iff)
  show ?thesis
    by (rule check_passes [OF assms(1,4) _ _ _ _ _ assms(5-7)]) (simp_all add: gets has, simp_all add: snap required_keys_def)
qed

lemma snapshot_names_result:
  assumes "do_snapshot benv now op r = Inr snap" "v \<in> {snap, jsort snap}"
  shows "jget v ''result_id'' = jopt (result_id r)"
proof -
  have "is_obj snap" "jget snap ''result_id'' = jopt (result_id r)" using assms(1) by (auto simp: do_snapshot_def)
  moreover have "jsort (jopt (result_id r)) = jopt (result_id r)" by (cases "result_id r") auto
  ultimately show ?thesis using assms(2) jget_jsort [of snap "''result_id''"] by auto
qed

text \<open>When the client takes a new snapshot of an operation: it knows none, or none that is terminal, or the new one resolves exactly what was
  unknown.\<close>

definition takes :: "json option \<Rightarrow> json \<Rightarrow> bool" where
  "takes previous v \<longleftrightarrow> (case previous of None \<Rightarrow> True | Some p \<Rightarrow> \<not> snap_in TERMINAL_TEXT p \<or> exact_resolution p v)"

lemma store_snapshot_known:
  assumes "map_of (cops_t c) op = Some q" "\<not> c_expired q" "c_flow_id q = fl" "jget v ''result_id'' = jopt rid"
  shows "\<exists>c1 q1. store_snapshot cenv t op fl v c = Inr c1 \<and> map_of (cops_t c1) op = Some q1 \<and>
    (if takes (c_snapshot q) v
     then c_snapshot q1 = Some (jsort v) \<and> c_submission q1 = SAccepted \<and> c_payload q1 = None \<and>
       (\<forall>i. rid = Some i \<longrightarrow> map_of (creceipts_t c1) (op, i, ''stored'') \<noteq> None)
     else c_snapshot q1 = c_snapshot q \<and>
       (c_conflict q1 \<longleftrightarrow> c_conflict q \<or> snap_in TERMINAL_TEXT v \<and> differs (the (c_snapshot q)) v))"
proof (cases "takes (c_snapshot q) v")
  case True
  then have "judge (c_snapshot q) v = Store" by (auto simp: takes_def judge_def split: option.splits)
  then show ?thesis using assms True
    by (cases rid) (auto simp: store_snapshot_def stored_snapshot_def add_receipt_def set_row_def map_of_update_row map_of_insert_ignore)
next
  case False
  then obtain p where p: "c_snapshot q = Some p" "snap_in TERMINAL_TEXT p" "\<not> exact_resolution p v"
    by (auto simp: takes_def split: option.splits)
  then have "judge (c_snapshot q) v = (if snap_in TERMINAL_TEXT v \<and> differs p v then Conflict else Ignore)" by (simp add: judge_def)
  then show ?thesis using assms False p by (auto simp: store_snapshot_def)
qed

text \<open>C16: The client takes what the broker says: a snapshot the broker makes of an operation - as it answers requests with, or sorted as the
  event stream carries it - passes the client's validation with its sequence number, provided identifiers are canonical UUIDs and both sides agree
  on the flow of the operation. Of an operation the client still follows, it becomes the stored snapshot, with a receipt for its result, unless
  the client knows a terminal snapshot already that this one does not resolve: that one stays, and is marked as conflicting exactly if
  both are terminal and differ.\<close>

theorem broker_snapshots_accepted:
  assumes "ledger_inv benv s" "map_of (operations_t s) (d, op) = Some r" "do_snapshot benv now op r = Inr snap" "v \<in> {snap, jsort snap}"
    "0 \<le> n" "native_uuid (JStr op) ''operation_id'' = Inr op" "native_uuid (JStr (flow_id r)) ''flow_id'' = Inr (flow_id r)"
    "\<And>rid. result_id r = Some rid \<Longrightarrow> native_uuid (JStr rid) ''result_id'' = Inr rid"
    "\<And>q. map_of (cops_t c) op = Some q \<Longrightarrow> c_flow_id q = flow_id r"
  shows "\<exists>c1. accept_snapshot cenv t v (Some n) c = Inr c1 \<and> c_cursor c1 = max (c_cursor c) n \<and>
    (\<forall>q. map_of (cops_t c) op = Some q \<and> \<not> c_expired q \<longrightarrow> (\<exists>q1. map_of (cops_t c1) op = Some q1 \<and>
      (if takes (c_snapshot q) v
       then c_snapshot q1 = Some (jsort v) \<and> c_submission q1 = SAccepted \<and> c_payload q1 = None \<and>
         (\<forall>rid. result_id r = Some rid \<longrightarrow> map_of (creceipts_t c1) (op, rid, ''stored'') \<noteq> None)
       else c_snapshot q1 = c_snapshot q \<and>
         (c_conflict q1 \<longleftrightarrow> c_conflict q \<or> snap_in TERMINAL_TEXT v \<and> differs (the (c_snapshot q)) v))))"
proof -
  have "row_ok r" using assms(1,2) by (auto simp: ledger_inv_def inv_rows_def)
  then have chk: "check_snapshot v (Some n) = Inr (op, flow_id r)" using assms(3-8) by (rule snapshot_checks)
  note rid = snapshot_names_result [OF assms(3,4)]
  show ?thesis
  proof (cases "\<exists>q. map_of (cops_t c) op = Some q \<and> \<not> c_expired q")
    case True
    then obtain q where q: "map_of (cops_t c) op = Some q" "\<not> c_expired q" by blast
    obtain c1 q1 where c1: "store_snapshot cenv t op (flow_id r) v c = Inr c1" and q1: "map_of (cops_t c1) op = Some q1"
      "if takes (c_snapshot q) v
       then c_snapshot q1 = Some (jsort v) \<and> c_submission q1 = SAccepted \<and> c_payload q1 = None \<and>
         (\<forall>i. result_id r = Some i \<longrightarrow> map_of (creceipts_t c1) (op, i, ''stored'') \<noteq> None)
       else c_snapshot q1 = c_snapshot q \<and>
         (c_conflict q1 \<longleftrightarrow> c_conflict q \<or> snap_in TERMINAL_TEXT v \<and> differs (the (c_snapshot q)) v)"
      using store_snapshot_known [OF q assms(9) [OF q(1)] rid] by blast
    have "c_cursor c1 = c_cursor c" using c1 by (cases rule: store_snapshot_cases) simp_all
    then show ?thesis using chk c1 q q1 by (auto simp: accept_snapshot_def split: if_splits)
  next
    case False
    then have "store_snapshot cenv t op (flow_id r) v c = Inr c" by (auto simp: store_snapshot_def split: option.split)
    then show ?thesis using chk False by (auto simp: accept_snapshot_def)
  qed
qed

definition demo_rowA :: op_row where
  "demo_rowA = new_op_row 10 uB (sha256 demo_env (canonical (request_json (demo_req uA uB))))"

definition demo_snapA :: json where
  "demo_snapA = JObj [(''operation_id'', JStr uA), (''flow_id'', JStr uB), (''state'', JStr ''accepted''), (''result_id'', JNull), (''result'', JNull),
     (''error'', JNull), (''remote_task_id'', JNull), (''created_at'', JStr (iso 10)), (''updated_at'', JStr (iso 10))]"

lemma demo_rowA_snap: "do_snapshot demo_env 10 uA demo_rowA = Inr demo_snapA" "flow_id demo_rowA = uB" "result_id demo_rowA = None"
  by (simp_all add: demo_rowA_def demo_snapA_def new_op_row_def do_snapshot_def snapshot_result_def error_json_def)

lemma demo_acceptedA:
  "\<exists>t. accept demo_env 10 ''dev'' (demo_req uA uB) demo0 = Inr ((demo_snapA, True), t) \<and> map_of (operations_t t) (''dev'', uA) = Some demo_rowA"
  by (simp add: demo_rowA_def demo_snapA_def run_defs demo_defs Let_def)

theorem broker_snapshots_accepted_witness:
  "\<exists>c1 q1. accept_snapshot demo_cenv 110 (jsort demo_snapA) (Some 7) cdemo1 = Inr c1 \<and> c_cursor c1 = max (c_cursor cdemo1) 7 \<and>
    map_of (cops_t c1) uA = Some q1 \<and> c_snapshot q1 = Some (jsort (jsort demo_snapA)) \<and> c_submission q1 = SAccepted"
proof -
  obtain t where t: "accept demo_env 10 ''dev'' (demo_req uA uB) demo0 = Inr ((demo_snapA, True), t)"
    "map_of (operations_t t) (''dev'', uA) = Some demo_rowA" using demo_acceptedA by blast
  have inv: "ledger_inv demo_env t" by (rule broker_run.step_good [OF demo_invs(1)], rule st_accept, rule t(1))
  have flow: "c_flow_id q = flow_id demo_rowA" if "map_of (cops_t cdemo1) uA = Some q" for q
    using that demo_rowA_snap(2) by (auto simp: cdemo1_def cdemo_row_def new_c_row_def)
  obtain q where q: "map_of (cops_t cdemo1) uA = Some q" "\<not> c_expired q" "c_snapshot q = None"
    by (simp add: cdemo1_def cdemo_row_def new_c_row_def)
  obtain c1 where c1: "accept_snapshot demo_cenv 110 (jsort demo_snapA) (Some 7) cdemo1 = Inr c1" "c_cursor c1 = max (c_cursor cdemo1) 7"
    and taken: "\<forall>q. map_of (cops_t cdemo1) uA = Some q \<and> \<not> c_expired q \<longrightarrow> (\<exists>q1. map_of (cops_t c1) uA = Some q1 \<and>
      (if takes (c_snapshot q) (jsort demo_snapA)
       then c_snapshot q1 = Some (jsort (jsort demo_snapA)) \<and> c_submission q1 = SAccepted \<and> c_payload q1 = None \<and>
         (\<forall>rid. result_id demo_rowA = Some rid \<longrightarrow> map_of (creceipts_t c1) (uA, rid, ''stored'') \<noteq> None)
       else c_snapshot q1 = c_snapshot q \<and>
         (c_conflict q1 \<longleftrightarrow> c_conflict q \<or> snap_in TERMINAL_TEXT (jsort demo_snapA) \<and> differs (the (c_snapshot q)) (jsort demo_snapA))))"
    using broker_snapshots_accepted [OF inv t(2) demo_rowA_snap(1), of "jsort demo_snapA" 7 cdemo1 demo_cenv 110] flow demo_rowA_snap(2,3) native_uuids
    by auto
  have "takes (c_snapshot q) (jsort demo_snapA)" using q(3) by (simp add: takes_def)
  then show ?thesis using c1 taken q(1,2) by (metis (no_types, lifting))
qed

end
