(* ===== verification/Py_Net.thy ===== *)
theory Py_Net
  imports Py_Text
begin

text \<open>
  Addresses and URLs as Python 3.11 reads them: \<open>ipaddress.ip_address\<close> and \<open>urllib.parse.urlsplit\<close>,
  \<open>urlparse\<close> with the attributes of their results. Whether a host outside ASCII is harmless under NFKC
  normalization is the argument \<open>nfkc\<close>.
\<close>

section \<open>Cutting strings\<close>

text \<open>\<open>s.partition(c)\<close> and \<open>s.rpartition(c)\<close>: the text before and after the separator, and whether there is
  one.\<close>

definition partition_at :: "char \<Rightarrow> string \<Rightarrow> string \<times> bool \<times> string" where
  "partition_at c s = (takeWhile (\<lambda>x. x \<noteq> c) s, c \<in> set s, drop 1 (dropWhile (\<lambda>x. x \<noteq> c) s))"

definition rpartition_at :: "char \<Rightarrow> string \<Rightarrow> string \<times> bool \<times> string" where
  "rpartition_at c s = (if c \<in> set s then (rev (drop 1 (dropWhile (\<lambda>x. x \<noteq> c) (rev s))), True, rev (takeWhile (\<lambda>x. x \<noteq> c) (rev s)))
     else ([], False, s))"

fun split_on :: "char \<Rightarrow> string \<Rightarrow> string list" where
  "split_on c [] = [[]]"
| "split_on c (x # s) = (if x = c then [] # split_on c s else (case split_on c s of [] \<Rightarrow> [[x]] | y # ys \<Rightarrow> (x # y) # ys))"

section \<open>Addresses\<close>

datatype ip_addr = IPv4Address int | IPv6Address int

definition decimal :: "string \<Rightarrow> int" where
  "decimal s = fold (\<lambda>c n. n * 10 + (of_char c - 48)) s 0"

definition parse_octet :: "string \<Rightarrow> int option" where
  "parse_octet s = (if s = [] \<or> \<not> list_all is_digit s \<or> length s > 3 \<or> (s \<noteq> ''0'' \<and> hd s = CHR ''0'') \<or> decimal s > 255
     then None else Some (decimal s))"

definition parse_ipv4 :: "string \<Rightarrow> int option" where
  "parse_ipv4 s =
     (case map parse_octet (split_on (CHR ''.'') s) of
        [Some a, Some b, Some c, Some d] \<Rightarrow> Some (((a * 256 + b) * 256 + c) * 256 + d)
      | _ \<Rightarrow> None)"

definition parse_hextet :: "string \<Rightarrow> int option" where
  "parse_hextet s = (if s = [] \<or> length s > 4 \<or> \<not> list_all is_hex s then None
     else Some (fold (\<lambda>c n. n * 16 + int (the (hex_val c))) s 0))"

text \<open>The hextets of an IPv6 text as values; a dotted last part stands for two. An empty part is kept as
  \<open>None\<close>: it is allowed at the gap and beside it.\<close>

definition ipv6_parts :: "string list \<Rightarrow> int option list option" where
  "ipv6_parts ps =
     (let hextets = (\<lambda>qs. if list_all (\<lambda>q. q = [] \<or> parse_hextet q \<noteq> None) qs then Some (map parse_hextet qs) else None) in
      if CHR ''.'' \<in> set (last ps)
      then (case parse_ipv4 (last ps) of
         None \<Rightarrow> None
       | Some n \<Rightarrow> map_option (\<lambda>xs. xs @ [Some (n div 65536), Some (n mod 65536)]) (hextets (butlast ps)))
      else hextets ps)"

definition join_hextets :: "int option list \<Rightarrow> int option" where
  "join_hextets xs = (if None \<in> set xs then None else Some (fold (\<lambda>x n. n * 65536 + the x) xs 0))"

text \<open>Where the gap is: the inner empty parts.\<close>

definition gaps :: "int option list \<Rightarrow> nat list" where
  "gaps xs = filter (\<lambda>i. 0 < i \<and> i < length xs - 1 \<and> xs ! i = None) [0..<length xs]"

definition ipv6_int :: "int option list \<Rightarrow> int option" where
  "ipv6_int xs =
     (if length xs > 9 then None
      else case gaps xs of
        [] \<Rightarrow> if length xs = 8 then join_hextets xs else None
      | [i] \<Rightarrow>
          (let hi = take i xs; lo = drop (i + 1) xs;
               hi1 = (if hd xs = None then tl hi else hi); lo1 = (if last xs = None then butlast lo else lo) in
           if (hd xs = None \<and> hi1 \<noteq> []) \<or> (last xs = None \<and> lo1 \<noteq> []) \<or> length hi1 + length lo1 > 7 then None
           else join_hextets (hi1 @ replicate (8 - length hi1 - length lo1) (Some 0) @ lo1))
      | _ \<Rightarrow> None)"

definition parse_ipv6 :: "string \<Rightarrow> int option" where
  "parse_ipv6 s =
     (let (addr, scoped, zone) = partition_at (CHR ''%'') s; ps = split_on (CHR '':'') addr in
      if scoped \<and> (zone = [] \<or> CHR ''%'' \<in> set zone) then None
      else if length ps < 3 then None
      else case ipv6_parts ps of None \<Rightarrow> None | Some xs \<Rightarrow> ipv6_int xs)"

definition ip_address :: "string \<Rightarrow> ip_addr option" where
  "ip_address s =
     (if CHR ''/'' \<in> set s then None
      else case parse_ipv4 s of
        Some n \<Rightarrow> Some (IPv4Address n)
      | None \<Rightarrow> map_option IPv6Address (parse_ipv6 s))"

fun is_loopback :: "ip_addr \<Rightarrow> bool" where
  "is_loopback (IPv4Address n) \<longleftrightarrow> n div 16777216 = 127"
| "is_loopback (IPv6Address n) \<longleftrightarrow> n = 1"

lemma ip_examples:
  "ip_address ''127.0.0.1'' = Some (IPv4Address 2130706433)" "ip_address ''::1'' = Some (IPv6Address 1)" "ip_address ''01.2.3.4'' = None"
  "ip_address ''1::2::3'' = None" "ip_address ''::ffff:1.2.3.4%eth0'' \<noteq> None" "ip_address '':1:2:3:4:5:6:7'' = None" "ip_address ''::'' = Some (IPv6Address 0)"
  by code_simp+

section \<open>URLs\<close>

record split_url =
  u_scheme :: string
  u_netloc :: string
  u_path :: string
  u_query :: string
  u_fragment :: string

definition is_alpha :: "char \<Rightarrow> bool" where
  "is_alpha c \<longleftrightarrow> (let n = (of_char c :: nat) in 65 \<le> n \<and> n \<le> 90 \<or> 97 \<le> n \<and> n \<le> 122)"

definition scheme_char :: "char \<Rightarrow> bool" where
  "scheme_char c \<longleftrightarrow> is_alpha c \<or> is_digit c \<or> c \<in> {CHR ''+'', CHR ''-'', CHR ''.''}"

definition split_scheme :: "string \<Rightarrow> string \<times> string" where
  "split_scheme url =
     (let (s, found, rest) = partition_at (CHR '':'') url in
      if found \<and> s \<noteq> [] \<and> is_alpha (hd s) \<and> list_all scheme_char s then (lower s, rest) else ([], url))"

text \<open>\<open>re.match(r"\Av[a-fA-F0-9]+\..+\Z")\<close>, or an IPv6 address.\<close>

definition bracketed_ok :: "string \<Rightarrow> bool" where
  "bracketed_ok h =
     (if starts_with ''v'' h
      then (let (a, dot, b) = partition_at (CHR ''.'') (tl h) in dot \<and> a \<noteq> [] \<and> list_all is_hex a \<and> b \<noteq> [])
      else (case ip_address h of Some (IPv6Address _) \<Rightarrow> True | _ \<Rightarrow> False))"

definition netloc_ok :: "(string \<Rightarrow> bool) \<Rightarrow> string \<Rightarrow> bool" where
  "netloc_ok nfkc n \<longleftrightarrow>
     (CHR ''['' \<in> set n \<longleftrightarrow> CHR '']'' \<in> set n) \<and>
     (CHR ''['' \<in> set n \<longrightarrow> bracketed_ok (fst (partition_at (CHR '']'') (snd (snd (partition_at (CHR ''['') n)))))) \<and>
     (list_all (\<lambda>c. (of_char c :: nat) < 128) n \<or> nfkc n)"

definition urlsplit :: "(string \<Rightarrow> bool) \<Rightarrow> string \<Rightarrow> exn + split_url" where
  "urlsplit nfkc url0 =
     (let url1 = filter (\<lambda>c. c \<notin> {CHR 0x09, CHR 0x0D, CHR 0x0A}) (dropWhile (\<lambda>c. (of_char c :: nat) \<le> 32) url0);
          (scheme, url2) = split_scheme url1;
          slashes = starts_with ''//'' url2;
          delim = (\<lambda>c. c \<in> {CHR ''/'', CHR ''?'', CHR ''#''});
          netloc = (if slashes then takeWhile (\<lambda>c. \<not> delim c) (drop 2 url2) else []);
          url3 = (if slashes then dropWhile (\<lambda>c. \<not> delim c) (drop 2 url2) else url2);
          (url4, _, fragment) = partition_at (CHR ''#'') url3;
          (path, _, query) = partition_at (CHR ''?'') url4
      in if netloc_ok nfkc netloc
         then Inr \<lparr>u_scheme = scheme, u_netloc = netloc, u_path = path, u_query = query, u_fragment = fragment\<rparr>
         else Inl (ValueError ''url''))"

definition uses_params :: "string list" where
  "uses_params = [[], ''ftp'', ''hdl'', ''prospero'', ''http'', ''imap'', ''https'', ''shttp'', ''rtsp'', ''rtsps'', ''rtspu'', ''sip'', ''sips'',
     ''mms'', ''sftp'', ''tel'']"

text \<open>\<open>_splitparams\<close>: parameters are cut off the last segment of the path.\<close>

definition without_params :: "string \<Rightarrow> string" where
  "without_params p =
     (let seg = rev (takeWhile (\<lambda>c. c \<noteq> CHR ''/'') (rev p)) in
      take (length p - length seg) p @ takeWhile (\<lambda>c. c \<noteq> CHR '';'') seg)"

definition urlparse :: "(string \<Rightarrow> bool) \<Rightarrow> string \<Rightarrow> exn + split_url" where
  "urlparse nfkc url = bind_r (urlsplit nfkc url) (\<lambda>u. Inr (if u_scheme u \<in> set uses_params then u\<lparr>u_path := without_params (u_path u)\<rparr> else u))"

definition userinfo :: "split_url \<Rightarrow> (string \<times> string option) option" where
  "userinfo u =
     (let (ui, found, _) = rpartition_at (CHR ''@'') (u_netloc u); (name, has_pw, pw) = partition_at (CHR '':'') ui in
      if found then Some (name, if has_pw then Some pw else None) else None)"

text \<open>Whether \<open>username or password\<close> is truthy.\<close>

definition has_credentials :: "split_url \<Rightarrow> bool" where
  "has_credentials u = (case userinfo u of None \<Rightarrow> False | Some (name, pw) \<Rightarrow> name \<noteq> [] \<or> (case pw of Some p \<Rightarrow> p \<noteq> [] | None \<Rightarrow> False))"

definition hostinfo :: "split_url \<Rightarrow> string \<times> string" where
  "hostinfo u =
     (let (_, _, hi) = rpartition_at (CHR ''@'') (u_netloc u); (_, open_br, br) = partition_at (CHR ''['') hi in
      if open_br then (let (h, _, r) = partition_at (CHR '']'') br in (h, snd (snd (partition_at (CHR '':'') r))))
      else (let (h, _, p) = partition_at (CHR '':'') hi in (h, p)))"

text \<open>\<open>hostname\<close>; the empty text stands for \<open>None\<close>, as both are treated alike.\<close>

definition hostname :: "split_url \<Rightarrow> string" where
  "hostname u = (let (h, pc, zone) = partition_at (CHR ''%'') (fst (hostinfo u)) in lower h @ (if pc then CHR ''%'' # zone else []))"

definition url_port :: "split_url \<Rightarrow> exn + int option" where
  "url_port u =
     (let p = snd (hostinfo u) in
      if p = [] then Inr None
      else if \<not> list_all is_digit p \<or> decimal p > 65535 then Inl (ValueError ''port'')
      else Inr (Some (decimal p)))"

end
