(* ===== verification/Gateway_Settings.thy ===== *)
theory Gateway_Settings
  imports Py_Net A2A_Protocol
begin

text \<open>
  The validation of settings (\<open>settings.py\<close>, \<open>broker_settings.py\<close>, \<open>client_settings.py\<close>, \<open>SSHConfig\<close> in
  \<open>ssh_tunnel.py\<close>) and the discovery of the peer's agent card (\<open>A2AClient.discover\<close>), which must stay on the
  loopback interface. Whether a text is a Fernet key is the argument \<open>fernet_key\<close>; a float setting is its
  value, \<open>None\<close> when it is not finite.
\<close>

section \<open>Loopback peers\<close>

definition is_loopback_url :: "(string \<Rightarrow> bool) \<Rightarrow> string \<Rightarrow> bool" where
  "is_loopback_url nfkc s =
     (case urlparse nfkc s of
        Inl _ \<Rightarrow> False
      | Inr u \<Rightarrow>
          if u_scheme u \<notin> {''http'', ''https''} \<or> hostname u = [] then False
          else if has_credentials u \<or> u_query u \<noteq> [] \<or> u_fragment u \<noteq> [] then False
          else (case url_port u of
             Inl _ \<Rightarrow> False
           | Inr _ \<Rightarrow> lower (hostname u) = ''localhost'' \<or> (case ip_address (hostname u) of Some a \<Rightarrow> is_loopback a | None \<Rightarrow> False)))"

definition rstrip_slash :: "string \<Rightarrow> string" where
  "rstrip_slash = rstrip_chars (\<lambda>c. c = CHR ''/'')"

definition peer_endpoint :: "(string \<Rightarrow> bool) \<Rightarrow> string \<Rightarrow> exn + string" where
  "peer_endpoint nfkc s =
     (let v = rstrip_slash (py_strip s) in
      if is_loopback_url nfkc v then Inr v
      else Inl (ValueError ''Hermes A2A endpoint must be loopback without credentials, query or fragment''))"

definition card_url :: "string \<Rightarrow> string" where
  "card_url endpoint = endpoint @ ''/.well-known/agent-card.json''"

definition legacy_card_url :: "string \<Rightarrow> string" where
  "legacy_card_url endpoint = endpoint @ ''/.well-known/agent.json''"

text \<open>What an \<open>A2AClient\<close> remembers of its peer.\<close>

record peer_link =
  l_card :: "json option"
  l_rpc_url :: string
  l_tenant :: string

definition new_link :: "string \<Rightarrow> peer_link" where
  "new_link endpoint = \<lparr>l_card = None, l_rpc_url = endpoint @ ''/'', l_tenant = []\<rparr>"

text \<open>The first JSON-RPC interface with an address, or \<open>JNull\<close>.\<close>

fun select_interface :: "json list \<Rightarrow> json" where
  "select_interface [] = JNull"
| "select_interface (i # is) =
     (if is_obj i \<and> jget i ''protocolBinding'' = JStr ''JSONRPC'' \<and> truthy (jget i ''url'') then i else select_interface is)"

definition unsafe_card :: "string \<Rightarrow> exn" where
  "unsafe_card m = A2AError ''unsafe_agent_card'' m False JNull"

definition select_link :: "(string \<Rightarrow> bool) \<Rightarrow> string \<Rightarrow> json \<Rightarrow> exn + peer_link" where
  "select_link nfkc endpoint agent =
     bind_r (py_iter (py_or (jget agent ''supportedInterfaces'') (JList []))) (\<lambda>ifaces.
       let sel = select_interface ifaces;
           candidate = py_strip (py_str (py_or (jget sel ''url'') (py_or (jget agent ''url'') (JStr endpoint)))) in
       if \<not> is_loopback_url nfkc candidate then Inl (unsafe_card ''Hermes Agent Card advertised a non-loopback RPC URL'')
       else bind_r (urlparse nfkc candidate) (\<lambda>parsed. bind_r (urlparse nfkc endpoint) (\<lambda>expected.
         if hostname parsed \<notin> {hostname expected, ''localhost'', ''127.0.0.1'', ''::1''}
         then Inl (unsafe_card ''Hermes Agent Card changed the loopback host'')
         else Inr \<lparr>l_card = Some agent, l_rpc_url = rstrip_slash candidate @ ''/'',
                   l_tenant = py_str (py_or (jget sel ''tenant'') (JStr []))\<rparr>)))"

text \<open>The card is fetched once; the legacy address is tried only when the first is not found.\<close>

definition fetch_card :: "(nat \<Rightarrow> http_reply) \<Rightarrow> (nat \<Rightarrow> http_reply) \<Rightarrow> exn + json" where
  "fetch_card card_reply legacy_reply =
     (case fst (get_json card_reply 0 3) of
        Inr v \<Rightarrow> Inr v
      | Inl (A2AError c m rt rc) \<Rightarrow>
          if c \<noteq> ''a2a_not_found'' then Inl (A2AError c m rt rc) else fst (get_json legacy_reply 0 3)
      | Inl e \<Rightarrow> Inl e)"

definition discover :: "(string \<Rightarrow> bool) \<Rightarrow> string \<Rightarrow> bool \<Rightarrow> (nat \<Rightarrow> http_reply) \<Rightarrow> (nat \<Rightarrow> http_reply) \<Rightarrow> peer_link
    \<Rightarrow> (exn + json) \<times> peer_link" where
  "discover nfkc endpoint refresh card_reply legacy_reply link =
     (case (if refresh then None else l_card link) of
        Some agent \<Rightarrow> (Inr agent, link)
      | None \<Rightarrow>
          (case bind_r (fetch_card card_reply legacy_reply) (\<lambda>agent. bind_r (select_link nfkc endpoint agent) (\<lambda>l. Inr (agent, l))) of
             Inl e \<Rightarrow> (Inl e, link)
           | Inr (agent, l) \<Rightarrow> (Inr agent, l)))"

section \<open>The broker's settings\<close>

record broker_config =
  b_database_url :: string
  b_device_tokens :: "(string \<times> string) list"
  b_encryption_key :: string
  b_public_url :: string
  b_host :: string
  b_allow_loopback_http :: bool

definition host_url :: "string \<Rightarrow> string" where
  "host_url h = ''http://'' @ (if CHR '':'' \<in> set h then ''['' @ h @ '']'' else h)"

definition validate_policy :: "(string \<Rightarrow> bool) \<Rightarrow> (string \<Rightarrow> bool) \<Rightarrow> broker_config \<Rightarrow> exn + unit" where
  "validate_policy nfkc fernet_key b =
     bind_r (raise_if (b_database_url b = [] \<or> b_device_tokens b = []) (ValueError ''PostgreSQL and device credentials are required'')) (\<lambda>_.
     bind_r (raise_if (list_ex (\<lambda>(k, v). k = [] \<or> py_len k > 128 \<or> v = [] \<or> py_len v < 32) (b_device_tokens b))
       (ValueError ''device IDs must be bounded and tokens must contain at least 32 characters'')) (\<lambda>_.
     bind_r (raise_if (\<not> distinct (map snd (b_device_tokens b))) (ValueError ''each device requires a distinct token'')) (\<lambda>_.
     bind_r (raise_if (\<not> fernet_key (b_encryption_key b)) (ValueError ''ENCRYPTION_KEY must be a Fernet key'')) (\<lambda>_.
     bind_r (raise_if (b_allow_loopback_http b \<and> \<not> (is_loopback_url nfkc (host_url (b_host b)) \<and> is_loopback_url nfkc (b_public_url b)))
       (ValueError ''ALLOW_LOOPBACK_HTTP requires a loopback bind and public URL'')) (\<lambda>_.
     bind_r (urlparse nfkc (b_public_url b)) (\<lambda>u.
     bind_r (raise_if (hostname u = [] \<or> has_credentials u \<or> u_query u \<noteq> [] \<or> u_fragment u \<noteq> []) (ValueError ''PUBLIC_URL must be an HTTPS origin'')) (\<lambda>_.
     bind_r (raise_if (u_path u \<notin> {[], ''/''}) (ValueError ''PUBLIC_URL must be an origin without a path'')) (\<lambda>_.
       raise_if (u_scheme u \<noteq> ''https'' \<and> \<not> (u_scheme u = ''http'' \<and> b_allow_loopback_http b \<and> is_loopback_url nfkc (b_public_url b)
           \<and> is_loopback_url nfkc (host_url (b_host b))))
         (ValueError ''HTTPS is required except explicit loopback development'')))))))))"

section \<open>SSH settings\<close>

definition alnum :: "char \<Rightarrow> bool" where
  "alnum c \<longleftrightarrow> is_alpha c \<or> is_digit c"

text \<open>\<open>re.fullmatch(r"[A-Za-z0-9](?:[A-Za-z0-9._-]*[A-Za-z0-9])?")\<close>.\<close>

definition host_name :: "string \<Rightarrow> bool" where
  "host_name s \<longleftrightarrow> s \<noteq> [] \<and> alnum (hd s) \<and> alnum (last s) \<and> list_all (\<lambda>c. alnum c \<or> c \<in> {CHR ''.'', CHR ''_'', CHR ''-''}) s"

definition valid_host :: "string \<Rightarrow> bool" where
  "valid_host s \<longleftrightarrow> s \<noteq> [] \<and> py_len s \<le> 253 \<and> (ip_address s \<noteq> None \<or> host_name s)"

definition valid_user :: "string \<Rightarrow> bool" where
  "valid_user s \<longleftrightarrow> s \<noteq> [] \<and> length s \<le> 64 \<and> (alnum (hd s) \<or> hd s = CHR ''_'') \<and>
     list_all (\<lambda>c. alnum c \<or> c \<in> {CHR ''_'', CHR ''.'', CHR ''-''}) s"

record ssh_config =
  s_host :: string
  s_local_port :: int
  s_remote_host :: string
  s_remote_port :: int
  s_user :: "string option"
  s_port :: "int option"
  s_identity_file :: "string option"
  s_command :: string
  s_connect_timeout :: int

definition no_breaks :: "string \<Rightarrow> bool" where
  "no_breaks s \<longleftrightarrow> CHR 0x0D \<notin> set s \<and> CHR 0x0A \<notin> set s \<and> CHR 0x00 \<notin> set s"

definition check_port :: "string \<Rightarrow> int option \<Rightarrow> int \<Rightarrow> exn + unit" where
  "check_port name v minimum = raise_if (case v of None \<Rightarrow> False | Some n \<Rightarrow> \<not> (minimum \<le> n \<and> n \<le> 65535))
     (ValueError (name @ '' is outside the supported port range''))"

definition check_ssh :: "ssh_config \<Rightarrow> exn + unit" where
  "check_ssh c =
     bind_r (raise_if (\<not> valid_host (s_host c) \<or> \<not> valid_host (s_remote_host c))
       (ValueError ''SSH_HOST and SSH_REMOTE_HOST must be hostnames, addresses, or a configured SSH alias'')) (\<lambda>_.
     bind_r (raise_if (case s_user c of None \<Rightarrow> False | Some u \<Rightarrow> \<not> valid_user u) (ValueError ''SSH_USER must be an SSH account name'')) (\<lambda>_.
     bind_r (check_port ''SSH_LOCAL_PORT'' (Some (s_local_port c)) 1024) (\<lambda>_.
     bind_r (check_port ''SSH_REMOTE_PORT'' (Some (s_remote_port c)) 1) (\<lambda>_.
     bind_r (check_port ''SSH_PORT'' (s_port c) 1) (\<lambda>_.
     bind_r (raise_if (\<not> (1 \<le> s_connect_timeout c \<and> s_connect_timeout c \<le> 60))
       (ValueError ''SSH_CONNECT_TIMEOUT_SECONDS must be an integer from 1 to 60'')) (\<lambda>_.
     bind_r (raise_if (s_command c = [] \<or> starts_with ''-'' (s_command c) \<or> \<not> no_breaks (s_command c))
       (ValueError ''SSH_COMMAND must name one executable, without command arguments'')) (\<lambda>_.
       raise_if (case s_identity_file c of None \<Rightarrow> False | Some f \<Rightarrow> f = [] \<or> \<not> no_breaks f)
         (ValueError ''SSH_IDENTITY_FILE must be a valid local key path''))))))))"

section \<open>The client's settings\<close>

record client_config =
  k_broker_url :: string
  k_token :: string
  k_payload_key :: string
  k_allow_loopback_http :: bool
  k_inline_wait_seconds :: "rat option"
  k_request_timeout_seconds :: "rat option"
  k_retention_seconds :: "rat option"
  k_payload_ttl_seconds :: "rat option"
  k_max_upload_bytes :: int
  k_max_pending :: int
  k_transport_mode :: string
  k_ssh_host :: "string option"
  k_ssh_user :: "string option"
  k_ssh_port :: "int option"
  k_ssh_identity_file :: "string option"
  k_ssh_command :: string
  k_ssh_local_port :: int
  k_ssh_remote_host :: string
  k_ssh_remote_port :: int
  k_ssh_tls_server_name :: "string option"
  k_ssh_connect_timeout_seconds :: int

definition ssh_config_of :: "client_config \<Rightarrow> exn + ssh_config" where
  "ssh_config_of k =
     (case k_ssh_host k of
        None \<Rightarrow> Inl (ValueError ''SSH_HOST is required in ssh-tunnel mode'')
      | Some h \<Rightarrow>
          let c = \<lparr>s_host = h, s_local_port = k_ssh_local_port k, s_remote_host = k_ssh_remote_host k, s_remote_port = k_ssh_remote_port k,
                   s_user = k_ssh_user k, s_port = k_ssh_port k, s_identity_file = k_ssh_identity_file k, s_command = k_ssh_command k,
                   s_connect_timeout = k_ssh_connect_timeout_seconds k\<rparr>
          in bind_r (check_ssh c) (\<lambda>_. Inr c))"

definition finite_positive :: "string \<Rightarrow> rat option \<Rightarrow> exn + unit" where
  "finite_positive name v = raise_if (case v of None \<Rightarrow> True | Some x \<Rightarrow> x \<le> 0) (ValueError (name @ '' must be finite and positive''))"

text \<open>The checks of the tunnel mode.\<close>

definition check_tunnel :: "client_config \<Rightarrow> split_url \<Rightarrow> exn + unit" where
  "check_tunnel k u =
     bind_r (if k_transport_mode k \<noteq> ''ssh-tunnel'' then Inr ()
       else bind_r (ssh_config_of k) (\<lambda>_.
         let bad = ValueError ''SSH tunnel BROKER_URL must be https://127.0.0.1:<SSH_LOCAL_PORT>'' in
         if u_scheme u \<noteq> ''https'' \<or> hostname u \<noteq> ''127.0.0.1'' then Inl bad
         else bind_r (url_port u) (\<lambda>p. raise_if (p \<noteq> Some (k_ssh_local_port k)) bad))) (\<lambda>_.
       raise_if (case k_ssh_tls_server_name k of None \<Rightarrow> False | Some n \<Rightarrow> k_transport_mode k \<noteq> ''ssh-tunnel'' \<or> \<not> valid_host n)
         (ValueError ''SSH_TLS_SERVER_NAME requires ssh-tunnel and a valid certificate hostname''))"

definition check_origin :: "client_config \<Rightarrow> split_url \<Rightarrow> exn + unit" where
  "check_origin k u =
     (let loopback = (case ip_address (hostname u) of Some a \<Rightarrow> is_loopback a | None \<Rightarrow> hostname u = ''localhost'') in
      bind_r (raise_if (hostname u = [] \<or> has_credentials u \<or> u_query u \<noteq> [] \<or> u_fragment u \<noteq> [])
        (ValueError ''BROKER_URL must be an origin without credentials, query or fragment'')) (\<lambda>_.
      bind_r (raise_if (u_path u \<notin> {[], ''/''}) (ValueError ''BROKER_URL must not contain a path'')) (\<lambda>_.
        raise_if (u_scheme u \<noteq> ''https'' \<and> \<not> (u_scheme u = ''http'' \<and> loopback \<and> k_allow_loopback_http k))
          (ValueError ''BROKER_URL requires HTTPS; HTTP is restricted to explicit loopback development''))))"

definition check_client :: "(string \<Rightarrow> bool) \<Rightarrow> (string \<Rightarrow> bool) \<Rightarrow> client_config \<Rightarrow> exn + unit" where
  "check_client nfkc fernet_key k =
     bind_r (raise_if (k_transport_mode k \<notin> {''direct'', ''ssh-tunnel''}) (ValueError ''TRANSPORT_MODE must be direct or ssh-tunnel'')) (\<lambda>_.
     bind_r (urlsplit nfkc (k_broker_url k)) (\<lambda>u.
     bind_r (check_tunnel k u) (\<lambda>_.
     bind_r (check_origin k u) (\<lambda>_.
     bind_r (raise_if (k_token k = [] \<or> CHR 0x0A \<in> set (k_token k) \<or> CHR 0x0D \<in> set (k_token k))
       (ValueError ''CLIENT_TOKEN is required and must be a valid bearer token'')) (\<lambda>_.
     bind_r (raise_if (\<not> fernet_key (k_payload_key k)) (ValueError ''CLIENT_PAYLOAD_KEY must be an environment-provided Fernet key'')) (\<lambda>_.
     bind_r (finite_positive ''request_timeout_seconds'' (k_request_timeout_seconds k)) (\<lambda>_.
     bind_r (finite_positive ''retention_seconds'' (k_retention_seconds k)) (\<lambda>_.
     bind_r (finite_positive ''payload_ttl_seconds'' (k_payload_ttl_seconds k)) (\<lambda>_.
     bind_r (raise_if (case k_inline_wait_seconds k of None \<Rightarrow> True | Some x \<Rightarrow> \<not> (0 \<le> x \<and> x \<le> 60))
       (ValueError ''INLINE_WAIT_SECONDS must be finite and between 0 and 60'')) (\<lambda>_.
     bind_r (raise_if (case k_request_timeout_seconds k of None \<Rightarrow> False | Some x \<Rightarrow> x > 300)
       (ValueError ''client wait or request timeout exceeds limit'')) (\<lambda>_.
       raise_if (\<not> (1 \<le> k_max_upload_bytes k \<and> k_max_upload_bytes k \<le> 33554432) \<or> \<not> (1 \<le> k_max_pending k \<and> k_max_pending k \<le> 10000))
         (ValueError ''invalid client upload or admission bound''))))))))))))"

end
