(* ===== verification/Ssh_Tunnel.thy ===== *)
theory Ssh_Tunnel
  imports Gateway_Settings
begin

text \<open>
  The client's own SSH process, \<open>ssh_tunnel.py\<close>: the command line, the classification of failures and the
  supervisor. What the process, the socket and the clock do is given to the supervisor as observations; its
  functions return the states of the tunnel others can see on the way, and the last one. Signals to the
  process and its children, and the tracking of children on macOS, are part of \<open>cleanup\<close>, after which the
  process is gone.
\<close>

section \<open>The command line\<close>

definition ssh_options :: "ssh_config \<Rightarrow> (string \<times> string) list" where
  "ssh_options c = [(''LogLevel'', ''DEBUG1''), (''BatchMode'', ''yes''), (''StrictHostKeyChecking'', ''yes''), (''ExitOnForwardFailure'', ''yes''),
     (''ConnectTimeout'', dec_int (s_connect_timeout c)), (''ConnectionAttempts'', ''1''), (''ServerAliveInterval'', ''15''),
     (''ServerAliveCountMax'', ''3''), (''ControlMaster'', ''no''), (''ControlPath'', ''none''), (''ControlPersist'', ''no''),
     (''ForkAfterAuthentication'', ''no''), (''PermitLocalCommand'', ''no''), (''GatewayPorts'', ''no''), (''ForwardAgent'', ''no''),
     (''ForwardX11'', ''no'')]"

definition forward_spec :: "ssh_config \<Rightarrow> string" where
  "forward_spec c =
     (let remote = (if CHR '':'' \<in> set (s_remote_host c) then ''['' @ s_remote_host c @ '']'' else s_remote_host c) in
      ''127.0.0.1:'' @ dec_int (s_local_port c) @ '':'' @ remote @ '':'' @ dec_int (s_remote_port c))"

definition argv :: "(string \<Rightarrow> string) \<Rightarrow> bool \<Rightarrow> ssh_config \<Rightarrow> string list" where
  "argv expand inspect c =
     [s_command c, ''-N'', ''-T'', ''-n''] @ concat (map (\<lambda>(k, v). [''-o'', k @ ''='' @ v]) (ssh_options c))
     @ (case s_port c of Some p \<Rightarrow> [''-p'', dec_int p] | None \<Rightarrow> [])
     @ (case s_user c of Some u \<Rightarrow> if u = [] then [] else [''-l'', u] | None \<Rightarrow> [])
     @ (case s_identity_file c of Some f \<Rightarrow> if f = [] then [] else [''-i'', expand f, ''-o'', ''IdentitiesOnly=yes''] | None \<Rightarrow> [])
     @ (if inspect then [''-G''] else [''-L'', forward_spec c])
     @ [''--'', s_host c]"

text \<open>The environment the process gets.\<close>

definition environment :: "(string \<times> string) list \<Rightarrow> (string \<times> string) list" where
  "environment = filter (\<lambda>(k, _). \<not> list_ex (\<lambda>p. starts_with p k) [''CODEX_A2A_GATEWAY_'', ''HERMES_A2A_GATEWAY_'', ''CODEX_BRIDGE_'', ''HERMES_BRIDGE_'']
     \<and> k \<notin> {''HERMES_A2A_TOKEN'', ''A2A_GATEWAY_TOKEN''})"

section \<open>Failures\<close>

datatype failure = TunnelFailure (f_code: string) (f_retryable: bool) | OSFailure

definition fatal_markers :: "(string \<times> string list) list" where
  "fatal_markers =
     [(''ssh_host_key_failed'', [''host key verification failed'', ''remote host identification has changed'', ''no matching host key type'',
         ''offending'', ''host key is known'']),
      (''ssh_authentication_failed'', [''permission denied'', ''authentication failed'', ''too many authentication failures'',
         ''no supported authentication methods'']),
      (''ssh_local_port_in_use'', [''address already in use'', ''cannot listen to port'', ''could not request local forwarding'']),
      (''ssh_configuration_failed'', [''bad configuration'', ''bad configuration option'', ''unknown option'', ''invalid port'', ''bad port'',
         ''no such identity'', ''bad owner''])]"

definition network_markers :: "string list" where
  "network_markers = [''connection refused'', ''connection timed out'', ''operation timed out'', ''no route to host'', ''network is unreachable'',
     ''connection reset'', ''broken pipe'', ''connection closed'', ''closed by remote host'', ''could not resolve hostname'',
     ''temporary failure'', ''server not responding'', ''timeout, server'']"

definition classify_failure :: "bytes \<Rightarrow> int \<Rightarrow> failure" where
  "classify_failure stderr rc =
     (let text = lower stderr; mentions = list_ex (\<lambda>m. contains m text) in
      if contains ''identity file'' text \<and> contains ''not accessible'' text then TunnelFailure ''ssh_identity_file_unavailable'' False
      else case filter (\<lambda>(_, ms). mentions ms) fatal_markers of
        (c, _) # _ \<Rightarrow> TunnelFailure c False
      | [] \<Rightarrow>
          if rc < 0 then TunnelFailure ''ssh_process_exited'' True
          else if rc = 0 \<or> mentions network_markers then TunnelFailure ''ssh_network_unavailable'' True
          else TunnelFailure ''ssh_failed'' False)"

section \<open>The tunnel\<close>

record tunnel =
  tn_state :: string
  tn_error :: "string option"
  tn_attempts :: nat
  tn_retry_at :: "rat option"
  tn_generation :: nat
  tn_ready :: bool
  tn_owned :: bool
  tn_alive :: bool
  tn_stderr :: bytes
  tn_confirmed :: bool
  tn_ready_since :: "rat option"

definition new_tunnel :: tunnel where
  "new_tunnel = \<lparr>tn_state = ''stopped'', tn_error = None, tn_attempts = 0, tn_retry_at = None, tn_generation = 0, tn_ready = False,
     tn_owned = False, tn_alive = False, tn_stderr = [], tn_confirmed = False, tn_ready_since = None\<rparr>"

definition available :: "tunnel \<Rightarrow> bool" where
  "available t \<longleftrightarrow> tn_ready t \<and> tn_owned t \<and> tn_alive t"

definition cleanup :: "tunnel \<Rightarrow> tunnel" where
  "cleanup t = t\<lparr>tn_ready := False, tn_owned := False, tn_alive := False\<rparr>"

definition spawned :: "tunnel \<Rightarrow> tunnel" where
  "spawned t = t\<lparr>tn_owned := True, tn_alive := True\<rparr>"

definition confirmation :: "ssh_config \<Rightarrow> string" where
  "confirmation c = ''Local forwarding listening on 127.0.0.1 port '' @ dec_int (s_local_port c) @ ''.''"

text \<open>One chunk of standard error; only its last part is kept.\<close>

definition read_stderr :: "ssh_config \<Rightarrow> bytes \<Rightarrow> tunnel \<Rightarrow> tunnel" where
  "read_stderr c chunk t =
     (let buf = tn_stderr t @ chunk in
      t\<lparr>tn_stderr := drop (nat (int (length buf) - 16384)) buf, tn_confirmed := (tn_confirmed t \<or> contains (confirmation c) buf)\<rparr>)"

subsection \<open>Inspecting the configuration\<close>

text \<open>Whether the identity file exists and the process could be started, the lines of its output and whether
  reading them then took too long, its standard error and its exit code.\<close>

record inspect_obs =
  io_identity :: bool
  io_spawn :: bool
  io_lines :: "bytes list"
  io_slow :: bool
  io_stderr :: "bytes list"
  io_code :: int

fun inspect_lines :: "int \<Rightarrow> bytes list \<Rightarrow> string option" where
  "inspect_lines n [] = None"
| "inspect_lines n (l # ls) =
     (if n + int (length l) > 262144 then Some ''ssh_configuration_failed''
      else if lower (takeWhile (\<lambda>c. c \<noteq> CHR '' '') l) \<in> {''localforward'', ''remoteforward'', ''dynamicforward''}
      then Some ''ssh_configured_forwarding_not_allowed''
      else inspect_lines (n + int (length l)) ls)"

definition inspect_configuration :: "ssh_config \<Rightarrow> inspect_obs \<Rightarrow> tunnel \<Rightarrow> failure option \<times> tunnel list \<times> tunnel" where
  "inspect_configuration c ob t =
     (if s_identity_file c \<notin> {None, Some []} \<and> \<not> io_identity ob then (Some (TunnelFailure ''ssh_identity_file_unavailable'' False), [], t)
      else if \<not> io_spawn ob then (Some OSFailure, [], t)
      else
        let t1 = fold (read_stderr c) (io_stderr ob) ((spawned t)\<lparr>tn_stderr := []\<rparr>);
            result = (case inspect_lines 0 (io_lines ob) of
               Some e \<Rightarrow> Some (TunnelFailure e False)
             | None \<Rightarrow>
                 if io_slow ob then Some (TunnelFailure ''ssh_configuration_failed'' False)
                 else if io_code ob \<noteq> 0 then Some (classify_failure (tn_stderr t1) (io_code ob))
                 else None)
        in (result, [t1], cleanup t1))"

subsection \<open>Connecting\<close>

text \<open>A turn of the loop that waits for the listener: what was read from standard error meanwhile, whether a
  connection was accepted, whether the process still ran after it.\<close>

datatype poll = Poll (p_chunks: "bytes list") (p_connected: bool) (p_alive: bool)

record connect_obs =
  co_bind :: bool
  co_spawn :: bool
  co_polls :: "poll list"
  co_ready_at :: rat
  co_deadline :: bool
  co_code :: int
  co_stderr :: "bytes list"

fun connect_loop :: "ssh_config \<Rightarrow> rat \<Rightarrow> poll list \<Rightarrow> tunnel \<Rightarrow> tunnel list \<times> tunnel" where
  "connect_loop c now [] t = ([], t)"
| "connect_loop c now (p # ps) t =
     (let t1 = fold (read_stderr c) (p_chunks p) t in
      if p_connected p \<and> p_alive p \<and> tn_confirmed t1
      then (let t2 = t1\<lparr>tn_state := ''ready'', tn_error := None, tn_ready_since := Some now, tn_generation := Suc (tn_generation t1), tn_ready := True\<rparr>
            in ([t1, t2], t2))
      else (let (ts, t2) = connect_loop c now ps t1 in (t1 # ts, t2)))"

text \<open>\<open>connect\<close> always ends with a failure: when the process has exited with some code, or when it still runs at the
  deadline without having become ready.\<close>

definition connect :: "ssh_config \<Rightarrow> connect_obs \<Rightarrow> tunnel \<Rightarrow> failure \<times> tunnel list \<times> tunnel" where
  "connect c ob t =
     (let t0 = t\<lparr>tn_ready_since := None\<rparr> in
      if \<not> co_bind ob then (TunnelFailure ''ssh_local_port_in_use'' False, [], t0)
      else
        let t1 = t0\<lparr>tn_stderr := [], tn_confirmed := False\<rparr> in
        if \<not> co_spawn ob then (OSFailure, [], t1)
        else
          let (ts, t2) = connect_loop c (co_ready_at ob) (co_polls ob) (spawned t1) in
          if \<not> tn_ready t2 \<and> co_deadline ob then (TunnelFailure ''ssh_startup_timeout'' True, spawned t1 # ts, t2)
          else
            let t3 = fold (read_stderr c) (co_stderr ob) (t2\<lparr>tn_alive := False\<rparr>)
            in (classify_failure (tn_stderr t3) (co_code ob), spawned t1 # ts @ [t3], t3))"

subsection \<open>The supervisor\<close>

definition retry_delay :: "rat \<Rightarrow> nat \<Rightarrow> rat" where
  "retry_delay jitter failures = min 30 (jitter * min 30 (2 ^ min (failures - 1) 5))"

definition failure_code :: "failure \<Rightarrow> string" where
  "failure_code f = (case f of TunnelFailure c _ \<Rightarrow> c | OSFailure \<Rightarrow> ''ssh_executable_unavailable'')"

definition retryable :: "failure \<Rightarrow> bool" where
  "retryable f = (case f of TunnelFailure _ r \<Rightarrow> r | OSFailure \<Rightarrow> False)"

definition give_up :: "failure \<Rightarrow> tunnel \<Rightarrow> tunnel" where
  "give_up f t = t\<lparr>tn_state := ''failed'', tn_error := Some (failure_code f)\<rparr>"

record attempt =
  at_inspect :: inspect_obs
  at_connect :: connect_obs
  at_now :: rat
  at_jitter :: rat

text \<open>The loop of \<open>_run\<close>, cut off when the observations end. The configuration is inspected again before every
  attempt but the first.\<close>

fun run_loop :: "ssh_config \<Rightarrow> nat \<Rightarrow> attempt list \<Rightarrow> tunnel \<Rightarrow> tunnel list \<times> tunnel" where
  "run_loop c failures [] t = ([], t)"
| "run_loop c failures (a # as) t =
     (let (bad, ts1, t1) = (if tn_attempts t > 0 then inspect_configuration c (at_inspect a) t else (None, [], t)) in
      case bad of
        Some f \<Rightarrow> (ts1 @ [give_up f t1], give_up f t1)
      | None \<Rightarrow>
          let t2 = t1\<lparr>tn_state := ''starting'', tn_retry_at := None, tn_attempts := Suc (tn_attempts t1)\<rparr>;
              (f, ts2, t3) = connect c (at_connect a) t2;
              t4 = (cleanup t3)\<lparr>tn_error := Some (failure_code f)\<rparr>
          in if \<not> retryable f then (ts1 @ t2 # ts2 @ [give_up f t4], give_up f t4)
             else
               let stable = (case tn_ready_since t4 of Some r \<Rightarrow> at_now a - r \<ge> 30 | None \<Rightarrow> False);
                   n = (if stable then 1 else Suc failures);
                   t5 = t4\<lparr>tn_state := ''backoff'', tn_retry_at := Some (at_now a + retry_delay (at_jitter a) n)\<rparr>;
                   (ts3, t6) = run_loop c n as t5
               in (ts1 @ t2 # ts2 @ t5 # ts3, t6))"

definition tunnel_run :: "ssh_config \<Rightarrow> inspect_obs \<Rightarrow> attempt list \<Rightarrow> tunnel \<Rightarrow> tunnel list \<times> tunnel" where
  "tunnel_run c first as t =
     (case inspect_configuration c first t of
        (Some f, ts, t1) \<Rightarrow> (ts @ [give_up f t1], cleanup (give_up f t1))
      | (None, ts, t1) \<Rightarrow> (let (ts2, t2) = run_loop c 0 as t1 in (ts @ ts2, cleanup t2)))"

definition tunnel_close :: "tunnel \<Rightarrow> tunnel" where
  "tunnel_close t = (cleanup t)\<lparr>tn_state := ''stopped'', tn_retry_at := None\<rparr>"

end
