(* ===== verification/Tunnel_Properties.thy ===== *)
theory Tunnel_Properties
  imports Ssh_Tunnel
begin

text \<open>
  The properties of the SSH supervisor and its command line, and of peer discovery: what is started, when the
  tunnel counts as available, how long it waits, and where the peer's requests go.
\<close>

declare split_paired_All [simp del] split_paired_Ex [simp del]

section \<open>The command line\<close>

text \<open>How OpenSSH reads its command line up to the host: options without and with a value.\<close>

fun getopt :: "string list \<Rightarrow> (string \<times> string) list \<times> string list" where
  "getopt [] = ([], [])"
| "getopt [x] = (if x \<in> {''-N'', ''-T'', ''-n'', ''-G''} then ([(x, [])], []) else if x = ''--'' then ([], []) else ([], [x]))"
| "getopt (x # y # r) =
     (if x \<in> {''-N'', ''-T'', ''-n'', ''-G''} then (let (os, h) = getopt (y # r) in ((x, []) # os, h))
      else if x \<in> {''-o'', ''-p'', ''-l'', ''-i'', ''-L''} then (let (os, h) = getopt r in ((x, y) # os, h))
      else if x = ''--'' then ([], y # r)
      else ([], x # y # r))"

lemma getopt_pairs: "getopt (concat (map (\<lambda>(k, v). [''-o'', f k v]) kvs) @ r) = (let (os, h) = getopt r in (map (\<lambda>(k, v). (''-o'', f k v)) kvs @ os, h))"
  by (induction kvs) (auto split: prod.splits)

lemma getopt_value:
  "x \<in> {''-o'', ''-p'', ''-l'', ''-i'', ''-L''} \<Longrightarrow> getopt ([x, y] @ r) = (let (os, h) = getopt r in ((x, y) # os, h))"
  by auto

lemma argv_read:
  "getopt (tl (argv expand inspect c)) =
     ([(''-N'', []), (''-T'', []), (''-n'', [])] @ map (\<lambda>(k, v). (''-o'', k @ ''='' @ v)) (ssh_options c)
      @ (case s_port c of Some p \<Rightarrow> [(''-p'', dec_int p)] | None \<Rightarrow> [])
      @ (case s_user c of Some u \<Rightarrow> if u = [] then [] else [(''-l'', u)] | None \<Rightarrow> [])
      @ (case s_identity_file c of Some f \<Rightarrow> if f = [] then [] else [(''-i'', expand f), (''-o'', ''IdentitiesOnly=yes'')] | None \<Rightarrow> [])
      @ (if inspect then [(''-G'', [])] else [(''-L'', forward_spec c)]), [s_host c])"
proof -
  let ?o = "concat (map (\<lambda>(k, v). [''-o'', k @ ''='' @ v]) (ssh_options c))"
  have "getopt (''-N'' # ''-T'' # ''-n'' # ?o @ r) = (let (os, h) = getopt (?o @ r) in ((''-N'', []) # (''-T'', []) # (''-n'', []) # os, h))" for r
    by (cases "?o @ r") (simp_all add: ssh_options_def split: prod.splits)
  then show ?thesis
    by (simp add: argv_def getopt_pairs [where f = "\<lambda>k v. k @ ''='' @ v", simplified] split: option.split)
qed

text \<open>C21: Whatever the settings are, OpenSSH reads from the command line exactly these options - no prompts, strict checking of host keys, no
  sharing of connections, nothing forwarded but what is asked for - the configured port, account and key as values of their own
  options, and, unless it only inspects its configuration, one forward that is bound to 127.0.0.1; the rest is the host alone. No setting is read
  as an option.\<close>

theorem ssh_reads_fixed_options:
  "getopt (tl (argv expand inspect c)) =
     ([(''-N'', []), (''-T'', []), (''-n'', []), (''-o'', ''LogLevel=DEBUG1''), (''-o'', ''BatchMode=yes''), (''-o'', ''StrictHostKeyChecking=yes''),
       (''-o'', ''ExitOnForwardFailure=yes''), (''-o'', ''ConnectTimeout='' @ dec_int (s_connect_timeout c)), (''-o'', ''ConnectionAttempts=1''),
       (''-o'', ''ServerAliveInterval=15''), (''-o'', ''ServerAliveCountMax=3''), (''-o'', ''ControlMaster=no''), (''-o'', ''ControlPath=none''),
       (''-o'', ''ControlPersist=no''), (''-o'', ''ForkAfterAuthentication=no''), (''-o'', ''PermitLocalCommand=no''), (''-o'', ''GatewayPorts=no''),
       (''-o'', ''ForwardAgent=no''), (''-o'', ''ForwardX11=no'')]
      @ (case s_port c of Some p \<Rightarrow> [(''-p'', dec_int p)] | None \<Rightarrow> [])
      @ (case s_user c of Some u \<Rightarrow> if u = [] then [] else [(''-l'', u)] | None \<Rightarrow> [])
      @ (case s_identity_file c of Some f \<Rightarrow> if f = [] then [] else [(''-i'', expand f), (''-o'', ''IdentitiesOnly=yes'')] | None \<Rightarrow> [])
      @ (if inspect then [(''-G'', [])]
         else [(''-L'', ''127.0.0.1:'' @ dec_int (s_local_port c) @ '':''
           @ (if CHR '':'' \<in> set (s_remote_host c) then ''['' @ s_remote_host c @ '']'' else s_remote_host c) @ '':'' @ dec_int (s_remote_port c))]), [s_host c])"
  by (simp add: argv_read ssh_options_def forward_spec_def)

section \<open>The supervisor\<close>

text \<open>What holds of every state of the tunnel that can be seen. Between attempts it owns no process.\<close>

definition tunnel_ok :: "tunnel \<Rightarrow> bool" where
  "tunnel_ok t \<longleftrightarrow> (tn_ready t \<longrightarrow> tn_state t = ''ready'' \<and> tn_owned t \<and> tn_confirmed t \<and> tn_error t = None) \<and> tn_generation t \<le> tn_attempts t"

definition idle :: "tunnel \<Rightarrow> bool" where
  "idle t \<longleftrightarrow> \<not> tn_ready t \<and> \<not> tn_owned t \<and> tn_generation t \<le> tn_attempts t"

lemma idle_ok: "idle t \<Longrightarrow> tunnel_ok t"
  by (simp add: idle_def tunnel_ok_def)

lemma read_stderr_fields [simp]:
  "tn_state (fold (read_stderr c) cs t) = tn_state t" "tn_ready (fold (read_stderr c) cs t) = tn_ready t"
  "tn_owned (fold (read_stderr c) cs t) = tn_owned t" "tn_error (fold (read_stderr c) cs t) = tn_error t"
  "tn_generation (fold (read_stderr c) cs t) = tn_generation t" "tn_attempts (fold (read_stderr c) cs t) = tn_attempts t"
  "tn_ready_since (fold (read_stderr c) cs t) = tn_ready_since t"
  by (induction cs arbitrary: t) (simp_all add: read_stderr_def Let_def)

lemma read_stderr_confirmed: "tn_confirmed t \<Longrightarrow> tn_confirmed (fold (read_stderr c) cs t)"
  by (induction cs arbitrary: t) (simp_all add: read_stderr_def Let_def)

lemma inspect_ok:
  assumes "idle t" "inspect_configuration c ob t = (f, ts, t1)"
  shows "list_all tunnel_ok ts" "idle t1" "tn_attempts t1 = tn_attempts t"
  using assms by (auto simp: inspect_configuration_def idle_def tunnel_ok_def spawned_def cleanup_def Let_def split: if_splits)

lemma connect_loop_ok:
  assumes "connect_loop c now ps t = (ts, t1)" "\<not> tn_ready t" "tn_owned t" "tn_generation t < tn_attempts t"
  shows "list_all tunnel_ok ts \<and> tunnel_ok t1 \<and> tn_attempts t1 = tn_attempts t"
  using assms
proof (induction ps arbitrary: t ts t1)
  case Nil
  then show ?case by (simp add: tunnel_ok_def)
next
  case (Cons p ps)
  let ?t = "fold (read_stderr c) (p_chunks p) t"
  show ?case
  proof (cases "p_connected p \<and> p_alive p \<and> tn_confirmed ?t")
    case True
    then show ?thesis using Cons.prems by (auto simp: tunnel_ok_def Let_def)
  next
    case False
    obtain us u where u: "connect_loop c now ps ?t = (us, u)" by (cases "connect_loop c now ps ?t")
    have "ts = ?t # us" "t1 = u" using Cons.prems(1) False u by (auto simp: Let_def)
    moreover have "list_all tunnel_ok us \<and> tunnel_ok u \<and> tn_attempts u = tn_attempts ?t"
      using Cons.IH [OF u] Cons.prems by simp
    moreover have "tunnel_ok ?t" using Cons.prems by (simp add: tunnel_ok_def)
    ultimately show ?thesis by simp
  qed
qed

lemma connect_ok:
  assumes "connect c ob t = (f, ts, t1)" "\<not> tn_ready t" "\<not> tn_owned t" "tn_generation t < tn_attempts t"
  shows "list_all tunnel_ok ts \<and> tunnel_ok t1 \<and> tn_attempts t1 = tn_attempts t"
proof (cases "co_bind ob \<and> co_spawn ob")
  case False
  then show ?thesis using assms by (auto simp: connect_def Let_def tunnel_ok_def split: if_splits)
next
  case True
  let ?t = "spawned (t\<lparr>tn_ready_since := None, tn_stderr := [], tn_confirmed := False\<rparr>)"
  obtain us u where u: "connect_loop c (co_ready_at ob) (co_polls ob) ?t = (us, u)" by (cases "connect_loop c (co_ready_at ob) (co_polls ob) ?t")
  have ok: "list_all tunnel_ok us \<and> tunnel_ok u \<and> tn_attempts u = tn_attempts ?t"
    using connect_loop_ok [OF u] assms by (simp add: spawned_def)
  have start: "tunnel_ok ?t" "tn_attempts ?t = tn_attempts t" using assms by (simp_all add: tunnel_ok_def spawned_def)
  have exit: "tunnel_ok (fold (read_stderr c) cs (u\<lparr>tn_alive := False\<rparr>))" for cs
    using ok read_stderr_confirmed [of "u\<lparr>tn_alive := False\<rparr>" c cs] by (auto simp: tunnel_ok_def)
  show ?thesis using assms(1) True u ok start exit by (auto simp: connect_def Let_def split: if_splits)
qed

lemma run_loop_ok:
  assumes "idle t" "run_loop c n as t = (ts, t1)"
  shows "list_all tunnel_ok ts \<and> idle t1"
  using assms
proof (induction as arbitrary: n t ts t1)
  case (Cons a as)
  obtain bad ts1 u1 where i: "(if tn_attempts t > 0 then inspect_configuration c (at_inspect a) t else (None, [], t)) = (bad, ts1, u1)"
    by (metis prod_cases3)
  have u1: "list_all tunnel_ok ts1" "idle u1" using i inspect_ok [OF Cons.prems(1)] Cons.prems(1) by (auto split: if_splits)
  have up: "idle (give_up f u)" if "idle u" for f u using that by (simp add: give_up_def idle_def)
  show ?case
  proof (cases bad)
    case (Some f)
    then show ?thesis using Cons.prems(2) i u1 up idle_ok by (auto simp: Let_def)
  next
    case None
    let ?u2 = "u1\<lparr>tn_state := ''starting'', tn_retry_at := None, tn_attempts := Suc (tn_attempts u1)\<rparr>"
    obtain f ts2 u3 where f: "connect c (at_connect a) ?u2 = (f, ts2, u3)" by (metis prod_cases3)
    have c: "list_all tunnel_ok ts2 \<and> tunnel_ok u3 \<and> tn_attempts u3 = tn_attempts ?u2"
      using connect_ok [OF f] u1(2) by (simp add: idle_def)
    let ?u4 = "(cleanup u3)\<lparr>tn_error := Some (failure_code f)\<rparr>"
    have u2: "tunnel_ok ?u2" using u1(2) by (simp add: idle_def tunnel_ok_def)
    have u4: "idle ?u4" using c by (simp add: idle_def tunnel_ok_def cleanup_def)
    show ?thesis
    proof (cases "retryable f")
      case False
      then show ?thesis using Cons.prems(2) i None f c u1 u2 up [OF u4, of f] idle_ok by (auto simp: Let_def)
    next
      case True
      let ?n = "if (case tn_ready_since ?u4 of Some r \<Rightarrow> at_now a - r \<ge> 30 | None \<Rightarrow> False) then 1 else Suc n"
      let ?u5 = "?u4\<lparr>tn_state := ''backoff'', tn_retry_at := Some (at_now a + retry_delay (at_jitter a) ?n)\<rparr>"
      obtain ts3 u6 where r: "run_loop c ?n as ?u5 = (ts3, u6)" by (cases "run_loop c ?n as ?u5")
      have u5: "idle ?u5" using u4 by (simp add: idle_def)
      have "ts = ts1 @ ?u2 # ts2 @ ?u5 # ts3" "t1 = u6" using Cons.prems(2) i None f r True by (auto simp: Let_def split: prod.splits)
      then show ?thesis using Cons.IH [OF u5 r] u1 u2 c idle_ok [OF u5] by simp
    qed
  qed
qed simp

text \<open>C20: The tunnel is available only over a process of its own that has confirmed its forward: in every state that can
  be seen while the supervisor runs, an available tunnel is in state \<open>ready\<close>, owns a live process that announced
  the listener, and carries no error. A generation is counted at most once per attempt. When the supervisor returns
  or is cancelled, no process is left.\<close>

theorem tunnel_available_owned:
  assumes "tunnel_run c first as new_tunnel = (ts, t)"
  shows "list_all (\<lambda>u. (available u \<longrightarrow> tn_state u = ''ready'' \<and> tn_owned u \<and> tn_alive u \<and> tn_confirmed u \<and> tn_error u = None)
      \<and> tn_generation u \<le> tn_attempts u) ts \<and> \<not> tn_owned t \<and> \<not> available t"
proof -
  have idle: "idle new_tunnel" by (simp add: idle_def new_tunnel_def)
  obtain bad ts1 u where i: "inspect_configuration c first new_tunnel = (bad, ts1, u)" by (metis prod_cases3)
  have u: "list_all tunnel_ok ts1" "idle u" using inspect_ok [OF idle i] by simp_all
  obtain ts2 v where v: "run_loop c 0 as u = (ts2, v)" by (cases "run_loop c 0 as u")
  have "list_all tunnel_ok ts2" using run_loop_ok [OF u(2) v] by simp
  moreover have "tunnel_ok (give_up f u)" for f using u(2) by (simp add: give_up_def idle_def tunnel_ok_def)
  ultimately have "list_all tunnel_ok ts \<and> \<not> tn_owned t"
    using assms i v u by (auto simp: tunnel_run_def cleanup_def split: option.splits)
  then show ?thesis by (auto simp: available_def tunnel_ok_def list_all_iff)
qed

text \<open>Reconnecting backs off but never stops trying for long: with a jitter of at least three quarters, the delay after the
  \<open>n\<close>-th failure in a row is at least three quarters of the smaller of thirty seconds and \<open>2 ^ (n - 1)\<close>, and at
  most thirty seconds.\<close>

theorem retry_delay_bounds:
  assumes "3 / 4 \<le> j"
  shows "3 / 4 * min 30 (2 ^ (n - 1)) \<le> retry_delay j n \<and> retry_delay j n \<le> 30"
proof -
  have m: "min 30 (2 ^ min (n - 1) 5) = (min 30 (2 ^ (n - 1)) :: rat)"
  proof (cases "n - 1 \<le> 5")
    case False
    then have "(2 :: rat) ^ 5 \<le> 2 ^ (n - 1)" by (intro power_increasing) simp_all
    then show ?thesis using False by (simp add: min_def)
  qed (simp add: min_def)
  have pos: "(0 :: rat) \<le> min 30 (2 ^ (n - 1))" by simp
  have "3 / 4 * min 30 (2 ^ (n - 1)) \<le> j * min 30 (2 ^ (n - 1))" using assms(1) pos by (rule mult_right_mono)
  moreover have "3 / 4 * min 30 (2 ^ (n - 1)) \<le> (30 :: rat)" by (simp add: min_def)
  ultimately show ?thesis unfolding retry_delay_def m by simp
qed

definition demo_ssh :: ssh_config where
  "demo_ssh = \<lparr>s_host = ''gw'', s_local_port = 18790, s_remote_host = ''127.0.0.1'', s_remote_port = 443, s_user = None, s_port = None,
     s_identity_file = None, s_command = ''ssh'', s_connect_timeout = 10\<rparr>"

definition demo_inspect :: inspect_obs where
  "demo_inspect = \<lparr>io_identity = True, io_spawn = True, io_lines = [''port 22''], io_slow = False, io_stderr = [], io_code = 0\<rparr>"

definition demo_attempt :: attempt where
  "demo_attempt = \<lparr>at_inspect = demo_inspect, at_connect = \<lparr>co_bind = True, co_spawn = True,
     co_polls = [Poll [] False True, Poll [confirmation demo_ssh] True True], co_ready_at = 5, co_deadline = False, co_code = 255,
     co_stderr = [''Connection closed'']\<rparr>, at_now = 50, at_jitter = 1\<rparr>"

theorem tunnel_available_owned_witness:
  "list_ex available (fst (tunnel_run demo_ssh demo_inspect [demo_attempt] new_tunnel)) \<and>
   \<not> available (snd (tunnel_run demo_ssh demo_inspect [demo_attempt] new_tunnel))"
proof -
  obtain ts t where r: "tunnel_run demo_ssh demo_inspect [demo_attempt] new_tunnel = (ts, t)"
    by (cases "tunnel_run demo_ssh demo_inspect [demo_attempt] new_tunnel")
  have conf: "contains (confirmation demo_ssh) (confirmation demo_ssh)" by (cases "confirmation demo_ssh") (simp_all add: starts_with_def)
  have inspected: "inspect_configuration demo_ssh demo_inspect new_tunnel = (None, [spawned new_tunnel], new_tunnel)"
    by (simp add: inspect_configuration_def demo_inspect_def demo_ssh_def new_tunnel_def spawned_def cleanup_def lower_def lower_char_def)
  have "list_ex available (fst (tunnel_run demo_ssh demo_inspect [demo_attempt] new_tunnel))"
    unfolding tunnel_run_def inspected
    using conf by (simp add: Let_def demo_attempt_def connect_def spawned_def new_tunnel_def read_stderr_def available_def)
  then show ?thesis using tunnel_available_owned [OF r] r by simp
qed

theorem retry_delay_bounds_witness: "3 / 4 * min 30 (2 ^ (3 - 1)) \<le> retry_delay 1 3 \<and> retry_delay 1 3 \<le> 30"
  using retry_delay_bounds [of 1 3] by simp

section \<open>Discovery\<close>

text \<open>Where a request to an address goes: scheme and host, without credentials.\<close>

definition loopback_target :: "(string \<Rightarrow> bool) \<Rightarrow> string \<Rightarrow> bool" where
  "loopback_target nfkc url \<longleftrightarrow> (case urlsplit nfkc url of
     Inl _ \<Rightarrow> False
   | Inr u \<Rightarrow> u_scheme u \<in> {''http'', ''https''} \<and> \<not> has_credentials u \<and>
       (lower (hostname u) = ''localhost'' \<or> (case ip_address (hostname u) of Some a \<Rightarrow> is_loopback a | None \<Rightarrow> False)))"

text \<open>The parts of an address that decide where a request goes.\<close>

definition cleaned :: "string \<Rightarrow> string" where
  "cleaned s = filter (\<lambda>c. c \<notin> {CHR 0x09, CHR 0x0D, CHR 0x0A}) (dropWhile (\<lambda>c. (of_char c :: nat) \<le> 32) s)"

abbreviation delimiter :: "char \<Rightarrow> bool" where
  "delimiter c \<equiv> c \<in> {CHR ''/'', CHR ''?'', CHR ''#''}"

definition netloc_of :: "string \<Rightarrow> string" where
  "netloc_of url = (if starts_with ''//'' url then takeWhile (\<lambda>c. \<not> delimiter c) (drop 2 url) else [])"

lemma urlsplit_parts:
  assumes "urlsplit nfkc s = Inr u"
  shows "u_scheme u = fst (split_scheme (cleaned s))" "u_netloc u = netloc_of (snd (split_scheme (cleaned s)))" "netloc_ok nfkc (u_netloc u)"
  using assms by (auto simp: urlsplit_def Let_def cleaned_def netloc_of_def split: prod.splits if_splits)

lemma urlsplit_ok: "netloc_ok nfkc (netloc_of (snd (split_scheme (cleaned s)))) \<Longrightarrow> \<exists>u. urlsplit nfkc s = Inr u"
  by (auto simp: urlsplit_def Let_def cleaned_def netloc_of_def split: prod.splits if_splits)

lemma by_netloc: "u_netloc u = u_netloc v \<Longrightarrow> hostname u = hostname v \<and> has_credentials u = has_credentials v"
  by (simp add: hostname_def has_credentials_def hostinfo_def userinfo_def)

text \<open>Slashes at the end do not matter to them.\<close>

lemma slashes_end: "\<exists>k. s = rstrip_slash s @ replicate k (CHR ''/'')"
proof -
  have "s = rev (dropWhile (\<lambda>c. c = CHR ''/'') (rev s)) @ rev (takeWhile (\<lambda>c. c = CHR ''/'') (rev s))"
    by (metis rev_append rev_rev_ident takeWhile_dropWhile_id)
  moreover have "takeWhile (\<lambda>c. c = CHR ''/'') t = replicate (length (takeWhile (\<lambda>c. c = CHR ''/'') t)) (CHR ''/'')" for t
    by (induction t) auto
  ultimately show ?thesis unfolding rstrip_slash_def rstrip_chars_def by (metis rev_replicate)
qed

lemma cleaned_slashes:
  assumes "\<exists>c \<in> set b. 32 < (of_char c :: nat)"
  shows "cleaned (b @ replicate k (CHR ''/'')) = cleaned b @ replicate k (CHR ''/'')"
proof -
  have "dropWhile (\<lambda>c. (of_char c :: nat) \<le> 32) (b @ r) = dropWhile (\<lambda>c. (of_char c :: nat) \<le> 32) b @ r" for r
    using assms by (induction b) (auto simp: not_le)
  then show ?thesis by (simp add: cleaned_def)
qed

lemma scheme_slashes:
  assumes "CHR '':'' \<in> set b"
  shows "split_scheme (b @ r) = (if fst (split_scheme b) = [] then ([], b @ r) else (fst (split_scheme b), snd (split_scheme b) @ r))"
proof -
  have "takeWhile (\<lambda>x. x \<noteq> CHR '':'') (b @ r) = takeWhile (\<lambda>x. x \<noteq> CHR '':'') b"
    "drop 1 (dropWhile (\<lambda>x. x \<noteq> CHR '':'') (b @ r)) = drop 1 (dropWhile (\<lambda>x. x \<noteq> CHR '':'') b) @ r"
    using assms by (induction b) auto
  then show ?thesis using assms by (auto simp: split_scheme_def partition_at_def lower_def Let_def)
qed

lemma netloc_slashes:
  assumes "netloc_of (b @ replicate k (CHR ''/'')) \<noteq> []"
  shows "netloc_of (b @ replicate j (CHR ''/'')) = netloc_of (b @ replicate k (CHR ''/''))"
proof -
  have b: "starts_with ''//'' b \<and> drop 2 b \<noteq> []"
  proof (rule ccontr)
    assume "\<not> (starts_with ''//'' b \<and> drop 2 b \<noteq> [])"
    then show False using assms
      by (cases b; cases "tl b"; cases k; cases "k - 1")
        (auto simp: netloc_of_def starts_with_def takeWhile_eq_Nil_iff split: if_splits)
  qed
  then obtain c where c: "b = CHR ''/'' # CHR ''/'' # c" "c \<noteq> []" by (auto simp: starts_with_def) (cases b; cases "tl b"; auto)
  have "takeWhile (\<lambda>x. \<not> delimiter x) (c @ replicate i (CHR ''/'')) = takeWhile (\<lambda>x. \<not> delimiter x) c" for i
    by (cases i; induction c) auto
  then show ?thesis using c by (simp add: netloc_of_def starts_with_def)
qed

lemma loopback_slash:
  assumes "is_loopback_url nfkc s"
  shows "loopback_target nfkc (rstrip_slash s @ ''/'')"
proof -
  obtain u where u: "urlsplit nfkc s = Inr u" and good: "u_scheme u \<in> {''http'', ''https''}" "hostname u \<noteq> []" "\<not> has_credentials u"
    "lower (hostname u) = ''localhost'' \<or> (case ip_address (hostname u) of Some a \<Rightarrow> is_loopback a | None \<Rightarrow> False)"
  proof -
    obtain v where v: "urlparse nfkc s = Inr v" using assms by (auto simp: is_loopback_url_def split: sum.splits)
    then obtain u where "urlsplit nfkc s = Inr u" "u_netloc v = u_netloc u" "u_scheme v = u_scheme u" by (auto simp: urlparse_def)
    then show thesis using that [of u] by_netloc [of v u] v assms by (auto simp: is_loopback_url_def split: if_splits sum.splits)
  qed
  note parts = urlsplit_parts [OF u]
  obtain k where k: "s = rstrip_slash s @ replicate k (CHR ''/'')" using slashes_end by blast
  let ?b = "rstrip_slash s"
  have colon: "CHR '':'' \<in> set (cleaned s)" using parts(1) good(1) by (auto simp: split_scheme_def partition_at_def split: if_splits)
  have none: "CHR '':'' \<notin> set (replicate j (CHR ''/''))" for j by simp
  have "CHR '':'' \<in> set s" using colon by (auto simp: cleaned_def dest: set_dropWhileD)
  moreover have "set s = set ?b \<union> set (replicate k (CHR ''/''))" by (subst k, rule set_append)
  ultimately have "CHR '':'' \<in> set ?b" using none by blast
  then have "\<exists>c \<in> set ?b. 32 < (of_char c :: nat)" by (rule bexI [rotated]) simp
  then have cl: "cleaned (?b @ replicate j (CHR ''/'')) = cleaned ?b @ replicate j (CHR ''/'')" for j by (rule cleaned_slashes)
  have cs: "cleaned s = cleaned ?b @ replicate k (CHR ''/'')" by (subst k, rule cl)
  then have inb: "CHR '':'' \<in> set (cleaned ?b)" using colon none by auto
  have scheme: "fst (split_scheme (cleaned ?b)) = u_scheme u" "u_scheme u \<noteq> []"
    using parts(1) good(1) scheme_slashes [OF inb, of "replicate k (CHR ''/'')"] unfolding cs by (auto split: if_splits)
  have split: "split_scheme (cleaned ?b @ replicate j (CHR ''/'')) = (u_scheme u, snd (split_scheme (cleaned ?b)) @ replicate j (CHR ''/''))" for j
    using scheme_slashes [OF inb] scheme by simp
  have "u_netloc u \<noteq> []" using good(2) by (auto simp: hostname_def hostinfo_def partition_at_def rpartition_at_def lower_def)
  then have net: "netloc_of (snd (split_scheme (cleaned (?b @ ''/'')))) = u_netloc u"
    using netloc_slashes [of "snd (split_scheme (cleaned ?b))" k 1] split [of 1] split [of k] parts(2) cs cl [of 1] by simp
  obtain v where v: "urlsplit nfkc (?b @ ''/'') = Inr v" using urlsplit_ok [of nfkc "?b @ ''/''"] parts(3) net by auto
  have "u_netloc v = u_netloc u" "u_scheme v = u_scheme u" using urlsplit_parts [OF v] net split [of 1] cl [of 1] by simp_all
  then show ?thesis using v good by_netloc [of v u] by (simp add: loopback_target_def)
qed

text \<open>A client over its life: its endpoint is validated, then cards are fetched and refetched.\<close>

definition links :: "(string \<Rightarrow> bool) \<Rightarrow> string \<Rightarrow> (bool \<times> (nat \<Rightarrow> http_reply) \<times> (nat \<Rightarrow> http_reply)) list \<Rightarrow> peer_link" where
  "links nfkc ep = foldl (\<lambda>k (refresh, cr, lr). snd (discover nfkc ep refresh cr lr k)) (new_link ep)"

lemma select_link_target: "select_link nfkc ep v = Inr k \<Longrightarrow> loopback_target nfkc (l_rpc_url k)"
  by (auto simp: select_link_def Let_def loopback_slash split: if_splits)

lemma discover_target: "loopback_target nfkc (l_rpc_url k) \<Longrightarrow> loopback_target nfkc (l_rpc_url (snd (discover nfkc ep refresh cr lr k)))"
  by (auto simp: discover_def select_link_target split: option.splits sum.splits prod.splits)

lemma stripped_twice: "rstrip_slash (rstrip_slash s) = rstrip_slash s"
proof -
  have "dropWhile p (dropWhile p t) = dropWhile p t" for p :: "char \<Rightarrow> bool" and t by (induction t) auto
  then show ?thesis by (simp add: rstrip_slash_def rstrip_chars_def)
qed

text \<open>C19: The peer's token never leaves the machine: whatever agent cards the peer serves, the address requests are
  sent to is an HTTP address of the loopback interface without credentials, from the validated endpoint on.\<close>

theorem peer_stays_loopback:
  assumes "peer_endpoint nfkc s = Inr ep"
  shows "loopback_target nfkc (l_rpc_url (links nfkc ep ds))"
proof -
  have ep: "is_loopback_url nfkc ep" "rstrip_slash ep = ep"
    using assms stripped_twice by (auto simp: peer_endpoint_def Let_def split: if_splits)
  have "loopback_target nfkc (l_rpc_url (new_link ep))" using loopback_slash [OF ep(1)] ep(2) by (simp add: new_link_def)
  then have "loopback_target nfkc (l_rpc_url k) \<Longrightarrow> loopback_target nfkc (l_rpc_url (foldl (\<lambda>k (refresh, cr, lr). snd (discover nfkc ep refresh cr lr k)) k ds))" for k
    by (induction ds arbitrary: k) (auto simp: discover_target)
  then show ?thesis using \<open>loopback_target nfkc (l_rpc_url (new_link ep))\<close> by (simp add: links_def)
qed

theorem peer_stays_loopback_witness:
  "loopback_target (\<lambda>_. False) (l_rpc_url (links (\<lambda>_. False) ''http://127.0.0.1:9900''
     [(False, (\<lambda>_. HttpBody (JObj [(''url'', JStr ''http://evil.example'')])), (\<lambda>_. NotJson))]))"
proof -
  have "peer_endpoint (\<lambda>_. False) ''http://127.0.0.1:9900/'' = Inr ''http://127.0.0.1:9900''" by code_simp
  then show ?thesis by (rule peer_stays_loopback)
qed

end
