(* ===== verification/Client_Command.thy ===== *)
theory Client_Command
  imports Service_Properties Ssh_Tunnel A2A_Protocol
begin

text \<open>
  The edge of the client daemon, the rest of \<open>client.py\<close>: the command endpoint on the Unix socket from the
  bytes of a request to its answer, the transport to the broker with its tunnel guard, health reports and
  diagnostics, and starting and closing the service.
\<close>

declare split_paired_All [simp del] split_paired_Ex [simp del]

section \<open>Request bodies\<close>

text \<open>\<open>json.loads\<close> of bytes: the encoding is guessed from the first bytes, and the decoder lets surrogates pass.
  Texts are UTF-8 here, so the UTF-16 and UTF-32 forms are recoded.\<close>

datatype codec = Utf8 | Utf8Sig | Utf16 bool | Utf32 bool

definition detect_encoding :: "bytes \<Rightarrow> codec" where
  "detect_encoding b =
     (if starts_with [CHR 0x00, CHR 0x00, CHR 0xFE, CHR 0xFF] b then Utf32 True
      else if starts_with [CHR 0xFF, CHR 0xFE, CHR 0x00, CHR 0x00] b then Utf32 False
      else if starts_with [CHR 0xFE, CHR 0xFF] b then Utf16 True
      else if starts_with [CHR 0xFF, CHR 0xFE] b then Utf16 False
      else if starts_with [CHR 0xEF, CHR 0xBB, CHR 0xBF] b then Utf8Sig
      else case b of
        b0 # b1 # b2 # b3 # _ \<Rightarrow>
          if b0 = CHR 0x00 then (if b1 \<noteq> CHR 0x00 then Utf16 True else Utf32 True)
          else if b1 = CHR 0x00 then (if b2 \<noteq> CHR 0x00 \<or> b3 \<noteq> CHR 0x00 then Utf16 False else Utf32 False)
          else Utf8
      | [b0, b1] \<Rightarrow> if b0 = CHR 0x00 then Utf16 True else if b1 = CHR 0x00 then Utf16 False else Utf8
      | _ \<Rightarrow> Utf8)"

text \<open>UTF-8 in which a surrogate may be encoded as any other code point of three bytes: what is left after the first code
  point, and that there always is one.\<close>

fun utf8_head :: "bytes \<Rightarrow> bytes option" where
  "utf8_head [] = None"
| "utf8_head (a # r) =
     (let n = (of_char a :: nat) in
      if n < 128 then Some r
      else if 194 \<le> n \<and> n \<le> 223 then (case r of b # r1 \<Rightarrow> if cont_byte b then Some r1 else None | _ \<Rightarrow> None)
      else if 224 \<le> n \<and> n \<le> 239 then
        (case r of b # c # r2 \<Rightarrow> if cont_byte b \<and> cont_byte c \<and> (n = 224 \<longrightarrow> 160 \<le> (of_char b :: nat)) then Some r2 else None | _ \<Rightarrow> None)
      else if 240 \<le> n \<and> n \<le> 244 then
        (case r of b # c # d # r3 \<Rightarrow>
            if cont_byte b \<and> cont_byte c \<and> cont_byte d \<and> (n = 240 \<longrightarrow> 144 \<le> (of_char b :: nat)) \<and> (n = 244 \<longrightarrow> of_char b < (144 :: nat))
            then Some r3 else None
         | _ \<Rightarrow> None)
      else None)"

lemma utf8_head_cases:
  assumes "utf8_head (a # r) = Some r1"
  obtains p where "r = p @ r1" "\<And>t. utf8_head (a # p @ t) = Some t" "p = [] \<longleftrightarrow> of_char a < (128 :: nat)" "list_all cont_byte p"
  using assms by (auto simp: Let_def split: if_splits list.splits)

declare utf8_head.simps [simp del]

lemma utf8_head_shorter: "utf8_head s = Some r \<Longrightarrow> length r < length s"
  by (cases s) (auto simp: utf8_head.simps(1) elim: utf8_head_cases)

function utf8_lax :: "bytes \<Rightarrow> bool" where
  "utf8_lax s = (s = [] \<or> (case utf8_head s of None \<Rightarrow> False | Some r \<Rightarrow> utf8_lax r))"
  by pat_completeness auto
termination
  by (relation "measure length") (simp_all add: utf8_head_shorter)

declare utf8_lax.simps [simp del]

lemma utf8_lax_Nil [simp]: "utf8_lax []"
  by (simp add: utf8_lax.simps)

text \<open>Reading a text code point by code point.\<close>

lemma utf8_lax_induct [consumes 1, case_names Nil Cons]:
  assumes "utf8_lax s" "P []"
    and "\<And>a p r. utf8_lax r \<Longrightarrow> P r \<Longrightarrow> (\<And>t. utf8_head (a # p @ t) = Some t) \<Longrightarrow> p = [] \<longleftrightarrow> of_char a < (128 :: nat) \<Longrightarrow> list_all cont_byte p \<Longrightarrow> P (a # p @ r)"
  shows "P s"
  using assms(1)
proof (induction s rule: utf8_lax.induct)
  case (1 s)
  show ?case
  proof (cases s)
    case (Cons a q)
    then obtain r where r: "utf8_head (a # q) = Some r" "utf8_lax r"
      using "1.prems" by (auto simp: utf8_lax.simps [of "a # q"] split: option.splits)
    obtain p where p: "q = p @ r" "\<And>t. utf8_head (a # p @ t) = Some t" "p = [] \<longleftrightarrow> of_char a < (128 :: nat)" "list_all cont_byte p"
      using utf8_head_cases [OF r(1)] by blast
    have "P r" using "1.IH" [of r] r Cons by simp
    then show ?thesis using assms(3) [OF r(2) _ p(2-4)] p(1) Cons by simp
  qed (use assms(2) in simp)
qed

lemma utf8_lax_step: "(\<And>t. utf8_head (a # p @ t) = Some t) \<Longrightarrow> utf8_lax (a # p @ r) = utf8_lax r"
  by (simp add: utf8_lax.simps [of "a # p @ r"])

fun units16 :: "bool \<Rightarrow> bytes \<Rightarrow> nat list option" where
  "units16 big [] = Some []"
| "units16 big [a] = None"
| "units16 big (a # b # r) = map_option (\<lambda>us. (if big then of_char a * 256 + of_char b else of_char b * 256 + of_char a) # us) (units16 big r)"

fun text16 :: "nat list \<Rightarrow> string" where
  "text16 (h # l # us) =
     (if 55296 \<le> h \<and> h \<le> 56319 \<and> 56320 \<le> l \<and> l \<le> 57343
      then utf8_encode (65536 + (h - 55296) * 1024 + (l - 56320)) @ text16 us
      else utf8_encode h @ text16 (l # us))"
| "text16 [u] = utf8_encode u"
| "text16 [] = []"

fun text32 :: "bool \<Rightarrow> bytes \<Rightarrow> string option" where
  "text32 big [] = Some []"
| "text32 big (a # b # c # d # r) =
     (let n = (if big then ((of_char a * 256 + of_char b) * 256 + of_char c) * 256 + of_char d
               else ((of_char d * 256 + of_char c) * 256 + of_char b) * 256 + (of_char a :: nat)) in
      if n > 1114111 then None else map_option (\<lambda>t. utf8_encode n @ t) (text32 big r))"
| "text32 big r = None"

text \<open>A mark in front chooses the byte order and is dropped; the guess without a mark has none to drop.\<close>

definition decode_text :: "bytes \<Rightarrow> string option" where
  "decode_text b =
     (case detect_encoding b of
        Utf8 \<Rightarrow> if utf8_lax b then Some b else None
      | Utf8Sig \<Rightarrow> if utf8_lax (drop 3 b) then Some (drop 3 b) else None
      | Utf16 big \<Rightarrow>
          let r = (if starts_with (if big then [CHR 0xFE, CHR 0xFF] else [CHR 0xFF, CHR 0xFE]) b then drop 2 b else b)
          in map_option text16 (units16 big r)
      | Utf32 big \<Rightarrow>
          let r = (if starts_with (if big then [CHR 0x00, CHR 0x00, CHR 0xFE, CHR 0xFF] else [CHR 0xFF, CHR 0xFE, CHR 0x00, CHR 0x00]) b
                   then drop 4 b else b)
          in text32 big r)"

definition json_loads_bytes :: "bytes \<Rightarrow> json option" where
  "json_loads_bytes b = Option.bind (decode_text b) json_loads"

text \<open>What \<open>json.dumps\<close> prints of an object with readable texts is read back from its bytes.\<close>

fun readable :: "json \<Rightarrow> bool" where
  "readable (JStr s) = utf8_lax s"
| "readable (JList xs) = list_all readable xs"
| "readable (JObj kvs) = list_all (\<lambda>(k, v). utf8_lax k \<and> readable v) kvs"
| "readable (JFloat t) = False"
| "readable j = True"

abbreviation ascii :: "string \<Rightarrow> bool" where
  "ascii \<equiv> list_all (\<lambda>c. of_char c < (128 :: nat))"

lemma utf8_lax_append: "utf8_lax a \<Longrightarrow> utf8_lax (a @ b) = utf8_lax b"
  by (induction rule: utf8_lax_induct) (simp_all add: utf8_lax_step)

lemma utf8_lax_Cons [simp]: "(of_char c :: nat) < 128 \<Longrightarrow> utf8_lax (c # b) = utf8_lax b"
  using utf8_lax_step [of c "[]" b] by (simp add: utf8_head.simps)

lemma utf8_lax_ascii: "ascii a \<Longrightarrow> utf8_lax (a @ b) = utf8_lax b" "ascii a \<Longrightarrow> utf8_lax a"
  by (induction a) simp_all

lemma escape_char_high: "128 \<le> (of_char c :: nat) \<Longrightarrow> escape_char c = [c]"
proof -
  assume "128 \<le> (of_char c :: nat)"
  then have "c \<noteq> CHR 0x22" "c \<noteq> CHR 0x5C" "c \<noteq> CHR 0x0A" "c \<noteq> CHR 0x0D" "c \<noteq> CHR 0x09" "c \<noteq> CHR 0x08" "c \<noteq> CHR 0x0C" "\<not> of_char c < (32 :: nat)"
    by auto
  then show ?thesis by (simp add: escape_char_def)
qed

lemma escape_cont: "list_all cont_byte p \<Longrightarrow> concat (map escape_char p) = p"
  by (induction p) (simp_all add: cont_byte_def escape_char_high)

lemma ascii_hex_digit: "n < 16 \<Longrightarrow> (of_char (hex_digit n) :: nat) < 128"
  by (simp add: hex_digit_def of_char_of)

lemma ascii_escape_char: "(of_char c :: nat) < 128 \<Longrightarrow> ascii (escape_char c)"
proof -
  have "(of_char c :: nat) div 16 < 16" using less_mult_imp_div_less [of "of_char c" 16 16] by simp
  then show "(of_char c :: nat) < 128 \<Longrightarrow> ascii (escape_char c)" by (simp add: escape_char_def ascii_hex_digit)
qed

lemma utf8_lax_escape: "utf8_lax s \<Longrightarrow> utf8_lax (concat (map escape_char s))"
proof (induction rule: utf8_lax_induct)
  case (Cons a p r)
  show ?case
  proof (cases "p = []")
    case True
    then show ?thesis using Cons by (simp add: utf8_lax_ascii(1) [OF ascii_escape_char])
  next
    case False
    then have "128 \<le> (of_char a :: nat)" using Cons.hyps(3) by simp
    then show ?thesis using Cons by (simp add: escape_char_high escape_cont utf8_lax_step)
  qed
qed simp

lemma utf8_lax_quote: "utf8_lax s \<Longrightarrow> utf8_lax (quote s)"
  by (simp add: quote_def utf8_lax_append [OF utf8_lax_escape])

lemma ascii_dec_int: "ascii (dec_int i)"
proof -
  have "ascii (dec_nat n)" for n using dec_nat_digits [of n] by (auto simp: is_digit_def list_all_iff)
  then show ?thesis by (simp add: dec_int_def)
qed

lemma utf8_lax_join: "(\<And>x. x \<in> set xs \<Longrightarrow> utf8_lax x) \<Longrightarrow> utf8_lax (join '','' xs)"
  by (induction "'',''" xs rule: join.induct) (simp_all add: utf8_lax_append)

lemma utf8_lax_dumps: "readable j \<Longrightarrow> utf8_lax (dumps j)"
proof (induction j)
  case (JObj kvs)
  have "utf8_lax (quote k @ '':'' @ dumps v)" if "(k, v) \<in> set kvs" for k v
    using JObj.IH [of "(k, v)" v] JObj.prems that by (auto simp: list_all_iff utf8_lax_append [OF utf8_lax_quote])
  then have "utf8_lax (join '','' (map (\<lambda>(k, v). quote k @ '':'' @ dumps v) kvs))" by (intro utf8_lax_join) auto
  then show ?case by (simp add: utf8_lax_append)
next
  case (JList xs)
  then have "utf8_lax (join '','' (map dumps xs))" by (intro utf8_lax_join) (auto simp: list_all_iff)
  then show ?case by (simp add: utf8_lax_append)
qed (auto simp: utf8_lax_quote utf8_lax_ascii(2) [OF ascii_dec_int])

lemma loads_bytes_dumps:
  assumes "json_ok j" "readable j" "is_obj j"
  shows "json_loads_bytes (dumps j) = Some j"
proof -
  obtain c r where d: "dumps j = CHR ''{'' # c # r" "c = CHR ''}'' \<or> c = CHR 0x22"
  proof (cases j)
    case (JObj kvs)
    then show ?thesis
    proof (cases kvs)
      case (Cons p ps)
      then show ?thesis using that JObj by (cases p; cases ps) (auto simp: quote_def)
    qed (use that JObj in simp)
  qed (use assms in simp_all)
  then have "detect_encoding (dumps j) = Utf8" by (auto simp: detect_encoding_def starts_with_def split: list.split)
  then show ?thesis using assms utf8_lax_dumps compact.loads_printed by (simp add: json_loads_bytes_def decode_text_def)
qed

section \<open>The command endpoint\<close>

text \<open>The body comes in chunks. What is kept of it is checked against the limit after every chunk; the sender may
  also go away.\<close>

definition command_limit :: "nat \<Rightarrow> nat" where
  "command_limit max_upload = max_upload * 4 div 3 + 512 * 1024"

datatype command_body = TooLarge | Gone | Body bytes

fun read_command :: "nat \<Rightarrow> bytes \<Rightarrow> bytes list \<Rightarrow> bool \<Rightarrow> command_body" where
  "read_command cap acc [] gone = (if gone then Gone else Body acc)"
| "read_command cap acc (c # cs) gone =
     (if length (acc @ c) > cap then TooLarge else read_command cap (acc @ c) cs gone)"

definition parse_command :: "bytes \<Rightarrow> exn + native_origin \<times> json \<times> json" where
  "parse_command b =
     (case json_loads_bytes b of
        None \<Rightarrow> Inl (ValueError ''json'')
      | Some p \<Rightarrow>
          if \<not> is_obj p then Inl (ClientValidationError ''invalid_request'' ''Request must be a JSON object.'' ''request'')
          else bind_r (from_meta (jget p ''meta'')) (\<lambda>origin.
            let args = get_or p ''arguments'' (JObj []) in
            if \<not> is_obj args then Inl (ClientValidationError ''invalid_arguments'' ''arguments must be a JSON object.'' ''arguments'')
            else Inr (origin, jget p ''action'', args)))"

text \<open>\<open>args[key]\<close>, and \<open>base64.b64decode(v, validate=True)\<close> of a decoded value.\<close>

definition need_arg :: "json \<Rightarrow> string \<Rightarrow> exn + json" where
  "need_arg args k = (if jhas args k then Inr (jget args k) else Inl (KeyError k))"

definition b64_arg :: "json \<Rightarrow> exn + bytes" where
  "b64_arg v = (case v of
     JStr s \<Rightarrow> (case b64decode s of Some d \<Rightarrow> Inr d | None \<Rightarrow> Inl (ValueError ''base64''))
   | _ \<Rightarrow> Inl TypeError)"

text \<open>A content type that is no text is refused when it is empty or has no length, and otherwise when the request
  header is built.\<close>

definition content_type_arg :: "json \<Rightarrow> exn + string" where
  "content_type_arg v = (case v of
     JStr s \<Rightarrow> Inr s
   | _ \<Rightarrow> if truthy v then Inl TypeError else Inl (ValueError ''invalid artifact content type''))"

record daemon_config =
  dc_inline_wait :: json
  dc_max_upload :: nat
  dc_float :: "string \<Rightarrow> rat option"

definition upload_action :: "client_env \<Rightarrow> client_schedule \<Rightarrow> daemon_config \<Rightarrow> json \<Rightarrow> json cprog" where
  "upload_action env sc cf args =
     (case bind_r (need_arg args ''data'') (\<lambda>d. bind_r (b64_arg d) (\<lambda>data.
             bind_r (need_arg args ''content_type'') (\<lambda>ct. Inr (data, ct)))) of
        Inl e \<Rightarrow> raise_p e
      | Inr (data, ct) \<Rightarrow>
          if data = [] \<or> length data > dc_max_upload cf then raise_p (ValueError ''artifact size is outside configured client bounds'')
          else (case content_type_arg ct of Inl e \<Rightarrow> raise_p e | Inr s \<Rightarrow> upload_cmd env sc (dc_max_upload cf) data s))"

definition run_action :: "client_env \<Rightarrow> client_schedule \<Rightarrow> daemon_config \<Rightarrow> nat \<Rightarrow> native_origin \<Rightarrow> json \<Rightarrow> json \<Rightarrow> client_world
    \<Rightarrow> ((exn + json) \<times> client_world) option" where
  "run_action env sc cf fuel origin action args w =
     (if action = JStr ''submit'' then
        submit_cmd env sc (dc_float cf) (dc_inline_wait cf) origin (get_or args ''prompt'' (JStr [])) (get_or args ''artifact_ids'' (JList []))
          (jget args ''wait_seconds'') fuel w
      else if action = JStr ''resolve_call'' then
        Some (ledger sc (\<lambda>_ _ s. bind_r (resolve_call origin s) (\<lambda>v. Inr (v, s))) w)
      else if action = JStr ''get'' then
        (case need_arg args ''operation_id'' of Inl e \<Rightarrow> Some (Inl e, w) | Inr op \<Rightarrow> Some (get_cmd env sc origin op w))
      else if action = JStr ''wait'' then
        (case need_arg args ''operation_id'' of Inl e \<Rightarrow> Some (Inl e, w)
         | Inr op \<Rightarrow> wait_cmd sc (dc_float cf) origin op (get_or args ''timeout'' (JInt 30)) fuel w)
      else if action = JStr ''cancel'' then
        (case need_arg args ''operation_id'' of Inl e \<Rightarrow> Some (Inl e, w) | Inr op \<Rightarrow> Some (cancel_cmd env sc origin op w))
      else if action = JStr ''upload'' then Some (upload_action env sc cf args w)
      else Some (Inl (ValueError ''unknown client action''), w))"

text \<open>The handler. \<open>None\<close> only when a wait has not returned within its fuel.\<close>

definition command :: "client_env \<Rightarrow> client_schedule \<Rightarrow> daemon_config \<Rightarrow> nat \<Rightarrow> bytes list \<Rightarrow> bool \<Rightarrow> client_world
    \<Rightarrow> ((int \<times> json) \<times> client_world) option" where
  "command env sc cf fuel chunks gone w =
     (case read_command (command_limit (dc_max_upload cf)) [] chunks gone of
        TooLarge \<Rightarrow> Some ((413, error_code_json ''request_too_large''), w)
      | Gone \<Rightarrow> Some (command_answer (Inl (RuntimeError ''ClientDisconnect'')), w)
      | Body b \<Rightarrow>
          (case parse_command b of
             Inl e \<Rightarrow> Some (command_answer (Inl e), w)
           | Inr (origin, action, args) \<Rightarrow>
               map_option (\<lambda>(r, w1). (command_answer r, w1)) (run_action env sc cf fuel origin action args w)))"


section \<open>The transport to the broker\<close>

text \<open>
  \<open>BrokerTransport\<close>. A pool of connections is named by how many were opened before it. A request waits twice:
  for the old pool to close when it rotates, and for the response; \<open>transport_begin\<close> is the part before it is
  sent, \<open>transport_end\<close> the part after. An \<open>httpx.HTTPError\<close> is given by its chain of causes, whether each is
  an \<open>ssl.SSLError\<close>.
\<close>

record transport =
  tr_generation :: nat
  tr_pool :: nat
  tr_tls :: string
  tr_broker :: string

definition new_transport :: transport where
  "new_transport = \<lparr>tr_generation = 0, tr_pool = 0, tr_tls = ''not_checked'', tr_broker = ''not_checked''\<rparr>"

record broker_call =
  bc_scheme :: string
  bc_path :: string
  bc_host :: "string option"
  bc_sni :: "string option"

definition rotate :: "tunnel \<Rightarrow> transport \<Rightarrow> transport" where
  "rotate tun tr =
     (if tr_generation tr \<noteq> tn_generation tun
      then \<lparr>tr_generation = tn_generation tun, tr_pool = Suc (tr_pool tr), tr_tls = ''not_checked'', tr_broker = ''not_checked''\<rparr>
      else tr)"

definition name_call :: "string option \<Rightarrow> int \<Rightarrow> broker_call \<Rightarrow> broker_call" where
  "name_call server remote_port q =
     (case server of
        None \<Rightarrow> q
      | Some name \<Rightarrow>
          if name = [] then q
          else q\<lparr>bc_sni := Some name,
                 bc_host := Some ((if CHR '':'' \<in> set name then ''['' @ name @ '']'' else name)
                                  @ (if remote_port \<noteq> 443 then '':'' @ dec_int remote_port else []))\<rparr>)"

text \<open>\<open>None\<close> when the tunnel is not available: the request is refused before anything is sent.\<close>

definition transport_begin :: "string option \<Rightarrow> int \<Rightarrow> tunnel option \<Rightarrow> broker_call \<Rightarrow> transport \<Rightarrow> (broker_call \<times> nat) option \<times> transport" where
  "transport_begin server remote_port tun q tr =
     (case tun of
        None \<Rightarrow> (Some (q, tr_pool tr), tr)
      | Some t \<Rightarrow>
          if \<not> available t then (None, tr)
          else (Some (name_call server remote_port q, tr_pool (rotate t tr)), rotate t tr))"

datatype wire_reply = WireStatus int | WireError "bool list"

definition reply_broker :: "string \<Rightarrow> int \<Rightarrow> string" where
  "reply_broker path st =
     (if st = 401 \<or> st = 403 then ''authentication_failed''
      else if st \<ge> 500 then ''unavailable''
      else if path = ''/healthz'' then ''reachable''
      else ''authenticated'')"

definition transport_end :: "broker_call \<Rightarrow> wire_reply \<Rightarrow> transport \<Rightarrow> transport" where
  "transport_end q rs tr =
     (case rs of
        WireError causes \<Rightarrow>
          let tls_failure = list_ex id (take 10 causes)
          in tr\<lparr>tr_tls := (if tls_failure then ''verification_failed'' else ''not_checked''),
                tr_broker := (if tls_failure then ''not_checked'' else ''connection_failed'')\<rparr>
      | WireStatus st \<Rightarrow>
          tr\<lparr>tr_tls := (if bc_scheme q = ''https'' then ''verified'' else ''development_http''), tr_broker := reply_broker (bc_path q) st\<rparr>)"

section \<open>Reports\<close>

text \<open>\<open>SSHTunnel.health\<close>. The time to the next attempt is rounded to hundredths of a second; \<open>max(0, 0.0)\<close> is the
  integer.\<close>

definition hundredths :: "rat \<Rightarrow> int" where
  "hundredths x =
     (let y = x * 100; n = \<lfloor>y\<rfloor>; d = y - of_int n
      in if d < 1 / 2 \<or> d = 1 / 2 \<and> even n then n else n + 1)"

definition hundredths_text :: "int \<Rightarrow> string" where
  "hundredths_text n = dec_int (n div 100) @ ''.''
     @ (if n mod 10 = 0 then dec_int (n mod 100 div 10) else pad 2 (dec_int (n mod 100)))"

definition tunnel_health :: "rat \<Rightarrow> tunnel \<Rightarrow> json" where
  "tunnel_health now t =
     JObj [(''mode'', JStr ''ssh-tunnel''), (''state'', JStr (tn_state t)), (''ready'', JBool (available t)), (''error'', jopt (tn_error t)),
       (''attempts'', JInt (int (tn_attempts t))), (''generation'', JInt (int (tn_generation t))),
       (''retry_in_seconds'', case tn_retry_at t of
          None \<Rightarrow> JNull
        | Some r \<Rightarrow> if r = 0 then JNull
                   else let n = hundredths (r - now) in if n \<le> 0 then JInt 0 else JFloat (hundredths_text n))]"

definition paused :: "tunnel option \<Rightarrow> transport \<Rightarrow> bool" where
  "paused tun tr = (case tun of None \<Rightarrow> False | Some t \<Rightarrow> \<not> available t \<or> tn_generation t \<noteq> tr_generation tr)"

definition transport_health :: "rat \<Rightarrow> tunnel option \<Rightarrow> transport \<Rightarrow> json" where
  "transport_health now tun tr =
     JObj [(''ssh'', case tun of Some t \<Rightarrow> tunnel_health now t | None \<Rightarrow> JObj [(''mode'', JStr ''direct''), (''state'', JStr ''disabled'')]),
       (''tls'', JObj [(''verification_enabled'', JBool True), (''state'', JStr (if paused tun tr then ''not_checked'' else tr_tls tr))]),
       (''broker'', JObj [(''state'', JStr (if paused tun tr then ''paused'' else tr_broker tr))])]"

definition service_health :: "json \<Rightarrow> int \<Rightarrow> string option \<Rightarrow> json option \<Rightarrow> json" where
  "service_health native cursor transport_error connection =
     JObj [(''ok'', JBool True), (''native_delivery'', native), (''event_cursor'', JInt cursor), (''transport_error'', jopt transport_error),
       (''explicit_pull_available'', JBool True),
       (''connection'', case connection of Some c \<Rightarrow> c | None \<Rightarrow> JObj [(''mode'', JStr ''injected_test_transport'')])]"


text \<open>A \<open>GET\<close> through the transport; the tunnel is as it is when the request begins.\<close>

datatype get_reply = GetError "bool list" | GetReply int "json option"

definition transport_get :: "string option \<Rightarrow> int \<Rightarrow> string \<Rightarrow> tunnel option \<Rightarrow> get_reply \<Rightarrow> string \<Rightarrow> transport
    \<Rightarrow> (exn + int \<times> json option) \<times> transport" where
  "transport_get server remote_port scheme tun rs path tr =
     (case transport_begin server remote_port tun \<lparr>bc_scheme = scheme, bc_path = path, bc_host = None, bc_sni = None\<rparr> tr of
        (None, tr1) \<Rightarrow> (Inl HTTPError, tr1)
      | (Some (q, _), tr1) \<Rightarrow>
          (case rs of
             GetError causes \<Rightarrow> (Inl HTTPError, transport_end q (WireError causes) tr1)
           | GetReply st b \<Rightarrow> (Inr (st, b), transport_end q (WireStatus st) tr1)))"

text \<open>\<open>diagnostics\<close> makes up to three requests; \<open>tun\<close> and \<open>rs\<close> give the tunnel and the reply at each. A reply that
  is JSON but no object has no \<open>get\<close>.\<close>

definition probe_path :: string where
  "probe_path = ''/v1/operations/00000000-0000-0000-0000-000000000000''"

definition probe :: "(nat \<Rightarrow> string \<Rightarrow> transport \<Rightarrow> (exn + int \<times> json option) \<times> transport) \<Rightarrow> bool \<Rightarrow> transport \<Rightarrow> exn option \<times> transport" where
  "probe send reachable tr =
     (if \<not> reachable then (None, tr)
      else case send 0 ''/healthz'' tr of
        (Inl _, tr1) \<Rightarrow> (None, tr1)
      | (Inr (st, b), tr1) \<Rightarrow>
          if st \<noteq> 200 then (None, tr1)
          else (case b of
             None \<Rightarrow> (None, tr1)
           | Some v \<Rightarrow>
               if \<not> is_obj v then (Some AttributeError, tr1)
               else if jget v ''ok'' = JBool True then (None, snd (send 1 probe_path tr1))
               else (None, tr1)))"

definition diagnostics :: "(nat \<Rightarrow> string \<Rightarrow> transport \<Rightarrow> (exn + int \<times> json option) \<times> transport) \<Rightarrow> bool \<Rightarrow> (transport \<Rightarrow> json) \<Rightarrow> transport
    \<Rightarrow> (exn + json) \<times> transport" where
  "diagnostics send reachable health tr =
     (case probe send reachable tr of
        (Some e, tr1) \<Rightarrow> (Inl e, tr1)
      | (None, tr1) \<Rightarrow>
          let report = (\<lambda>p. jput ''peer_policy'' p (health tr1)) in
          (case send 2 ''/v1/peer-policy'' tr1 of
             (Inr (st, Some v), tr2) \<Rightarrow> (Inr (report (if st = 200 then peer_capabilities v else unknown_policy)), tr2)
           | (_, tr2) \<Rightarrow> (Inr (report unknown_policy), tr2)))"

text \<open>\<open>_doctor\<close>: \<open>None\<close> for settings that do not validate; the report of the daemon is \<open>None\<close> when it cannot be
  reached or does not answer with JSON.\<close>

definition doctor_daemon :: "json option \<Rightarrow> json \<Rightarrow> exn + json" where
  "doctor_daemon reply report =
     (case reply of
        None \<Rightarrow> Inr (jmerge report (JObj [(''ok'', JBool False),
          (''daemon'', JObj [(''error'', JStr ''unavailable''), (''hint'', JStr ''Start the client daemon with the same STATE_DIR.'')])]))
      | Some d \<Rightarrow>
          bind_r (get_default d ''connection'' (JObj [])) (\<lambda>c.
            if \<not> is_obj c then Inl TypeError
            else bind_r (get_default c ''broker'' (JObj [])) (\<lambda>b. bind_r (get_default b ''state'' JNull) (\<lambda>st.
              Inr (jput ''ok'' (JBool (st = JStr ''authenticated'')) (jmerge (jput ''daemon'' d report) c))))))"

definition doctor :: "bool \<Rightarrow> json option \<Rightarrow> bool \<Rightarrow> json option \<Rightarrow> exn + json" where
  "doctor settings_ok reply native_delivery native =
     (if \<not> settings_ok then Inr (JObj [(''ok'', JBool False), (''error'', JStr ''invalid_client_configuration''),
        (''hint'', JStr ''Set BROKER_URL, TOKEN, PAYLOAD_KEY; check CA_FILE.'')])
      else bind_r (doctor_daemon reply (JObj [(''ok'', JBool True), (''tls_verification'', JBool True), (''explicit_pull_available'', JBool True)])) (\<lambda>rep.
        Inr (jput ''native_delivery''
          (if native_delivery then (case native of Some n \<Rightarrow> n
             | None \<Rightarrow> JObj [(''supported'', JBool False), (''hint'', JStr ''Use a verified Codex CLI or gateway_get/gateway_wait.'')])
           else JObj [(''supported'', JBool False), (''reason'', JStr ''disabled'')]) rep)))"

section \<open>Starting and closing\<close>

text \<open>The native status after \<open>start\<close>; any other exception of the check ends the start.\<close>

definition start_native :: "bool \<Rightarrow> exn + json \<Rightarrow> exn + json" where
  "start_native native_delivery cap =
     (if native_delivery then
        (case cap of
           Inr v \<Rightarrow> Inr v
         | Inl NativeUnsupported \<Rightarrow> Inr (JObj [(''supported'', JBool False), (''reason'', JStr ''unsupported_cli_or_schema_use_explicit_pull'')])
         | Inl e \<Rightarrow> Inl e)
      else Inr (JObj [(''supported'', JBool False), (''reason'', JStr ''disabled_use_explicit_pull'')]))"

text \<open>\<open>close\<close>: the loops are canceled, the connections closed, then in any case the tunnel, then in any case the
  ledger. The result is what was closed, in order, and the exception that leaves.\<close>

datatype closed = ClosedLoops | ClosedConnections | ClosedTunnel | ClosedLedger

definition close_service :: "bool \<Rightarrow> exn option \<Rightarrow> exn option \<Rightarrow> exn option \<Rightarrow> closed list \<times> exn option" where
  "close_service tunnel loops_fail connections_fail tunnel_fail =
     (let first = (case loops_fail of Some e \<Rightarrow> ([], Some e)
         | None \<Rightarrow> (case connections_fail of Some e \<Rightarrow> ([ClosedLoops], Some e) | None \<Rightarrow> ([ClosedLoops, ClosedConnections], None)));
          second = (if \<not> tunnel then ([], None) else case tunnel_fail of Some e \<Rightarrow> ([], Some e) | None \<Rightarrow> ([ClosedTunnel], None))
      in (fst first @ fst second @ [ClosedLedger], case snd second of Some e \<Rightarrow> Some e | None \<Rightarrow> snd first))"

text \<open>What \<open>run_client\<close> finds at the socket path before it binds: nothing, or something that is or is not a socket of
  this user. Only the socket is removed.\<close>

datatype path_entry = NoEntry | Entry (e_socket: bool) (e_own: bool)

definition claim_path :: "path_entry \<Rightarrow> exn + path_entry" where
  "claim_path en = (case en of
     NoEntry \<Rightarrow> Inr NoEntry
   | Entry sock own \<Rightarrow> if \<not> sock \<or> \<not> own then Inl (ValueError ''refusing to replace a non-socket client path'') else Inr NoEntry)"

end
