(* ===== verification/Mcp_Front.thy ===== *)
theory Mcp_Front
  imports Client_Command
begin

text \<open>
  The MCP front end, \<open>client_mcp.py\<close>: one process per native client, without state. A tool call becomes at most
  two requests to the daemon's socket, and its answer is a function of the replies. The metadata is what the host
  attached to the call.
\<close>

declare split_paired_All [simp del] split_paired_Ex [simp del]

section \<open>Calls\<close>

definition request_meta :: "json option \<Rightarrow> exn + json" where
  "request_meta meta =
     (let data = (case meta of Some m \<Rightarrow> m | None \<Rightarrow> JObj [])
      in bind_r (from_meta data) (\<lambda>_. Inr data))"

text \<open>The reply of the socket: a transport error, or a status with its body, \<open>None\<close> when it is not JSON.\<close>

datatype uds_reply = UdsDown | UdsReply int "json option"

definition command_json :: "string \<Rightarrow> json \<Rightarrow> json \<Rightarrow> json" where
  "command_json action meta args = JObj [(''action'', JStr action), (''meta'', meta), (''arguments'', args)]"

definition metadata_required :: json where
  "metadata_required = JObj [(''error'', JObj [(''code'', JStr ''native_metadata_required''), (''message'', JStr ''Host thread/turn/call metadata required.'')])]"

definition outcome_unknown_json :: json where
  "outcome_unknown_json = JObj [(''error'', JObj [(''code'', JStr ''client_unavailable_or_outcome_unknown''),
     (''message'', JStr ''Client ACK unavailable; do not resubmit.'')])]"

text \<open>\<open>"error" in payload and payload.get("error") is not None\<close> of a decoded value: a list or a text has no \<open>get\<close>,
  a number no \<open>in\<close>.\<close>

fun mentions_error :: "json \<Rightarrow> exn + bool" where
  "mentions_error (JObj kvs) = Inr (jget (JObj kvs) ''error'' \<noteq> JNull)"
| "mentions_error (JList xs) = (if JStr ''error'' \<in> set xs then Inl AttributeError else Inr False)"
| "mentions_error (JStr s) = (if contains ''error'' s then Inl AttributeError else Inr False)"
| "mentions_error v = Inl TypeError"

definition reply_result :: "int \<Rightarrow> json option \<Rightarrow> exn + json \<times> bool" where
  "reply_result st b =
     (case b of
        None \<Rightarrow> Inl (ValueError ''json'')
      | Some v \<Rightarrow> if 400 \<le> st \<and> st < 600 then Inr (v, True) else bind_r (mentions_error v) (\<lambda>er. Inr (v, er)))"

text \<open>The answer recovered for a submission whose acknowledgment was lost.\<close>

definition recovered_result :: "uds_reply \<Rightarrow> exn + json \<times> bool" where
  "recovered_result rs =
     (case rs of
        UdsReply st b \<Rightarrow>
          if st \<noteq> 200 then Inr (outcome_unknown_json, True)
          else (case b of
             None \<Rightarrow> Inr (outcome_unknown_json, True)
           | Some v \<Rightarrow> if is_obj v then Inr (jput ''local_ack_recovered'' (JBool True) v, False) else Inl TypeError)
      | UdsDown \<Rightarrow> Inr (outcome_unknown_json, True))"

text \<open>\<open>invoke\<close>: the payload with its error flag, or an exception, and the requests made. \<open>rs\<close> answers the first
  request, \<open>rs2\<close> the second.\<close>

definition invoke :: "json option \<Rightarrow> string \<Rightarrow> json \<Rightarrow> uds_reply \<Rightarrow> uds_reply \<Rightarrow> (exn + json \<times> bool) \<times> json list" where
  "invoke meta action args rs rs2 =
     (case request_meta meta of
        Inl _ \<Rightarrow> (Inr (metadata_required, True), [])
      | Inr m \<Rightarrow>
          let q = command_json action m args in
          (case rs of
             UdsReply st b \<Rightarrow>
               (case reply_result st b of
                  Inl TypeError \<Rightarrow> (Inl TypeError, [q])
                | Inl _ \<Rightarrow> (Inr (metadata_required, True), [q])
                | Inr r \<Rightarrow> (Inr r, [q]))
           | UdsDown \<Rightarrow>
               if action = ''submit'' then (recovered_result rs2, [q, command_json ''resolve_call'' m (JObj [])])
               else (Inr (outcome_unknown_json, True), [q])))"

record tool_result =
  tr_text :: string
  tr_structured :: json
  tr_is_error :: bool

definition tool_result_of :: "json \<times> bool \<Rightarrow> tool_result" where
  "tool_result_of = (\<lambda>(p, er). \<lparr>tr_text = json_dumps '', '' '': '' p, tr_structured = p, tr_is_error = er\<rparr>)"

section \<open>The tools\<close>

text \<open>The arguments each tool passes on. The bounds pydantic checks before the tool runs are the ones of the field
  declarations.\<close>

definition submit_args :: "string \<Rightarrow> string list option \<Rightarrow> json \<Rightarrow> json" where
  "submit_args prompt aids wait = JObj [(''prompt'', JStr prompt),
     (''artifact_ids'', JList (map JStr (case aids of Some xs \<Rightarrow> xs | None \<Rightarrow> []))), (''wait_seconds'', wait)]"

definition operation_args :: "string \<Rightarrow> json" where
  "operation_args op = JObj [(''operation_id'', JStr op)]"

definition wait_args :: "string \<Rightarrow> json \<Rightarrow> json" where
  "wait_args op timeout = JObj [(''operation_id'', JStr op), (''timeout'', timeout)]"

definition upload_args :: "bytes \<Rightarrow> string \<Rightarrow> json" where
  "upload_args data ct = JObj [(''data'', JStr (b64encode data)), (''content_type'', JStr ct)]"

text \<open>What is found at a path when it is opened without following a link: nothing that can be opened, or a file with
  its kind, its size and the bytes a read then yields (the file may have changed in between).\<close>

datatype local_file = CannotOpen | File (f_regular: bool) (f_size: nat) (f_content: bytes)

definition upload_max :: "string option \<Rightarrow> exn + nat" where
  "upload_max setting =
     (case py_int (case setting of Some t \<Rightarrow> t | None \<Rightarrow> ''8388608'') of
        None \<Rightarrow> Inl (ValueError ''int'')
      | Some n \<Rightarrow> if 1 \<le> n \<and> n \<le> 32 * 1024 * 1024 then Inr (nat n) else Inl (ValueError ''invalid upload limit''))"

definition read_local :: "nat \<Rightarrow> local_file \<Rightarrow> exn + bytes" where
  "read_local maximum f =
     (case f of
        CannotOpen \<Rightarrow> Inl OSError
      | File reg sz content \<Rightarrow>
          if \<not> reg \<or> \<not> (0 < sz \<and> sz \<le> maximum) then Inl (ValueError ''not a bounded regular file'')
          else let data = take (maximum + 1) content in
            if length data > maximum then Inl (ValueError ''file grew beyond upload limit'') else Inr data)"

definition invalid_local_artifact :: json where
  "invalid_local_artifact = error_code_json ''invalid_local_artifact_or_metadata''"

definition gateway_upload_artifact :: "json option \<Rightarrow> string option \<Rightarrow> local_file \<Rightarrow> string \<Rightarrow> uds_reply \<Rightarrow> (exn + json \<times> bool) \<times> json list" where
  "gateway_upload_artifact meta setting f ct rs =
     (case bind_r (request_meta meta) (\<lambda>_. bind_r (upload_max setting) (\<lambda>n. read_local n f)) of
        Inl _ \<Rightarrow> (Inr (invalid_local_artifact, True), [])
      | Inr data \<Rightarrow> invoke meta ''upload'' (upload_args data ct) rs UdsDown)"

end
