(* ===== verification/Front_Properties.thy ===== *)
theory Front_Properties
  imports Mcp_Front
begin

text \<open>
  The properties of the daemon's edge: what a refused command is answered with, which connections carry a request,
  and the MCP front end and the daemon together.
\<close>

declare split_paired_All [simp del] split_paired_Ex [simp del]

section \<open>Answers of the command endpoint\<close>

text \<open>An exception that is no \<open>ClientValidationError\<close>.\<close>

definition plain :: "exn \<Rightarrow> bool" where
  "plain e \<longleftrightarrow> (case e of ClientValidationError _ _ _ \<Rightarrow> False | _ \<Rightarrow> True)"

lemma plain_simps [simp]:
  "plain (ValueError m)" "plain (KeyError m)" "plain TypeError" "plain AttributeError" "plain HTTPError" "plain InvalidToken"
  "plain (PsycopgError m)" "plain (RuntimeError m)" "\<not> plain (ClientValidationError c m f)"
  by (simp_all add: plain_def)

named_theorems plain_rules \<open>code that raises no validation error of its own\<close>

definition plain_r :: "exn + 'a \<Rightarrow> bool" where
  "plain_r r \<longleftrightarrow> (case r of Inl e \<Rightarrow> plain e | Inr _ \<Rightarrow> True)"

definition plain_p :: "'a cprog \<Rightarrow> bool" where
  "plain_p p \<longleftrightarrow> (\<forall>w. plain_r (fst (p w)))"

lemma plain_r_simps [simp]: "plain_r (Inl e) = plain e" "plain_r (Inr x)"
  by (simp_all add: plain_r_def)

lemma plain_r_bind [plain_rules]: "plain_r r \<Longrightarrow> (\<And>x. plain_r (f x)) \<Longrightarrow> plain_r (bind_r r f)"
  by (cases r) simp_all

lemma plain_r_raise [plain_rules]: "plain e \<Longrightarrow> plain_r (raise_if b e)"
  by (simp add: raise_if_def)

lemma plain_r_if [plain_rules]: "plain_r r \<Longrightarrow> plain_r q \<Longrightarrow> plain_r (if b then r else q)"
  by simp

lemma plain_r_map [plain_rules]: "(\<And>x. plain_r (f x)) \<Longrightarrow> plain_r (map_r f xs)"
  by (induction xs) (simp_all add: plain_r_bind)

lemma plain_r_native_uuid [plain_rules]: "plain_r (native_uuid v n)"
  by (simp add: native_uuid_def split: json.split)

lemma plain_r_from_meta [plain_rules]: "plain_r (from_meta m)"
  unfolding from_meta_def Let_def by (auto intro!: plain_rules split: json.split)

lemma plain_r_row_of [plain_rules]: "plain_r (row_of op g s)"
  by (simp add: row_of_def split: option.split)

lemma plain_r_view [plain_rules]: "plain_r (view op g c s)"
  unfolding view_def Let_def by (intro plain_rules) (auto split: json.split)

lemma plain_r_resolve [plain_rules]: "plain_r (resolve_call g s)"
  unfolding resolve_call_def by (auto intro!: plain_rules split: list.split)

lemma plain_r_insert [plain_rules]: "plain_r (insert_row k v t)"
  by (simp add: insert_row_def)

lemma plain_r_create [plain_rules]: "plain_r (create env now op fl g p aids wt s)"
  unfolding create_def Let_def by (auto intro!: plain_rules split: list.split option.split)

lemma plain_r_check [plain_rules]: "plain_r (check_snapshot snap seq)"
  unfolding check_snapshot_def by (intro plain_rules) (auto intro: plain_rules split: json.split)

lemma plain_r_store [plain_rules]: "plain_r (store_snapshot env now op fl snap s)"
  unfolding store_snapshot_def by (auto split: option.split snapshot_verdict.split)

lemma plain_r_accept [plain_rules]: "plain_r (accept_snapshot env now snap seq s)"
  unfolding accept_snapshot_def by (auto intro!: plain_rules)

lemma plain_r_need [plain_rules]: "plain_r (need_arg args k)"
  by (simp add: need_arg_def)

lemma plain_r_check_upload [plain_rules]: "plain_r (check_upload dig n v)"
  unfolding check_upload_def by (auto intro!: plain_rules)

lemma plain_pD: "plain_p p \<Longrightarrow> p w = (r, w1) \<Longrightarrow> plain_r r"
  by (metis fst_conv plain_p_def)

lemma plain_pI: "(\<And>w r w1. p w = (r, w1) \<Longrightarrow> plain_r r) \<Longrightarrow> plain_p p"
  by (metis eq_fst_iff plain_p_def)

lemma plain_p_ledger [plain_rules]: "(\<And>now new s. plain_r (f now new s)) \<Longrightarrow> plain_p (ledger sc f)"
proof (rule plain_pI)
  fix w :: client_world and r w1
  let ?r = "f (c_now sc (cw_tick w)) (c_fresh sc (cw_tick w)) (cw_store w)"
  assume f: "\<And>now new s. plain_r (f now new s)" and r: "ledger sc f w = (r, w1)"
  have "plain_r ?r" by (rule f)
  with r show "plain_r r" by (cases ?r) (auto simp: ledger_def)
qed

lemma plain_p_bind [plain_rules]: "plain_p p \<Longrightarrow> (\<And>x. plain_p (f x)) \<Longrightarrow> plain_p (bind_p p f)"
proof (rule plain_pI)
  fix w r w1
  assume p: "plain_p p" and f: "\<And>x. plain_p (f x)" and r: "bind_p p f w = (r, w1)"
  obtain q w2 where q: "p w = (q, w2)" by (cases "p w")
  show "plain_r r" using r q plain_pD [OF p q] plain_pD [OF f] by (cases q) (auto simp: bind_p_def)
qed

lemma plain_p_catch [plain_rules]:
  "plain_p p \<Longrightarrow> (\<And>e. plain e \<Longrightarrow> plain_p (h e)) \<Longrightarrow> plain_p (catch_p p h)"
proof (rule plain_pI)
  fix w r w1
  assume p: "plain_p p" and h: "\<And>e. plain e \<Longrightarrow> plain_p (h e)" and r: "catch_p p h w = (r, w1)"
  obtain q w2 where q: "p w = (q, w2)" by (cases "p w")
  show "plain_r r" using r q plain_pD [OF p q] plain_pD [OF h] by (cases q) (auto simp: catch_p_def)
qed

lemma plain_p_return [plain_rules]: "plain_p (return_p x)" "plain e \<Longrightarrow> plain_p (raise_p e)"
  by (simp_all add: plain_p_def)

lemma plain_p_if [plain_rules]: "plain_p p \<Longrightarrow> plain_p q \<Longrightarrow> plain_p (if b then p else q)"
  by simp


lemma plain_p_await [plain_rules]: "(\<And>i. plain_r (out i)) \<Longrightarrow> plain_p (await sc out)"
  by (simp add: plain_p_def await_def)

lemma plain_p_request [plain_rules]: "plain_p (broker_request sc path sent)"
  by (simp add: plain_p_def broker_request_def await_def split: broker_reply.split)

lemma plain_p_checked [plain_rules]: "plain_p (checked_json rs)"
  by (cases rs) (auto simp: checked_json_def intro!: plain_rules split: option.split)

lemma plain_r_unit_of [plain_rules]: "plain_r r \<Longrightarrow> plain_r (unit_of r)"
  by (cases r) (simp_all add: unit_of_def)

lemma plain_p_ingest [plain_rules]: "plain_p (ingest env sc snap seq ex)"
  unfolding ingest_def by (intro plain_rules) simp

lemma plain_p_refresh [plain_rules]: "plain_p (refresh env sc op)"
  unfolding refresh_def by (intro plain_rules)

lemma plain_p_view [plain_rules]: "plain_p (view_p sc op g c)"
  unfolding view_p_def by (intro plain_rules)

lemma plain_p_row [plain_rules]: "plain_p (row_p sc op g)"
  unfolding row_p_def by (intro plain_rules) simp

lemma plain_p_writing [plain_rules]: "plain_p (writing sc f)"
  unfolding writing_def by (intro plain_rules) simp

lemma plain_p_sum [plain_rules]: "plain_r r \<Longrightarrow> (\<And>x. plain_p (f x)) \<Longrightarrow> plain_p (case r of Inl e \<Rightarrow> raise_p e | Inr x \<Rightarrow> f x)"
  by (cases r) (auto intro: plain_rules)

lemma plain_p_get [plain_rules]: "plain_p (get_cmd env sc g op)"
  unfolding get_cmd_def by (intro plain_rules) simp

lemma plain_p_cancel [plain_rules]: "plain_p (cancel_cmd env sc g v)"
  unfolding cancel_cmd_def Let_def by (intro plain_rules) simp

lemma plain_p_upload [plain_rules]: "plain_p (upload_cmd env sc n data ct)"
  unfolding upload_cmd_def by (intro plain_rules) simp_all

lemma plain_r_args [plain_rules]: "plain_r (b64_arg v)" "plain_r (content_type_arg v)"
  by (auto simp: b64_arg_def content_type_arg_def split: json.split option.split)

lemma plain_p_upload_action [plain_rules]: "plain_p (upload_action env sc cf args)"
  unfolding upload_action_def by (intro plain_rules) (auto intro!: plain_rules)


lemma plain_p_resolve [plain_rules]: "plain_p (ledger sc (\<lambda>_ _ s. bind_r (resolve_call g s) (\<lambda>v. Inr (v, s))))"
  by (intro plain_rules) simp

lemma plain_wait_loop: "wait_loop sc g op d n w = Some (r, w1) \<Longrightarrow> plain_r r"
proof (induction n arbitrary: w)
  case (Suc n)
  obtain q w2 where q: "view_p sc op g False w = (q, w2)" by (cases "view_p sc op g False w")
  show ?case using Suc q plain_pD [OF plain_p_view q] plain_pD [OF plain_p_view [of sc op g True]] by (cases q) (auto split: if_splits)
qed simp

text \<open>The validation errors there are.\<close>

definition validation_errors :: "(string \<times> string \<times> string) list" where
  "validation_errors =
     [(''invalid_request'', ''Request must be a JSON object.'', ''request''),
      (''invalid_arguments'', ''arguments must be a JSON object.'', ''arguments''),
      (''invalid_wait'', ''wait_seconds must be a finite number from 0 to 60 seconds.'', ''wait_seconds''),
      (''invalid_wait'', ''timeout must be a finite number from 0 to 60 seconds.'', ''timeout''),
      (''invalid_prompt'', ''prompt must contain 1..262144 UTF-8 bytes.'', ''prompt''),
      (''invalid_artifact_ids'', ''artifact_ids must be a list of at most 16 UUIDs.'', ''artifact_ids''),
      (''invalid_artifact_ids'', ''Each artifact_id must be a UUID.'', ''artifact_ids'')]"

definition known_r :: "exn + 'a \<Rightarrow> bool" where
  "known_r r \<longleftrightarrow> (case r of Inl (ClientValidationError c m f) \<Rightarrow> (c, m, f) \<in> set validation_errors | _ \<Rightarrow> True)"

lemma plain_known: "plain_r r \<Longrightarrow> known_r r"
  by (cases r) (auto simp: known_r_def plain_def split: exn.splits)

lemma known_Inl [intro]: "plain e \<Longrightarrow> known_r (Inl e)"
  by (rule plain_known) simp

lemma known_r_bind: "known_r r \<Longrightarrow> (\<And>x. known_r (f x)) \<Longrightarrow> known_r (bind_r r f)"
  by (cases r) (simp_all add: known_r_def)

lemma known_r_Inr [simp]: "known_r (Inr x)"
  by (simp add: known_r_def)

lemma known_cong: "known_r (Inl e :: exn + 'a) \<Longrightarrow> known_r (Inl e :: exn + 'b)"
  by (simp add: known_r_def)

lemma known_wait: "known_r (wait_seconds fl ''wait_seconds'' v)" "known_r (wait_seconds fl ''timeout'' v)"
  by (auto simp: wait_seconds_def Let_def known_r_def validation_errors_def split: json.split option.split)

lemma known_prompt: "known_r (check_prompt v)"
  by (auto simp: check_prompt_def known_r_def validation_errors_def split: json.split)

lemma known_artifacts: "known_r (check_artifact_ids v)"
  by (auto simp: check_artifact_ids_def known_r_def validation_errors_def split: json.split sum.split)

lemma known_parse: "known_r (parse_command b)"
proof -
  have "known_r (bind_r (from_meta m) (\<lambda>origin. if b then Inl (ClientValidationError ''invalid_arguments'' ''arguments must be a JSON object.'' ''arguments'')
      else Inr (origin, x)))" for m b x
    by (rule known_r_bind, rule plain_known, rule plain_r_from_meta) (simp add: known_r_def validation_errors_def)
  then show ?thesis by (auto simp: parse_command_def Let_def known_r_def [of "Inl _"] validation_errors_def split: option.split)
qed

lemma known_wait_cmd: "wait_cmd sc fl g op secs n w = Some (r, w1) \<Longrightarrow> known_r r"
proof -
  assume a: "wait_cmd sc fl g op secs n w = Some (r, w1)"
  let ?c = "bind_r (wait_seconds fl ''timeout'' secs) (\<lambda>x. bind_r (native_uuid op ''operation_id'') (\<lambda>_. Inr x))"
  have c: "known_r ?c" by (intro known_r_bind known_wait plain_known plain_rules) simp_all
  obtain q w2 where q: "row_p sc (jstr_text op) g w = (q, w2)" by (cases "row_p sc (jstr_text op) g w")
  have q': "plain_r q" using plain_p_row q by (rule plain_pD)
  show ?thesis
  proof (cases ?c)
    case (Inl e)
    then show ?thesis using a c by (auto simp: wait_cmd_def intro: known_cong)
  next
    case (Inr x)
    then show ?thesis using a q q' by (cases q) (auto simp: wait_cmd_def intro: plain_known [OF plain_wait_loop])
  qed
qed

lemma known_submit: "submit_cmd env sc fl iw g p aids wt n w = Some (r, w1) \<Longrightarrow> known_r r"
proof -
  assume a: "submit_cmd env sc fl iw g p aids wt n w = Some (r, w1)"
  let ?secs = "if wt = JNull then iw else wt"
  let ?c = "bind_r (wait_seconds fl ''wait_seconds'' ?secs) (\<lambda>x. bind_r (check_prompt p) (\<lambda>p. bind_r (check_artifact_ids aids) (\<lambda>as. Inr (x, p, as))))"
  have c: "known_r ?c" by (intro known_r_bind known_wait known_prompt known_artifacts) simp
  show ?thesis
  proof (cases ?c)
    case (Inl e)
    then show ?thesis using a c by (auto simp: submit_cmd_def Let_def intro: known_cong)
  next
    case (Inr t)
    obtain x q as where t: "t = (x, q, as)" by (cases t) auto
    let ?l = "ledger sc (\<lambda>now new s. create env now new (c_fresh sc (Suc (cw_tick w))) g q as x s)"
    obtain y w2 where y: "?l w = (y, w2)" by (cases "?l w")
    have "plain_r y" by (rule plain_pD [OF plain_p_ledger y]) (rule plain_r_create)
    then show ?thesis using a Inr t y
      by (cases y) (auto simp: submit_cmd_def Let_def intro: known_wait_cmd split: option.splits prod.splits)
  qed
qed

lemma known_action: "run_action env sc cf n g a args w = Some (r, w1) \<Longrightarrow> known_r r"
proof -
  have cmd: "known_r q" if "c w = (q, w2)" "plain_p c" for c :: "json cprog" and q w2
    using that plain_pD plain_known by metis
  have arg: "known_r q" if "(case need_arg args k of Inl e \<Rightarrow> Some (Inl e, w) | Inr x \<Rightarrow> f x) = Some (q, w2)"
    "\<And>x. f x = Some (q, w2) \<Longrightarrow> known_r q" for k f w2 and q :: "exn + json"
  proof (cases "need_arg args k")
    case (Inl e)
    moreover have "plain e" using plain_r_need [of args k] Inl by simp
    ultimately show ?thesis using that(1) by (auto intro: plain_known [OF plain_r_need])
  qed (use that in auto)
  assume "run_action env sc cf n g a args w = Some (r, w1)"
  then show ?thesis unfolding run_action_def
    by (auto split: if_splits elim!: arg intro: known_submit known_wait_cmd cmd [OF _ plain_p_get] cmd [OF _ plain_p_cancel]
      cmd [OF _ plain_p_upload_action] cmd [OF _ plain_p_resolve])
qed


definition refusals :: "(int \<times> json) list" where
  "refusals = [(413, error_code_json ''request_too_large''), (404, error_code_json ''not_found_or_missing_argument''),
      (400, error_code_json ''invalid_client_request''), (500, error_code_json ''client_internal'')]
    @ map (\<lambda>(c, m, f). (400, JObj [(''error'', JObj [(''code'', JStr c), (''message'', JStr m), (''field'', JStr f)])])) validation_errors"

lemma known_answer: "known_r r \<Longrightarrow> fst (command_answer r) = 200 \<or> command_answer r \<in> set refusals"
  by (cases r rule: command_answer.cases) (force simp: refusals_def known_r_def)+

text \<open>C28: Whatever bytes arrive at the command socket, whatever state the ledger is in and whatever the broker answers, a command
  that does not succeed is answered by one of eleven fixed responses. So no text of an exception, of the request or of a
  broker response, which may hold credentials, leaves the daemon in an error.\<close>

theorem refusals_allowlisted:
  assumes "command env sc cf fuel chunks gone w = Some ((st, body), w1)"
  shows "st = 200 \<or> (st, body) \<in> set refusals"
proof (cases "read_command (command_limit (dc_max_upload cf)) [] chunks gone")
  case (Body b)
  show ?thesis
  proof (cases "parse_command b")
    case (Inl e)
    then have "known_r (Inl e :: exn + json)" using known_parse [of b] known_cong by metis
    then show ?thesis using assms Body Inl known_answer by (force simp: command_def)
  next
    case (Inr t)
    obtain g a args where t: "t = (g, a, args)" by (cases t) auto
    then obtain r where "run_action env sc cf fuel g a args w = Some (r, w1)" "command_answer r = (st, body)"
      using assms Body Inr by (auto simp: command_def)
    then show ?thesis using known_action known_answer by (metis fst_conv)
  qed
qed (use assms in \<open>auto simp: command_def refusals_def\<close>)

theorem refusals_allowlisted_witness:
  "(400, error_code_json ''invalid_client_request'') \<in> set refusals \<and>
   command demo_cenv demo_csched \<lparr>dc_inline_wait = JInt 15, dc_max_upload = 8, dc_float = (\<lambda>_. None)\<rparr> 1 [''{'', ''}''] False (world_of cdemo1 0) =
     Some ((400, error_code_json ''invalid_client_request''), world_of cdemo1 0)"
proof -
  have c: "command demo_cenv demo_csched \<lparr>dc_inline_wait = JInt 15, dc_max_upload = 8, dc_float = (\<lambda>_. None)\<rparr> 1 [''{'', ''}''] False (world_of cdemo1 0) =
     Some ((400, error_code_json ''invalid_client_request''), world_of cdemo1 0)"
    by (simp add: command_def command_limit_def parse_command_def json_loads_bytes_def decode_text_def detect_encoding_def starts_with_def
        json_loads_def skip_ws_def json_ws_def from_meta_def Let_def)
  show ?thesis using refusals_allowlisted [OF c] c by simp
qed


section \<open>The front end and the daemon\<close>

text \<open>A request of the front end as the daemon takes it. The encoding of JSON bodies is httpx's: \<open>wire\<close> is what it sends for
  a value, and what is asked of it is that \<open>json.loads\<close> reads the value back.\<close>

lemma command_taken:
  assumes "json_loads_bytes b = Some (command_json a m args)" "from_meta m = Inr g" "is_obj args" "length b \<le> command_limit (dc_max_upload cf)"
  shows "command env sc cf fuel [b] False w =
    map_option (\<lambda>(r, w1). (command_answer r, w1)) (run_action env sc cf fuel g (JStr a) args w)"
  using assms by (simp add: command_def parse_command_def command_json_def get_or_def Let_def)

text \<open>C23: A lost acknowledgment is recovered exactly: when the daemon has accepted a submission and its answer is lost, then whatever
  happens to the ledger in between, restarts included, the front end sends no second submission; it asks for the call by its native identity and
  is given the view of the operation this very call created, marked as recovered and not as an error, and the ledger is not changed by it.\<close>

theorem lost_ack_recovered:
  assumes "client_inv s" "create env now new fl g prompt aids wait s = Inr (op, t)" "run (client_step env) t ls (cw_store w)"
    and "from_meta m = Inr g"
    and "json_loads_bytes (wire (command_json ''resolve_call'' m (JObj []))) = Some (command_json ''resolve_call'' m (JObj []))"
    and "length (wire (command_json ''resolve_call'' m (JObj []))) \<le> command_limit (dc_max_upload cf)"
  shows "\<exists>r w1. command env sc cf fuel [wire (command_json ''resolve_call'' m (JObj []))] False w = Some ((200, view_json op r), w1)
      \<and> map_of (cops_t (cw_store w)) op = Some r \<and> cw_store w1 = cw_store w \<and> cw_sent w1 = cw_sent w
      \<and> invoke (Some m) ''submit'' args UdsDown (UdsReply 200 (Some (view_json op r))) =
          (Inr (jput ''local_ack_recovered'' (JBool True) (view_json op r), False),
           [command_json ''submit'' m args, command_json ''resolve_call'' m (JObj [])])"
proof -
  obtain r rest where r: "call_rows g (cw_store w) = (op, r) # rest" "map_of (cops_t (cw_store w)) op = Some r" "c_thread_id r = thread_id g"
    using created_call_rows [OF assms(2,1,3)] by metis
  have inv: "client_inv (cw_store w)" by (rule client_run.run_good [OF assms(3) client_inv_create [OF assms(1,2)]])
  have "crow_ok r" using inv r(2) unfolding client_inv_def by blast
  then have "is_obj (view_snapshot op r)" by (auto simp: view_snapshot_def crow_ok_def dest: snap_in_obj split: option.splits)
  then have obj: "is_obj (view_json op r)" by (simp add: view_json_def is_obj_jput)
  have "resolve_call g (cw_store w) = Inr (view_json op r)"
    using r by (simp add: resolve_call_def view_def row_of_def Let_def)
  then show ?thesis using r(2) obj assms(4)
    by (subst command_taken [OF assms(5,4) _ assms(6)]) (simp_all add: run_action_def ledger_def invoke_def request_meta_def recovered_result_def)
qed


text \<open>A call with native metadata, and the ledger after its submission.\<close>

definition demo_meta :: json where
  "demo_meta = JObj [(''threadId'', JStr uA), (''x-codex-turn-metadata'', JObj [(''turn_id'', JStr uB)]), (''callId'', JStr ''call'')]"

definition demo_call :: native_origin where
  "demo_call = \<lparr>thread_id = uA, turn_id = uB, call_id = ''call''\<rparr>"

lemma demo_meta_origin: "from_meta demo_meta = Inr demo_call"
  by (simp add: from_meta_def demo_meta_def native_uuids demo_call_def is_space_def py_len_def Let_def)

lemma readable_uuids: "utf8_lax uA" "utf8_lax uB"
proof -
  have a: "ascii uA" and b: "ascii uB" by (simp_all add: uA_def uB_def)
  show "utf8_lax uA" by (rule utf8_lax_ascii(2) [OF a])
  show "utf8_lax uB" by (rule utf8_lax_ascii(2) [OF b])
qed

lemma ascii_readable: "ascii s \<Longrightarrow> utf8_lax s"
  by (rule utf8_lax_ascii(2))

lemma demo_meta_sent:
  "json_ok args \<Longrightarrow> readable args \<Longrightarrow> ascii a \<Longrightarrow> json_loads_bytes (dumps (command_json a demo_meta args)) = Some (command_json a demo_meta args)"
  by (rule loads_bytes_dumps) (simp_all add: command_json_def demo_meta_def readable_uuids ascii_readable)

definition demo_created :: client_store where
  "demo_created = \<lparr>flows_t = [(uA, uC)], cops_t = [(uB, new_c_row demo_cenv 100 15 demo_call uC (command_digest demo_cenv ''hello'' [])
     (cs_encrypt demo_cenv (canonical (submit_json uB uC ''hello'' []))))], c_cursor = 0, creceipts_t = []\<rparr>"

lemma demo_created_step: "create demo_cenv 100 uB uC demo_call ''hello'' [] 15 new_client_store = Inr (uB, demo_created)"
  by (simp add: create_def is_space_def call_rows_def select_where_def new_client_store_def c_pending_def insert_flow_def demo_call_def
      demo_created_def insert_row_def Let_def) (simp add: demo_cenv_def)

definition demo_config :: daemon_config where
  "demo_config = \<lparr>dc_inline_wait = JInt 15, dc_max_upload = 8388608, dc_float = (\<lambda>_. None)\<rparr>"

lemma demo_limit: "command_limit (dc_max_upload demo_config) = 11709098"
  by (simp add: command_limit_def demo_config_def)

theorem lost_ack_recovered_witness:
  "\<exists>r w1. command demo_cenv demo_csched demo_config 1 [dumps (command_json ''resolve_call'' demo_meta (JObj []))] False (world_of (reopen demo_created) 0) =
      Some ((200, view_json uB r), w1)"
proof -
  have run: "run (client_step demo_cenv) demo_created [CRestart] (cw_store (world_of (reopen demo_created) 0))"
    by (simp add: world_of_def) (rule run_single, rule cs_restart)
  have len: "length (dumps (command_json ''resolve_call'' demo_meta (JObj []))) \<le> command_limit (dc_max_upload demo_config)"
    by (simp add: demo_limit command_json_def demo_meta_def quote_def escape_char_def uA_def uB_def)
  have "json_loads_bytes (dumps (command_json ''resolve_call'' demo_meta (JObj []))) = Some (command_json ''resolve_call'' demo_meta (JObj []))"
    by (rule demo_meta_sent) simp_all
  from lost_ack_recovered [where wire = dumps, OF new_inv demo_created_step run demo_meta_origin this len] show ?thesis by blast
qed


text \<open>An upload.\<close>

lemma length_b64encode: "length (b64encode s) = 4 * ((length s + 2) div 3)"
proof (induction s rule: b64encode.induct)
  case (4 a b c r)
  have "(5 + length r) div 3 = Suc (Suc (Suc (length r)) div 3)" by presburger
  then show ?case using 4 by (simp add: Let_def)
qed (simp_all add: Let_def)

lemma upload_fits: "n \<le> m \<Longrightarrow> 4 * ((n + 2) div 3) + 524284 \<le> command_limit m"
proof -
  assume "n \<le> m"
  then have "n * 4 div 3 \<le> m * 4 div 3" by (simp add: div_le_mono)
  moreover have "4 * ((n + 2) div 3) \<le> n * 4 div 3 + 4" by presburger
  ultimately show ?thesis by (simp add: command_limit_def)
qed

definition header_text :: "string \<Rightarrow> bool" where
  "header_text ct \<longleftrightarrow> ct \<noteq> [] \<and> py_len ct \<le> 128 \<and> CHR 0x0D \<notin> set ct \<and> CHR 0x0A \<notin> set ct"

lemma upload_taken:
  assumes "header_text ct" "data \<noteq> []" "length data \<le> dc_max_upload cf"
  shows "run_action env sc cf fuel g (JStr ''upload'') (upload_args data ct) w = Some (upload_cmd env sc (dc_max_upload cf) data ct w)"
  using assms by (simp add: run_action_def upload_action_def upload_args_def need_arg_def b64_arg_def b64_roundtrip content_type_arg_def header_text_def)

text \<open>C32: A file uploaded by the MCP tool reaches the broker byte for byte: a regular file within the limit, read without following a
  link, becomes one request to the daemon, which fits the daemon's own limit as long as metadata and framing stay below half a
  mebibyte; the daemon sends exactly the bytes of the file to the broker, once; and when the broker acknowledges their digest and
  size, its acknowledgment is what the tool returns.\<close>

theorem upload_end_to_end:
  assumes "from_meta m = Inr g" "upload_max setting = Inr (dc_max_upload cf)" "data \<noteq> []" "length data \<le> dc_max_upload cf" "header_text ct"
    and "q = command_json ''upload'' m (upload_args data ct)" "json_loads_bytes (wire q) = Some q" "length (wire q) \<le> length (b64encode data) + 524284"
    and "c_reply sc (cw_tick w) = Reply st (Some v)" "successful st" "check_upload (cs_sha256 env data) (length data) v = Inr v" "jget v ''error'' = JNull"
  shows "\<exists>w1. command env sc cf fuel [wire q] False w = Some ((200, v), w1) \<and> cw_sent w1 = cw_sent w @ [(''POST /v1/artifacts'', JStr data)]
    \<and> gateway_upload_artifact (Some m) setting (File True (length data) data) ct (UdsReply 200 (Some v)) = (Inr (v, False), [q])"
proof -
  let ?u = "upload_cmd env sc (dc_max_upload cf) data ct w"
  have "length (wire q) \<le> command_limit (dc_max_upload cf)"
    using assms(8) upload_fits [OF assms(4)] unfolding length_b64encode by linarith
  then have taken: "command env sc cf fuel [wire q] False w = map_option (\<lambda>(r, w1). (command_answer r, w1)) (Some ?u)"
    using command_taken [OF _ assms(1), of "wire q" "''upload''" "upload_args data ct" cf env sc fuel w] upload_taken [OF assms(5,3,4), of env sc fuel g w] assms(6,7)
    by (simp add: upload_args_def)
  have u: "fst ?u = Inr v" "cw_sent (snd ?u) = cw_sent w @ [(''POST /v1/artifacts'', JStr data)]"
    using assms(3-5,9-11) by (simp_all add: upload_cmd_def header_text_def catch_p_def bind_p_def broker_request_def await_def checked_json_def)
  have obj: "is_obj v" using assms(11) by (auto simp: check_upload_def split: if_splits)
  then have "mentions_error v = Inr False" using assms(12) by (cases v) simp_all
  then have "gateway_upload_artifact (Some m) setting (File True (length data) data) ct (UdsReply 200 (Some v)) = (Inr (v, False), [q])"
    using assms(1-4,6) by (simp add: gateway_upload_artifact_def request_meta_def read_local_def invoke_def reply_result_def Let_def)
  then show ?thesis using taken u by (cases ?u) simp
qed

definition demo_upload_ack :: json where
  "demo_upload_ack = JObj [(''artifact_id'', JStr uC), (''sha256'', JStr ''abc''), (''size'', JInt 3)]"

theorem upload_end_to_end_witness:
  "\<exists>w1. command demo_cenv (demo_csched\<lparr>c_reply := \<lambda>_. Reply 201 (Some demo_upload_ack)\<rparr>) (demo_config\<lparr>dc_max_upload := 8\<rparr>) 0
      [dumps (command_json ''upload'' demo_meta (upload_args ''abc'' ''text/plain''))] False (world_of cdemo1 0) = Some ((200, demo_upload_ack), w1)
    \<and> cw_sent w1 = [(''POST /v1/artifacts'', JStr ''abc'')]"
proof -
  have b: "b64encode ''abc'' = ''YWJj''" by code_simp
  have "py_int ''8'' = Some 8" by code_simp
  then have m: "upload_max (Some ''8'') = Inr (dc_max_upload (demo_config\<lparr>dc_max_upload := 8\<rparr>))" by (simp add: upload_max_def)
  have ok: "json_ok (upload_args ''abc'' ''text/plain'')" "readable (upload_args ''abc'' ''text/plain'')"
    unfolding upload_args_def b by (simp_all add: ascii_readable)
  have "length (dumps (command_json ''upload'' demo_meta (upload_args ''abc'' ''text/plain''))) \<le> 300"
    unfolding upload_args_def b by (simp add: command_json_def demo_meta_def quote_def escape_char_def uA_def uB_def)
  then have len: "length (dumps (command_json ''upload'' demo_meta (upload_args ''abc'' ''text/plain''))) \<le> length (b64encode ''abc'') + 524284"
    by linarith
  have ack: "check_upload (cs_sha256 demo_cenv ''abc'') (length ''abc'') demo_upload_ack = Inr demo_upload_ack"
    by (simp add: check_upload_def demo_upload_ack_def native_uuids demo_cenv_def)
  have ct: "header_text ''text/plain''" by (simp add: header_text_def py_len_def)
  have read: "json_loads_bytes (dumps (command_json ''upload'' demo_meta (upload_args ''abc'' ''text/plain''))) =
      Some (command_json ''upload'' demo_meta (upload_args ''abc'' ''text/plain''))" by (rule demo_meta_sent [OF ok]) simp
  show ?thesis
    using upload_end_to_end [where wire = dumps and env = demo_cenv and sc = "demo_csched\<lparr>c_reply := \<lambda>_. Reply 201 (Some demo_upload_ack)\<rparr>"
        and w = "world_of cdemo1 0" and fuel = 0, OF demo_meta_origin m _ _ ct refl read len _ _ ack]
    by (auto simp: demo_config_def successful_def demo_upload_ack_def world_of_def)
qed

section \<open>Connections to the broker\<close>

datatype transport_event = TBegin "tunnel option" broker_call "nat option" | TEnd broker_call wire_reply

inductive transport_step :: "string option \<Rightarrow> int \<Rightarrow> transport \<Rightarrow> transport_event \<Rightarrow> transport \<Rightarrow> bool" for server port where
  ts_begin: "transport_begin server port tun q tr = (sent, tr1) \<Longrightarrow> transport_step server port tr (TBegin tun q (map_option snd sent)) tr1"
| ts_end: "transport_step server port tr (TEnd q rs) (transport_end q rs tr)"

inductive_cases transport_stepE: "transport_step server port tr e tr1"

text \<open>The pools in use only advance, and one pool serves one generation.\<close>

lemma begin_uses:
  assumes "transport_step server port tr (TBegin (Some t) q (Some p)) tr1"
  shows "available t \<and> p = tr_pool tr1 \<and> tn_generation t = tr_generation tr1"
  using assms by cases (auto simp: transport_begin_def rotate_def split: if_splits)

lemma step_pools:
  assumes "transport_step server port tr e tr1"
  shows "tr_pool tr \<le> tr_pool tr1 \<and> (tr_pool tr1 = tr_pool tr \<longrightarrow> tr_generation tr1 = tr_generation tr)"
  using assms by cases (auto simp: transport_begin_def transport_end_def rotate_def Let_def split: option.splits if_splits wire_reply.splits)

lemma run_pools:
  assumes "run (transport_step server port) tr es tr1" "TBegin (Some t) q (Some p) \<in> set es"
  shows "available t \<and> tr_pool tr \<le> p \<and> (p = tr_pool tr \<longrightarrow> tn_generation t = tr_generation tr)"
  using assms
proof (induction rule: run.induct)
  case (run_Cons s e s1 es s2)
  show ?case
  proof (cases "e = TBegin (Some t) q (Some p)")
    case True
    then show ?thesis using begin_uses run_Cons.hyps(1) step_pools [OF run_Cons.hyps(1)] by metis
  next
    case False
    then show ?thesis using run_Cons step_pools [OF run_Cons.hyps(1)] by force
  qed
qed simp


text \<open>With a tunnel, a request is only sent while the tunnel is available, and connections do not outlive their tunnel: two requests
  that use the same pool of connections were sent through the same generation of the tunnel, in whatever order requests begin and end and
  however often the tunnel is replaced in between.\<close>

theorem pool_of_one_generation:
  assumes "run (transport_step server port) new_transport es tr"
    and "TBegin (Some t1) q1 (Some p) \<in> set es" "TBegin (Some t2) q2 (Some p) \<in> set es"
  shows "available t1 \<and> available t2 \<and> tn_generation t1 = tn_generation t2"
proof -
  have "available t1 \<and> available t2 \<and> tn_generation t1 = tn_generation t2" if "run (transport_step server port) s es tr" for s
    using that assms(2,3)
  proof (induction rule: run.induct)
    case (run_Cons s e s1 es s2)
    have first: "available t \<and> tr_pool s1 = p \<and> tr_generation s1 = tn_generation t" if "e = TBegin (Some t) q (Some p)" for t q
      using begin_uses run_Cons.hyps(1) that by metis
    have later: "available t \<and> tr_pool s1 \<le> p \<and> (p = tr_pool s1 \<longrightarrow> tn_generation t = tr_generation s1)" if "TBegin (Some t) q (Some p) \<in> set es" for t q
      using run_pools [OF run_Cons.hyps(2) that] .
    show ?case using run_Cons.IH run_Cons.prems first later by (metis set_ConsD)
  qed simp
  then show ?thesis using assms(1) by blast
qed

definition demo_tunnel :: tunnel where
  "demo_tunnel = new_tunnel\<lparr>tn_state := ''ready'', tn_generation := 1, tn_ready := True, tn_owned := True, tn_alive := True\<rparr>"

definition demo_bcall :: broker_call where
  "demo_bcall = \<lparr>bc_scheme = ''https'', bc_path = ''/healthz'', bc_host = None, bc_sni = None\<rparr>"

theorem pool_of_one_generation_witness:
  "available demo_tunnel \<and> available (demo_tunnel\<lparr>tn_error := Some ''x''\<rparr>) \<and> tn_generation demo_tunnel = tn_generation (demo_tunnel\<lparr>tn_error := Some ''x''\<rparr>)"
proof (rule pool_of_one_generation [where p = 1 and ?q1.0 = demo_bcall and ?q2.0 = demo_bcall])
  let ?tr = "rotate demo_tunnel new_transport"
  have 1: "transport_begin None 443 (Some demo_tunnel) demo_bcall new_transport = (Some (demo_bcall, 1), ?tr)"
    and 2: "transport_begin None 443 (Some (demo_tunnel\<lparr>tn_error := Some ''x''\<rparr>)) demo_bcall ?tr = (Some (demo_bcall, 1), ?tr)"
    by (simp_all add: transport_begin_def demo_tunnel_def available_def name_call_def rotate_def new_transport_def new_tunnel_def)
  show "run (transport_step None 443) new_transport [TBegin (Some demo_tunnel) demo_bcall (Some 1),
      TBegin (Some (demo_tunnel\<lparr>tn_error := Some ''x''\<rparr>)) demo_bcall (Some 1)] ?tr"
    using ts_begin [OF 1] ts_begin [OF 2] by (auto intro!: run_Cons run_Nil)
qed simp_all

end
