(* ===== verification/Hermes_Store.thy ===== *)
theory Hermes_Store
  imports Json_Codec
begin

text \<open>
  The state the vendored Hermes A2A adapter keeps in memory (\<open>compat/hermes/upstream/protocol.py\<close>): the turn
  tracker, the rate limiter, the metrics and the task store. A dictionary is an association list in insertion
  order. Every method holds the lock of its object throughout, so it is one function of the state; the time it reads
  and the identifiers it draws are arguments. \<open>coerce_port\<close> of the agent's own package, which turns a setting
  into an integer, is a parameter.
\<close>

section \<open>Settings\<close>

text \<open>The value \<open>os.getenv(name, default)\<close> yields.\<close>

definition env_int :: "(json \<Rightarrow> int \<Rightarrow> int) \<Rightarrow> string option \<Rightarrow> int \<Rightarrow> int" where
  "env_int coerce setting d = coerce (case setting of Some t \<Rightarrow> JStr t | None \<Rightarrow> JInt d) d"

definition max_pingpong_turns :: "(json \<Rightarrow> int \<Rightarrow> int) \<Rightarrow> string option \<Rightarrow> int" where
  "max_pingpong_turns coerce setting = max 1 (min (env_int coerce setting 5) 20)"

section \<open>Turns\<close>

type_synonym turns = "(string \<times> (nat \<times> rat)) list"

definition track :: "rat \<Rightarrow> string \<Rightarrow> turns \<Rightarrow> nat \<times> turns" where
  "track now ctx ts =
     (let live = filter (\<lambda>(_, (_, seen)). now - seen \<le> 3600) ts;
          n = Suc (case map_of live ctx of Some (k, _) \<Rightarrow> k | None \<Rightarrow> 0)
      in (n, AList.update ctx (n, now) live))"

definition reset_turns :: "string \<Rightarrow> turns \<Rightarrow> turns" where
  "reset_turns ctx ts = AList.delete ctx ts"

section \<open>Rate limit\<close>

type_synonym buckets = "(string \<times> rat list) list"

definition rate_limit :: "(json \<Rightarrow> int \<Rightarrow> int) \<Rightarrow> string option \<Rightarrow> int" where
  "rate_limit coerce setting = max 1 (env_int coerce setting 60)"

definition bucket :: "string \<Rightarrow> buckets \<Rightarrow> rat list" where
  "bucket identity bs = (case map_of bs identity of Some q \<Rightarrow> q | None \<Rightarrow> [])"

definition allow :: "int \<Rightarrow> rat \<Rightarrow> string \<Rightarrow> buckets \<Rightarrow> bool \<times> buckets" where
  "allow limit now identity bs =
     (let q = dropWhile (\<lambda>t. now - t > 60) (bucket identity bs) in
      if int (length q) \<ge> limit then (False, AList.update identity q bs)
      else (True, AList.update identity (q @ [now]) bs))"

section \<open>Metrics\<close>

record metrics =
  m_inbound_total :: nat
  m_outbound_total :: nat
  m_streams_started :: nat
  m_push_sent :: nat
  m_push_failed :: nat
  m_tasks_completed :: nat
  m_tasks_failed :: nat
  m_anti_loop_triggers :: nat
  m_rate_limit_triggers :: nat
  m_latencies :: "rat list"

definition new_metrics :: metrics where
  "new_metrics = \<lparr>m_inbound_total = 0, m_outbound_total = 0, m_streams_started = 0, m_push_sent = 0, m_push_failed = 0, m_tasks_completed = 0,
     m_tasks_failed = 0, m_anti_loop_triggers = 0, m_rate_limit_triggers = 0, m_latencies = []\<rparr>"

text \<open>A \<open>deque(maxlen=100)\<close> drops its oldest entry.\<close>

definition record_latency :: "rat \<Rightarrow> metrics \<Rightarrow> metrics" where
  "record_latency secs m = (let l = m_latencies m @ [secs] in m\<lparr>m_latencies := drop (length l - 100) l\<rparr>)"

definition avg_latency :: "metrics \<Rightarrow> rat" where
  "avg_latency m = (if m_latencies m = [] then 0 else sum_list (m_latencies m) / of_nat (length (m_latencies m)))"

section \<open>Tasks\<close>

definition STATE_SUBMITTED :: string where "STATE_SUBMITTED = ''TASK_STATE_SUBMITTED''"
definition STATE_WORKING :: string where "STATE_WORKING = ''TASK_STATE_WORKING''"
definition STATE_INPUT_REQUIRED :: string where "STATE_INPUT_REQUIRED = ''TASK_STATE_INPUT_REQUIRED''"
definition STATE_COMPLETED :: string where "STATE_COMPLETED = ''TASK_STATE_COMPLETED''"
definition STATE_FAILED :: string where "STATE_FAILED = ''TASK_STATE_FAILED''"
definition STATE_CANCELED :: string where "STATE_CANCELED = ''TASK_STATE_CANCELED''"
definition STATE_REJECTED :: string where "STATE_REJECTED = ''TASK_STATE_REJECTED''"

lemmas state_defs = STATE_SUBMITTED_def STATE_WORKING_def STATE_INPUT_REQUIRED_def STATE_COMPLETED_def STATE_FAILED_def STATE_CANCELED_def
  STATE_REJECTED_def

definition TERMINAL_STATES :: "string list" where
  "TERMINAL_STATES = [STATE_COMPLETED, STATE_FAILED, STATE_CANCELED, STATE_REJECTED]"

definition terminal :: "string \<Rightarrow> bool" where
  "terminal st \<longleftrightarrow> st \<in> set TERMINAL_STATES"

record task_rec =
  r_task_id :: string
  r_context_id :: string
  r_peer :: string
  r_agent_slug :: string
  r_tenant :: string
  r_state :: string
  r_reply :: string
  r_created_at :: rat
  r_created_iso :: string
  r_push_url :: string
  r_push_config_id :: string
  r_completed_at :: "rat option"

text \<open>A future is a number; the store of futures keeps what each was resolved with.\<close>

type_synonym outcome = "string \<times> string"

record task_store =
  ts_tasks :: "(string \<times> task_rec) list"
  ts_watchers :: "(string \<times> nat list) list"
  ts_futures :: "outcome option list"

definition new_task_store :: task_store where
  "new_task_store = \<lparr>ts_tasks = [], ts_watchers = [], ts_futures = []\<rparr>"

definition in_scope :: "string \<Rightarrow> string \<Rightarrow> task_rec \<Rightarrow> bool" where
  "in_scope slug tenant r \<longleftrightarrow> \<not> (slug \<noteq> [] \<and> r_agent_slug r \<noteq> slug \<or> tenant \<noteq> [] \<and> r_tenant r \<noteq> tenant)"

definition scoped :: "string \<Rightarrow> string \<Rightarrow> string \<Rightarrow> task_store \<Rightarrow> task_rec option" where
  "scoped slug tenant tid s = (case map_of (ts_tasks s) tid of Some r \<Rightarrow> if in_scope slug tenant r then Some r else None | None \<Rightarrow> None)"

definition push_rec :: "string \<Rightarrow> string \<Rightarrow> string \<Rightarrow> string \<Rightarrow> task_store \<Rightarrow> task_rec option" where
  "push_rec slug tenant tid cid s =
     (case scoped slug tenant tid s of
        Some r \<Rightarrow> if r_push_url r \<noteq> [] \<and> (cid = [] \<or> r_push_config_id r = cid) then Some r else None
      | None \<Rightarrow> None)"

definition push_config_view :: "task_rec \<Rightarrow> json" where
  "push_config_view r = JObj [(''configId'', JStr (r_push_config_id r)), (''taskId'', JStr (r_task_id r)), (''createdAt'', JStr (r_created_iso r)),
     (''pushNotificationConfig'', JObj [(''url'', JStr (r_push_url r))])]"

definition new_rec :: "rat \<Rightarrow> string \<Rightarrow> string \<Rightarrow> string \<Rightarrow> string \<Rightarrow> string \<Rightarrow> string \<Rightarrow> task_rec" where
  "new_rec now iso_now tid ctx peer slug tenant =
     \<lparr>r_task_id = tid, r_context_id = ctx, r_peer = peer, r_agent_slug = slug, r_tenant = tenant, r_state = STATE_SUBMITTED, r_reply = [],
      r_created_at = now, r_created_iso = iso_now, r_push_url = [], r_push_config_id = [], r_completed_at = None\<rparr>"

definition task_create :: "rat \<Rightarrow> string \<Rightarrow> string \<Rightarrow> string \<Rightarrow> string \<Rightarrow> string \<Rightarrow> string \<Rightarrow> task_store \<Rightarrow> task_rec \<times> task_store" where
  "task_create now iso_now tid ctx peer slug tenant s =
     (let r = new_rec now iso_now tid ctx peer slug tenant in (r, s\<lparr>ts_tasks := AList.update tid r (ts_tasks s)\<rparr>))"

definition set_task :: "string \<Rightarrow> (task_rec \<Rightarrow> task_rec) \<Rightarrow> task_store \<Rightarrow> task_store" where
  "set_task tid f s = s\<lparr>ts_tasks := update_row tid f (ts_tasks s)\<rparr>"

definition set_state :: "string \<Rightarrow> string \<Rightarrow> task_store \<Rightarrow> task_store" where
  "set_state tid st s = set_task tid (\<lambda>r. if terminal (r_state r) then r else r\<lparr>r_state := st\<rparr>) s"

definition set_push_config :: "string \<Rightarrow> string \<Rightarrow> string \<Rightarrow> string \<Rightarrow> string \<Rightarrow> task_store \<Rightarrow> json option \<times> task_store" where
  "set_push_config slug tenant cid tid url s =
     (case scoped slug tenant tid s of
        None \<Rightarrow> (None, s)
      | Some r \<Rightarrow>
          let f = (\<lambda>q. q\<lparr>r_push_url := url, r_push_config_id := cid\<rparr>)
          in (Some (push_config_view (f r)), set_task tid f s))"

definition get_push_config :: "string \<Rightarrow> string \<Rightarrow> string \<Rightarrow> string \<Rightarrow> task_store \<Rightarrow> json option" where
  "get_push_config slug tenant tid cid s = map_option push_config_view (push_rec slug tenant tid cid s)"

definition list_push_configs :: "string \<Rightarrow> string \<Rightarrow> string \<Rightarrow> task_store \<Rightarrow> json list" where
  "list_push_configs slug tenant tid s = (case get_push_config slug tenant tid [] s of Some c \<Rightarrow> [c] | None \<Rightarrow> [])"

definition delete_push_config :: "string \<Rightarrow> string \<Rightarrow> string \<Rightarrow> string \<Rightarrow> task_store \<Rightarrow> bool \<times> task_store" where
  "delete_push_config slug tenant tid cid s =
     (case push_rec slug tenant tid cid s of
        None \<Rightarrow> (False, s)
      | Some _ \<Rightarrow> (True, set_task tid (\<lambda>q. q\<lparr>r_push_url := [], r_push_config_id := []\<rparr>) s))"

definition pop_push_url :: "string \<Rightarrow> task_store \<Rightarrow> string \<times> task_store" where
  "pop_push_url tid s =
     (case map_of (ts_tasks s) tid of
        None \<Rightarrow> ([], s)
      | Some r \<Rightarrow> (r_push_url r, set_task tid (\<lambda>q. q\<lparr>r_push_url := []\<rparr>) s))"

text \<open>The oldest terminal tasks beyond 500 go.\<close>

definition trim :: "(string \<times> task_rec) list \<Rightarrow> (string \<times> task_rec) list" where
  "trim ts =
     (let ended = map fst (filter (\<lambda>(_, r). terminal (r_state r)) ts); gone = take (length ended - 500) ended
      in filter (\<lambda>(tid, _). tid \<notin> set gone) ts)"

text \<open>Resolving a future that is already done is skipped.\<close>

definition resolve :: "outcome \<Rightarrow> nat \<Rightarrow> outcome option list \<Rightarrow> outcome option list" where
  "resolve v f fs = (if f < length fs \<and> fs ! f = None then fs[f := Some v] else fs)"

definition complete :: "rat \<Rightarrow> string \<Rightarrow> string \<Rightarrow> string \<Rightarrow> task_store \<Rightarrow> task_rec option \<times> task_store" where
  "complete now tid st reply s =
     (case map_of (ts_tasks s) tid of
        None \<Rightarrow> (None, s)
      | Some r \<Rightarrow>
          if terminal (r_state r) then (None, s)
          else
            let f = (\<lambda>q. q\<lparr>r_state := st, r_reply := reply, r_completed_at := Some now\<rparr>);
                watchers = (case map_of (ts_watchers s) tid of Some fs \<Rightarrow> fs | None \<Rightarrow> [])
            in (Some (f r), \<lparr>ts_tasks = trim (update_row tid f (ts_tasks s)), ts_watchers = AList.delete tid (ts_watchers s),
                             ts_futures = fold (resolve (st, reply)) watchers (ts_futures s)\<rparr>))"

definition watch :: "string \<Rightarrow> string \<Rightarrow> string \<Rightarrow> task_store \<Rightarrow> nat option \<times> task_store" where
  "watch slug tenant tid s =
     (case scoped slug tenant tid s of
        None \<Rightarrow> (None, s)
      | Some r \<Rightarrow>
          let fut = length (ts_futures s) in
          if terminal (r_state r) then (Some fut, s\<lparr>ts_futures := ts_futures s @ [Some (r_state r, r_reply r)]\<rparr>)
          else (Some fut, s\<lparr>ts_futures := ts_futures s @ [None],
                 ts_watchers := AList.update tid ((case map_of (ts_watchers s) tid of Some fs \<Rightarrow> fs | None \<Rightarrow> []) @ [fut]) (ts_watchers s)\<rparr>))"

definition matching :: "string \<Rightarrow> string \<Rightarrow> string \<Rightarrow> string \<Rightarrow> task_store \<Rightarrow> task_rec list" where
  "matching slug tenant ctx st s =
     filter (\<lambda>r. in_scope slug tenant r \<and> (ctx = [] \<or> r_context_id r = ctx) \<and> (st = [] \<or> r_state r = st)) (rev (map snd (ts_tasks s)))"

definition clamp_page :: "int \<Rightarrow> nat" where
  "clamp_page n = nat (max 1 (min (if n = 0 then 50 else n) 100))"

definition task_list :: "string \<Rightarrow> string \<Rightarrow> string \<Rightarrow> string \<Rightarrow> int \<Rightarrow> nat \<Rightarrow> task_store \<Rightarrow> task_rec list \<times> nat \<times> nat" where
  "task_list slug tenant ctx st page_size offset s =
     (let size = clamp_page page_size; recs = matching slug tenant ctx st s; total = length recs
      in (take size (drop offset recs), if offset + size < total then offset + size else 0, total))"

text \<open>\<open>fail_orphans\<close>: the stale tasks are collected under the lock and then completed one by one, each under the lock again, so others
  may act between two of them; here they do not, and all read the same time.\<close>

definition ORPHANED :: string where
  "ORPHANED = ''[task orphaned '' @ [CHR 0xE2, CHR 0x80, CHR 0x94] @ '' no reply produced]''"

definition stale_tasks :: "rat \<Rightarrow> rat \<Rightarrow> string set \<Rightarrow> task_store \<Rightarrow> string list" where
  "stale_tasks now timeout excluded s =
     map fst (filter (\<lambda>(tid, r). tid \<notin> excluded \<and> \<not> terminal (r_state r) \<and> now - r_created_at r > timeout) (ts_tasks s))"

fun fail_each :: "rat \<Rightarrow> string list \<Rightarrow> task_store \<Rightarrow> string list \<times> task_store" where
  "fail_each now [] s = ([], s)"
| "fail_each now (tid # tids) s =
     (case complete now tid STATE_FAILED ORPHANED s of
        (None, s1) \<Rightarrow> fail_each now tids s1
      | (Some _, s1) \<Rightarrow> (let (failed, s2) = fail_each now tids s1 in (tid # failed, s2)))"

definition fail_orphans :: "rat \<Rightarrow> rat \<Rightarrow> string set \<Rightarrow> task_store \<Rightarrow> string list \<times> task_store" where
  "fail_orphans now timeout excluded s = fail_each now (stale_tasks now timeout excluded s) s"

section \<open>Dictionaries keep their keys distinct\<close>

lemma keys_ok_alist_update [simp]: "keys_ok t \<Longrightarrow> keys_ok (AList.update k v t)"
  by (simp add: keys_ok_def distinct_update)

lemma keys_ok_alist_delete [simp]: "keys_ok t \<Longrightarrow> keys_ok (AList.delete k t)"
  by (simp add: keys_ok_def distinct_delete)

end
