(* ===== verification/Store_Properties.thy ===== *)
theory Store_Properties
  imports Hermes_Store
begin

text \<open>
  The properties of the adapter's state: the rate limiter and the turn tracker against reference definitions over the
  whole history, and the task store over its runs.
\<close>

declare split_paired_All [simp del] split_paired_Ex [simp del]

section \<open>The rate limiter against its history\<close>

text \<open>A request is a time and an identity. The reference keeps every granted request for ever and counts.\<close>

type_synonym requests = "(rat \<times> string) list"

fun limiter_run :: "int \<Rightarrow> requests \<Rightarrow> buckets \<Rightarrow> bool list" where
  "limiter_run limit [] bs = []"
| "limiter_run limit ((t, i) # rs) bs = (let (ok, bs1) = allow limit t i bs in ok # limiter_run limit rs bs1)"



definition times :: "string \<Rightarrow> requests \<Rightarrow> rat list" where
  "times i granted = map fst (filter (\<lambda>(_, j). j = i) granted)"

lemma times_append [simp]: "times i (xs @ ys) = times i xs @ times i ys"
  by (simp add: times_def)

lemma times_single [simp]: "times i [(t, j)] = (if j = i then [t] else [])"
  by (simp add: times_def)







text \<open>The requests a run has granted, and how many of them an interval of a minute holds.\<close>

definition granted_of :: "requests \<Rightarrow> bool list \<Rightarrow> requests" where
  "granted_of rs oks = map fst (filter snd (zip rs oks))"


lemma granted_of_simps [simp]: "granted_of [] oks = []" "granted_of (r # rs) (b # oks) = (if b then r # granted_of rs oks else granted_of rs oks)"
  by (simp_all add: granted_of_def)













text \<open>The clock is not monotonic: set back by an hour, it locks an identity out until it has caught up.\<close>

lemma clock_set_back_locks_out:
  "limiter_run 1 [(3600, ''p''), (0, ''p''), (1800, ''p''), (3600, ''p''), (3661, ''p'')] [] = [True, False, False, False, True]"
  by (simp add: allow_def bucket_def Let_def)

section \<open>The turn tracker against its history\<close>

datatype turn_op = Track rat string | Reset string

fun turn_time :: "turn_op \<Rightarrow> rat option" where
  "turn_time (Track t _) = Some t"
| "turn_time (Reset _) = None"

fun tracker_run :: "turn_op list \<Rightarrow> turns \<Rightarrow> nat list" where
  "tracker_run [] ts = []"
| "tracker_run (Track t c # ops) ts = (let (n, ts1) = track t c ts in n # tracker_run ops ts1)"
| "tracker_run (Reset c # ops) ts = tracker_run ops (reset_turns c ts)"

text \<open>The reference looks at one context at a time and forgets none: the turn counts on unless the context was reset or idle for more
  than an hour.\<close>

fun turn_spec :: "turn_op list \<Rightarrow> (string \<Rightarrow> (nat \<times> rat) option) \<Rightarrow> nat list" where
  "turn_spec [] st = []"
| "turn_spec (Track t c # ops) st =
     (let n = (case st c of Some (k, seen) \<Rightarrow> if t - seen \<le> 3600 then Suc k else 1 | None \<Rightarrow> 1) in n # turn_spec ops (st(c \<mapsto> (n, t))))"
| "turn_spec (Reset c # ops) st = turn_spec ops (st(c := None))"

text \<open>Both agree but for contexts that were idle too long.\<close>

definition agrees :: "rat \<Rightarrow> turns \<Rightarrow> (string \<Rightarrow> (nat \<times> rat) option) \<Rightarrow> bool" where
  "agrees now ts st \<longleftrightarrow> keys_ok ts \<and>
     (\<forall>c. map_of ts c = st c \<or> map_of ts c = None \<and> (\<exists>k seen. st c = Some (k, seen) \<and> now - seen > 3600))"

lemma track_agrees:
  assumes "agrees now ts st" "now \<le> t"
  shows "agrees t (snd (track t c ts)) (st(c \<mapsto> (fst (track t c ts), t)))"
    "fst (track t c ts) = (case st c of Some (k, seen) \<Rightarrow> if t - seen \<le> 3600 then Suc k else 1 | None \<Rightarrow> 1)"
proof -
  let ?live = "delete_where (\<lambda>_ (_, seen). \<not> t - seen \<le> 3600) ts"
  have live: "filter (\<lambda>(_, (_, seen)). t - seen \<le> 3600) ts = ?live" by (auto simp: delete_where_def intro!: filter_cong)
  have ok: "keys_ok ts" using assms(1) by (simp add: agrees_def)
  have look: "map_of ?live d = (case st d of Some (k, seen) \<Rightarrow> if t - seen \<le> 3600 then Some (k, seen) else None | None \<Rightarrow> None)" for d
  proof -
    consider "map_of ts d = st d" | k seen where "map_of ts d = None" "st d = Some (k, seen)" "now - seen > 3600"
      using assms(1) by (force simp: agrees_def)
    then show ?thesis
    proof cases
      case 1
      then show ?thesis unfolding map_of_delete_where [OF ok] by (auto split: option.split)
    next
      case 2
      then show ?thesis using assms(2) unfolding map_of_delete_where [OF ok] by auto
    qed
  qed
  show "fst (track t c ts) = (case st c of Some (k, seen) \<Rightarrow> if t - seen \<le> 3600 then Suc k else 1 | None \<Rightarrow> 1)"
    by (auto simp: track_def Let_def live look split: option.splits prod.splits if_splits)
  show "agrees t (snd (track t c ts)) (st(c \<mapsto> (fst (track t c ts), t)))"
    using ok by (auto simp: agrees_def track_def Let_def live AList.update_conv look keys_ok_alist_update split: option.split if_splits)
qed

text \<open>The turn tracker counts exactly: although it drops idle contexts whenever any context is seen, each turn gets the number it
  would get if every context were kept for ever, which is one more than the last unless the context was reset or idle for over an hour.\<close>

theorem turns_exact:
  assumes "sorted (map the (filter (\<lambda>t. t \<noteq> None) (map turn_time ops)))"
  shows "tracker_run ops [] = turn_spec ops (\<lambda>_. None)"
proof -
  have "tracker_run ops ts = turn_spec ops st" if "agrees now ts st" "sorted (now # map the (filter (\<lambda>t. t \<noteq> None) (map turn_time ops)))" for ts st now
    using that
  proof (induction ops arbitrary: ts st now)
    case (Cons op ops)
    show ?case
    proof (cases op)
      case (Track t c)
      have "now \<le> t" using Cons.prems(2) Track by simp
      from track_agrees [OF Cons.prems(1) this, of c] Cons.IH show ?thesis using Cons.prems(2) Track
        by (simp add: Let_def case_prod_beta fun_upd_def)
    next
      case (Reset c)
      have "agrees now (reset_turns c ts) (st(c := None))"
        using Cons.prems(1) by (auto simp: agrees_def reset_turns_def AList.delete_conv keys_ok_alist_delete)
      then show ?thesis using Cons.IH Cons.prems(2) Reset by (simp add: fun_upd_def)
    qed
  qed simp
  moreover have "agrees 0 [] (\<lambda>_. None)" "agrees t [] (\<lambda>_. None)" for t by (simp_all add: agrees_def)
  ultimately show ?thesis
    using assms by (cases "map the (filter (\<lambda>t. t \<noteq> None) (map turn_time ops))") (fastforce simp del: tracker_run.simps turn_spec.simps)+
qed

theorem turns_exact_witness:
  "tracker_run [Track 0 ''c'', Track 10 ''d'', Track 20 ''c'', Reset ''d'', Track 3611 ''d'', Track 3621 ''c''] [] = [1, 1, 2, 1, 1]"
proof -
  have "tracker_run [Track 0 ''c'', Track 10 ''d'', Track 20 ''c'', Reset ''d'', Track 3611 ''d'', Track 3621 ''c''] [] =
      turn_spec [Track 0 ''c'', Track 10 ''d'', Track 20 ''c'', Reset ''d'', Track 3611 ''d'', Track 3621 ''c''] (\<lambda>_. None)"
    by (rule turns_exact) simp
  also have "\<dots> = [1, 1, 2, 1, 1]" by (simp add: Let_def)
  finally show ?thesis .
qed

end
