(* ===== verification/Py_Regex.thy ===== *)
theory Py_Regex
  imports Py_Text
begin

text \<open>
  Regular expressions as Python's \<open>re\<close> matches them, for the forms the adapter uses: sequences of single code points from a
  class, greedy repetitions of a class, and alternatives of such sequences. The matcher is the backtracking one: it tries
  the longer repetition and the earlier alternative first. It is shown to find a match exactly when a prefix of the text is in the
  pattern's language, and what a substitution leaves behind is shown free of the pattern.
\<close>

section \<open>Patterns\<close>

type_synonym cp_class = "string \<Rightarrow> bool"

datatype item = One cp_class | Many cp_class | Alts "cp_class list list"

type_synonym pattern = "item list"

text \<open>The single code points a list of classes eats off the front.\<close>

fun eat :: "cp_class list \<Rightarrow> string list \<Rightarrow> string list option" where
  "eat [] s = Some s"
| "eat (p # ps) [] = None"
| "eat (p # ps) (c # s) = (if p c then eat ps s else None)"

fun first_some :: "('a \<Rightarrow> 'b option) \<Rightarrow> 'a list \<Rightarrow> 'b option" where
  "first_some f [] = None"
| "first_some f (x # xs) = (case f x of Some y \<Rightarrow> Some y | None \<Rightarrow> first_some f xs)"

lemma first_some_cong [fundef_cong]: "xs = ys \<Longrightarrow> (\<And>x. x \<in> set ys \<Longrightarrow> f x = g x) \<Longrightarrow> first_some f xs = first_some g ys"
  by (induction ys arbitrary: xs) (auto split: option.split)

text \<open>What is left after a match at the front.\<close>

function match_at :: "pattern \<Rightarrow> string list \<Rightarrow> string list option" where
  "match_at [] s = Some s"
| "match_at (One p # is) s = (case s of c # r \<Rightarrow> if p c then match_at is r else None | [] \<Rightarrow> None)"
| "match_at (Many p # is) s =
     (case s of
        c # r \<Rightarrow> if p c then (case match_at (Many p # is) r of Some t \<Rightarrow> Some t | None \<Rightarrow> match_at is s) else match_at is s
      | [] \<Rightarrow> match_at is s)"
| "match_at (Alts alts # is) s = first_some (\<lambda>ps. case eat ps s of Some r \<Rightarrow> match_at is r | None \<Rightarrow> None) alts"
  by pat_completeness auto
termination
  by (relation "measures [length \<circ> fst, length \<circ> snd]") auto

lemma match_Many:
  "match_at (Many p # is) [] = match_at is []"
  "match_at (Many p # is) (c # r) =
     (if p c then (case match_at (Many p # is) r of Some t \<Rightarrow> Some t | None \<Rightarrow> match_at is (c # r)) else match_at is (c # r))"
  by simp_all

declare match_at.simps(3) [simp del]
declare match_Many [simp]

section \<open>The language of a pattern\<close>

fun accepts :: "pattern \<Rightarrow> string list \<Rightarrow> bool" where
  "accepts [] w \<longleftrightarrow> w = []"
| "accepts (One p # is) w \<longleftrightarrow> (\<exists>c v. w = c # v \<and> p c \<and> accepts is v)"
| "accepts (Many p # is) w \<longleftrightarrow> (\<exists>u v. w = u @ v \<and> list_all p u \<and> accepts is v)"
| "accepts (Alts alts # is) w \<longleftrightarrow> (\<exists>ps \<in> set alts. \<exists>u v. w = u @ v \<and> list_all2 (\<lambda>p c. p c) ps u \<and> accepts is v)"

lemma eat_iff: "eat ps s = Some r \<longleftrightarrow> (\<exists>u. s = u @ r \<and> list_all2 (\<lambda>p c. p c) ps u)"
proof (induction ps s rule: eat.induct)
  case (3 p ps c s)
  then show ?case by (auto simp: list_all2_Cons1 Cons_eq_append_conv)
qed (auto simp: list_all2_Cons1)

lemma first_some_SomeD: "first_some f xs = Some y \<Longrightarrow> \<exists>x \<in> set xs. f x = Some y"
  by (induction xs) (auto split: option.splits)

lemma first_some_None: "first_some f xs = None \<longleftrightarrow> (\<forall>x \<in> set xs. f x = None)"
  by (induction xs) (auto split: option.splits)

text \<open>A match is a word of the language, and where a prefix is in the language there is a match.\<close>

lemma match_sound: "match_at is s = Some r \<Longrightarrow> \<exists>w. s = w @ r \<and> accepts is w"
proof (induction "is" s arbitrary: r rule: match_at.induct)
  case (2 p "is" s)
  then obtain c t where s: "s = c # t" "p c" "match_at is t = Some r" by (auto split: list.splits if_splits)
  from "2.IH" [OF s] obtain w where "t = w @ r" "accepts is w" by blast
  then show ?case using s by (intro exI [of _ "c # w"]) simp
next
  case (3 p "is" s)
  have here: "\<exists>w. s = w @ r \<and> accepts (Many p # is) w" if "match_at is s = Some r" "\<And>r. match_at is s = Some r \<Longrightarrow> \<exists>w. s = w @ r \<and> accepts is w"
  proof -
    from that obtain w where "s = w @ r" "accepts is w" by blast
    then show ?thesis by (intro exI [of _ w]) (simp, rule exI [of _ "[]"], simp)
  qed
  show ?case
  proof (cases s)
    case Nil
    show ?thesis by (rule here) (use Nil "3.prems" "3.IH"(1) [OF Nil] in simp_all)
  next
    case (Cons c t)
    show ?thesis
    proof (cases "p c \<and> match_at (Many p # is) t \<noteq> None")
      case True
      then have "match_at (Many p # is) t = Some r" using "3.prems" Cons by auto
      then obtain w where w: "t = w @ r" "accepts (Many p # is) w" using "3.IH"(2) [OF Cons] True by blast
      then obtain u v where "w = u @ v" "list_all p u" "accepts is v" by auto
      then have "accepts (Many p # is) (c # w)" unfolding accepts.simps using True by (metis append_Cons list.pred_inject(2))
      then show ?thesis using w Cons by (intro exI [of _ "c # w"]) simp
    next
      case False
      then have "match_at is s = Some r" using "3.prems" Cons by (auto split: if_splits)
      moreover have "\<exists>w. s = w @ q \<and> accepts is w" if "match_at is s = Some q" for q
        using that False "3.IH"(3) [OF Cons] "3.IH"(4) [OF Cons] by (cases "p c") auto
      ultimately show ?thesis using here by blast
    qed
  qed
next
  case (4 alts "is" s)
  from first_some_SomeD [OF "4.prems" [unfolded match_at.simps]] obtain ps t where
    ps: "ps \<in> set alts" "eat ps s = Some t" "match_at is t = Some r" by (auto split: option.splits)
  from "4.IH" [OF ps(1,2,3)] ps(2) obtain u w where "s = u @ t" "list_all2 (\<lambda>p c. p c) ps u" "t = w @ r" "accepts is w"
    by (auto simp: eat_iff)
  then show ?case using ps(1) by (intro exI [of _ "u @ w"]) auto
qed simp

lemma match_complete: "accepts is w \<Longrightarrow> match_at is (w @ r) \<noteq> None"
proof (induction "is" arbitrary: w r)
  case (Cons i "is")
  show ?case
  proof (cases i)
    case (One p)
    then show ?thesis using Cons by auto
  next
    case (Many p)
    then obtain u v where w: "w = u @ v" "list_all p u" "accepts is v" using Cons.prems by auto
    have "match_at (Many p # is) (u @ v @ r) \<noteq> None" using w(2)
    proof (induction u)
      case Nil
      show ?case using Cons.IH [OF w(3), of r] by (cases "v @ r") (auto split: option.split)
    qed (auto split: option.split)
    then show ?thesis using w Many by simp
  next
    case (Alts alts)
    then obtain ps u v where "ps \<in> set alts" "w = u @ v" "list_all2 (\<lambda>p c. p c) ps u" "accepts is v" using Cons.prems by auto
    moreover from this have "eat ps (w @ r) = Some (v @ r)" by (auto simp: eat_iff)
    moreover have "match_at is (v @ r) \<noteq> None" using Cons.IH calculation(4) by blast
    ultimately show ?thesis unfolding Alts match_at.simps first_some_None by (metis (no_types, lifting) option.simps(5))
  qed
qed simp

theorem match_iff: "match_at is s \<noteq> None \<longleftrightarrow> (\<exists>w r. s = w @ r \<and> accepts is w)"
  using match_sound match_complete by blast


section \<open>Substitution\<close>

text \<open>\<open>pat.sub(rep, s)\<close> for a pattern that takes at least one code point. A pattern that opens with \<open>(?m)^\<close> matches only at the start
  of a line; whether the scan is there is its first argument.\<close>

definition hit :: "bool \<Rightarrow> bool \<Rightarrow> pattern \<Rightarrow> string list \<Rightarrow> string list option" where
  "hit fresh bol is s =
     (if bol \<and> \<not> fresh then None
      else case match_at is s of Some r \<Rightarrow> if length r < length s then Some r else None | None \<Rightarrow> None)"

lemma hit_shorter: "hit fresh bol is s = Some r \<Longrightarrow> length r < length s"
  by (auto simp: hit_def split: if_splits option.splits)

lemma hit_Cons_shorter [termination_simp]: "hit fresh bol is (c # s) = Some r \<Longrightarrow> length r < Suc (length s)"
  using hit_shorter by fastforce

fun sub_at :: "bool \<Rightarrow> bool \<Rightarrow> pattern \<Rightarrow> string list \<Rightarrow> string list \<Rightarrow> string list" where
  "sub_at fresh bol is rep [] = []"
| "sub_at fresh bol is rep (c # s) =
     (case hit fresh bol is (c # s) of
        Some r \<Rightarrow> rep @ sub_at (last (take (length (c # s) - length r) (c # s)) = [CHR 0x0A]) bol is rep r
      | None \<Rightarrow> c # sub_at (c = [CHR 0x0A]) bol is rep s)"

text \<open>A text is free of a pattern when no part of it is in the pattern's language.\<close>

definition free_of :: "pattern \<Rightarrow> string list \<Rightarrow> bool" where
  "free_of is s \<longleftrightarrow> (\<forall>u w v. s = u @ w @ v \<longrightarrow> \<not> accepts is w)"

lemma free_of_suffixes: "free_of is s \<longleftrightarrow> (\<forall>u t. s = u @ t \<longrightarrow> match_at is t = None)"
  unfolding free_of_def using match_iff [of "is"] by blast

lemma free_of_code [code]: "free_of is s = list_all (\<lambda>n. match_at is (drop n s) = None) [0..<Suc (length s)]"
proof -
  have "free_of is s \<longleftrightarrow> (\<forall>n \<le> length s. match_at is (drop n s) = None)"
    unfolding free_of_suffixes by (metis append_eq_conv_conj append_take_drop_id le_add1 length_append)
  then show ?thesis by (auto simp: list_all_iff less_Suc_eq_le simp del: upt_Suc)
qed

text \<open>The classes of a pattern, and patterns that cannot take a bracket.\<close>

fun item_classes :: "item \<Rightarrow> cp_class list" where
  "item_classes (One p) = [p]"
| "item_classes (Many p) = [p]"
| "item_classes (Alts alts) = concat alts"

definition no_bracket :: "pattern \<Rightarrow> bool" where
  "no_bracket is \<longleftrightarrow> list_all (\<lambda>p. \<not> p ''['' \<and> \<not> p '']'') (concat (map item_classes is))"

lemma accepts_classes: "accepts is w \<Longrightarrow> c \<in> set w \<Longrightarrow> \<exists>p \<in> set (concat (map item_classes is)). p c"
proof (induction "is" arbitrary: w)
  case (Cons i "is")
  show ?case
  proof (cases i)
    case (Alts alts)
    then obtain ps u v where w: "ps \<in> set alts" "w = u @ v" "list_all2 (\<lambda>p c. p c) ps u" "accepts is v" using Cons.prems by auto
    show ?thesis
    proof (cases "c \<in> set v")
      case True
      then show ?thesis using Cons.IH [OF w(4)] by auto
    next
      case False
      then have "c \<in> set u" using Cons.prems w by auto
      then obtain p where "p \<in> set ps" "p c" using w(3) by (force simp: list_all2_conv_all_nth in_set_conv_nth)
      then show ?thesis using Alts w(1) by auto
    qed
  qed (use Cons in \<open>fastforce simp: list_all_iff\<close>)+
qed simp

lemma accepts_no_bracket: "no_bracket is \<Longrightarrow> accepts is w \<Longrightarrow> ''['' \<notin> set w \<and> '']'' \<notin> set w"
  using accepts_classes unfolding no_bracket_def list_all_iff by blast

text \<open>Up to the first bracket a substitution has copied its text.\<close>

lemma sub_at_prefix:
  assumes "sub_at fresh bol is (''['' # rep) s = w @ v" "''['' \<notin> set w"
  shows "\<exists>v'. s = w @ v'"
  using assms
proof (induction s arbitrary: fresh w v rule: length_induct)
  case (1 s)
  show ?case
  proof (cases "w = [] \<or> s = []")
    case False
    then obtain d w' c t where w: "w = d # w'" and s: "s = c # t" by (meson neq_Nil_conv)
    have "hit fresh bol is s = None" using "1.prems" by (cases "hit fresh bol is s") (auto simp: s w)
    then have "d = c" "sub_at (c = [CHR 0x0A]) bol is (''['' # rep) t = w' @ v" using "1.prems"(1) by (auto simp: s w)
    moreover have "length t < length s" "''['' \<notin> set w'" using "1.prems"(2) by (simp_all add: s w)
    moreover obtain v' where "t = w' @ v'" using "1.IH" calculation by meson
    ultimately show ?thesis by (simp add: s w)
  qed (use "1.prems" in auto)
qed

lemma factor_around:
  assumes "u @ w @ v = x @ b # y" "b \<notin> set w"
  shows "(\<exists>u' v'. x = u' @ w @ v') \<or> (\<exists>u' v'. y = u' @ w @ v')"
proof -
  consider a where "u = x @ b # a" | a where "x = u @ a" "w @ v = a @ b # y"
  proof -
    from assms(1) consider us where "u = x @ us" "us @ w @ v = b # y" | us where "u @ us = x" "w @ v = us @ b # y"
      by (auto simp: append_eq_append_conv2)
    then show ?thesis
    proof cases
      case 1
      then show ?thesis using that(1) [of "tl us"] that(2) [of "[]"] by (cases us) auto
    qed (use that in auto)
  qed
  then show ?thesis
  proof cases
    case 1
    then have "y = a @ w @ v" using assms(1) by simp
    then show ?thesis by blast
  next
    case 2
    then obtain a' where "a = w @ a'" using assms(2) by (auto simp: append_eq_append_conv2 Cons_eq_append_conv append_eq_Cons_conv)
    then show ?thesis using 2 by auto
  qed
qed

text \<open>A substitution whose replacement stands in brackets leaves a text free of a pattern without brackets, when nowhere the scan
  copies a code point does a word of the pattern begin.\<close>

lemma sub_at_free:
  assumes "no_bracket P" "\<not> accepts P []" "free_of P m"
    "\<And>fresh a c t. s = a @ c # t \<Longrightarrow> hit fresh bol is (c # t) = None \<Longrightarrow> match_at P (c # t) = None"
  shows "free_of P (sub_at fresh bol is (''['' # m @ ['']'']) s)"
  using assms(4)
proof (induction s arbitrary: fresh rule: length_induct)
  case (1 s)
  have inner: "\<not> accepts P w" if "m = u @ w @ v" for u w v using assms(3) that by (auto simp: free_of_def)
  show ?case
    unfolding free_of_def
  proof (intro allI impI notI)
    fix u w v
    assume o: "sub_at fresh bol is (''['' # m @ ['']'']) s = u @ w @ v" and acc: "accepts P w"
    have nb: "''['' \<notin> set w" "'']'' \<notin> set w" using accepts_no_bracket [OF assms(1) acc] by auto
    have ne: "w \<noteq> []" using acc assms(2) by auto
    show False
    proof (cases s)
      case Nil
      then show ?thesis using o ne by simp
    next
      case (Cons c t)
      show ?thesis
      proof (cases "hit fresh bol is s")
        case None
        show ?thesis
        proof (cases u)
          case Nil
          then obtain v' where "s = w @ v'" using sub_at_prefix [of fresh bol "is" "m @ ['']'']" s w v] o nb by auto
          then have "match_at P s \<noteq> None" using match_complete [OF acc] by simp
          then show ?thesis using "1.prems" [of "[]" c t fresh] None Cons by simp
        next
          case (Cons d u')
          then have "sub_at (c = [CHR 0x0A]) bol is (''['' # m @ ['']'']) t = u' @ w @ v" using o None \<open>s = c # t\<close> by auto
          moreover have "free_of P (sub_at (c = [CHR 0x0A]) bol is (''['' # m @ ['']'']) t)"
            using "1.IH" "1.prems" \<open>s = c # t\<close> by (metis append_Cons length_Cons lessI)
          ultimately show ?thesis using acc unfolding free_of_def by blast
        qed
      next
        case (Some r)
        let ?q = "sub_at (last (take (length s - length r) s) = [CHR 0x0A]) bol is (''['' # m @ ['']'']) r"
        obtain x where x: "s = x @ r" using Some match_sound by (auto simp: hit_def split: if_splits option.splits)
        have "u @ w @ v = [] @ ''['' # (m @ '']'' # ?q)" using o Some Cons by simp
        from factor_around [OF this nb(1)] ne obtain u1 v1 where "u1 @ w @ v1 = m @ '']'' # ?q" by auto
        from factor_around [OF this nb(2)] inner acc obtain u2 v2 where "?q = u2 @ w @ v2" by blast
        moreover have "free_of P ?q"
          using "1.IH" "1.prems" hit_shorter [OF Some] x by (metis append.assoc)
        ultimately show ?thesis using acc unfolding free_of_def by blast
      qed
    qed
  qed
qed

text \<open>So a substitution removes its own pattern, and brings no other back.\<close>

lemma sub_at_removes:
  assumes "no_bracket is" "match_at is [] = None" "free_of is m"
  shows "free_of is (sub_at fresh False is (''['' # m @ ['']'']) s)"
proof (rule sub_at_free [OF assms(1) _ assms(3)])
  show empty: "\<not> accepts is []" using assms(2) match_complete [of "is" "[]" "[]"] by auto
  fix fresh a c t
  assume none: "hit fresh False is (c # t) = None"
  show "match_at is (c # t) = None"
  proof (rule ccontr)
    assume "match_at is (c # t) \<noteq> None"
    then obtain r where r: "match_at is (c # t) = Some r" by auto
    with none have "\<not> length r < length (c # t)" by (auto simp: hit_def)
    moreover obtain w where "c # t = w @ r" "accepts is w" using match_sound [OF r] by blast
    moreover from this have "length (c # t) = length w + length r" by (metis length_append)
    ultimately show False using empty by (cases w) auto
  qed
qed

lemma sub_at_keeps:
  assumes "no_bracket P" "match_at P [] = None" "free_of P m" "free_of P s"
  shows "free_of P (sub_at fresh bol is (''['' # m @ ['']'']) s)"
proof (rule sub_at_free [OF assms(1) _ assms(3)])
  show "\<not> accepts P []" using assms(2) match_complete [of P "[]" "[]"] by auto
qed (use assms(4) in \<open>auto simp: free_of_suffixes\<close>)

end
