(* ===== verification/Hermes_Waiting.thy ===== *)
theory Hermes_Waiting
  imports Hermes_Store
begin

text \<open>
  How the vendored adapter (\<open>compat/hermes/upstream/adapter.py\<close>) matches replies to the requests that wait for them: the table of
  pending tasks, the order of registration per context, and the tasks a request still owns. Every operation holds the pending lock, so it is
  one function of the state. A future is a number; the list of futures keeps what each was resolved with. What is shown: over every
  interleaving of these operations, a final reply for a context goes to the oldest request of that context which has none yet, and to no
  other.
\<close>

declare split_paired_All [simp del] split_paired_Ex [simp del]

section \<open>Operations\<close>

record waiting =
  w_pending :: "(string \<times> (string \<times> nat)) list"
  w_order :: "(string \<times> string list) list"
  w_active :: "string set"
  w_futures :: "outcome option list"

definition new_waiting :: waiting where
  "new_waiting = \<lparr>w_pending = [], w_order = [], w_active = {}, w_futures = []\<rparr>"

abbreviation queue :: "string \<Rightarrow> waiting \<Rightarrow> string list" where
  "queue ctx w \<equiv> (case map_of (w_order w) ctx of Some q \<Rightarrow> q | None \<Rightarrow> [])"

definition add_pending :: "string \<Rightarrow> string \<Rightarrow> waiting \<Rightarrow> nat \<times> waiting" where
  "add_pending tid ctx w =
     (let fut = length (w_futures w) in
      (fut, \<lparr>w_pending = AList.update tid (ctx, fut) (w_pending w), w_order = AList.update ctx (queue ctx w @ [tid]) (w_order w),
             w_active = insert tid (w_active w), w_futures = w_futures w @ [None]\<rparr>))"

definition activate_task :: "string \<Rightarrow> waiting \<Rightarrow> waiting" where
  "activate_task tid w = w\<lparr>w_active := insert tid (w_active w)\<rparr>"

text \<open>\<open>order.remove(task_id)\<close> takes the first occurrence; an order that is or becomes empty is dropped.\<close>

definition pop_pending :: "string \<Rightarrow> waiting \<Rightarrow> waiting" where
  "pop_pending tid w =
     (let w1 = w\<lparr>w_active := w_active w - {tid}, w_pending := AList.delete tid (w_pending w)\<rparr> in
      case map_of (w_pending w) tid of
        None \<Rightarrow> w1
      | Some (ctx, _) \<Rightarrow>
          (case map_of (w_order w) ctx of
             None \<Rightarrow> w1
           | Some q \<Rightarrow>
               let q1 = remove1 tid q in
               w1\<lparr>w_order := (if q1 = [] then AList.delete ctx (w_order w) else AList.update ctx q1 (w_order w))\<rparr>))"

definition resolve_locked :: "string \<Rightarrow> outcome \<Rightarrow> waiting \<Rightarrow> bool \<times> waiting" where
  "resolve_locked tid v w =
     (case map_of (w_pending w) tid of
        None \<Rightarrow> (False, w)
      | Some (_, fut) \<Rightarrow> if w_futures w ! fut \<noteq> None then (False, w) else (True, w\<lparr>w_futures := (w_futures w)[fut := Some v]\<rparr>))"

definition resolve_task :: "string \<Rightarrow> outcome \<Rightarrow> waiting \<Rightarrow> bool \<times> waiting" where
  "resolve_task tid v w = resolve_locked tid v w"

text \<open>\<open>any\<close> over the order: it stops at the first task that was resolved.\<close>

fun resolve_any :: "string list \<Rightarrow> outcome \<Rightarrow> waiting \<Rightarrow> bool \<times> waiting" where
  "resolve_any [] v w = (False, w)"
| "resolve_any (tid # tids) v w = (let (ok, w1) = resolve_locked tid v w in if ok then (True, w1) else resolve_any tids v w1)"

definition resolve_oldest_for_context :: "string \<Rightarrow> outcome \<Rightarrow> waiting \<Rightarrow> bool \<times> waiting" where
  "resolve_oldest_for_context ctx v w = resolve_any (queue ctx w) v w"

text \<open>\<open>send\<close>: only the final reply counts, which \<open>metadata["notify"]\<close> marks.\<close>

definition send_final :: "string \<Rightarrow> string \<Rightarrow> bool \<Rightarrow> waiting \<Rightarrow> waiting" where
  "send_final ctx content notify w = (if notify then snd (resolve_oldest_for_context ctx (STATE_COMPLETED, content) w) else w)"

datatype processing_outcome = PSuccess | PFailure | PCancelled

definition on_processing_complete :: "string \<Rightarrow> processing_outcome \<Rightarrow> waiting \<Rightarrow> waiting" where
  "on_processing_complete tid oc w =
     (if tid = [] then w
      else snd (resolve_task tid (case oc of PFailure \<Rightarrow> (STATE_FAILED, ''[agent processing failed]'') | PCancelled \<Rightarrow> (STATE_CANCELED, [])
             | PSuccess \<Rightarrow> (STATE_COMPLETED, [])) w))"

definition disconnect :: "waiting \<Rightarrow> waiting" where
  "disconnect w =
     (fold (\<lambda>tid w. snd (resolve_locked tid (STATE_FAILED, ''[agent shutting down]'') w)) (map fst (w_pending w)) w)
       \<lparr>w_pending := [], w_order := [], w_active := {}\<rparr>"

section \<open>Interleavings\<close>

text \<open>The steps of the adapter's threads. A request draws a task identifier that is in use nowhere.\<close>

datatype wait_event = Register string string | Own string | Release string | ResolveTask string outcome | ResolveOldest string outcome | Shutdown

inductive wait_step :: "waiting \<Rightarrow> wait_event \<Rightarrow> waiting \<Rightarrow> bool" where
  Register: "map_of (w_pending w) tid = None \<Longrightarrow> wait_step w (Register tid ctx) (snd (add_pending tid ctx w))"
| Own: "wait_step w (Own tid) (activate_task tid w)"
| Release: "wait_step w (Release tid) (pop_pending tid w)"
| ResolveTask: "wait_step w (ResolveTask tid v) (snd (resolve_task tid v w))"
| ResolveOldest: "wait_step w (ResolveOldest ctx v) (snd (resolve_oldest_for_context ctx v w))"
| Shutdown: "wait_step w Shutdown (disconnect w)"

inductive_cases wait_stepE: "wait_step w e w'"

text \<open>The orders hold exactly the pending tasks, each under its context and by age; futures are distinct; a pending task is owned.\<close>

definition future :: "waiting \<Rightarrow> string \<Rightarrow> nat" where
  "future w tid = snd (the (map_of (w_pending w) tid))"

definition waiting_ok :: "waiting \<Rightarrow> bool" where
  "waiting_ok w \<longleftrightarrow> keys_ok (w_pending w) \<and> keys_ok (w_order w) \<and>
     (\<forall>tid ctx f. map_of (w_pending w) tid = Some (ctx, f) \<longrightarrow> f < length (w_futures w) \<and> tid \<in> set (queue ctx w) \<and> tid \<in> w_active w) \<and>
     (\<forall>ctx tid. tid \<in> set (queue ctx w) \<longrightarrow> (\<exists>f. map_of (w_pending w) tid = Some (ctx, f))) \<and>
     (\<forall>ctx. sorted_wrt (\<lambda>a b. future w a < future w b) (queue ctx w))"

lemma waiting_okI:
  assumes "keys_ok (w_pending w)" "keys_ok (w_order w)"
    "\<And>tid ctx f. map_of (w_pending w) tid = Some (ctx, f) \<Longrightarrow> f < length (w_futures w) \<and> tid \<in> set (queue ctx w) \<and> tid \<in> w_active w"
    "\<And>ctx tid. tid \<in> set (queue ctx w) \<Longrightarrow> \<exists>f. map_of (w_pending w) tid = Some (ctx, f)"
    "\<And>ctx. sorted_wrt (\<lambda>a b. future w a < future w b) (queue ctx w)"
  shows "waiting_ok w"
  using assms unfolding waiting_ok_def by blast

lemma waiting_okD:
  assumes "waiting_ok w"
  shows "keys_ok (w_pending w)" "keys_ok (w_order w)"
    "map_of (w_pending w) tid = Some (ctx, f) \<Longrightarrow> f < length (w_futures w)" "map_of (w_pending w) tid = Some (ctx, f) \<Longrightarrow> tid \<in> set (queue ctx w)"
    "map_of (w_pending w) tid = Some (ctx, f) \<Longrightarrow> tid \<in> w_active w"
    "tid \<in> set (queue ctx w) \<Longrightarrow> \<exists>f. map_of (w_pending w) tid = Some (ctx, f)" "sorted_wrt (\<lambda>a b. future w a < future w b) (queue ctx w)"
  using assms unfolding waiting_ok_def by blast+

lemma ordered_distinct: "sorted_wrt (\<lambda>a b. f a < (f b :: nat)) xs \<Longrightarrow> distinct xs"
  by (induction xs) auto

text \<open>Resolving changes futures only.\<close>

lemma waiting_ok_futures: "waiting_ok w \<Longrightarrow> length fs = length (w_futures w) \<Longrightarrow> waiting_ok (w\<lparr>w_futures := fs\<rparr>)"
  by (simp add: waiting_ok_def future_def)

lemma resolve_locked_ok: "waiting_ok w \<Longrightarrow> waiting_ok (snd (resolve_locked tid v w))"
  by (auto simp: resolve_locked_def intro!: waiting_ok_futures split: option.split)

lemma resolve_any_ok: "waiting_ok w \<Longrightarrow> waiting_ok (snd (resolve_any tids v w))"
proof (induction tids arbitrary: w)
  case (Cons tid tids)
  then show ?case using resolve_locked_ok [OF Cons.prems, of tid v] by (auto split: prod.split)
qed simp

lemma add_pending_ok:
  assumes ok: "waiting_ok w" and fresh: "map_of (w_pending w) tid = None"
  shows "waiting_ok (snd (add_pending tid ctx w))"
proof (rule waiting_okI)
  let ?w = "snd (add_pending tid ctx w)"
  have q: "queue c ?w = (if c = ctx then queue ctx w @ [tid] else queue c w)" for c
    by (simp add: add_pending_def Let_def AList.update_conv)
  have p: "map_of (w_pending ?w) t = (if t = tid then Some (ctx, length (w_futures w)) else map_of (w_pending w) t)" for t
    by (simp add: add_pending_def Let_def AList.update_conv)
  have notin: "tid \<notin> set (queue c w)" for c using waiting_okD(6) [OF ok, of tid c] fresh by auto
  show "keys_ok (w_pending ?w)" "keys_ok (w_order ?w)" using waiting_okD(1,2) [OF ok] by (simp_all add: add_pending_def Let_def)
  show "f < length (w_futures ?w) \<and> t \<in> set (queue c ?w) \<and> t \<in> w_active ?w" if "map_of (w_pending ?w) t = Some (c, f)" for t c f
    using that waiting_okD(3-5) [OF ok, of t c f] unfolding p q by (auto simp: add_pending_def Let_def split: if_splits)
  show "\<exists>f. map_of (w_pending ?w) t = Some (c, f)" if "t \<in> set (queue c ?w)" for c t
    using that waiting_okD(6) [OF ok, of t c] notin [of c] unfolding p q by (auto split: if_splits)
  show "sorted_wrt (\<lambda>a b. future ?w a < future ?w b) (queue c ?w)" for c
  proof -
    have same: "future ?w t = future w t" "future w t < length (w_futures w)" if "t \<in> set (queue c w)" for t c
      using that notin waiting_okD(3) [OF ok] waiting_okD(6) [OF ok that] by (auto simp: future_def p)
    have new: "future ?w tid = length (w_futures w)" by (simp add: future_def p)
    have "sorted_wrt (\<lambda>a b. future ?w a < future ?w b) (queue c w)" for c
      using waiting_okD(7) [OF ok, of c] by (rule sorted_wrt_mono_rel [rotated]) (use same in auto)
    then show ?thesis unfolding q using same new by (auto simp: sorted_wrt_append)
  qed
qed

lemma pop_pending_ok:
  assumes ok: "waiting_ok w"
  shows "waiting_ok (pop_pending tid w)"
proof (cases "map_of (w_pending w) tid")
  case None
  then have "AList.delete tid (w_pending w) = w_pending w" by (simp add: map_of_eq_None_iff delete_id)
  moreover have "tid \<notin> set (queue c w)" for c using waiting_okD(6) [OF ok, of tid c] None by auto
  ultimately show ?thesis using ok None unfolding waiting_ok_def by (auto simp: pop_pending_def Let_def future_def)
next
  case (Some e)
  obtain ctx f where e: "e = (ctx, f)" by (cases e)
  let ?w = "pop_pending tid w"
  have in_q: "tid \<in> set (queue ctx w)" using waiting_okD(4) [OF ok] Some e by blast
  have dist: "distinct (queue ctx w)"
    using waiting_okD(7) [OF ok, of ctx] by (rule ordered_distinct)
  show ?thesis
  proof (rule waiting_okI)
    have q: "queue c ?w = (if c = ctx then remove1 tid (queue ctx w) else queue c w)" for c
      using in_q Some e by (auto simp: pop_pending_def Let_def AList.update_conv AList.delete_conv split: option.splits)
    have p: "map_of (w_pending ?w) t = (if t = tid then None else map_of (w_pending w) t)" for t
      using Some e by (auto simp: pop_pending_def Let_def AList.delete_conv split: option.splits)
    have fut: "w_futures ?w = w_futures w" "w_active ?w = w_active w - {tid}"
      using Some e by (auto simp: pop_pending_def Let_def split: option.splits)
    have notin: "tid \<notin> set (queue c ?w)" for c
      unfolding q using dist waiting_okD(6) [OF ok, of tid c] Some e by auto
    show "keys_ok (w_pending ?w)" "keys_ok (w_order ?w)"
      using waiting_okD(1,2) [OF ok] Some e by (auto simp: pop_pending_def Let_def split: option.splits)
    show "g < length (w_futures ?w) \<and> t \<in> set (queue c ?w) \<and> t \<in> w_active ?w" if "map_of (w_pending ?w) t = Some (c, g)" for t c g
      using that waiting_okD(3-5) [OF ok, of t c g] unfolding p q fut by (auto split: if_splits)
    show "\<exists>g. map_of (w_pending ?w) t = Some (c, g)" if "t \<in> set (queue c ?w)" for c t
    proof -
      have "t \<noteq> tid" using that notin [of c] by blast
      moreover have "t \<in> set (queue c w)" using that set_remove1_subset [of tid "queue ctx w"] unfolding q by (cases "c = ctx") auto
      ultimately show ?thesis using waiting_okD(6) [OF ok, of t c] by (simp add: p)
    qed
    show "sorted_wrt (\<lambda>a b. future ?w a < future ?w b) (queue c ?w)" for c
    proof -
      have "sorted_wrt (\<lambda>a b. future w a < future w b) (queue c ?w)"
        using waiting_okD(7) [OF ok, of c] dist by (auto simp: q distinct_remove1_removeAll removeAll_filter_not_eq intro: sorted_wrt_filter)
      then show ?thesis by (rule sorted_wrt_mono_rel [rotated]) (use notin in \<open>auto simp: future_def p\<close>)
    qed
  qed
qed


lemma disconnect_ok: "waiting_ok (disconnect w)"
  by (simp add: waiting_ok_def disconnect_def)

lemma wait_step_ok: "waiting_ok w \<Longrightarrow> wait_step w e w' \<Longrightarrow> waiting_ok w'"
  by (erule wait_stepE)
    (auto simp: add_pending_ok pop_pending_ok resolve_locked_ok resolve_any_ok disconnect_ok resolve_task_def resolve_oldest_for_context_def,
     auto simp: waiting_ok_def activate_task_def future_def)

interpretation waits: invariant_system wait_step waiting_ok
  by unfold_locales (rule wait_step_ok)

section \<open>Replies go to the oldest request\<close>

text \<open>The futures of a context that wait.\<close>

definition unanswered :: "string \<Rightarrow> waiting \<Rightarrow> nat set" where
  "unanswered ctx w = {f. w_futures w ! f = None \<and> (\<exists>tid. map_of (w_pending w) tid = Some (ctx, f))}"

lemma resolve_any_first:
  assumes "\<forall>tid \<in> set tids. \<exists>c f. map_of (w_pending w) tid = Some (c, f)"
  shows "resolve_any tids v w =
    (case filter (\<lambda>tid. w_futures w ! future w tid = None) tids of
       [] \<Rightarrow> (False, w) | tid # _ \<Rightarrow> (True, w\<lparr>w_futures := (w_futures w)[future w tid := Some v]\<rparr>))"
  using assms by (induction tids) (auto simp: resolve_locked_def future_def)

lemma resolve_oldest_exact:
  assumes ok: "waiting_ok w"
  shows "resolve_oldest_for_context ctx v w =
    (if unanswered ctx w = {} then (False, w) else (True, w\<lparr>w_futures := (w_futures w)[Min (unanswered ctx w) := Some v]\<rparr>))"
proof -
  let ?q = "queue ctx w" and ?open = "\<lambda>tid. w_futures w ! future w tid = None"
  have img: "unanswered ctx w = future w ` set (filter ?open ?q)"
  proof
    show "unanswered ctx w \<subseteq> future w ` set (filter ?open ?q)"
      using waiting_okD(4) [OF ok] by (force simp: unanswered_def future_def)
    show "future w ` set (filter ?open ?q) \<subseteq> unanswered ctx w"
      using waiting_okD(6) [OF ok] by (fastforce simp: unanswered_def future_def)
  qed
  have first: "resolve_oldest_for_context ctx v w =
    (case filter ?open ?q of [] \<Rightarrow> (False, w) | tid # _ \<Rightarrow> (True, w\<lparr>w_futures := (w_futures w)[future w tid := Some v]\<rparr>))"
    unfolding resolve_oldest_for_context_def by (rule resolve_any_first) (use waiting_okD(6) [OF ok] in blast)
  show ?thesis
  proof (cases "filter ?open ?q")
    case Nil
    then show ?thesis using first img by (simp del: filter_empty_conv)
  next
    case (Cons tid rest)
    have "sorted_wrt (\<lambda>a b. future w a < future w b) (tid # rest)"
      unfolding Cons [symmetric] by (rule sorted_wrt_filter) (rule waiting_okD(7) [OF ok])
    then have "Min (unanswered ctx w) = future w tid"
      unfolding img Cons by (intro Min_eqI) (auto simp: less_imp_le)
    then show ?thesis using first img Cons by simp
  qed
qed

text \<open>C25: A reply reaches the right request: however registrations, releases, cancellations and replies interleave, a final reply for a
  context resolves exactly the oldest request of that context that has no answer yet, whichever it is, and touches no other request; with
  none waiting it changes nothing. Messages that are not final change nothing.\<close>

theorem reply_to_oldest:
  assumes "run wait_step new_waiting es w"
  shows "send_final ctx content notify w =
    (if notify \<and> unanswered ctx w \<noteq> {} then w\<lparr>w_futures := (w_futures w)[Min (unanswered ctx w) := Some (STATE_COMPLETED, content)]\<rparr> else w)"
proof -
  have "waiting_ok new_waiting" by (simp add: waiting_ok_def new_waiting_def)
  then have "waiting_ok w" using assms waits.run_good by blast
  from resolve_oldest_exact [OF this] show ?thesis by (simp add: send_final_def)
qed


theorem reply_to_oldest_witness:
  "w_futures (send_final ''c'' ''hi'' True (snd (add_pending ''t2'' ''c'' (snd (add_pending ''t1'' ''c'' new_waiting))))) = [Some (STATE_COMPLETED, ''hi''), None]"
proof -
  let ?w1 = "snd (add_pending ''t1'' ''c'' new_waiting)"
  let ?w2 = "snd (add_pending ''t2'' ''c'' ?w1)"
  have "wait_step new_waiting (Register ''t1'' ''c'') ?w1" "wait_step ?w1 (Register ''t2'' ''c'') ?w2"
    by (rule wait_step.Register, simp add: new_waiting_def add_pending_def Let_def)+
  then have "run wait_step new_waiting [Register ''t1'' ''c'', Register ''t2'' ''c''] ?w2" by (blast intro: run_Cons)
  from reply_to_oldest [OF this, of "''c''" "''hi''" True]
  have "send_final ''c'' ''hi'' True ?w2 = (if unanswered ''c'' ?w2 \<noteq> {} then ?w2\<lparr>w_futures := (w_futures ?w2)[Min (unanswered ''c'' ?w2) := Some (STATE_COMPLETED, ''hi'')]\<rparr> else ?w2)"
    by simp
  moreover have "unanswered ''c'' ?w2 = {0, 1}"
  proof -
    have "?w2 = \<lparr>w_pending = [(''t1'', ''c'', 0), (''t2'', ''c'', 1)], w_order = [(''c'', [''t1'', ''t2''])], w_active = {''t1'', ''t2''}, w_futures = [None, None]\<rparr>"
      by (auto simp: new_waiting_def add_pending_def Let_def)
    moreover have "(\<exists>tid. map_of [(''t1'', ''c'', 0), (''t2'', ''c'', 1)] tid = Some (''c'', f)) \<longleftrightarrow> f = 0 \<or> f = 1" for f :: nat
    proof
      assume "f = 0 \<or> f = 1"
      then have "map_of [(''t1'', ''c'', 0), (''t2'', ''c'', 1)] (if f = 0 then ''t1'' else ''t2'') = Some (''c'', f)" by auto
      then show "\<exists>tid. map_of [(''t1'', ''c'', 0), (''t2'', ''c'', 1)] tid = Some (''c'', f)"
        by (rule exI [of _ "if f = 0 then ''t1'' else ''t2''"])
    qed (auto split: if_splits)
    ultimately have "unanswered ''c'' ?w2 = {f. [None, None :: outcome option] ! f = None \<and> (f = 0 \<or> f = 1)}"
      by (simp only: unanswered_def waiting.simps)
    also have "\<dots> = {0, 1}" by auto
    finally show ?thesis .
  qed
  ultimately show ?thesis by (simp add: new_waiting_def add_pending_def Let_def)
qed

end
