(* ===== verification/Hermes_Messages.thy ===== *)
theory Hermes_Messages
  imports Hermes_Store Py_Text
begin

text \<open>
  The messages of the vendored Hermes A2A adapter (\<open>compat/hermes/upstream/protocol.py\<close>): the agent card, JSON-RPC
  envelopes, tasks and stream events, what is read from a request, and the conversation log. Time stamps and random
  identifiers are arguments, as are the environment's settings. A reply is the JSON value that is printed; an event frame is
  its text.
\<close>

section \<open>Roles and error codes\<close>

definition ROLE_AGENT :: string where "ROLE_AGENT = ''ROLE_AGENT''"

definition INPUT_REQUIRED_MARKER :: string where "INPUT_REQUIRED_MARKER = ''[INPUT_REQUIRED]''"

definition ERR_PARSE :: int where "ERR_PARSE = - 32700"
definition ERR_INVALID_PARAMS :: int where "ERR_INVALID_PARAMS = - 32602"
definition ERR_METHOD_NOT_FOUND :: int where "ERR_METHOD_NOT_FOUND = - 32601"
definition ERR_TASK_NOT_FOUND :: int where "ERR_TASK_NOT_FOUND = - 32001"
definition ERR_TASK_NOT_CANCELABLE :: int where "ERR_TASK_NOT_CANCELABLE = - 32002"
definition ERR_UNAUTHORIZED :: int where "ERR_UNAUTHORIZED = - 32050"
definition ERR_RATE_LIMITED :: int where "ERR_RATE_LIMITED = - 32051"
definition ERR_UNTRUSTED_PEER :: int where "ERR_UNTRUSTED_PEER = - 32052"

lemmas err_defs = ERR_PARSE_def ERR_INVALID_PARAMS_def ERR_METHOD_NOT_FOUND_def ERR_TASK_NOT_FOUND_def ERR_TASK_NOT_CANCELABLE_def
  ERR_UNAUTHORIZED_def ERR_RATE_LIMITED_def ERR_UNTRUSTED_PEER_def

section \<open>Agent card\<close>

text \<open>The settings \<open>A2A_PROVIDER_ORG\<close> and \<open>A2A_PROVIDER_URL\<close> are the first two arguments.\<close>

definition build_agent_card :: "string option \<Rightarrow> string option \<Rightarrow> string \<Rightarrow> string \<Rightarrow> string \<Rightarrow> json list \<Rightarrow> bool \<Rightarrow> bool \<Rightarrow> bool \<Rightarrow> string \<Rightarrow> json" where
  "build_agent_card org provider name url description skills streaming push auth_required tenant =
     JObj ([(''name'', JStr name), (''description'', JStr description), (''url'', JStr url), (''version'', JStr ''1.0.0''),
        (''provider'', JObj [(''organization'', JStr (case org of Some v \<Rightarrow> v | None \<Rightarrow> ''Hermes Agent'')),
           (''url'', JStr (case provider of Some v \<Rightarrow> if v = [] then url else v | None \<Rightarrow> url))]),
        (''supportedInterfaces'', JList [JObj ([(''url'', JStr url), (''protocolBinding'', JStr ''JSONRPC''), (''protocolVersion'', JStr ''1.0'')] @
           (if tenant = [] then [] else [(''tenant'', JStr tenant)]))]),
        (''capabilities'', JObj [(''streaming'', JBool streaming), (''pushNotifications'', JBool push),
           (''stateTransitionHistory'', JBool False), (''extendedAgentCard'', JBool False)]),
        (''defaultInputModes'', JList [JStr ''text/plain'']), (''defaultOutputModes'', JList [JStr ''text/plain'']), (''skills'', JList skills)] @
      (if auth_required
       then [(''securitySchemes'', JObj [(''bearer'', JObj [(''type'', JStr ''http''), (''scheme'', JStr ''bearer'')])]),
             (''security'', JList [JObj [(''bearer'', JList [])]])]
       else []))"

text \<open>\<open>skills_from_toolsets\<close> on a mapping; a list of names is the mapping of its distinct names to no tools. UTF-8 order is the
  order of code points.\<close>

definition toolset_names :: "string list \<Rightarrow> (string \<times> string list) list" where
  "toolset_names names = map (\<lambda>n. (n, [])) (remdups names)"

definition skill :: "string \<times> string list \<Rightarrow> json" where
  "skill p = (case p of (name, tools) \<Rightarrow>
     JObj [(''id'', JStr (''toolset.'' @ name)), (''name'', JStr name), (''description'', JStr (''Hermes '' @ [CHR 0x27] @ name @ [CHR 0x27] @ '' capabilities'')),
       (''tags'', JList (map JStr (name # take 10 tools)))])"

definition skills_from_toolsets :: "(string \<times> string list) list \<Rightarrow> json list" where
  "skills_from_toolsets ts =
     (let skills = map skill (sort_key fst ts) in
      if skills \<noteq> [] then skills
      else [JObj [(''id'', JStr ''general''), (''name'', JStr ''general''), (''description'', JStr ''General-purpose conversational agent''),
              (''tags'', JList [JStr ''general''])]])"

section \<open>Envelopes\<close>

definition jsonrpc_result :: "json \<Rightarrow> json \<Rightarrow> json" where
  "jsonrpc_result req_id result = JObj [(''jsonrpc'', JStr ''2.0''), (''id'', req_id), (''result'', result)]"

definition jsonrpc_error :: "json \<Rightarrow> int \<Rightarrow> string \<Rightarrow> json" where
  "jsonrpc_error req_id c m =
     JObj [(''jsonrpc'', JStr ''2.0''), (''id'', req_id), (''error'', JObj [(''code'', JInt c), (''message'', JStr m)])]"

definition send_message_response :: "json \<Rightarrow> json" where
  "send_message_response payload =
     (if is_obj payload \<and> truthy (jget payload ''status'') \<and> truthy (jget payload ''id'') then JObj [(''task'', payload)] else JObj [(''message'', payload)])"

definition unwrap_send_message_response :: "json \<Rightarrow> json" where
  "unwrap_send_message_response result =
     (if is_obj result then
        if is_obj (jget result ''task'') then jget result ''task''
        else if is_obj (jget result ''message'') then jget result ''message'' else result
      else result)"

definition stream_task :: "json \<Rightarrow> json" where
  "stream_task task = JObj [(''task'', task)]"

section \<open>Messages and tasks\<close>

definition text_part :: "string \<Rightarrow> json" where
  "text_part t = JObj [(''text'', JStr t), (''mediaType'', JStr ''text/plain'')]"

definition text_message :: "string \<Rightarrow> string \<Rightarrow> string \<Rightarrow> string \<Rightarrow> json" where
  "text_message mid role t ctx =
     JObj ([(''role'', JStr role), (''parts'', JList [text_part t]), (''messageId'', JStr mid)] @ (if ctx = [] then [] else [(''contextId'', JStr ctx)]))"

text \<open>The stamp and the identifiers drawn for one message and one artifact.\<close>

record drawn =
  d_iso :: string
  d_message :: string
  d_artifact :: string

definition build_task :: "drawn \<Rightarrow> string \<Rightarrow> string \<Rightarrow> string \<Rightarrow> string \<Rightarrow> json" where
  "build_task d tid ctx st t =
     JObj ([(''id'', JStr tid), (''contextId'', JStr ctx),
        (''status'', JObj ([(''state'', JStr st), (''timestamp'', JStr (d_iso d))] @
           (if t = [] then [] else [(''message'', text_message (d_message d) ROLE_AGENT t ctx)])))] @
      (if t \<noteq> [] \<and> st = STATE_COMPLETED
       then [(''artifacts'', JList [JObj [(''artifactId'', JStr (d_artifact d)), (''parts'', JList [text_part t])]])] else []))"

definition status_update :: "drawn \<Rightarrow> string \<Rightarrow> string \<Rightarrow> string \<Rightarrow> string \<Rightarrow> json" where
  "status_update d tid ctx st t =
     JObj [(''statusUpdate'', JObj [(''taskId'', JStr tid), (''contextId'', JStr ctx),
        (''status'', JObj ([(''state'', JStr st), (''timestamp'', JStr (d_iso d))] @
           (if t = [] then [] else [(''message'', text_message (d_message d) ROLE_AGENT t ctx)])))])]"

definition artifact_update :: "drawn \<Rightarrow> string \<Rightarrow> string \<Rightarrow> string \<Rightarrow> json" where
  "artifact_update d tid ctx t =
     JObj [(''artifactUpdate'', JObj [(''taskId'', JStr tid), (''contextId'', JStr ctx),
        (''artifact'', JObj [(''artifactId'', JStr (d_artifact d)), (''parts'', JList [text_part t])])])]"

text \<open>\<open>TaskStore.to_task\<close>.\<close>

definition to_task :: "drawn \<Rightarrow> bool \<Rightarrow> task_rec \<Rightarrow> json" where
  "to_task d include_artifacts r =
     (case build_task d (r_task_id r) (r_context_id r) (r_state r) (r_reply r) of
        JObj kvs \<Rightarrow> JObj (if include_artifacts then kvs else AList.delete ''artifacts'' kvs) | j \<Rightarrow> j)"

definition newlines :: string where "newlines = [CHR 0x0A, CHR 0x0A]"

definition sse_data :: "json option \<Rightarrow> json \<Rightarrow> string" where
  "sse_data req_id payload =
     ''data: '' @ json_dumps '', '' '': '' (case req_id of Some i \<Rightarrow> jsonrpc_result i payload | None \<Rightarrow> payload) @ newlines"

definition sse_done :: string where
  "sse_done = '': done'' @ newlines"

section \<open>Reading a request\<close>

definition file_note :: "json \<Rightarrow> string \<Rightarrow> json \<Rightarrow> string" where
  "file_note fname body mtype =
     (if truthy fname then ''[file: '' @ py_str fname @ '']'' else ''[file]'') @ '' '' @ body @ (if truthy mtype then '' ('' @ py_str mtype @ '')'' else [])"

text \<open>What one part contributes.\<close>

definition part_chunk :: "json \<Rightarrow> string option" where
  "part_chunk p =
     (if \<not> is_obj p then None
      else if is_str (jget p ''text'') then Some (py_str (jget p ''text''))
      else if is_str (jget p ''url'') \<and> truthy (jget p ''url'')
      then Some (file_note (py_or (jget p ''filename'') (py_or (jget p ''name'') (JStr []))) (py_str (jget p ''url''))
             (py_or (jget p ''mediaType'') (py_or (jget p ''mimeType'') (JStr []))))
      else if is_obj (jget p ''file'') \<and> is_str (jget (jget p ''file'') ''fileWithUri'')
      then Some (file_note (py_or (jget (jget p ''file'') ''name'') (JStr [])) (py_str (jget (jget p ''file'') ''fileWithUri''))
             (py_or (jget (jget p ''file'') ''mimeType'') (JStr [])))
      else if is_str (jget p ''raw'')
      then Some (file_note (py_or (jget p ''filename'') (JStr [])) (dec_nat (py_len (py_str (jget p ''raw''))) @ '' bytes base64-encoded'')
             (py_or (jget p ''mediaType'') (JStr [])))
      else if jget p ''data'' \<noteq> JNull
      then Some (''[data ('' @ py_str (py_or (jget p ''mediaType'') (JStr ''application/json'')) @ '')]'' @ [CHR 0x0A] @ json_dumps '', '' '': '' (jget p ''data''))
      else None)"

definition extract_text :: "json \<Rightarrow> exn + string" where
  "extract_text params =
     (let msg = (if jhas params ''message'' then jget params ''message'' else params) in
      bind_r (if is_obj msg then py_iter (if jhas msg ''parts'' then jget msg ''parts'' else JList []) else Inr [])
        (\<lambda>ps. Inr (py_strip (join [CHR 0x0A] (List.map_filter part_chunk ps)))))"

definition extract_context_id :: "json \<Rightarrow> string" where
  "extract_context_id params =
     (let msg = py_or (jget params ''message'') (JObj []);
          c = (if is_obj msg then py_str (py_or (jget msg ''contextId'') (JStr [])) else [])
      in if c \<noteq> [] then c else py_str (py_or (jget params ''contextId'') (JStr [])))"

section \<open>Conversation log\<close>

text \<open>Files by name, each the text written to it. A line with a lone surrogate cannot be encoded: the file is created, the error
  swallowed. Whether a code point is alphanumeric is Unicode data and an argument.\<close>

definition conv_name :: "(string \<Rightarrow> bool) \<Rightarrow> string \<Rightarrow> string" where
  "conv_name isalnum ctx =
     (let safe = concat (filter (\<lambda>c. isalnum c \<or> c \<in> {''-'', ''_''}) (code_points (if ctx = [] then ''default'' else ctx)))
      in (if safe = [] then ''default'' else safe) @ ''.jsonl'')"

definition log_line :: "json \<Rightarrow> string \<Rightarrow> string \<Rightarrow> string \<Rightarrow> string" where
  "log_line ts role t tid = json_dumps '', '' '': '' (JObj [(''ts'', ts), (''role'', JStr role), (''text'', JStr t), (''task_id'', JStr tid)]) @ [CHR 0x0A]"

definition persist_message :: "(string \<Rightarrow> bool) \<Rightarrow> json \<Rightarrow> string \<Rightarrow> string \<Rightarrow> string \<Rightarrow> string \<Rightarrow> (string \<times> string) list \<Rightarrow> (string \<times> string) list" where
  "persist_message isalnum ts ctx role t tid files =
     (let n = conv_name isalnum ctx; old = (case map_of files n of Some s \<Rightarrow> s | None \<Rightarrow> []); l = log_line ts role t tid
      in AList.update n (old @ (if utf8_valid l then l else [])) files)"

end
