(* ===== verification/Hermes_Adapter.thy ===== *)
theory Hermes_Adapter
  imports Hermes_Waiting Hermes_Messages Hermes_Security
begin

text \<open>
  The vendored Hermes A2A adapter itself (\<open>compat/hermes/upstream/adapter.py\<close>): which agent a request is for, the checks of a POST
  request in their order, how a message becomes a task, how its outcome is recorded, and the queries on tasks and push configurations.
  The adapter's own state is a record. A request that waits for the agent is two functions, the one before the wait and the one after; between
  them any other step may happen. Within one of them the calls run in the order of the code without interruption, and read the same time.
  What the environment decides - identifiers, stamps, the outcome of a dispatch, of a child process, of a callback - is an argument.
\<close>

declare split_paired_All [simp del] split_paired_Ex [simp del]

section \<open>Served agents\<close>

record agent =
  a_slug :: string
  a_path :: string
  a_tenant :: string
  a_profile :: string
  a_local :: bool
  a_name :: string
  a_description :: string
  a_toolsets :: "json list"

definition strip_of :: "char set \<Rightarrow> string \<Rightarrow> string" where
  "strip_of cs s = rstrip_chars (\<lambda>c. c \<in> cs) (dropWhile (\<lambda>c. c \<in> cs) s)"

definition clean_slug :: "string \<Rightarrow> string" where
  "clean_slug v =
     (let slug = strip_of {CHR ''/''} (py_strip v) in if slug \<in> {[], ''default'', ''root''} then [] else hd (split_on (CHR ''/'') slug))"

definition text_or :: "json \<Rightarrow> string \<Rightarrow> string" where
  "text_or v d = py_str (py_or v (JStr d))"

definition reserved_paths :: "string set" where
  "reserved_paths = {''health'', ''metrics'', ''.well-known''}"

definition toolsets_of :: "json \<Rightarrow> exn + json list" where
  "toolsets_of val =
     (case py_or (jget val ''advertised_toolsets'') (py_or (jget val ''toolsets'') (py_or (jget val ''capabilities'') (JList []))) of
        JStr t \<Rightarrow> Inr (map JStr (filter (\<lambda>x. x \<noteq> []) (map py_strip (split_on (CHR '','') t))))
      | v \<Rightarrow> py_iter v)"

text \<open>One entry of the configuration, with the agents and tenants so far. The entry's timeout only bounds a child process and is left out.\<close>

definition load_agent :: "string \<Rightarrow> string \<times> json \<Rightarrow> (string \<times> agent) list \<times> string list \<Rightarrow> exn + (string \<times> agent) list \<times> string list" where
  "load_agent active = (\<lambda>(key, val) (agents, tenants).
     if \<not> is_obj val then Inr (agents, tenants)
     else
       let slug = clean_slug (py_str (py_or (jget val ''slug'') (py_or (jget val ''id'') (JStr key)))); segment = clean_slug (text_or (jget val ''path'') slug);
           profile = py_strip (text_or (jget val ''profile'') slug); tenant = py_strip (text_or (jget val ''tenant'') slug) in
       if slug = [] then Inr (agents, tenants)
       else if segment = [] \<or> segment \<in> reserved_paths then Inr (agents, tenants)
       else if tenant \<noteq> [] \<and> tenant \<in> set tenants then Inr (agents, tenants)
       else bind_r (toolsets_of val) (\<lambda>toolsets.
         Inr (AList.update slug
           \<lparr>a_slug = slug, a_path = ''/'' @ segment, a_tenant = tenant, a_profile = (if profile = [] then slug else profile),
            a_local = (truthy (jget val ''local'') \<or> profile \<in> {[], ''default'', active}),
            a_name = text_or (jget val ''name'') (''Hermes '' @ slug),
            a_description = text_or (jget val ''description'')
              (''Hermes profile '' @ [CHR 0x27] @ (if profile = [] then slug else profile) @ [CHR 0x27] @ '' exposed over A2A.''),
            a_toolsets = toolsets\<rparr> agents,
           if tenant = [] then tenants else tenants @ [tenant])))"

fun load_agents :: "string \<Rightarrow> (string \<times> json) list \<Rightarrow> (string \<times> agent) list \<times> string list \<Rightarrow> exn + (string \<times> agent) list \<times> string list" where
  "load_agents active [] acc = Inr acc"
| "load_agents active (e # es) acc = bind_r (load_agent active e acc) (load_agents active es)"

definition served_entries :: "json \<Rightarrow> (string \<times> json) list" where
  "served_entries v = (case v of JObj kvs \<Rightarrow> kvs | JList xs \<Rightarrow> map (\<lambda>(i, x). (dec_nat i, x)) (enumerate 0 xs) | _ \<Rightarrow> [])"

text \<open>The entries come from the adapter's own configuration, else from the agent's (\<open>load_config\<close>, foreign code).\<close>

definition served_config :: "json \<Rightarrow> exn + json \<Rightarrow> exn + json" where
  "served_config extra load_config =
     (let v = py_or (jget extra ''agents'') (jget extra ''served_agents'') in
      if v \<noteq> JNull then Inr v
      else
        let cfg = (case load_config of Inr c \<Rightarrow> if is_obj c then c else JObj [] | Inl _ \<Rightarrow> JObj []) in
        if truthy (jget cfg ''a2a_served_agents'') then Inr (jget cfg ''a2a_served_agents'')
        else get_default (py_or (jget cfg ''a2a'') (JObj [])) ''served_agents'' JNull)"

definition load_served_agents :: "string \<Rightarrow> agent \<Rightarrow> json \<Rightarrow> exn + json \<Rightarrow> exn + (string \<times> agent) list" where
  "load_served_agents active default_agent extra load_config =
     bind_r (served_config extra load_config) (\<lambda>v. bind_r (load_agents active (served_entries v) ([([], default_agent)], [])) (\<lambda>acc. Inr (fst acc)))"

section \<open>Routing\<close>

datatype route = Routed agent string | Mismatch string

definition prefix_of :: "string \<Rightarrow> agent \<Rightarrow> bool" where
  "prefix_of path a \<longleftrightarrow> a_path a \<noteq> [] \<and> (path = a_path a \<or> starts_with (a_path a @ ''/'') path)"

definition route_for_path :: "(string \<Rightarrow> bool) \<Rightarrow> (string \<times> agent) list \<Rightarrow> string \<Rightarrow> exn + agent \<times> string" where
  "route_for_path nfkc agents raw_path =
     bind_r (urlsplit nfkc (if raw_path = [] then ''/'' else raw_path)) (\<lambda>u.
       let path = (if u_path u = [] then ''/'' else u_path u) in
       case filter (prefix_of path) (sort_key (\<lambda>a. - int (py_len (a_path a))) (map snd agents)) of
         a # _ \<Rightarrow> (let r = drop (length (a_path a)) path in Inr (a, if r = [] then ''/'' else r))
       | [] \<Rightarrow> (case map_of agents [] of Some a \<Rightarrow> Inr (a, path) | None \<Rightarrow> Inl (KeyError [])))"

definition route_for_request :: "(string \<Rightarrow> bool) \<Rightarrow> (string \<times> agent) list \<Rightarrow> string \<Rightarrow> json \<Rightarrow> exn + route" where
  "route_for_request nfkc agents raw_path params =
     bind_r (route_for_path nfkc agents raw_path) (\<lambda>(a0, sub).
       let tenant = text_or (jget params ''tenant'') [];
           a = (if a_slug a0 = [] \<and> tenant \<noteq> []
                then (case filter (\<lambda>a. a_tenant a = tenant) (map snd agents) of m # _ \<Rightarrow> m | [] \<Rightarrow> a0) else a0)
       in Inr (if tenant \<noteq> [] \<and> a_tenant a \<noteq> [] \<and> tenant \<noteq> a_tenant a
               then Mismatch (''tenant '' @ repr_str tenant @ '' does not match routed agent '' @ (if a_slug a = [] then ''default'' else a_slug a))
               else Routed a sub))"


section \<open>State and environment\<close>

record adapter =
  ad_tasks :: task_store
  ad_turns :: turns
  ad_buckets :: buckets
  ad_metrics :: metrics
  ad_waiting :: waiting
  ad_sessions :: "((string \<times> string \<times> string) \<times> string) list"
  ad_titles :: "(string \<times> string) list"
  ad_log :: "(string \<times> string) list"
  ad_audit :: "json list"
  ad_pushes :: "(string \<times> json \<times> string) list"

type_synonym 'a aprog = "('a, adapter) coroutine"

record adapter_env =
  e_security :: security_context
  e_agents :: "(string \<times> agent) list"
  e_max_turns :: int
  e_rate_limit :: int
  e_ready :: bool
  e_isalnum :: "string \<Rightarrow> bool"
  e_nfkc :: "string \<Rightarrow> bool"
  e_hmac :: "bytes \<Rightarrow> bytes \<Rightarrow> string"
  e_egress :: "string \<Rightarrow> string"
  e_push :: "string \<Rightarrow> json \<Rightarrow> string \<Rightarrow> int option"
  e_coerce :: "json \<Rightarrow> int \<Rightarrow> int"

text \<open>What happens to a child process.\<close>

datatype child = ChildTimeout | ChildFailed string | ChildExited int string string

record draws =
  q_now :: rat
  q_ts :: json
  q_task_id :: string
  q_context_id :: string
  q_config_id :: string
  q_drawn :: drawn
  q_dispatch :: "string option"
  q_child :: "string list \<Rightarrow> child"
  q_titled :: "string \<Rightarrow> string"
  q_latest :: string

definition get_a :: "(adapter \<Rightarrow> 'a) \<Rightarrow> 'a aprog" where
  "get_a f = (\<lambda>s. (Inr (f s), s))"

definition do_a :: "(adapter \<Rightarrow> adapter) \<Rightarrow> unit aprog" where
  "do_a f = (\<lambda>s. (Inr (), f s))"

definition lift_a :: "exn + 'a \<Rightarrow> 'a aprog" where
  "lift_a r = (\<lambda>s. (r, s))"

definition count_metric :: "(metrics \<Rightarrow> metrics) \<Rightarrow> unit aprog" where
  "count_metric f = do_a (\<lambda>s. s\<lparr>ad_metrics := f (ad_metrics s)\<rparr>)"

definition on_tasks :: "(task_store \<Rightarrow> task_store) \<Rightarrow> unit aprog" where
  "on_tasks f = do_a (\<lambda>s. s\<lparr>ad_tasks := f (ad_tasks s)\<rparr>)"

definition on_waiting :: "(waiting \<Rightarrow> waiting) \<Rightarrow> unit aprog" where
  "on_waiting f = do_a (\<lambda>s. s\<lparr>ad_waiting := f (ad_waiting s)\<rparr>)"

definition tasks_failed_1 :: "metrics \<Rightarrow> metrics" where
  "tasks_failed_1 m = m\<lparr>m_tasks_failed := m_tasks_failed m + 1\<rparr>"

section \<open>Recording an outcome\<close>

definition persist_a :: "adapter_env \<Rightarrow> json \<Rightarrow> string \<Rightarrow> string \<Rightarrow> string \<Rightarrow> string \<Rightarrow> unit aprog" where
  "persist_a env ts ctx role t tid = do_a (\<lambda>s. s\<lparr>ad_log := persist_message (e_isalnum env) ts ctx role t tid (ad_log s)\<rparr>)"

definition audit_a :: "json \<Rightarrow> string \<Rightarrow> string \<Rightarrow> string \<Rightarrow> string \<Rightarrow> unit aprog" where
  "audit_a ts direction peer tid summary = do_a (\<lambda>s. s\<lparr>ad_audit := ad_audit s @ [audit_record ts direction peer tid summary]\<rparr>)"

definition redact :: "adapter_env \<Rightarrow> string \<Rightarrow> string" where
  "redact env t = redact_outbound (e_egress env) t"

definition send_push_notification :: "adapter_env \<Rightarrow> draws \<Rightarrow> string \<Rightarrow> string \<Rightarrow> string \<Rightarrow> string \<Rightarrow> unit aprog" where
  "send_push_notification env q tid ctx reply st = (\<lambda>s.
     let (url, ts) = pop_push_url tid (ad_tasks s); s1 = s\<lparr>ad_tasks := ts\<rparr>;
         failed = (\<lambda>s. s\<lparr>ad_metrics := (ad_metrics s)\<lparr>m_push_failed := m_push_failed (ad_metrics s) + 1\<rparr>\<rparr>) in
     if url = [] then (Inr (), s1)
     else if \<not> is_safe_callback_url (e_nfkc env) (localhost_only (e_security env)) url then (Inr (), failed s1)
     else
       let payload = status_update (q_drawn q) tid ctx st (concat (take 2000 (code_points reply)));
           sig = sign_push_payload (e_hmac env) (e_security env) payload;
           s2 = s1\<lparr>ad_pushes := ad_pushes s1 @ [(url, payload, sig)]\<rparr> in
       case e_push env url payload sig of
         None \<Rightarrow> (Inr (), failed s2)
       | Some hc \<Rightarrow>
           if \<not> (200 \<le> hc \<and> hc < 300) then (Inr (), failed s2)
           else (Inr (), s2\<lparr>ad_metrics := (ad_metrics s2)\<lparr>m_push_sent := m_push_sent (ad_metrics s2) + 1\<rparr>\<rparr>))"

definition record_outcome :: "adapter_env \<Rightarrow> draws \<Rightarrow> string \<Rightarrow> string \<Rightarrow> string \<Rightarrow> string \<Rightarrow> string \<Rightarrow> rat option \<Rightarrow> unit aprog" where
  "record_outcome env q tid ctx peer st reply started =
     bind_p (persist_a env (q_ts q) ctx ''agent'' reply tid) (\<lambda>_.
     bind_p (audit_a (q_ts q) ''outbound'' peer tid reply) (\<lambda>_.
     bind_p (count_metric (\<lambda>m.
        if st \<in> {STATE_COMPLETED, STATE_INPUT_REQUIRED}
        then (case started of Some t0 \<Rightarrow> record_latency (q_now q - t0) | None \<Rightarrow> (\<lambda>m. m))
               (m\<lparr>m_outbound_total := m_outbound_total m + 1, m_tasks_completed := m_tasks_completed m + 1\<rparr>)
        else tasks_failed_1 m)) (\<lambda>_.
     bind_p (on_tasks (\<lambda>ts. snd (complete (q_now q) tid st reply ts))) (\<lambda>_.
     send_push_notification env q tid ctx reply st))))"

record pending =
  p_task_id :: string
  p_context_id :: string
  p_peer :: string
  p_future :: nat
  p_started :: rat

text \<open>A code point whose upper case is the given letter.\<close>

definition upper_is :: "char \<Rightarrow> string \<Rightarrow> bool" where
  "upper_is l x \<longleftrightarrow> (case x of [c] \<Rightarrow> c = l \<or> (is_alpha l \<and> lower_char c = lower_char l) | _ \<Rightarrow> False) \<or> l = CHR ''I'' \<and> x = [CHR 0xC4, CHR 0xB1]"

definition asks_input :: "string \<Rightarrow> string option" where
  "asks_input reply =
     (let cs = dropWhile py_blank (code_points reply); n = length INPUT_REQUIRED_MARKER in
      if length cs \<ge> n \<and> list_all2 upper_is INPUT_REQUIRED_MARKER (take n cs) then Some (py_strip (concat (drop n cs))) else None)"

definition finalize_task :: "adapter_env \<Rightarrow> draws \<Rightarrow> pending \<Rightarrow> outcome \<Rightarrow> outcome aprog" where
  "finalize_task env q p oc =
     (let reply0 = redact env (snd oc);
          (st, reply) = (case asks_input reply0 of
             Some t \<Rightarrow> if fst oc = STATE_COMPLETED then (STATE_INPUT_REQUIRED, t) else (fst oc, reply0)
           | None \<Rightarrow> (fst oc, reply0)) in
      bind_p (record_outcome env q (p_task_id p) (p_context_id p) (p_peer p) st reply (Some (p_started p))) (\<lambda>_.
      bind_p (on_waiting (pop_pending (p_task_id p))) (\<lambda>_. return_p (st, reply))))"

text \<open>\<open>_await_future\<close>: what each wait brings - the value, or that it timed out with the deadline reached or not and the keepalive failing or
  not. No more waits leave the caller waiting.\<close>

datatype poll = Got outcome | TimedOut bool bool

fun await_future :: "outcome \<Rightarrow> bool \<Rightarrow> poll list \<Rightarrow> outcome option" where
  "await_future on_timeout keepalive [] = None"
| "await_future on_timeout keepalive (Got v # ps) = Some v"
| "await_future on_timeout keepalive (TimedOut late broken # ps) =
     (if late then Some on_timeout
      else if keepalive \<and> broken then Some (STATE_FAILED, ''[client disconnected]'')
      else await_future on_timeout keepalive ps)"

definition await_reply :: "bool \<Rightarrow> poll list \<Rightarrow> outcome option" where
  "await_reply keepalive ps = await_future (STATE_FAILED, ''[agent did not reply in time]'') keepalive ps"


section \<open>Forwarding to another profile\<close>

definition safe_context_slug :: "string \<Rightarrow> string" where
  "safe_context_slug v =
     (let bad = (\<lambda>x. \<not> ascii_in (\<lambda>c. is_alpha c \<or> is_digit c \<or> c \<in> {CHR ''_'', CHR ''.'', CHR ''-''}) x);
          slug = strip_of {CHR ''-'', CHR ''.'', CHR ''_''} (concat (sub_at True False [One bad, Many bad] [''-''] (code_points v)))
      in take 96 (if slug = [] then ''ctx'' else slug))"

definition last_points :: "nat \<Rightarrow> string \<Rightarrow> string" where
  "last_points n t = (let cs = code_points t in concat (drop (length cs - n) cs))"

text \<open>Whether a session with the title is known to the profile's database (\<open>q_titled\<close>), how the child ends given its command, and the newest session
  afterwards (\<open>q_latest\<close>) are the environment's. The state keeps the sessions and the titles written.\<close>

definition forward_to_profile :: "adapter_env \<Rightarrow> draws \<Rightarrow> agent \<Rightarrow> string \<Rightarrow> string \<Rightarrow> outcome aprog" where
  "forward_to_profile env q a ctx framed = (\<lambda>s.
     let profile = py_strip (if a_profile a = [] then a_slug a else a_profile a);
         slug = (if a_slug a \<noteq> [] then a_slug a else if profile \<noteq> [] then profile else ''agent'');
         safe = safe_context_slug ctx; title = ''a2a-'' @ slug @ ''-'' @ safe; key = (if profile = [] then ''default'' else profile, slug, safe);
         known = (case map_of (ad_sessions s) key of Some i \<Rightarrow> i | None \<Rightarrow> []);
         session = (if known \<noteq> [] then known else q_titled q title);
         cmd = [''hermes'', ''chat'', ''-q'', framed, ''-Q'', ''--source'', ''a2a''] @ (if session = [] then [] else [''--resume'', session])
     in case q_child q cmd of
          ChildTimeout \<Rightarrow> (Inr (STATE_FAILED, ''[profile did not reply in time]''), s)
        | ChildFailed e \<Rightarrow> (Inr (STATE_FAILED, redact env (''Profile dispatch failed: '' @ e)), s)
        | ChildExited rc out err \<Rightarrow>
            if rc \<noteq> 0
            then (Inr (STATE_FAILED, redact env (last_points 2000 (py_strip (if err \<noteq> [] then err else if out \<noteq> [] then out else ''profile exited '' @ dec_int rc)))), s)
            else (Inr (STATE_COMPLETED, redact env (py_strip out)),
                  if session = [] \<and> q_latest q \<noteq> []
                  then s\<lparr>ad_sessions := AList.update key (q_latest q) (ad_sessions s), ad_titles := ad_titles s @ [(q_latest q, title)]\<rparr> else s))"

section \<open>From a message to a task\<close>

text \<open>A prepared request: its task has ended, or it waits.\<close>

datatype prepared = Ended json | Waits pending

definition end_task :: "draws \<Rightarrow> task_rec \<Rightarrow> string \<Rightarrow> string \<Rightarrow> string \<Rightarrow> prepared aprog" where
  "end_task q r st t stored =
     bind_p (on_tasks (\<lambda>ts. snd (complete (q_now q) (r_task_id r) st stored ts))) (\<lambda>_.
     bind_p (count_metric (if st = STATE_FAILED then tasks_failed_1 else (\<lambda>m. m))) (\<lambda>_.
     return_p (Ended (build_task (q_drawn q) (r_task_id r) (r_context_id r) st t))))"

definition anti_loop_text :: "string \<Rightarrow> int \<Rightarrow> string" where
  "anti_loop_text ctx n = ''Anti-loop protection: context '' @ ctx @ '' exceeded '' @ dec_int n @ '' turns. Start a new context or increase A2A_MAX_PINGPONG_TURNS.''"

definition nothing_to_do :: string where
  "nothing_to_do = ''Empty task '' @ [CHR 0xE2, CHR 0x80, CHR 0x94] @ '' nothing to do.''"

definition inline_push_url :: "json \<Rightarrow> exn + string" where
  "inline_push_url params =
     bind_r (get_default (py_or (jget params ''configuration'') (JObj [])) ''taskPushNotificationConfig'' JNull) (\<lambda>c.
       let cfg = py_or c (JObj []) in
       if \<not> is_obj cfg then Inr []
       else if truthy (jget cfg ''url'') then Inr (py_str (jget cfg ''url''))
       else bind_r (get_default (py_or (jget cfg ''pushNotificationConfig'') (JObj [])) ''url'' JNull) (\<lambda>u. Inr (text_or u [])))"

definition register_inline_push :: "draws \<Rightarrow> string \<Rightarrow> json \<Rightarrow> agent \<Rightarrow> unit aprog" where
  "register_inline_push q tid params a =
     bind_p (lift_a (inline_push_url params)) (\<lambda>url.
       if url = [] then return_p () else on_tasks (\<lambda>ts. snd (set_push_config (a_slug a) (a_tenant a) (q_config_id q) tid url ts)))"

definition prepare_task :: "adapter_env \<Rightarrow> draws \<Rightarrow> json \<Rightarrow> string \<Rightarrow> agent \<Rightarrow> prepared aprog" where
  "prepare_task env q params peer a =
     bind_p (lift_a (extract_text params)) (\<lambda>t.
     let ctx = (if extract_context_id params = [] then q_context_id q else extract_context_id params); tid = q_task_id q in
     bind_p (get_a (\<lambda>s. fst (track (q_now q) ctx (ad_turns s)))) (\<lambda>turn.
     bind_p (do_a (\<lambda>s. s\<lparr>ad_turns := snd (track (q_now q) ctx (ad_turns s))\<rparr>)) (\<lambda>_.
     let r = new_rec (q_now q) (d_iso (q_drawn q)) tid ctx peer (a_slug a) (a_tenant a) in
     bind_p (on_tasks (\<lambda>ts. snd (task_create (q_now q) (d_iso (q_drawn q)) tid ctx peer (a_slug a) (a_tenant a) ts))) (\<lambda>_.
     if int turn > e_max_turns env
     then bind_p (count_metric (\<lambda>m. m\<lparr>m_anti_loop_triggers := m_anti_loop_triggers m + 1\<rparr>)) (\<lambda>_.
       end_task q r STATE_REJECTED (anti_loop_text ctx (e_max_turns env)) [])
     else if t = [] then end_task q r STATE_REJECTED nothing_to_do []
     else
       bind_p (audit_a (q_ts q) ''inbound'' peer tid t) (\<lambda>_.
       bind_p (persist_a env (q_ts q) ctx ''user'' t tid) (\<lambda>_.
       bind_p (count_metric (\<lambda>m. m\<lparr>m_inbound_total := m_inbound_total m + 1\<rparr>)) (\<lambda>_.
       bind_p (register_inline_push q tid params a) (\<lambda>_.
       if \<not> a_local a
       then bind_p (on_waiting (activate_task tid)) (\<lambda>_.
         bind_p (forward_to_profile env q a ctx (wrap_inbound peer t)) (\<lambda>(st, reply).
         bind_p (record_outcome env q tid ctx peer st reply None) (\<lambda>_.
         bind_p (on_waiting (pop_pending tid)) (\<lambda>_.
         return_p (Ended (build_task (q_drawn q) tid ctx st reply))))))
       else if \<not> e_ready env then end_task q r STATE_FAILED ''Agent gateway not ready to accept A2A tasks.'' []
       else
         bind_p (get_a (\<lambda>s. fst (add_pending tid ctx (ad_waiting s)))) (\<lambda>fut.
         bind_p (on_waiting (\<lambda>w. snd (add_pending tid ctx w))) (\<lambda>_.
         case q_dispatch q of
           Some e \<Rightarrow>
             (let m = redact env (''Dispatch failed: '' @ e) in
              bind_p (end_task q r STATE_FAILED m m) (\<lambda>out. bind_p (on_waiting (pop_pending tid)) (\<lambda>_. return_p out)))
         | None \<Rightarrow>
             bind_p (on_tasks (set_state tid STATE_WORKING)) (\<lambda>_.
             return_p (Waits \<lparr>p_task_id = tid, p_context_id = ctx, p_peer = peer, p_future = fut, p_started = q_now q\<rparr>))))))))))))"


section \<open>Methods\<close>

definition find_task :: "json \<Rightarrow> json \<Rightarrow> agent \<Rightarrow> task_store \<Rightarrow> string \<times> (json + task_rec)" where
  "find_task rid params a ts =
     (let tid = text_or (jget params ''taskId'') (text_or (jget params ''id'') []) in
      (tid, case scoped (a_slug a) (a_tenant a) tid ts of
              Some r \<Rightarrow> Inr r | None \<Rightarrow> Inl (jsonrpc_error rid ERR_TASK_NOT_FOUND (''task not found: '' @ tid))))"

definition rpc_tasks_get :: "draws \<Rightarrow> json \<Rightarrow> json \<Rightarrow> agent \<Rightarrow> task_store \<Rightarrow> json" where
  "rpc_tasks_get q rid params a ts =
     (case snd (find_task rid params a ts) of Inl e \<Rightarrow> e | Inr r \<Rightarrow> jsonrpc_result rid (to_task (q_drawn q) True r))"

definition rpc_tasks_list :: "adapter_env \<Rightarrow> draws \<Rightarrow> json \<Rightarrow> json \<Rightarrow> agent \<Rightarrow> task_store \<Rightarrow> json" where
  "rpc_tasks_list env q rid params a ts =
     (let offset = e_coerce env (py_or (jget params ''pageToken'') (JInt 0)) 0;
          page = e_coerce env (py_or (jget params ''pageSize'') (JInt 50)) 50;
          st = py_str (py_or (jget params ''status'') (py_or (jget params ''state'') (JStr [])));
          (recs, next, count) = task_list (a_slug a) (a_tenant a) (text_or (jget params ''contextId'') []) st page (nat (max 0 offset)) ts
      in jsonrpc_result rid (JObj [(''tasks'', JList (map (to_task (q_drawn q) (truthy (jget params ''includeArtifacts''))) recs)),
           (''nextPageToken'', JStr (if next = 0 then [] else dec_nat next)), (''pageSize'', JInt (max 1 (min page 100))), (''totalSize'', JInt (int count))]))"

definition rpc_tasks_cancel :: "draws \<Rightarrow> json \<Rightarrow> json \<Rightarrow> agent \<Rightarrow> json aprog" where
  "rpc_tasks_cancel q rid params a =
     bind_p (get_a (\<lambda>s. find_task rid params a (ad_tasks s))) (\<lambda>(tid, found).
       case found of
         Inl e \<Rightarrow> return_p e
       | Inr r \<Rightarrow>
           if terminal (r_state r) then return_p (jsonrpc_error rid ERR_TASK_NOT_CANCELABLE (''task '' @ tid @ '' already '' @ r_state r))
           else
             bind_p (on_tasks (\<lambda>ts. snd (complete (q_now q) tid STATE_CANCELED [] ts))) (\<lambda>_.
             bind_p (do_a (\<lambda>s. s\<lparr>ad_turns := reset_turns (r_context_id r) (ad_turns s)\<rparr>)) (\<lambda>_.
             bind_p (on_waiting (\<lambda>w. snd (resolve_task tid (STATE_CANCELED, []) w))) (\<lambda>_.
             bind_p (get_a (\<lambda>s. case scoped (a_slug a) (a_tenant a) tid (ad_tasks s) of Some r1 \<Rightarrow> r1 | None \<Rightarrow> r)) (\<lambda>r1.
             return_p (jsonrpc_result rid (to_task (q_drawn q) True r1)))))))"

definition rpc_push_config_create :: "draws \<Rightarrow> json \<Rightarrow> json \<Rightarrow> agent \<Rightarrow> json aprog" where
  "rpc_push_config_create q rid params a =
     (let tid = text_or (jget params ''taskId'') [] in
      bind_p (lift_a (get_default (py_or (py_or (jget params ''pushNotificationConfig'') (jget params ''config'')) (JObj [])) ''url'' JNull)) (\<lambda>u.
        let url = text_or u [] in
        if tid = [] \<or> url = [] then return_p (jsonrpc_error rid ERR_INVALID_PARAMS ''taskId and pushNotificationConfig.url required'')
        else bind_p (get_a (\<lambda>s. fst (set_push_config (a_slug a) (a_tenant a) (q_config_id q) tid url (ad_tasks s)))) (\<lambda>stored.
          bind_p (on_tasks (\<lambda>ts. snd (set_push_config (a_slug a) (a_tenant a) (q_config_id q) tid url ts))) (\<lambda>_.
            return_p (case stored of Some c \<Rightarrow> jsonrpc_result rid c | None \<Rightarrow> jsonrpc_error rid ERR_TASK_NOT_FOUND (''task not found: '' @ tid))))))"

text \<open>\<open>_push_config_op\<close> with the three operations it is called with; a list is found even when it is empty.\<close>

definition push_args :: "json \<Rightarrow> string \<times> string" where
  "push_args params = (text_or (jget params ''taskId'') [], py_str (py_or (jget params ''id'') (py_or (jget params ''configId'') (JStr []))))"

definition push_config_reply :: "json \<Rightarrow> string \<Rightarrow> json option \<Rightarrow> json" where
  "push_config_reply rid tid found =
     (if tid = [] then jsonrpc_error rid ERR_INVALID_PARAMS ''taskId required''
      else case found of Some v \<Rightarrow> jsonrpc_result rid v | None \<Rightarrow> jsonrpc_error rid ERR_TASK_NOT_FOUND (''push config not found for task: '' @ tid))"

definition rpc_push_config_get :: "json \<Rightarrow> json \<Rightarrow> agent \<Rightarrow> task_store \<Rightarrow> json" where
  "rpc_push_config_get rid params a ts =
     (let (tid, cid) = push_args params in push_config_reply rid tid (get_push_config (a_slug a) (a_tenant a) tid cid ts))"

definition rpc_push_config_list :: "json \<Rightarrow> json \<Rightarrow> agent \<Rightarrow> task_store \<Rightarrow> json" where
  "rpc_push_config_list rid params a ts =
     (let (tid, cid) = push_args params in
      push_config_reply rid tid (Some (JObj [(''configs'', JList (list_push_configs (a_slug a) (a_tenant a) tid ts)), (''nextPageToken'', JStr [])])))"

definition rpc_push_config_delete :: "json \<Rightarrow> json \<Rightarrow> agent \<Rightarrow> json aprog" where
  "rpc_push_config_delete rid params a =
     (let (tid, cid) = push_args params in
      if tid = [] then return_p (push_config_reply rid tid None)
      else bind_p (get_a (\<lambda>s. fst (delete_push_config (a_slug a) (a_tenant a) tid cid (ad_tasks s)))) (\<lambda>ok.
        bind_p (on_tasks (\<lambda>ts. snd (delete_push_config (a_slug a) (a_tenant a) tid cid ts))) (\<lambda>_.
          return_p (push_config_reply rid tid (if ok then Some (JObj [(''deleted'', JBool True)]) else None)))))"

text \<open>The reply to a message: the ended task, or the finished one after the wait.\<close>

definition send_reply :: "json \<Rightarrow> bool \<Rightarrow> json \<Rightarrow> json" where
  "send_reply rid v1 task = jsonrpc_result rid (if v1 then send_message_response task else task)"

definition finish_send :: "adapter_env \<Rightarrow> draws \<Rightarrow> json \<Rightarrow> bool \<Rightarrow> pending \<Rightarrow> outcome \<Rightarrow> json aprog" where
  "finish_send env q rid v1 p oc =
     bind_p (finalize_task env q p oc) (\<lambda>(st, reply).
       return_p (send_reply rid v1 (build_task (q_drawn q) (p_task_id p) (p_context_id p) st reply)))"

text \<open>Streams: the text written at once, and the rest after the wait.\<close>

definition terminal_frames :: "draws \<Rightarrow> string \<Rightarrow> string \<Rightarrow> string \<Rightarrow> string \<Rightarrow> json \<Rightarrow> string" where
  "terminal_frames q tid ctx st reply rid =
     (let completed = reply \<noteq> [] \<and> st = STATE_COMPLETED; out = (if rid = JNull then None else Some rid) in
      (if completed then sse_data out (artifact_update (q_drawn q) tid ctx reply) else []) @
      sse_data out (status_update (q_drawn q) tid ctx st (if completed then [] else reply)) @ sse_done)"

definition opening_frames :: "draws \<Rightarrow> pending \<Rightarrow> json \<Rightarrow> string" where
  "opening_frames q p rid =
     (let out = (if rid = JNull then None else Some rid) in
      sse_data out (stream_task (build_task (q_drawn q) (p_task_id p) (p_context_id p) STATE_SUBMITTED [])) @
      sse_data out (status_update (q_drawn q) (p_task_id p) (p_context_id p) STATE_WORKING []))"

definition finish_stream :: "adapter_env \<Rightarrow> draws \<Rightarrow> json \<Rightarrow> pending \<Rightarrow> outcome \<Rightarrow> string aprog" where
  "finish_stream env q rid p oc =
     bind_p (finalize_task env q p oc) (\<lambda>(st, reply). return_p (terminal_frames q (p_task_id p) (p_context_id p) st reply rid))"

text \<open>The frames of a task that ended at once, from its own text.\<close>

definition ended_frames :: "draws \<Rightarrow> json \<Rightarrow> json \<Rightarrow> exn + string" where
  "ended_frames q rid task =
     (let status = jget task ''status'' in
      bind_r (extract_text (py_or (jget status ''message'') (JObj []))) (\<lambda>t.
        Inr (terminal_frames q (py_str (jget task ''id'')) (py_str (jget task ''contextId'')) (py_str (jget status ''state'')) t rid)))"


section \<open>POST requests\<close>

datatype rpc_method = MSend | MStream | MGet | MList | MCancel | MSubscribe | MPushCreate | MPushGet | MPushList | MPushDelete

text \<open>Each name with its method and whether it is the name of version 1.0.\<close>

definition METHODS :: "(string \<times> (rpc_method \<times> bool)) list" where
  "METHODS =
     [(''SendMessage'', (MSend, True)), (''message/send'', (MSend, False)),
      (''SendStreamingMessage'', (MStream, True)), (''message/stream'', (MStream, False)),
      (''GetTask'', (MGet, True)), (''tasks/get'', (MGet, False)), (''ListTasks'', (MList, True)), (''tasks/list'', (MList, False)),
      (''CancelTask'', (MCancel, True)), (''tasks/cancel'', (MCancel, False)),
      (''SubscribeToTask'', (MSubscribe, True)), (''tasks/subscribe'', (MSubscribe, False)),
      (''CreateTaskPushNotificationConfig'', (MPushCreate, True)), (''tasks/pushNotificationConfig/create'', (MPushCreate, False)),
      (''tasks/pushNotificationConfig/set'', (MPushCreate, False)), (''tasks/pushNotification/set'', (MPushCreate, False)),
      (''GetTaskPushNotificationConfig'', (MPushGet, True)), (''tasks/pushNotificationConfig/get'', (MPushGet, False)),
      (''ListTaskPushNotificationConfigs'', (MPushList, True)), (''tasks/pushNotificationConfig/list'', (MPushList, False)),
      (''DeleteTaskPushNotificationConfig'', (MPushDelete, True)), (''tasks/pushNotificationConfig/delete'', (MPushDelete, False))]"

record http_request =
  h_authorization :: "string option"
  h_client_ip :: string
  h_content_length :: "string option"
  h_body :: bytes
  h_version :: "string option"
  h_path :: string

text \<open>What the handler does: answer with a status and a JSON body, write a stream, or wait - for the reply to a message, or for a task's outcome.\<close>

datatype http_answer =
    Answer int json
  | SendWaits json bool pending
  | StreamOut string
  | StreamWaits json pending string
  | SubscribeWaits json string string nat outcome

definition max_body :: int where "max_body = 1048576"

text \<open>The body as the handler reads it; a negative length reads to the end.\<close>

definition read_body :: "http_request \<Rightarrow> http_answer + json" where
  "read_body rq =
     (let bad = Inl (Answer 400 (jsonrpc_error JNull ERR_PARSE ''parse error'')) in
      case (case h_content_length rq of None \<Rightarrow> Some 0 | Some t \<Rightarrow> py_int t) of
        None \<Rightarrow> bad
      | Some n \<Rightarrow>
          if n > max_body then Inl (Answer 413 (jsonrpc_error JNull ERR_PARSE ''payload too large''))
          else
            let b = (if n = 0 then ''{}'' else if n < 0 then h_body rq else take (nat n) (h_body rq)) in
            if \<not> utf8_valid b then bad else case json_loads b of None \<Rightarrow> bad | Some j \<Rightarrow> Inr j)"

definition allow_a :: "adapter_env \<Rightarrow> draws \<Rightarrow> string \<Rightarrow> bool aprog" where
  "allow_a env q identity = (\<lambda>s. let (ok, bs) = allow (e_rate_limit env) (q_now q) identity (ad_buckets s) in (Inr ok, s\<lparr>ad_buckets := bs\<rparr>))"

definition rpc_message_send :: "adapter_env \<Rightarrow> draws \<Rightarrow> json \<Rightarrow> json \<Rightarrow> string \<Rightarrow> agent \<Rightarrow> bool \<Rightarrow> http_answer aprog" where
  "rpc_message_send env q rid params identity a v1 =
     bind_p (prepare_task env q params identity a) (\<lambda>pr. case pr of
       Ended task \<Rightarrow> return_p (Answer 200 (send_reply rid v1 task))
     | Waits p \<Rightarrow> return_p (SendWaits rid v1 p))"

definition rpc_message_stream :: "adapter_env \<Rightarrow> draws \<Rightarrow> json \<Rightarrow> json \<Rightarrow> string \<Rightarrow> agent \<Rightarrow> http_answer aprog" where
  "rpc_message_stream env q rid params identity a =
     bind_p (count_metric (\<lambda>mm. mm\<lparr>m_streams_started := m_streams_started mm + 1\<rparr>)) (\<lambda>_.
     bind_p (prepare_task env q params identity a) (\<lambda>pr. case pr of
       Ended task \<Rightarrow> bind_p (lift_a (ended_frames q rid task)) (\<lambda>fr. return_p (StreamOut fr))
     | Waits p \<Rightarrow> return_p (StreamWaits rid p (opening_frames q p rid))))"

definition rpc_tasks_subscribe :: "json \<Rightarrow> json \<Rightarrow> agent \<Rightarrow> http_answer aprog" where
  "rpc_tasks_subscribe rid params a =
     bind_p (get_a (\<lambda>s. find_task rid params a (ad_tasks s))) (\<lambda>(tid, found). case found of
       Inl e \<Rightarrow> return_p (Answer 200 e)
     | Inr r \<Rightarrow>
         bind_p (get_a (\<lambda>s. fst (watch (a_slug a) (a_tenant a) tid (ad_tasks s)))) (\<lambda>fut.
         bind_p (on_tasks (\<lambda>ts. snd (watch (a_slug a) (a_tenant a) tid ts))) (\<lambda>_. case fut of
           None \<Rightarrow> return_p (StreamOut sse_done)
         | Some f \<Rightarrow> return_p (SubscribeWaits rid tid (r_context_id r) f (r_state r, r_reply r)))))"

text \<open>The rest of a subscription, once its task has an outcome or the wait is over.\<close>

definition finish_subscribe :: "draws \<Rightarrow> json \<Rightarrow> string \<Rightarrow> string \<Rightarrow> outcome \<Rightarrow> poll list \<Rightarrow> string option" where
  "finish_subscribe q rid tid ctx known polls =
     map_option (\<lambda>(st, reply). terminal_frames q tid ctx st reply rid) (await_future known True polls)"

definition handle :: "adapter_env \<Rightarrow> draws \<Rightarrow> json \<Rightarrow> json \<Rightarrow> string \<Rightarrow> agent \<Rightarrow> rpc_method \<Rightarrow> bool \<Rightarrow> http_answer aprog" where
  "handle env q rid params identity a m v1 =
     (let answer = (\<lambda>p. bind_p p (\<lambda>j. return_p (Answer 200 j))) in
      case m of
        MSend \<Rightarrow> rpc_message_send env q rid params identity a v1
      | MStream \<Rightarrow> rpc_message_stream env q rid params identity a
      | MSubscribe \<Rightarrow> rpc_tasks_subscribe rid params a
      | MGet \<Rightarrow> answer (get_a (\<lambda>s. rpc_tasks_get q rid params a (ad_tasks s)))
      | MList \<Rightarrow> answer (get_a (\<lambda>s. rpc_tasks_list env q rid params a (ad_tasks s)))
      | MCancel \<Rightarrow> answer (rpc_tasks_cancel q rid params a)
      | MPushCreate \<Rightarrow> answer (rpc_push_config_create q rid params a)
      | MPushGet \<Rightarrow> answer (get_a (\<lambda>s. rpc_push_config_get rid params a (ad_tasks s)))
      | MPushList \<Rightarrow> answer (get_a (\<lambda>s. rpc_push_config_list rid params a (ad_tasks s)))
      | MPushDelete \<Rightarrow> answer (rpc_push_config_delete rid params a))"

text \<open>The checks of \<open>do_POST\<close> in their order, the first that fails deciding; the rate limiter is asked only when those before it have passed.\<close>

definition checked :: "adapter_env \<Rightarrow> draws \<Rightarrow> string \<Rightarrow> json \<Rightarrow> string \<Rightarrow> json \<Rightarrow> string \<Rightarrow> route \<Rightarrow> http_answer aprog" where
  "checked env q identity rid method params version rt =
     (let no = (\<lambda>st c m. return_p (Answer st (jsonrpc_error rid c m))) in
      if \<not> is_obj params then no 200 ERR_INVALID_PARAMS ''params must be an object''
      else if version \<noteq> [] \<and> version \<notin> {''1.0'', ''1.0.0''} then no 200 ERR_INVALID_PARAMS (''unsupported A2A-Version: '' @ version)
      else case rt of
        Mismatch m \<Rightarrow> no 400 ERR_INVALID_PARAMS m
      | Routed a _ \<Rightarrow>
          bind_p (allow_a env q identity) (\<lambda>ok.
            if \<not> ok then bind_p (count_metric (\<lambda>mm. mm\<lparr>m_rate_limit_triggers := m_rate_limit_triggers mm + 1\<rparr>)) (\<lambda>_. no 429 ERR_RATE_LIMITED ''rate limit exceeded'')
            else if \<not> is_trusted_peer (e_security env) identity
            then no 403 ERR_UNTRUSTED_PEER (''peer '' @ [CHR 0x27] @ identity @ [CHR 0x27] @ '' not trusted'')
            else case map_of METHODS method of
              None \<Rightarrow> no 200 ERR_METHOD_NOT_FOUND (''method not found: '' @ method)
            | Some (m, v1) \<Rightarrow> handle env q rid params identity a m v1))"

definition do_POST :: "adapter_env \<Rightarrow> draws \<Rightarrow> http_request \<Rightarrow> http_answer aprog" where
  "do_POST env q rq =
     bind_p (lift_a (authenticate (e_security env) (h_authorization rq) (h_client_ip rq))) (\<lambda>who. case who of
       None \<Rightarrow> return_p (Answer 401 (jsonrpc_error JNull ERR_UNAUTHORIZED ''unauthorized''))
     | Some identity \<Rightarrow>
         (case read_body rq of
            Inl ans \<Rightarrow> return_p ans
          | Inr req \<Rightarrow>
              if \<not> is_obj req then return_p (Answer 400 (jsonrpc_error JNull ERR_INVALID_PARAMS ''JSON-RPC request must be an object''))
              else
                let rid = jget req ''id''; method = (if jhas req ''method'' then py_str (jget req ''method'') else []);
                    params = (if jget req ''params'' \<noteq> JNull then jget req ''params'' else JObj []);
                    version = py_strip (case h_version rq of Some v \<Rightarrow> v | None \<Rightarrow> []) in
                bind_p (lift_a (if is_obj params then route_for_request (e_nfkc env) (e_agents env) (h_path rq) params else Inr (Mismatch []))) (\<lambda>rt.
                checked env q identity rid method params version rt)))"

section \<open>Sweeps and shutdown\<close>

definition orphan_timeout :: "rat \<Rightarrow> rat" where
  "orphan_timeout reply_timeout = min 86400 (max 300 reply_timeout)"

definition fail_orphans_once :: "rat \<Rightarrow> draws \<Rightarrow> string list aprog" where
  "fail_orphans_once reply_timeout q = (\<lambda>s.
     let (failed, ts) = fail_orphans (q_now q) (orphan_timeout reply_timeout) (w_active (ad_waiting s)) (ad_tasks s)
     in (Inr failed, s\<lparr>ad_tasks := ts, ad_metrics := (ad_metrics s)\<lparr>m_tasks_failed := m_tasks_failed (ad_metrics s) + length failed\<rparr>\<rparr>))"

end
