(* ===== verification/Task_Runs.thy ===== *)
theory Task_Runs
  imports Hermes_Store
begin

text \<open>
  The task store of the adapter over its runs. A run is a sequence of the operations the adapter's threads perform, in the
  order in which they take the lock. What is shown: outcomes are final, every waiting subscriber is registered with a task
  that is still open, at most 500 ended tasks are kept, a scope confines reads and writes, and the pages of a listing
  together are the listing.
\<close>

declare split_paired_All [simp del] split_paired_Ex [simp del]

section \<open>Runs\<close>

datatype store_op =
    Create rat string string string string string string
  | SetState string string
  | SetPush string string string string string
  | DeletePush string string string string
  | PopPush string
  | Complete rat string string string
  | Watch string string string

fun store_apply :: "store_op \<Rightarrow> task_store \<Rightarrow> task_store" where
  "store_apply (Create now iso_now tid ctx peer slug tenant) s = snd (task_create now iso_now tid ctx peer slug tenant s)"
| "store_apply (SetState tid st) s = set_state tid st s"
| "store_apply (SetPush slug tenant cid tid url) s = snd (set_push_config slug tenant cid tid url s)"
| "store_apply (DeletePush slug tenant tid cid) s = snd (delete_push_config slug tenant tid cid s)"
| "store_apply (PopPush tid) s = snd (pop_push_url tid s)"
| "store_apply (Complete now tid st reply) s = snd (complete now tid st reply s)"
| "store_apply (Watch slug tenant tid) s = snd (watch slug tenant tid s)"

definition store_run :: "store_op list \<Rightarrow> task_store \<Rightarrow> task_store" where
  "store_run ops s = fold store_apply ops s"

lemma store_run_simps [simp]:
  "store_run [] s = s" "store_run (op # ops) s = store_run ops (store_apply op s)" "store_run (ops @ ops') s = store_run ops' (store_run ops s)"
  by (simp_all add: store_run_def)

text \<open>The watchdog's sweep is a run of completions.\<close>

lemma fail_each_run: "snd (fail_each now tids s) = store_run (map (\<lambda>tid. Complete now tid STATE_FAILED ORPHANED) tids) s"
  by (induction now tids s rule: fail_each.induct) (auto split: prod.splits option.splits)

text \<open>A property every operation keeps holds along every run.\<close>

lemma store_run_invariant:
  assumes "P s" "\<And>op s. op \<in> set ops \<Longrightarrow> P s \<Longrightarrow> P (store_apply op s)"
  shows "P (store_run ops s)"
  using assms by (induction ops arbitrary: s) simp_all

section \<open>The store's operations on its tables\<close>

lemma trim_delete_where:
  "trim ts = delete_where (\<lambda>tid _. tid \<in> set (take (length (filter (\<lambda>(_, r). terminal (r_state r)) ts) - 500)
     (map fst (filter (\<lambda>(_, r). terminal (r_state r)) ts)))) ts"
  by (simp add: trim_def delete_where_def Let_def)

lemma keys_ok_trim [simp]: "keys_ok ts \<Longrightarrow> keys_ok (trim ts)"
  by (simp add: trim_delete_where)

text \<open>Trimming removes ended tasks only.\<close>

lemma map_of_trim:
  assumes "keys_ok ts"
  shows "map_of (trim ts) tid = map_of ts tid \<or> map_of (trim ts) tid = None \<and> (\<exists>r. map_of ts tid = Some r \<and> terminal (r_state r))"
proof (cases "map_of (trim ts) tid = map_of ts tid")
  case False
  then obtain r where r: "map_of ts tid = Some r" "map_of (trim ts) tid = None"
    and gone: "tid \<in> set (take (length (filter (\<lambda>(_, r). terminal (r_state r)) ts) - 500) (map fst (filter (\<lambda>(_, r). terminal (r_state r)) ts)))"
    unfolding trim_delete_where map_of_delete_where [OF assms] by (auto split: option.splits if_splits)
  from in_set_takeD [OF gone] obtain q where "(tid, q) \<in> set ts" "terminal (r_state q)" by auto
  then have "map_of ts tid = Some q" using assms by (simp add: in_table_iff)
  then show ?thesis using r \<open>terminal (r_state q)\<close> by simp
qed simp

definition ended :: "(string \<times> task_rec) list \<Rightarrow> nat" where
  "ended ts = length (filter (\<lambda>(_, r). terminal (r_state r)) ts)"

lemma ended_trim: "ended (trim ts) \<le> 500"
proof -
  let ?E = "filter (\<lambda>(_, r). terminal (r_state r)) ts"
  let ?n = "length ?E - 500"
  have "filter (\<lambda>(_, r). terminal (r_state r)) (trim ts) = filter (\<lambda>(tid, _). tid \<notin> set (take ?n (map fst ?E))) ?E"
    by (simp add: trim_def Let_def conj_commute case_prod_beta)
  also have "\<dots> = filter (\<lambda>(tid, _). tid \<notin> fst ` set (take ?n ?E)) (take ?n ?E @ drop ?n ?E)"
    by (simp add: take_map)
  also have "\<dots> = filter (\<lambda>(tid, _). tid \<notin> fst ` set (take ?n ?E)) (drop ?n ?E)"
    unfolding filter_append by (force simp: filter_empty_conv)
  finally have "ended (trim ts) \<le> length (drop ?n ?E)" unfolding ended_def by (metis length_filter_le)
  then show ?thesis by (simp del: filter_filter)
qed

lemma ended_update_row:
  assumes "\<And>r. terminal (r_state (f r)) \<Longrightarrow> terminal (r_state r)"
  shows "ended (update_row tid f ts) \<le> ended ts"
  using assms by (induction ts) (auto simp: ended_def le_SucI)

lemma ended_update:
  assumes "\<not> terminal (r_state r)"
  shows "ended (AList.update tid r ts) \<le> ended ts"
  using assms by (induction ts) (auto simp: ended_def le_SucI)

lemmas store_ops = task_create_def new_rec_def set_state_def set_task_def set_push_config_def delete_push_config_def pop_push_url_def complete_def
  watch_def push_rec_def scoped_def Let_def

lemma submitted_open [simp]: "\<not> terminal STATE_SUBMITTED"
  by (simp add: terminal_def TERMINAL_STATES_def state_defs)


section \<open>Outcomes are final\<close>

text \<open>An ended task keeps its outcome or is forgotten; a resolved future keeps its value.\<close>

definition settled_as :: "string \<Rightarrow> outcome \<Rightarrow> task_store \<Rightarrow> bool" where
  "settled_as tid v s \<longleftrightarrow> keys_ok (ts_tasks s) \<and> (case map_of (ts_tasks s) tid of Some r \<Rightarrow> terminal (r_state r) \<and> (r_state r, r_reply r) = v | None \<Rightarrow> True)"

definition answered :: "nat \<Rightarrow> outcome \<Rightarrow> task_store \<Rightarrow> bool" where
  "answered f v s \<longleftrightarrow> f < length (ts_futures s) \<and> ts_futures s ! f = Some v"

fun creates :: "string \<Rightarrow> store_op \<Rightarrow> bool" where
  "creates tid (Create now iso_now tid' ctx peer slug tenant) = (tid' = tid)"
| "creates tid _ = False"

lemma keys_ok_store_apply [simp]: "keys_ok (ts_tasks s) \<Longrightarrow> keys_ok (ts_tasks (store_apply op s))"
  by (cases op) (simp_all add: store_ops split: option.split)

lemma settled_store_apply:
  assumes "settled_as tid v s" "\<not> creates tid op"
  shows "settled_as tid v (store_apply op s)"
proof (cases op)
  case (Complete now tid' st reply)
  then show ?thesis using assms map_of_trim [of "update_row tid' (\<lambda>q. q\<lparr>r_state := st, r_reply := reply, r_completed_at := Some now\<rparr>) (ts_tasks s)" tid]
    by (auto simp: settled_as_def complete_def Let_def map_of_update_row split: option.splits if_splits)
qed (use assms in \<open>auto simp: settled_as_def store_ops map_of_update_row AList.update_conv split: option.splits\<close>)

lemma resolve_length [simp]: "length (resolve v f fs) = length fs"
  by (simp add: resolve_def)

lemma fold_resolve_length [simp]: "length (fold (resolve v) ws fs) = length fs"
  by (induction ws arbitrary: fs) simp_all

lemma fold_resolve_nth:
  "g < length fs \<Longrightarrow> fold (resolve v) ws fs ! g = (if fs ! g = None \<and> g \<in> set ws then Some v else fs ! g)"
  by (induction ws arbitrary: fs) (auto simp: resolve_def nth_list_update)

lemma answered_store_apply: "answered f v s \<Longrightarrow> answered f v (store_apply op s)"
  by (cases op) (auto simp: answered_def store_ops fold_resolve_nth nth_append split: option.split)

text \<open>C24: The outcome of a task is final: whatever operations follow, in any order and from any thread, an ended task keeps its state and
  its reply until it is forgotten, unless a task is created anew under its identifier, and a subscriber that was told an outcome is never
  told another.\<close>

theorem outcome_final:
  assumes "keys_ok (ts_tasks s)" "map_of (ts_tasks s) tid = Some r" "terminal (r_state r)" "\<not> list_ex (creates tid) ops" "answered f v s"
  shows "(case map_of (ts_tasks (store_run ops s)) tid of Some q \<Rightarrow> r_state q = r_state r \<and> r_reply q = r_reply r | None \<Rightarrow> True) \<and>
    answered f v (store_run ops s)"
proof -
  have "settled_as tid (r_state r, r_reply r) s" using assms(1-3) by (simp add: settled_as_def)
  then have "settled_as tid (r_state r, r_reply r) (store_run ops s)"
    by (rule store_run_invariant) (use assms(4) in \<open>auto simp: list_ex_iff intro: settled_store_apply\<close>)
  moreover have "answered f v (store_run ops s)" using assms(5) by (rule store_run_invariant) (rule answered_store_apply)
  ultimately show ?thesis by (auto simp: settled_as_def split: option.splits)
qed

section \<open>Subscribers are answered\<close>

definition waits_on :: "nat \<Rightarrow> string \<Rightarrow> task_store \<Rightarrow> bool" where
  "waits_on f tid s \<longleftrightarrow> f \<in> set (case map_of (ts_watchers s) tid of Some fs \<Rightarrow> fs | None \<Rightarrow> [])"

definition is_open :: "string \<Rightarrow> task_store \<Rightarrow> bool" where
  "is_open tid s \<longleftrightarrow> (\<exists>r. map_of (ts_tasks s) tid = Some r \<and> \<not> terminal (r_state r))"

definition store_ok :: "task_store \<Rightarrow> bool" where
  "store_ok s \<longleftrightarrow> keys_ok (ts_tasks s) \<and> ended (ts_tasks s) \<le> 500 \<and>
     (\<forall>f < length (ts_futures s). ts_futures s ! f = None \<longrightarrow> (\<exists>tid. waits_on f tid s \<and> is_open tid s))"

text \<open>The adapter moves a task to an open state only with \<open>set_state\<close>.\<close>

fun opens :: "store_op \<Rightarrow> bool" where
  "opens (SetState tid st) = (\<not> terminal st)"
| "opens _ = True"


lemma store_okI:
  assumes "keys_ok (ts_tasks s)" "ended (ts_tasks s) \<le> 500"
    "\<And>f. f < length (ts_futures s) \<Longrightarrow> ts_futures s ! f = None \<Longrightarrow> \<exists>tid. waits_on f tid s \<and> is_open tid s"
  shows "store_ok s"
  using assms by (simp add: store_ok_def)

text \<open>An operation that leaves futures and watchers alone, ends no task and drops none keeps the invariant.\<close>

lemma store_ok_tasks:
  assumes "store_ok s" "keys_ok ts" "ended ts \<le> 500" "\<And>tid. is_open tid s \<Longrightarrow> is_open tid (s\<lparr>ts_tasks := ts\<rparr>)"
  shows "store_ok (s\<lparr>ts_tasks := ts\<rparr>)"
proof (rule store_okI)
  fix f
  assume "f < length (ts_futures (s\<lparr>ts_tasks := ts\<rparr>))" "ts_futures (s\<lparr>ts_tasks := ts\<rparr>) ! f = None"
  then obtain tid where "waits_on f tid s" "is_open tid s" using assms(1) by (auto simp: store_ok_def)
  then show "\<exists>tid. waits_on f tid (s\<lparr>ts_tasks := ts\<rparr>) \<and> is_open tid (s\<lparr>ts_tasks := ts\<rparr>)" using assms(4) by (auto simp: waits_on_def)
qed (use assms in simp_all)

lemma store_ok_set_task:
  assumes "store_ok s" "\<And>r. terminal (r_state (f r)) = terminal (r_state r)"
  shows "store_ok (set_task tid f s)"
  unfolding set_task_def
proof (rule store_ok_tasks [OF assms(1)])
  show "ended (update_row tid f (ts_tasks s)) \<le> 500"
    using ended_update_row [of f tid "ts_tasks s"] assms by (fastforce simp: store_ok_def)
qed (use assms in \<open>auto simp: store_ok_def is_open_def map_of_update_row\<close>)

lemma store_ok_complete:
  assumes "store_ok s"
  shows "store_ok (snd (complete now tid st reply s))"
proof (cases "is_open tid s")
  case False
  then show ?thesis using assms by (auto simp: complete_def is_open_def split: option.split)
next
  case True
  then obtain r where r: "map_of (ts_tasks s) tid = Some r" "\<not> terminal (r_state r)" by (auto simp: is_open_def)
  have keys: "keys_ok (ts_tasks s)" using assms by (simp add: store_ok_def)
  show ?thesis
  proof (rule store_okI)
    fix f
    let ?s = "snd (complete now tid st reply s)"
    assume f: "f < length (ts_futures ?s)" "ts_futures ?s ! f = None"
    then have "f < length (ts_futures s)" "ts_futures s ! f = None" and other: "\<not> waits_on f tid s"
      using r by (auto simp: complete_def Let_def fold_resolve_nth waits_on_def split: if_splits)
    then obtain t where t: "waits_on f t s" "is_open t s" using assms unfolding store_ok_def by blast
    then have ne: "t \<noteq> tid" using other by auto
    have "waits_on f t ?s" using t(1) r ne by (simp add: waits_on_def complete_def Let_def AList.delete_conv)
    moreover have "is_open t ?s"
      using t(2) r ne keys map_of_trim [of "update_row tid (\<lambda>q. q\<lparr>r_state := st, r_reply := reply, r_completed_at := Some now\<rparr>) (ts_tasks s)" t]
      by (auto simp: is_open_def complete_def Let_def map_of_update_row)
    ultimately show "\<exists>tid. waits_on f tid ?s \<and> is_open tid ?s" by blast
  qed (use r keys in \<open>simp_all add: complete_def Let_def ended_trim\<close>)
qed

lemma store_ok_watch:
  assumes "store_ok s"
  shows "store_ok (snd (watch slug tenant tid s))"
proof -
  have "store_ok (s\<lparr>ts_futures := ts_futures s @ [Some v]\<rparr>)" for v
    using assms by (auto simp: store_ok_def waits_on_def is_open_def nth_append less_Suc_eq)
  moreover have "store_ok (s\<lparr>ts_futures := ts_futures s @ [None],
      ts_watchers := AList.update tid ((case map_of (ts_watchers s) tid of Some fs \<Rightarrow> fs | None \<Rightarrow> []) @ [length (ts_futures s)]) (ts_watchers s)\<rparr>)"
    (is "store_ok ?s") if "is_open tid s"
  proof (rule store_okI)
    fix f
    assume f: "f < length (ts_futures ?s)" "ts_futures ?s ! f = None"
    show "\<exists>t. waits_on f t ?s \<and> is_open t ?s"
    proof (cases "f = length (ts_futures s)")
      case True
      then have "waits_on f tid ?s" "is_open tid ?s" using that by (simp_all add: waits_on_def is_open_def AList.update_conv)
      then show ?thesis by blast
    next
      case False
      then have "f < length (ts_futures s)" "ts_futures s ! f = None" using f by (simp_all add: nth_append)
      then obtain t where "waits_on f t s" "is_open t s" using assms unfolding store_ok_def by blast
      then have "waits_on f t ?s" "is_open t ?s" by (auto simp: waits_on_def is_open_def AList.update_conv)
      then show ?thesis by blast
    qed
  qed (use assms in \<open>simp_all add: store_ok_def\<close>)
  ultimately show ?thesis
    using assms by (auto simp: watch_def scoped_def is_open_def Let_def split: option.split)
qed

lemma store_ok_new: "store_ok new_task_store"
  by (simp add: store_ok_def new_task_store_def ended_def)

lemma store_ok_apply:
  assumes "store_ok s" "opens op"
  shows "store_ok (store_apply op s)"
proof (cases op)
  case (Create now iso_now tid ctx peer slug tenant)
  let ?r = "new_rec now iso_now tid ctx peer slug tenant"
  have "store_ok (s\<lparr>ts_tasks := AList.update tid ?r (ts_tasks s)\<rparr>)"
  proof (rule store_ok_tasks [OF assms(1)])
    show "ended (AList.update tid ?r (ts_tasks s)) \<le> 500"
      using ended_update [of ?r tid "ts_tasks s"] assms(1) by (simp add: new_rec_def store_ok_def)
  qed (use assms(1) in \<open>auto simp: store_ok_def is_open_def AList.update_conv new_rec_def\<close>)
  then show ?thesis by (simp add: Create task_create_def Let_def)
next
  case (SetState tid st)
  then show ?thesis using assms by (auto simp: set_state_def intro!: store_ok_set_task split: if_splits)
next
  case Complete
  then show ?thesis using assms by (simp add: store_ok_complete)
next
  case Watch
  then show ?thesis using assms by (simp add: store_ok_watch)
qed (use assms in \<open>auto simp: set_push_config_def delete_push_config_def pop_push_url_def Let_def intro!: store_ok_set_task split: option.split\<close>)

text \<open>C29: However the adapter's threads interleave, no subscriber is forgotten: one that waits is registered with a task that is still
  open, and is told the outcome when that task completes; and the store never keeps more than 500 ended tasks.\<close>

theorem watchers_answered:
  assumes "list_all opens ops"
  defines "s \<equiv> store_run ops new_task_store"
  shows "ended (ts_tasks s) \<le> 500 \<and>
    (f < length (ts_futures s) \<longrightarrow> ts_futures s ! f = None \<longrightarrow>
      (\<exists>tid. is_open tid s \<and> answered f (st, reply) (store_run [Complete now tid st reply] s)))"
proof -
  have "store_ok s" unfolding s_def
    by (rule store_run_invariant [where P = store_ok, OF store_ok_new]) (use assms(1) in \<open>auto simp: list_all_iff intro: store_ok_apply\<close>)
  moreover have "answered f (st, reply) (store_run [Complete now tid st reply] s)"
    if "waits_on f tid s" "is_open tid s" "f < length (ts_futures s)" "ts_futures s ! f = None" for tid
    using that by (auto simp: answered_def complete_def Let_def is_open_def waits_on_def fold_resolve_nth)
  ultimately show ?thesis unfolding store_ok_def by blast
qed


text \<open>A small store: one task answered, one still open with two subscribers, one of them of another task's agent.\<close>

definition example_ops :: "store_op list" where
  "example_ops = [Create 0 ''i0'' ''t1'' ''c1'' ''peer'' ''a'' ''ta'', Create 1 ''i1'' ''t2'' ''c2'' ''peer'' ''b'' ''tb'',
     SetState ''t1'' STATE_WORKING, Watch ''a'' ''ta'' ''t1'', Watch ''b'' ''tb'' ''t2'', Complete 5 ''t1'' STATE_COMPLETED ''done'']"

lemmas example_eval = example_ops_def new_task_store_def store_ops in_scope_def terminal_def TERMINAL_STATES_def state_defs trim_def resolve_def

theorem outcome_final_witness:
  "(case map_of (ts_tasks (store_run [Complete 9 ''t1'' STATE_FAILED ''late'', Complete 9 ''t2'' STATE_FAILED ''late''] (store_run example_ops new_task_store))) ''t1''
     of Some q \<Rightarrow> r_state q = STATE_COMPLETED \<and> r_reply q = ''done'' | None \<Rightarrow> True) \<and>
   answered 0 (STATE_COMPLETED, ''done'')
     (store_run [Complete 9 ''t1'' STATE_FAILED ''late'', Complete 9 ''t2'' STATE_FAILED ''late''] (store_run example_ops new_task_store))"
proof -
  let ?s = "store_run example_ops new_task_store"
  have "keys_ok (ts_tasks ?s)" "\<not> list_ex (creates ''t1'') [Complete 9 ''t1'' STATE_FAILED ''late'', Complete 9 ''t2'' STATE_FAILED ''late'']"
    "answered 0 (STATE_COMPLETED, ''done'') ?s"
    by (simp_all add: example_eval keys_ok_def answered_def)
  moreover obtain r where r: "map_of (ts_tasks ?s) ''t1'' = Some r" "terminal (r_state r)" "r_state r = STATE_COMPLETED" "r_reply r = ''done''"
    by (simp add: example_eval)
  ultimately show ?thesis
    using outcome_final [of ?s "''t1''" r "[Complete 9 ''t1'' STATE_FAILED ''late'', Complete 9 ''t2'' STATE_FAILED ''late'']" 0 "(STATE_COMPLETED, ''done'')"]
    by (simp only: r not_False_eq_True simp_thms)
qed

theorem watchers_answered_witness:
  "ended (ts_tasks (store_run example_ops new_task_store)) \<le> 500 \<and>
   (\<exists>tid. is_open tid (store_run example_ops new_task_store) \<and>
      answered 1 (STATE_CANCELED, []) (store_run [Complete 7 tid STATE_CANCELED []] (store_run example_ops new_task_store)))"
proof -
  have "list_all opens example_ops" by (simp add: example_ops_def terminal_def TERMINAL_STATES_def state_defs)
  moreover have "1 < length (ts_futures (store_run example_ops new_task_store))" "ts_futures (store_run example_ops new_task_store) ! 1 = None"
    by (simp_all add: example_eval)
  ultimately show ?thesis using watchers_answered [of example_ops 1 STATE_CANCELED "[]" 7] by blast
qed

section \<open>Scopes\<close>

text \<open>What a scope shows of a store, and what lies outside it.\<close>

definition inside :: "string \<Rightarrow> string \<Rightarrow> task_store \<Rightarrow> (string \<times> task_rec) list" where
  "inside slug tenant s = filter (\<lambda>(_, r). in_scope slug tenant r) (ts_tasks s)"

definition outside :: "string \<Rightarrow> string \<Rightarrow> task_store \<Rightarrow> (string \<times> task_rec) list" where
  "outside slug tenant s = filter (\<lambda>(_, r). \<not> in_scope slug tenant r) (ts_tasks s)"

lemma map_of_filter_value:
  assumes "keys_ok t"
  shows "map_of (filter (\<lambda>(_, r). P r) t) k = (case map_of t k of Some r \<Rightarrow> if P r then Some r else None | None \<Rightarrow> None)"
  using map_of_delete_where [OF assms, of "\<lambda>_ r. \<not> P r" k] by (simp add: delete_where_def split: option.split)

lemma scoped_inside: "keys_ok (ts_tasks s) \<Longrightarrow> scoped slug tenant tid s = map_of (inside slug tenant s) tid"
  by (simp add: scoped_def inside_def map_of_filter_value split: option.split)

lemma matching_inside: "matching slug tenant ctx st s =
    filter (\<lambda>r. (ctx = [] \<or> r_context_id r = ctx) \<and> (st = [] \<or> r_state r = st)) (rev (map snd (inside slug tenant s)))"
  by (simp add: matching_def inside_def rev_map rev_filter filter_map comp_def case_prod_beta)

lemma outside_set_task:
  assumes "keys_ok (ts_tasks s)" "scoped slug tenant tid s = Some r" "\<And>q. in_scope slug tenant (f q) = in_scope slug tenant q"
  shows "outside slug tenant (set_task tid f s) = outside slug tenant s"
proof -
  have "filter (\<lambda>(_, r). \<not> in_scope slug tenant r) (update_row tid f ts) = filter (\<lambda>(_, r). \<not> in_scope slug tenant r) ts"
    if "map_of ts tid = Some r" "in_scope slug tenant r" "keys_ok ts" for ts
    using that
  proof (induction ts)
    case (Cons p ts)
    show ?case
    proof (cases "fst p = tid")
      case True
      then have "map_of ts tid = None" using Cons.prems by (auto simp: keys_ok_def map_of_eq_None_iff split: prod.splits)
      then have "update_row tid f ts = ts" by (induction ts) (auto split: if_splits)
      then show ?thesis using True Cons.prems assms(3) by (auto simp: keys_ok_def split: prod.splits)
    qed (use Cons in \<open>auto simp: keys_ok_def split: prod.splits if_splits\<close>)
  qed simp
  then show ?thesis using assms(1,2) by (auto simp: outside_def set_task_def scoped_def split: option.splits if_splits)
qed


text \<open>C31: A scope confines: what an agent's scope lets a caller read or list depends on the tasks of that scope alone, and what the caller
  changes leaves every other task as it was; whether a subscription or a push configuration is refused tells nothing of them either.\<close>

theorem scope_isolation:
  assumes "keys_ok (ts_tasks s)" "keys_ok (ts_tasks s')" "inside slug tenant s = inside slug tenant s'"
  shows "scoped slug tenant tid s = scoped slug tenant tid s' \<and>
    get_push_config slug tenant tid cid s = get_push_config slug tenant tid cid s' \<and>
    list_push_configs slug tenant tid s = list_push_configs slug tenant tid s' \<and>
    task_list slug tenant ctx st page offset s = task_list slug tenant ctx st page offset s' \<and>
    fst (set_push_config slug tenant cid tid url s) = fst (set_push_config slug tenant cid tid url s') \<and>
    fst (delete_push_config slug tenant tid cid s) = fst (delete_push_config slug tenant tid cid s') \<and>
    (fst (watch slug tenant tid s) = None) = (fst (watch slug tenant tid s') = None) \<and>
    outside slug tenant (snd (set_push_config slug tenant cid tid url s)) = outside slug tenant s \<and>
    outside slug tenant (snd (delete_push_config slug tenant tid cid s)) = outside slug tenant s \<and>
    outside slug tenant (snd (watch slug tenant tid s)) = outside slug tenant s"
proof -
  have sc: "scoped slug tenant tid s = scoped slug tenant tid s'" using assms by (simp add: scoped_inside)
  then have pr: "push_rec slug tenant tid c s = push_rec slug tenant tid c s'" for c by (simp add: push_rec_def)
  have ml: "matching slug tenant ctx st s = matching slug tenant ctx st s'" using assms(3) by (simp add: matching_inside)
  have reads: "get_push_config slug tenant tid c s = get_push_config slug tenant tid c s'" for c by (simp add: get_push_config_def pr)
  have "fst (set_push_config slug tenant cid tid url s) = fst (set_push_config slug tenant cid tid url s')"
    "fst (delete_push_config slug tenant tid cid s) = fst (delete_push_config slug tenant tid cid s')"
    "(fst (watch slug tenant tid s) = None) = (fst (watch slug tenant tid s') = None)"
    by (simp_all add: set_push_config_def delete_push_config_def watch_def sc pr Let_def split: option.split)
  moreover have "outside slug tenant (snd (set_push_config slug tenant cid tid url s)) = outside slug tenant s"
    by (auto simp: set_push_config_def Let_def in_scope_def intro!: outside_set_task [OF assms(1)] split: option.split)
  moreover have "outside slug tenant (snd (delete_push_config slug tenant tid cid s)) = outside slug tenant s"
    by (auto simp: delete_push_config_def push_rec_def in_scope_def intro!: outside_set_task [OF assms(1)] split: option.splits if_splits)
  moreover have "outside slug tenant (snd (watch slug tenant tid s)) = outside slug tenant s"
    by (simp add: watch_def outside_def Let_def split: option.split)
  ultimately show ?thesis using sc reads ml by (simp add: list_push_configs_def task_list_def)
qed

theorem scope_isolation_witness:
  "task_list ''a'' ''ta'' [] [] 0 0 (store_run example_ops new_task_store) =
   task_list ''a'' ''ta'' [] [] 0 0 (store_run [Complete 9 ''t2'' STATE_FAILED ''x''] (store_run example_ops new_task_store)) \<and>
   scoped ''a'' ''ta'' ''t2'' (store_run example_ops new_task_store) = None"
proof -
  let ?s = "store_run example_ops new_task_store" and ?s' = "store_run [Complete 9 ''t2'' STATE_FAILED ''x''] (store_run example_ops new_task_store)"
  have "keys_ok (ts_tasks ?s)" "keys_ok (ts_tasks ?s')" "inside ''a'' ''ta'' ?s = inside ''a'' ''ta'' ?s'"
    "scoped ''a'' ''ta'' ''t2'' ?s = None"
    by (simp_all add: example_eval keys_ok_def inside_def)
  then show ?thesis using scope_isolation [of ?s ?s' "''a''" "''ta''"] by blast
qed

section \<open>Pages\<close>

lemma clamp_page_pos: "0 < clamp_page n" "clamp_page n \<le> 100"
  by (auto simp: clamp_page_def)

text \<open>A caller follows the token of each page to the next.\<close>

function page_walk :: "string \<Rightarrow> string \<Rightarrow> string \<Rightarrow> string \<Rightarrow> int \<Rightarrow> task_store \<Rightarrow> nat \<Rightarrow> task_rec list" where
  "page_walk slug tenant ctx st page s offset =
     (case task_list slug tenant ctx st page offset s of
        (recs, next, _) \<Rightarrow> if next = 0 then recs else recs @ page_walk slug tenant ctx st page s next)"
  by auto
termination
  by (relation "measure (\<lambda>(slug, tenant, ctx, st, page, s, offset). length (matching slug tenant ctx st s) - offset)")
    (auto simp: task_list_def Let_def split: if_splits intro!: diff_less_mono2 clamp_page_pos(1))

declare page_walk.simps [simp del]

text \<open>Listing is complete: following the page tokens from the first page ends, and the pages together are exactly the matching tasks
  of the scope, newest first, none twice and none missing, whatever page size was asked for; no page is longer than 100.\<close>

theorem pages_complete:
  "page_walk slug tenant ctx st page s 0 = matching slug tenant ctx st s \<and>
   length (fst (task_list slug tenant ctx st page offset s)) \<le> min 100 (length (matching slug tenant ctx st s))"
proof
  let ?M = "matching slug tenant ctx st s"
  have "page_walk slug tenant ctx st page s offset = drop offset ?M" for offset
  proof (induction "length ?M - offset" arbitrary: offset rule: less_induct)
    case less
    let ?n = "clamp_page page"
    show ?case
    proof (cases "offset + ?n < length ?M")
      case True
      then have "page_walk slug tenant ctx st page s (offset + ?n) = drop (offset + ?n) ?M"
        using less clamp_page_pos(1) [of page] by simp
      then show ?thesis using True clamp_page_pos(1) [of page] append_take_drop_id [of ?n "drop offset ?M"]
        by (subst page_walk.simps) (simp add: task_list_def Let_def add.commute)
    qed (subst page_walk.simps, simp add: task_list_def Let_def)
  qed
  then show "page_walk slug tenant ctx st page s 0 = ?M" by simp
  show "length (fst (task_list slug tenant ctx st page offset s)) \<le> min 100 (length ?M)"
    using clamp_page_pos(2) [of page] by (auto simp: task_list_def Let_def)
qed

section \<open>What the store loses\<close>

text \<open>A task answered with a question is still open for the store, so a later sweep replaces the question the peer was asked by a failure.\<close>

lemma input_required_reported_orphaned:
  defines "s \<equiv> store_run [Create 0 ''i0'' ''t1'' ''c1'' ''peer'' ''a'' ''ta'', Complete 5 ''t1'' STATE_INPUT_REQUIRED ''which one?''] new_task_store"
  shows "map_option r_state (map_of (ts_tasks s) ''t1'') = Some STATE_INPUT_REQUIRED"
    "map_option (\<lambda>r. (r_state r, r_reply r)) (map_of (ts_tasks (snd (fail_orphans 301 300 {} s))) ''t1'') = Some (STATE_FAILED, ORPHANED)"
  by (simp_all add: s_def example_eval fail_orphans_def stale_tasks_def)

text \<open>Tasks are forgotten in the order of their creation and not of their completion: the oldest task, when it completes after 500 younger
  ones, is gone as soon as it is answered.\<close>

lemma late_completion_forgotten:
  assumes "ts_tasks s = (tid, r) # rest" "keys_ok (ts_tasks s)" "\<not> terminal (r_state r)" "ended rest \<ge> 500" "terminal st"
  shows "fst (complete now tid st reply s) \<noteq> None \<and> scoped [] [] tid (snd (complete now tid st reply s)) = None"
proof -
  let ?t = "(tid, r\<lparr>r_state := st, r_reply := reply, r_completed_at := Some now\<rparr>) # rest"
  have none: "map_of rest tid = None" using assms(1,2) by (auto simp: keys_ok_def map_of_eq_None_iff)
  let ?E = "filter (\<lambda>(_, r). terminal (r_state r)) ?t"
  obtain k where k: "length ?E - 500 = Suc k" using assms(4,5) by (cases "length ?E - 500") (auto simp: ended_def)
  have "tid \<in> set (take (length ?E - 500) (map fst ?E))" unfolding k using assms(5) by simp
  then have "map_of (trim ?t) tid = None"
    unfolding trim_def Let_def by (auto simp: map_of_eq_None_iff simp del: filter.simps list.map)
  moreover have "update_row tid (\<lambda>q. q\<lparr>r_state := st, r_reply := reply, r_completed_at := Some now\<rparr>) ((tid, r) # rest) = ?t" by simp
  ultimately show ?thesis using assms(1,3) by (simp add: complete_def scoped_def Let_def)
qed

end
