(* ===== verification/Adapter_Properties.thy ===== *)
theory Adapter_Properties
  imports Hermes_Adapter Task_Runs
begin

text \<open>
  The properties of the adapter: what a request must pass before it changes anything, that a request which waits is registered and is not swept
  away as an orphan, and where two callers of one task can be told different outcomes.
\<close>

declare split_paired_All [simp del] split_paired_Ex [simp del]

lemmas prog_defs = bind_p_def return_p_def lift_a_def get_a_def do_a_def count_metric_def on_tasks_def on_waiting_def

section \<open>Nothing happens for a request that does not pass\<close>

text \<open>All but the rate limiter's buckets and the metrics.\<close>

definition untouched :: "adapter \<Rightarrow> adapter \<Rightarrow> bool" where
  "untouched s s' \<longleftrightarrow> s'\<lparr>ad_buckets := ad_buckets s, ad_metrics := ad_metrics s\<rparr> = s"

lemma untouched_refl [simp]: "untouched s s"
  by (simp add: untouched_def)

lemma checked_guarded:
  assumes "checked env q who rid method params version rt s = (res, s')"
  shows "untouched s s' \<or> fst (allow (e_rate_limit env) (q_now q) who (ad_buckets s)) \<and> is_trusted_peer (e_security env) who"
proof (cases rt)
  case (Mismatch m)
  then show ?thesis using assms by (auto simp: checked_def return_p_def Let_def split: if_splits)
next
  case (Routed a sub)
  obtain ok bs where al: "allow (e_rate_limit env) (q_now q) who (ad_buckets s) = (ok, bs)" by fastforce
  consider "\<not> is_obj params \<or> version \<noteq> [] \<and> version \<notin> {''1.0'', ''1.0.0''}" | "\<not> ok" | "\<not> is_trusted_peer (e_security env) who" | "ok" "is_trusted_peer (e_security env) who"
    by blast
  then show ?thesis
  proof cases
    case 1
    then show ?thesis using assms by (auto simp: checked_def return_p_def Let_def split: if_splits)
  next
    case 2
    then show ?thesis using assms al Routed by (auto simp: checked_def prog_defs allow_a_def untouched_def Let_def split: if_splits)
  next
    case 3
    then show ?thesis using assms al Routed by (auto simp: checked_def prog_defs allow_a_def untouched_def Let_def split: if_splits)
  qed (simp add: al)
qed

text \<open>C27: The doors of the adapter hold: a POST request changes tasks, turns, waiting requests, sessions, logs or pushes only if its credential
  was accepted, the rate limit of its identity leaves room, and the identity is trusted; and a request that \<open>authenticate\<close> gives no identity
  changes nothing at all and is answered 401. That happens when a token is configured and the request does not present one; without any
  configured token the adapter listens on loopback alone, and the client's address is the identity.\<close>

theorem post_guarded:
  assumes "do_POST env q rq s = (res, s')"
  shows "(untouched s s' \<or> (\<exists>who. authenticate (e_security env) (h_authorization rq) (h_client_ip rq) = Inr (Some who) \<and>
      fst (allow (e_rate_limit env) (q_now q) who (ad_buckets s)) \<and> is_trusted_peer (e_security env) who)) \<and>
    (authenticate (e_security env) (h_authorization rq) (h_client_ip rq) = Inr None \<longrightarrow>
      s' = s \<and> res = Inr (Answer 401 (jsonrpc_error JNull ERR_UNAUTHORIZED ''unauthorized'')))"
proof (cases "authenticate (e_security env) (h_authorization rq) (h_client_ip rq)")
  case (Inl e)
  then show ?thesis using assms by (simp add: do_POST_def prog_defs)
next
  case (Inr found)
  show ?thesis
  proof (cases found)
    case None
    then show ?thesis using assms Inr by (simp add: do_POST_def prog_defs)
  next
    case (Some who)
    have "untouched s s' \<or> fst (allow (e_rate_limit env) (q_now q) who (ad_buckets s)) \<and> is_trusted_peer (e_security env) who"
    proof (cases "read_body rq")
      case (Inl ans)
      then show ?thesis using assms Inr Some by (simp add: do_POST_def prog_defs)
    next
      case body: (Inr req)
      let ?params = "if jget req ''params'' \<noteq> JNull then jget req ''params'' else JObj []"
      let ?rt = "if is_obj ?params then route_for_request (e_nfkc env) (e_agents env) (h_path rq) ?params else Inr (Mismatch [])"
      show ?thesis
      proof (cases "is_obj req")
        case False
        then show ?thesis using assms Inr Some body by (simp add: do_POST_def prog_defs)
      next
        case True
        show ?thesis
        proof (cases ?rt)
          case rt: (Inl e)
          then show ?thesis using assms Inr Some body True by (simp add: do_POST_def bind_p_def lift_a_def Let_def)
        next
          case rt: (Inr r)
          then show ?thesis using assms Inr Some body True
            by (intro checked_guarded) (simp add: do_POST_def bind_p_def lift_a_def Let_def)
        qed
      qed
    qed
    then show ?thesis using Inr Some by simp
  qed
qed


section \<open>A request that waits\<close>

lemma end_task_ends: "end_task q r st t m s \<noteq> (Inr (Waits p), s')"
  by (auto simp: end_task_def prog_defs)

lemma do_a_Inr: "do_a f s = (Inr x, s1) \<longleftrightarrow> s1 = f s" "get_a g s = (Inr y, s1) \<longleftrightarrow> y = g s \<and> s1 = s" "lift_a r s = (Inr z, s1) \<longleftrightarrow> r = Inr z \<and> s1 = s"
  by (auto simp: do_a_def get_a_def lift_a_def)

lemma register_inline_push_tasks:
  assumes "register_inline_push q tid params a s = (Inr u, s1)"
  shows "\<exists>f. s1 = s\<lparr>ad_tasks := set_task tid f (ad_tasks s)\<rparr> \<and>
    (\<forall>r. r_state (f r) = r_state r \<and> r_context_id (f r) = r_context_id r \<and> r_peer (f r) = r_peer r \<and> r_agent_slug (f r) = r_agent_slug r \<and> r_tenant (f r) = r_tenant r)"
proof -
  obtain url where url: "inline_push_url params = Inr url"
    and rest: "s1 = s \<or> s1 = s\<lparr>ad_tasks := snd (set_push_config (a_slug a) (a_tenant a) (q_config_id q) tid url (ad_tasks s))\<rparr>"
    using assms by (auto simp: register_inline_push_def bind_p_Inr do_a_Inr on_tasks_def split: if_splits)
  have id: "set_task tid (\<lambda>r. r) ts = ts" for ts
  proof -
    have "update_row tid (\<lambda>r. r) t = t" for t :: "(string \<times> task_rec) list" by (induction t) auto
    then show ?thesis by (simp add: set_task_def)
  qed
  from rest show ?thesis
  proof
    assume "s1 = s"
    then show ?thesis by (intro exI [of _ "\<lambda>r. r"]) (simp add: id)
  next
    assume s1: "s1 = s\<lparr>ad_tasks := snd (set_push_config (a_slug a) (a_tenant a) (q_config_id q) tid url (ad_tasks s))\<rparr>"
    show ?thesis
    proof (cases "scoped (a_slug a) (a_tenant a) tid (ad_tasks s)")
      case None
      then show ?thesis by (intro exI [of _ "\<lambda>r. r"]) (simp add: s1 set_push_config_def id)
    next
      case (Some r)
      then show ?thesis by (intro exI [of _ "\<lambda>r. r\<lparr>r_push_url := url, r_push_config_id := q_config_id q\<rparr>"]) (simp add: s1 set_push_config_def Let_def)
    qed
  qed
qed

lemma working_open [simp]: "\<not> terminal STATE_WORKING"
  by (simp add: terminal_def TERMINAL_STATES_def state_defs)

text \<open>What waits is recorded: when a message is accepted and its request waits for the agent, its turn was within the limit of its context, its
  task is in the store as working, for that peer, in the scope of the agent it was routed to, and the request is registered last in
  its context with a future that no one has resolved.\<close>

theorem waiting_request_recorded:
  assumes "prepare_task env q params peer a s = (Inr (Waits p), s')"
  shows "int (fst (track (q_now q) (p_context_id p) (ad_turns s))) \<le> e_max_turns env \<and>
    map_option (\<lambda>r. (r_state r, r_peer r, r_context_id r, in_scope (a_slug a) (a_tenant a) r)) (map_of (ts_tasks (ad_tasks s')) (p_task_id p)) =
      Some (STATE_WORKING, peer, p_context_id p, True) \<and>
    ad_waiting s' = snd (add_pending (p_task_id p) (p_context_id p) (ad_waiting s)) \<and> w_futures (ad_waiting s') ! p_future p = None"
proof -
  define tid where "tid = q_task_id q"
  define ctx where "ctx = (if extract_context_id params = [] then q_context_id q else extract_context_id params)"
  define ts0 where "ts0 = snd (task_create (q_now q) (d_iso (q_drawn q)) tid ctx peer (a_slug a) (a_tenant a) (ad_tasks s))"
  define s1 where "s1 x = s\<lparr>ad_turns := snd (track (q_now q) ctx (ad_turns s)), ad_tasks := ts0,
    ad_audit := ad_audit s @ [audit_record (q_ts q) ''inbound'' peer tid x],
    ad_log := persist_message (e_isalnum env) (q_ts q) ctx ''user'' x tid (ad_log s),
    ad_metrics := (ad_metrics s)\<lparr>m_inbound_total := m_inbound_total (ad_metrics s) + 1\<rparr>\<rparr>" for x
  obtain x s2 where limit: "int (fst (track (q_now q) ctx (ad_turns s))) \<le> e_max_turns env"
    and push: "register_inline_push q tid params a (s1 x) = (Inr (), s2)"
    and s': "s' = s2\<lparr>ad_waiting := snd (add_pending tid ctx (ad_waiting s2)), ad_tasks := set_state tid STATE_WORKING (ad_tasks s2)\<rparr>"
    and p: "p = \<lparr>p_task_id = tid, p_context_id = ctx, p_peer = peer, p_future = fst (add_pending tid ctx (ad_waiting s2)), p_started = q_now q\<rparr>"
    using assms unfolding prepare_task_def Let_def tid_def [symmetric] ctx_def [symmetric]
    by (auto simp: bind_p_Inr do_a_Inr on_tasks_def on_waiting_def count_metric_def audit_a_def persist_a_def end_task_ends ts0_def s1_def
        split: if_splits option.splits prod.splits)
  from register_inline_push_tasks [OF push] obtain f where f: "s2 = (s1 x)\<lparr>ad_tasks := set_task tid f (ad_tasks (s1 x))\<rparr>"
    "\<And>r. r_state (f r) = r_state r \<and> r_context_id (f r) = r_context_id r \<and> r_peer (f r) = r_peer r \<and> r_agent_slug (f r) = r_agent_slug r \<and> r_tenant (f r) = r_tenant r"
    by blast
  show ?thesis using limit f(2)
    by (simp add: s' p f(1) s1_def ts0_def task_create_def Let_def set_task_def set_state_def map_of_update_row AList.update_conv new_rec_def in_scope_def add_pending_def)
qed


section \<open>A small adapter\<close>

definition demo_agent :: agent where
  "demo_agent = \<lparr>a_slug = [], a_path = [], a_tenant = [], a_profile = ''default'', a_local = True, a_name = ''demo'', a_description = [], a_toolsets = []\<rparr>"

definition demo_security :: security_context where
  "demo_security = \<lparr>sc_bearer_token = ''tok'', sc_peer_tokens = [], sc_trusted_peers = {}, sc_allow_all_users = False, sc_requested_host = ''0.0.0.0'', sc_push_secret = []\<rparr>"

definition demo_env :: adapter_env where
  "demo_env = \<lparr>e_security = demo_security, e_agents = [([], demo_agent)], e_max_turns = 5, e_rate_limit = 60, e_ready = True,
     e_isalnum = (\<lambda>_. True), e_nfkc = (\<lambda>_. True), e_hmac = (\<lambda>_ _. []), e_egress = (\<lambda>t. t), e_push = (\<lambda>_ _ _. None), e_coerce = (\<lambda>_ d. d)\<rparr>"

definition demo_draws :: "string \<Rightarrow> draws" where
  "demo_draws tid = \<lparr>q_now = 10, q_ts = JInt 10, q_task_id = tid, q_context_id = ''ctx-0'', q_config_id = ''cfg-0'',
     q_drawn = \<lparr>d_iso = ''now'', d_message = ''m'', d_artifact = ''x''\<rparr>, q_dispatch = None, q_child = (\<lambda>_. ChildTimeout), q_titled = (\<lambda>_. []), q_latest = []\<rparr>"

definition new_adapter :: adapter where
  "new_adapter = \<lparr>ad_tasks = new_task_store, ad_turns = [], ad_buckets = [], ad_metrics = new_metrics, ad_waiting = new_waiting, ad_sessions = [], ad_titles = [],
     ad_log = [], ad_audit = [], ad_pushes = []\<rparr>"

definition demo_params :: json where
  "demo_params = JObj [(''message'', JObj [(''parts'', JList [JObj [(''text'', JStr ''hi'')]]), (''contextId'', JStr ''c'')])]"

definition demo_request :: http_request where
  "demo_request = \<lparr>h_authorization = Some ''Bearer nope'', h_client_ip = ''9.9.9.9'', h_content_length = None, h_body = [], h_version = None, h_path = ''/''\<rparr>"

theorem post_guarded_witness:
  "snd (do_POST demo_env (demo_draws ''t1'') demo_request new_adapter) = new_adapter \<and>
   fst (do_POST demo_env (demo_draws ''t1'') demo_request new_adapter) = Inr (Answer 401 (jsonrpc_error JNull ERR_UNAUTHORIZED ''unauthorized''))"
proof -
  have "authenticate (e_security demo_env) (h_authorization demo_request) (h_client_ip demo_request) = Inr None" by code_simp
  then show ?thesis using post_guarded [where env = demo_env and q = "demo_draws ''t1''" and rq = demo_request and s = new_adapter, OF prod.collapse [symmetric]] by blast
qed

lemma demo_waits:
  "prepare_task demo_env (demo_draws ''t1'') demo_params ''peer'' demo_agent new_adapter =
    (Inr (Waits \<lparr>p_task_id = ''t1'', p_context_id = ''c'', p_peer = ''peer'', p_future = 0, p_started = 10\<rparr>),
     snd (prepare_task demo_env (demo_draws ''t1'') demo_params ''peer'' demo_agent new_adapter))"
  by code_simp

theorem waiting_request_recorded_witness:
  "map_option r_state (map_of (ts_tasks (ad_tasks (snd (prepare_task demo_env (demo_draws ''t1'') demo_params ''peer'' demo_agent new_adapter)))) ''t1'') = Some STATE_WORKING"
  using waiting_request_recorded [OF demo_waits] by (auto simp del: split_paired_Ex)

section \<open>Orphans\<close>

lemma complete_other_open:
  assumes "keys_ok (ts_tasks ts)" "is_open tid ts" "tid \<noteq> t"
  shows "map_of (ts_tasks (snd (complete now t st reply ts))) tid = map_of (ts_tasks ts) tid"
  using assms map_of_trim [of "update_row t (\<lambda>q. q\<lparr>r_state := st, r_reply := reply, r_completed_at := Some now\<rparr>) (ts_tasks ts)" tid]
  by (auto simp: complete_def is_open_def Let_def map_of_update_row split: option.splits)

lemma fail_each_other_open:
  assumes "keys_ok (ts_tasks ts)" "is_open tid ts" "tid \<notin> set tids"
  shows "map_of (ts_tasks (snd (fail_each now tids ts))) tid = map_of (ts_tasks ts) tid"
  using assms
proof (induction tids arbitrary: ts)
  case (Cons t tids)
  let ?ts = "snd (complete now t STATE_FAILED ORPHANED ts)"
  have same: "map_of (ts_tasks ?ts) tid = map_of (ts_tasks ts) tid" using complete_other_open [of ts tid t] Cons.prems by simp
  moreover have "keys_ok (ts_tasks ?ts)" using keys_ok_store_apply [of ts "Complete now t STATE_FAILED ORPHANED"] Cons.prems by simp
  ultimately have "map_of (ts_tasks (snd (fail_each now tids ?ts))) tid = map_of (ts_tasks ts) tid"
    using Cons by (simp add: is_open_def)
  then show ?case by (cases "complete now t STATE_FAILED ORPHANED ts") (auto split: option.split prod.split)
qed simp

lemma fail_each_subset: "set (fst (fail_each now tids ts)) \<subseteq> set tids"
  by (induction now tids ts rule: fail_each.induct) (auto split: prod.splits option.splits)

text \<open>A request that is still waiting is not failed as an orphan: after any interleaving of registrations, releases and replies, the watchdog's
  sweep leaves the task of every registered request as it is, and what it fails had no outcome and was older than five minutes.\<close>

theorem waiting_not_orphaned:
  assumes "run wait_step new_waiting es (ad_waiting s)" "keys_ok (ts_tasks (ad_tasks s))"
    "map_of (w_pending (ad_waiting s)) tid = Some e" "is_open tid (ad_tasks s)" "fail_orphans_once reply_timeout q s = (Inr failed, s')"
  shows "map_of (ts_tasks (ad_tasks s')) tid = map_of (ts_tasks (ad_tasks s)) tid \<and> tid \<notin> set failed \<and>
    list_all (\<lambda>t. \<exists>r. map_of (ts_tasks (ad_tasks s)) t = Some r \<and> \<not> terminal (r_state r) \<and> q_now q - r_created_at r > 300) failed"
proof -
  have "waiting_ok new_waiting" by (simp add: waiting_ok_def new_waiting_def)
  then have "waiting_ok (ad_waiting s)" using assms(1) waits.run_good by blast
  then have "tid \<in> w_active (ad_waiting s)" using assms(3) waiting_okD(5) by (cases e) blast
  let ?stale = "stale_tasks (q_now q) (orphan_timeout reply_timeout) (w_active (ad_waiting s)) (ad_tasks s)"
  have stale: "tid \<notin> set ?stale" using \<open>tid \<in> w_active (ad_waiting s)\<close> by (auto simp: stale_tasks_def)
  have f: "failed = fst (fail_each (q_now q) ?stale (ad_tasks s))" "ad_tasks s' = snd (fail_each (q_now q) ?stale (ad_tasks s))"
    using assms(5) by (auto simp: fail_orphans_once_def fail_orphans_def case_prod_beta)
  have old: "\<exists>r. map_of (ts_tasks (ad_tasks s)) t = Some r \<and> \<not> terminal (r_state r) \<and> q_now q - r_created_at r > 300" if "t \<in> set failed" for t
  proof -
    have "t \<in> set ?stale" using that fail_each_subset f(1) by blast
    then obtain r where "(t, r) \<in> set (ts_tasks (ad_tasks s))" "\<not> terminal (r_state r)" "q_now q - r_created_at r > orphan_timeout reply_timeout"
      by (auto simp: stale_tasks_def)
    moreover have "orphan_timeout reply_timeout \<ge> 300" by (simp add: orphan_timeout_def)
    ultimately show ?thesis using assms(2) by (auto simp: in_table_iff)
  qed
  have "map_of (ts_tasks (ad_tasks s')) tid = map_of (ts_tasks (ad_tasks s)) tid" using fail_each_other_open [OF assms(2,4) stale] f(2) by simp
  moreover have "tid \<notin> set failed" using stale fail_each_subset f(1) by blast
  ultimately show ?thesis using old by (simp add: list_all_iff)
qed

definition swept :: adapter where
  "swept = new_adapter\<lparr>ad_waiting := snd (add_pending ''t1'' ''c'' new_waiting),
     ad_tasks := store_run [Create 0 ''i'' ''t1'' ''c'' ''p'' [] [], Create 0 ''i'' ''t2'' ''c'' ''p'' [] []] new_task_store\<rparr>"

theorem waiting_not_orphaned_witness:
  "fst (fail_orphans_once 1 ((demo_draws ''t3'')\<lparr>q_now := 400\<rparr>) swept) = Inr [''t2''] \<and>
   map_of (ts_tasks (ad_tasks (snd (fail_orphans_once 1 ((demo_draws ''t3'')\<lparr>q_now := 400\<rparr>) swept)))) ''t1'' = map_of (ts_tasks (ad_tasks swept)) ''t1''"
proof -
  let ?q = "(demo_draws ''t3'')\<lparr>q_now := 400\<rparr>"
  have "wait_step new_waiting (Register ''t1'' ''c'') (ad_waiting swept)"
    unfolding swept_def by (simp, rule wait_step.Register) (simp add: new_waiting_def)
  then have run: "run wait_step new_waiting [Register ''t1'' ''c''] (ad_waiting swept)" by (blast intro: run_Cons)
  have st: "keys_ok (ts_tasks (ad_tasks swept))" "map_of (w_pending (ad_waiting swept)) ''t1'' = Some (''c'', 0)" "is_open ''t1'' (ad_tasks swept)"
    by (simp_all add: swept_def new_adapter_def new_waiting_def add_pending_def Let_def keys_ok_def is_open_def example_eval)
  have sweep: "fail_orphans_once 1 ?q swept = (Inr [''t2''], snd (fail_orphans_once 1 ?q swept))"
    by (simp add: fail_orphans_once_def fail_orphans_def stale_tasks_def orphan_timeout_def swept_def demo_draws_def new_adapter_def new_waiting_def
        add_pending_def example_eval)
  note kept = waiting_not_orphaned [OF run st sweep, THEN conjunct1]
  show ?thesis by (rule conjI [OF _ kept], subst sweep, rule fst_conv)
qed

section \<open>Two callers, two outcomes\<close>

text \<open>When a task is canceled after its reply arrived and before the request that waits for it has taken the reply, the canceling caller is told
  that the task is canceled, as the store says, and the waiting one that it has completed.\<close>

lemma reply_contradicts_cancel:
  assumes "map_of (ts_tasks (ad_tasks s)) (p_task_id p) = Some r" "r_state r = STATE_CANCELED" "asks_input (redact env reply) = None"
  shows "fst (finalize_task env q p (STATE_COMPLETED, reply) s) = Inr (STATE_COMPLETED, redact env reply) \<and>
    map_option r_state (map_of (ts_tasks (ad_tasks (snd (finalize_task env q p (STATE_COMPLETED, reply) s)))) (p_task_id p)) = Some STATE_CANCELED"
proof -
  have ended: "terminal STATE_CANCELED" by (simp add: terminal_def TERMINAL_STATES_def)
  define s1 where "s1 = snd (record_outcome env q (p_task_id p) (p_context_id p) (p_peer p) STATE_COMPLETED (redact env reply) (Some (p_started p)) s)"
  have push: "fst (send_push_notification env q tid c t st w) = Inr ()" for tid c t st w
    by (simp add: send_push_notification_def Let_def split: prod.split option.split)
  have push_state: "map_option r_state (map_of (ts_tasks (ad_tasks (snd (send_push_notification env q tid c t st w)))) tid) =
      map_option r_state (map_of (ts_tasks (ad_tasks w)) tid)" for tid c t st w
    by (auto simp: send_push_notification_def pop_push_url_def set_task_def Let_def map_of_update_row split: prod.split option.split)
  have "record_outcome env q (p_task_id p) (p_context_id p) (p_peer p) STATE_COMPLETED (redact env reply) (Some (p_started p)) s = (Inr (), s1)"
    using push by (simp add: s1_def record_outcome_def prog_defs persist_a_def audit_a_def prod_eq_iff)
  moreover have "map_option r_state (map_of (ts_tasks (ad_tasks s1)) (p_task_id p)) = Some STATE_CANCELED"
    using assms(1,2) ended by (simp add: s1_def record_outcome_def prog_defs persist_a_def audit_a_def push_state complete_def)
  ultimately show ?thesis using assms(3) by (simp add: finalize_task_def prog_defs Let_def)
qed

end
