(* ===== verification/Hermes_Contract.thy ===== *)
theory Hermes_Contract
  imports Adapter_Properties Broker_Peer Py_Lines
begin

text \<open>
  Broker and Hermes together: the broker's A2A client (\<open>a2a.py\<close>, \<open>broker_peer.py\<close>) reads what the vendored adapter writes. What is shown:
  polling a task tells what the store holds, a rejected turn is recognised for what it is, and the stream of a finished message is
  read back as the finished task. An HTTP body is the value it prints.
\<close>

declare split_paired_All [simp del] split_paired_Ex [simp del]

section \<open>Stripping\<close>

lemma code_points_snoc:
  assumes "\<not> cont_byte e"
  shows "code_points (s @ [e]) = code_points s @ [[e]]"
proof (induction s rule: code_points.induct)
  case (2 c s)
  have "takeWhile cont_byte (s @ [e]) = takeWhile cont_byte s" "dropWhile cont_byte (s @ [e]) = dropWhile cont_byte s @ [e]"
    using assms by (induction s) auto
  then show ?case using 2 by simp
qed simp

text \<open>A text between visible ASCII characters is not stripped.\<close>

definition framed :: "string \<Rightarrow> bool" where
  "framed s \<longleftrightarrow> s \<noteq> [] \<and> ascii (hd s) \<and> \<not> is_space (hd s) \<and> ascii (last s) \<and> \<not> is_space (last s)"

lemma not_blank_ascii: "ascii c \<Longrightarrow> \<not> is_space c \<Longrightarrow> \<not> py_blank (c # r)"
  by (subst py_blank.simps(2)) (auto simp: ascii_def simp del: py_blank.simps split: list.split)

lemma framed_strip:
  assumes "framed s"
  shows "py_strip s = s" "py_strip (CHR '' '' # s) = s"
proof -
  obtain c r where c: "s = c # r" "ascii c" "\<not> is_space c" using assms by (cases s) (auto simp: framed_def)
  have e: "s = butlast s @ [last s]" "ascii (last s)" "\<not> is_space (last s)" using assms by (auto simp: framed_def)
  have last: "code_points s = code_points (butlast s) @ [[last s]]"
    using code_points_snoc [of "last s" "butlast s"] e by (simp add: ascii_def cont_byte_def)
  have nb: "dropWhile py_blank (code_points s) = code_points s" using c not_blank_ascii by simp
  have bwd: "dropWhile py_blank (rev (code_points s)) = rev (code_points s)" using last not_blank_ascii [OF e(2,3), of "[]"] by (simp del: py_blank.simps)
  show strip: "py_strip s = s" unfolding py_strip_def nb bwd by simp
  have "code_points (CHR '' '' # s) = '' '' # code_points s" using c by (simp add: ascii_def cont_byte_def)
  then show "py_strip (CHR '' '' # s) = s" using strip by (simp add: py_strip_def is_space_def)
qed

section \<open>Reading a task\<close>

lemma text_message_text: "message_text (text_message m role t ctx) = Inr (if t = [] then [] else py_strip t)"
  by (simp add: message_text_def text_message_def text_part_def py_or_def part_text_def py_strip_def)

lemma artifact_text: "message_text (JObj [(''artifactId'', JStr i), (''parts'', JList [text_part t])]) = Inr (if t = [] then [] else py_strip t)"
  by (simp add: message_text_def text_part_def py_or_def part_text_def py_strip_def)

definition task_artifacts :: "drawn \<Rightarrow> string \<Rightarrow> string \<Rightarrow> json list" where
  "task_artifacts d st t = (if t \<noteq> [] \<and> st = STATE_COMPLETED then [JObj [(''artifactId'', JStr (d_artifact d)), (''parts'', JList [text_part t])]] else [])"

lemma parse_build_task:
  assumes "tid \<noteq> []" "ctx \<noteq> []" "st \<noteq> []"
  shows "parse_task fb (build_task d tid ctx st t) =
    Inr \<lparr>task_id = tid, context_id = ctx, task_state = state_of_raw st, task_text = (if t = [] then [] else py_strip t),
         artifacts = task_artifacts d st t, raw = build_task d tid ctx st t\<rparr>"
proof -
  consider "t = []" | "t \<noteq> []" "st = STATE_COMPLETED" | "t \<noteq> []" "st \<noteq> STATE_COMPLETED" by blast
  then show ?thesis
  proof cases
    case 1
    then show ?thesis using assms by (simp add: parse_task_def unwrap_task_def build_task_def task_artifacts_def py_or_def Let_def message_text_def)
  next
    case 2
    then show ?thesis using assms
      by (simp add: parse_task_def unwrap_task_def build_task_def task_artifacts_def py_or_def Let_def artifact_text text_message_text)
  next
    case 3
    then show ?thesis using assms
      by (simp add: parse_task_def unwrap_task_def build_task_def task_artifacts_def py_or_def Let_def text_message_text)
  qed
qed


text \<open>Polling tells what the adapter holds: for a task the caller's scope shows, one request brings its identifier, its context, its state in the
  broker's terms and its reply without surrounding blanks; for any other it brings the error that the task is not found, which the
  broker does not retry.\<close>

theorem poll_tells_store:
  assumes "tid \<noteq> []" "list_all (\<lambda>(_, r). r_task_id r \<noteq> [] \<and> r_context_id r \<noteq> [] \<and> r_state r \<noteq> []) (ts_tasks ts)"
  shows "get_task (Inr ()) (\<lambda>_. HttpBody (rpc_tasks_get q rid (JObj [(''id'', JStr tid)]) a ts)) =
    (case scoped (a_slug a) (a_tenant a) tid ts of
       Some r \<Rightarrow> Inr \<lparr>task_id = r_task_id r, context_id = r_context_id r, task_state = state_of_raw (r_state r),
                      task_text = (if r_reply r = [] then [] else py_strip (r_reply r)), artifacts = task_artifacts (q_drawn q) (r_state r) (r_reply r),
                      raw = build_task (q_drawn q) (r_task_id r) (r_context_id r) (r_state r) (r_reply r)\<rparr>
     | None \<Rightarrow> Inl (A2AError ''a2a_task_not_found'' (''task not found: '' @ tid) False (JInt (- 32001))), 1)"
proof (cases "scoped (a_slug a) (a_tenant a) tid ts")
  case None
  then show ?thesis using assms(1)
    by (simp add: get_task_def post_rpc_def rpc_tasks_get_def find_task_def text_or_def py_or_def Let_def rpc_payload_def jsonrpc_error_def ERR_TASK_NOT_FOUND_def
        numeral_3_eq_3)
next
  case (Some r)
  then have "(tid, r) \<in> set (ts_tasks ts)" by (auto simp: scoped_def dest: map_of_SomeD split: option.splits if_splits)
  then have ok: "r_task_id r \<noteq> []" "r_context_id r \<noteq> []" "r_state r \<noteq> []" using assms(2) by (auto simp: list_all_iff)
  have "to_task (q_drawn q) True r = build_task (q_drawn q) (r_task_id r) (r_context_id r) (r_state r) (r_reply r)"
    by (simp add: to_task_def build_task_def)
  then show ?thesis using assms(1) Some parse_build_task [OF ok, of "[]" "q_drawn q" "r_reply r"]
    by (simp add: get_task_def post_rpc_def rpc_tasks_get_def find_task_def text_or_def py_or_def Let_def rpc_payload_def jsonrpc_result_def numeral_3_eq_3)
qed

section \<open>Reading a stream\<close>

definition event_json :: "string \<Rightarrow> json \<Rightarrow> json" where
  "event_json rid j = jsonrpc_result (JStr rid) j"

lemma sse_data_event: "sse_data (Some (JStr rid)) j = ''data: '' @ json_dumps '', '' '': '' (event_json rid j) @ newlines"
  by (simp add: sse_data_def event_json_def)

lemma printed_framed: "framed (json_dumps '', '' '': '' (event_json rid j))"
  by (simp add: framed_def event_json_def jsonrpc_result_def ascii_def is_space_def)

lemma frame_split:
  assumes "plain rid" "plain_json j"
  shows "split_lines [] (sse_data (Some (JStr rid)) j @ rest) = [''data: '' @ json_dumps '', '' '': '' (event_json rid j), []] @ split_lines [] rest"
proof -
  let ?t = "json_dumps '', '' '': '' (event_json rid j)"
  have "plain_json (event_json rid j)" using assms by (simp add: event_json_def jsonrpc_result_def)
  then have "one_line ?t" by (rule one_line_dumps)
  moreover have "one_line ''data: ''" by (simp add: one_line_def ascii_start_def ascii_def)
  ultimately have line: "one_line (''data: '' @ ?t)" using one_line_append by blast
  have "split_lines [] ((''data: '' @ ?t) @ CHR 0x0A # ([] @ CHR 0x0A # rest)) = (''data: '' @ ?t) # split_lines [] ([] @ CHR 0x0A # rest)"
    using split_lines_piece [of "''data: '' @ ?t" "[]"] line unfolding one_line_def by simp
  also have "split_lines [] ([] @ CHR 0x0A # rest) = [] # split_lines [] rest" using split_lines_piece [of "[]" "[]" rest] by simp
  finally show ?thesis by (simp only: sse_data_event newlines_def append_assoc append.simps)
qed

lemma hermes_frame_read:
  assumes "json_ok j" "is_obj j"
  shows "sse_line ''SendStreamingMessage'' rid (''data: '' @ json_dumps '', '' '': '' (event_json rid j)) = Inr (Some j)"
proof -
  let ?t = "json_dumps '', '' '': '' (event_json rid j)"
  have body: "py_strip (drop 5 (''data: '' @ ?t)) = ?t" using framed_strip(2) [OF printed_framed [of rid j]] by simp
  have "json_ok (event_json rid j)" using assms by (simp add: event_json_def jsonrpc_result_def)
  then have "json_loads ?t = Some (event_json rid j)" by (rule spaced.loads_printed)
  moreover have "?t \<noteq> []" using printed_framed [of rid j] by (auto simp: framed_def)
  moreover have "starts_with ''data:'' (''data: '' @ ?t)" by (simp add: starts_with_def)
  moreover have "is_obj (event_json rid j)" "jget (event_json rid j) ''jsonrpc'' = JStr ''2.0''" "jget (event_json rid j) ''id'' = JStr rid"
    "\<not> jhas (event_json rid j) ''error''" "jhas (event_json rid j) ''result''" "jget (event_json rid j) ''result'' = j"
    by (simp_all add: event_json_def jsonrpc_result_def)
  ultimately show ?thesis using assms(2) unfolding sse_line_def body Let_def by simp
qed

lemma blank_line_read: "sse_line m rid [] = Inr None"
  by (simp add: sse_line_def starts_with_def)

text \<open>The events of a stream, in order and complete.\<close>

lemma stream_read:
  assumes "plain rid" "list_all (\<lambda>j. plain_json j \<and> json_ok j \<and> is_obj j) js"
  shows "sse_lines ''SendStreamingMessage'' rid (splitlines (concat (map (sse_data (Some (JStr rid))) js) @ sse_done)) SseEof = (js, None)"
  using assms(2)
proof (induction js)
  case Nil
  have "splitlines sse_done = ['': done'', []]" by code_simp
  moreover have "sse_line m rid '': done'' = Inr None" for m by (simp add: sse_line_def starts_with_def)
  ultimately show ?case by (simp add: blank_line_read sse_failure_def)
next
  case (Cons j js)
  then show ?case using frame_split [OF assms(1), of j] hermes_frame_read [of j rid] by (simp add: splitlines_def blank_line_read)
qed


section \<open>The events as the broker's peer takes them\<close>

lemma message_text_none: "message_text JNull = Inr []"
  by (simp add: message_text_def)

lemma parse_task_event:
  assumes "tid \<noteq> []" "ctx \<noteq> []" "st \<noteq> []"
  shows "parse_stream_event fb (stream_task (build_task d tid ctx st t)) =
    Inr (Some \<lparr>task_id = tid, context_id = ctx, task_state = state_of_raw st, task_text = (if t = [] then [] else py_strip t),
         artifacts = task_artifacts d st t, raw = build_task d tid ctx st t\<rparr>)"
proof -
  have "is_obj (build_task d tid ctx st t)" by (simp add: build_task_def)
  then show ?thesis using parse_build_task [OF assms] by (simp add: parse_stream_event_def stream_task_def)
qed

lemma parse_status_event:
  assumes "tid \<noteq> []" "ctx \<noteq> []" "st \<noteq> []"
  shows "parse_stream_event fb (status_update d tid ctx st t) =
    Inr (Some \<lparr>task_id = tid, context_id = ctx, task_state = state_of_raw st, task_text = (if t = [] then [] else py_strip t),
         artifacts = [], raw = status_task (jget (status_update d tid ctx st t) ''statusUpdate'')\<rparr>)"
  using assms
  by (cases "t = []")
    (simp_all add: parse_stream_event_def status_update_def status_task_def parse_task_def unwrap_task_def py_or_def Let_def text_message_text message_text_none)

lemma parse_artifact_event:
  assumes "tid \<noteq> []" "ctx \<noteq> []" "t \<noteq> []"
  shows "parse_stream_event fb (artifact_update d tid ctx t) =
    Inr (Some \<lparr>task_id = tid, context_id = ctx, task_state = ''working'', task_text = py_strip t,
         artifacts = task_artifacts d STATE_COMPLETED t, raw = artifact_task (jget (artifact_update d tid ctx t) ''artifactUpdate'')\<rparr>)"
proof -
  have "state_of_raw ''TASK_STATE_WORKING'' = ''working''" by (simp add: state_of_raw_def A2A_STATE_MAP_def)
  then show ?thesis using assms
    by (simp add: parse_stream_event_def artifact_update_def artifact_task_def parse_task_def unwrap_task_def py_or_def Let_def artifact_text task_artifacts_def
        message_text_none)
qed

definition artifact_json :: "drawn \<Rightarrow> string \<Rightarrow> json" where
  "artifact_json d t = JObj [(''artifactId'', JStr (d_artifact d)), (''parts'', JList [text_part t])]"

lemma peer_task_event:
  assumes "tid \<noteq> []" "ctx \<noteq> []" "st \<noteq> []" "snapshot_size [] [] \<le> bound"
  shows "peer_event bound fb (stream_task (build_task d tid ctx st [])) ([], None) =
    Inr (([], Some tid), Some \<lparr>task_id = tid, context_id = ctx, task_state = state_of_raw st, task_text = [], artifacts = [], raw = build_task d tid ctx st []\<rparr>)"
  using assms unfolding peer_event_def by (simp add: parse_task_event task_artifacts_def)

lemma peer_status_event:
  assumes "tid \<noteq> []" "ctx \<noteq> []" "st \<noteq> []" "snapshot_size acc (if t = [] then [] else py_strip t) \<le> bound" "hd0 \<in> {None, Some tid}"
    "map_r message_text (map snd acc) = Inr texts" "joined = join [CHR 0x0A] (filter (\<lambda>t. t \<noteq> []) texts)"
  shows "peer_event bound fb (status_update d tid ctx st t) (acc, hd0) =
    Inr ((acc, Some tid), Some \<lparr>task_id = tid, context_id = ctx, task_state = state_of_raw st,
      task_text = (if joined = [] then if t = [] then [] else py_strip t else joined),
      artifacts = map snd acc, raw = status_task (jget (status_update d tid ctx st t) ''statusUpdate'')\<rparr>)"
proof -
  have "\<not> (tid = [] \<or> (case hd0 of None \<Rightarrow> False | Some h \<Rightarrow> tid \<noteq> h))" using assms(1,5) by auto
  then show ?thesis using assms(2-4,6,7) assms(1) unfolding peer_event_def
    by (cases hd0) (simp_all add: parse_status_event Let_def)
qed

lemma peer_artifact_event:
  assumes "tid \<noteq> []" "ctx \<noteq> []" "t \<noteq> []" "d_artifact d \<noteq> []" "snapshot_size [(d_artifact d, artifact_json d t)] (py_strip t) \<le> bound"
  shows "peer_event bound fb (artifact_update d tid ctx t) ([], Some tid) =
    Inr (([(d_artifact d, artifact_json d t)], Some tid), Some \<lparr>task_id = tid, context_id = ctx, task_state = ''working'', task_text = py_strip t,
      artifacts = [artifact_json d t], raw = artifact_task (jget (artifact_update d tid ctx t) ''artifactUpdate'')\<rparr>)"
proof -
  have "jget (jget (artifact_update d tid ctx t) ''artifactUpdate'') ''append'' = JNull" "\<not> is_obj (jget (artifact_update d tid ctx t) ''task'')"
    by (simp_all add: artifact_update_def)
  then show ?thesis using assms artifact_text [of "d_artifact d" t] unfolding peer_event_def
    by (simp add: parse_artifact_event task_artifacts_def artifact_json_def [symmetric] add_artifact_def Let_def py_or_def) (auto simp: artifact_json_def py_or_def)
qed


section \<open>A finished message\<close>

text \<open>What the broker's peer yields for the text of a response stream.\<close>

definition peer_reads :: "int \<Rightarrow> string \<Rightarrow> string \<Rightarrow> string \<Rightarrow> task_result list \<times> exn option" where
  "peer_reads bound fb rid response =
     (let (evs, x) = sse (Inr ()) ''SendStreamingMessage'' rid (splitlines response) SseEof in peer_stream bound fb evs x ([], None))"

definition plain_drawn :: "drawn \<Rightarrow> bool" where
  "plain_drawn d \<longleftrightarrow> plain (d_iso d) \<and> plain (d_message d) \<and> plain (d_artifact d)"

lemma plain_ascii_literals:
  "plain ROLE_AGENT" "plain STATE_SUBMITTED" "plain STATE_WORKING" "plain STATE_COMPLETED" "plain STATE_REJECTED" "plain ''text/plain''"
  by (rule plain_ascii, code_simp)+

lemma events_plain:
  assumes "plain tid" "plain ctx" "plain st" "plain t" "plain_drawn d"
  shows "plain_json (build_task d tid ctx st t)" "plain_json (status_update d tid ctx st t)" "plain_json (artifact_update d tid ctx t)"
  using assms by (simp_all add: build_task_def status_update_def artifact_update_def text_message_def text_part_def plain_drawn_def plain_ascii_literals plain_ascii ascii_def)

lemma events_ok:
  "json_ok (build_task d tid ctx st t)" "json_ok (status_update d tid ctx st t)" "json_ok (artifact_update d tid ctx t)"
  "is_obj (build_task d tid ctx st t)" "is_obj (status_update d tid ctx st t)" "is_obj (artifact_update d tid ctx t)"
  by (simp_all add: build_task_def status_update_def artifact_update_def text_message_def text_part_def)

lemma task_event_ok:
  "plain_json j \<Longrightarrow> plain_json (stream_task j)" "json_ok j \<Longrightarrow> json_ok (stream_task j)" "is_obj (stream_task j)"
  by (simp_all add: stream_task_def plain_ascii ascii_def)

lemma peer_reads_events:
  assumes "plain rid" "list_all (\<lambda>j. plain_json j \<and> json_ok j \<and> is_obj j) js"
  shows "peer_reads bound fb rid (concat (map (sse_data (Some (JStr rid))) js) @ sse_done) = peer_stream bound fb js None ([], None)"
  using stream_read [OF assms] by (simp add: peer_reads_def sse_def)

lemma state_names: "state_of_raw STATE_SUBMITTED = ''submitted''" "state_of_raw STATE_WORKING = ''working''" "state_of_raw STATE_COMPLETED = ''completed''"
  "state_of_raw STATE_REJECTED = ''rejected''"
  by (simp_all add: state_of_raw_def A2A_STATE_MAP_def state_defs)

text \<open>C22: The broker is told what the agent answered: the stream the adapter writes for a message that is answered before the first keepalive -
  its opening, and after the reply its last events for the outcome \<open>COMPLETED\<close> - is read by the broker's peer to the end without an error,
  names one task throughout, and its last snapshot is completed with the reply as its text. The reply is not blank, its snapshots stay
  within the peer's size limit, and no text in the stream holds U+0085, U+2028 or U+2029, where the peer's reader would break the line.\<close>

theorem stream_told_outcome:
  assumes "plain rid" "plain (p_task_id p)" "plain (p_context_id p)" "plain reply" "plain_drawn (q_drawn q)" "plain_drawn (q_drawn q')"
    "p_task_id p \<noteq> []" "p_context_id p \<noteq> []" "d_artifact (q_drawn q') \<noteq> []" "py_strip reply \<noteq> []"
    "\<forall>acc \<in> {[], [(d_artifact (q_drawn q'), artifact_json (q_drawn q') reply)]}. \<forall>t \<in> {[], py_strip reply}. snapshot_size acc t \<le> bound"
  shows "\<exists>rs. peer_reads bound fb rid (opening_frames q p (JStr rid) @ terminal_frames q' (p_task_id p) (p_context_id p) STATE_COMPLETED reply (JStr rid)) = (rs, None) \<and>
    map task_state rs = [''submitted'', ''working'', ''working'', ''completed''] \<and> list_all (\<lambda>r. task_id r = p_task_id p) rs \<and>
    task_text (last rs) = py_strip reply \<and> artifacts (last rs) = [artifact_json (q_drawn q') reply]"
proof -
  let ?tid = "p_task_id p" and ?ctx = "p_context_id p" and ?d = "q_drawn q" and ?e = "q_drawn q'"
  have reply: "reply \<noteq> []" using assms(10) by (auto simp: py_strip_def)
  define js where "js = [stream_task (build_task ?d ?tid ?ctx STATE_SUBMITTED []), status_update ?d ?tid ?ctx STATE_WORKING [],
    artifact_update ?e ?tid ?ctx reply, status_update ?e ?tid ?ctx STATE_COMPLETED []]"
  have frames: "opening_frames q p (JStr rid) @ terminal_frames q' ?tid ?ctx STATE_COMPLETED reply (JStr rid) = concat (map (sse_data (Some (JStr rid))) js) @ sse_done"
    using reply by (simp add: js_def opening_frames_def terminal_frames_def Let_def)
  have "plain []" by simp
  then have "list_all (\<lambda>j. plain_json j \<and> json_ok j \<and> is_obj j) js"
    unfolding js_def using events_plain events_ok task_event_ok assms(2-6) plain_ascii_literals by (simp add: list_all_iff)
  then have read: "peer_reads bound fb rid (opening_frames q p (JStr rid) @ terminal_frames q' ?tid ?ctx STATE_COMPLETED reply (JStr rid)) =
      peer_stream bound fb js None ([], None)"
    unfolding frames by (rule peer_reads_events [OF assms(1)])
  have ne: "STATE_SUBMITTED \<noteq> []" "STATE_WORKING \<noteq> []" "STATE_COMPLETED \<noteq> []" by (simp_all add: state_defs)
  let ?acc = "[(d_artifact ?e, artifact_json ?e reply)]"
  have texts: "map_r message_text (map snd ?acc) = Inr [py_strip reply]" using reply artifact_text [of "d_artifact ?e" reply] by (simp add: artifact_json_def)
  note e1 = peer_task_event [OF assms(7,8) ne(1), of bound fb ?d]
  note e2 = peer_status_event [OF assms(7,8) ne(2), of "[]" "[]" bound "Some ?tid" "[]" "[]" fb ?d]
  note e3 = peer_artifact_event [OF assms(7,8) reply assms(9), of bound fb]
  note e4 = peer_status_event [OF assms(7,8) ne(3) _ _ texts, of "[]" bound "Some ?tid" "py_strip reply" fb ?e]
  show ?thesis unfolding read js_def using e1 e2 e3 e4 assms(10,11) by (simp add: state_names)
qed


definition demo_drawn :: drawn where
  "demo_drawn = \<lparr>d_iso = ''now'', d_message = ''m'', d_artifact = ''x''\<rparr>"

definition demo_q :: draws where
  "demo_q = demo_draws ''t1''"

definition demo_p :: pending where
  "demo_p = \<lparr>p_task_id = ''t1'', p_context_id = ''c'', p_peer = ''peer'', p_future = 0, p_started = 10\<rparr>"

theorem stream_told_outcome_witness:
  "\<exists>rs. peer_reads 1000 ''c'' ''r1'' (opening_frames demo_q demo_p (JStr ''r1'') @ terminal_frames demo_q ''t1'' ''c'' STATE_COMPLETED ''hi there '' (JStr ''r1'')) = (rs, None) \<and>
    map task_state rs = [''submitted'', ''working'', ''working'', ''completed''] \<and> task_text (last rs) = ''hi there''"
proof -
  have strip: "py_strip ''hi there '' = ''hi there''" by code_simp
  have p: "p_task_id demo_p = ''t1''" "p_context_id demo_p = ''c''" "q_drawn demo_q = demo_drawn"
    by (simp_all add: demo_p_def demo_q_def demo_draws_def demo_drawn_def)
  have facts: "plain ''r1''" "plain (p_task_id demo_p)" "plain (p_context_id demo_p)" "plain ''hi there ''" "plain_drawn (q_drawn demo_q)"
    "p_task_id demo_p \<noteq> []" "p_context_id demo_p \<noteq> []" "d_artifact (q_drawn demo_q) \<noteq> []" "py_strip ''hi there '' \<noteq> []"
    by (simp_all add: p demo_drawn_def plain_drawn_def strip)
  have "snapshot_size [] [] \<le> 1000" "snapshot_size [] ''hi there'' \<le> 1000"
    "snapshot_size [(d_artifact demo_drawn, artifact_json demo_drawn ''hi there '')] [] \<le> 1000"
    "snapshot_size [(d_artifact demo_drawn, artifact_json demo_drawn ''hi there '')] ''hi there'' \<le> 1000"
    by code_simp+
  then have sizes: "\<forall>acc \<in> {[], [(d_artifact (q_drawn demo_q), artifact_json (q_drawn demo_q) ''hi there '')]}.
      \<forall>t \<in> {[], py_strip ''hi there ''}. snapshot_size acc t \<le> 1000"
    unfolding p strip by simp
  from stream_told_outcome [OF facts(1-5) facts(5-9) sizes, of "''c''"] show ?thesis
    unfolding p strip by (elim exE conjE) (intro exI conjI)
qed

section \<open>A rejected turn\<close>

text \<open>The adapter's sentence is the one the broker knows.\<close>

lemma anti_loop_framed: "framed (anti_loop_text ctx n)"
  by (simp add: framed_def anti_loop_text_def ascii_def is_space_def)

lemma dec_nat_head: "0 < n \<Longrightarrow> hd (dec_nat n) \<noteq> CHR ''0''"
proof (induction n rule: dec_nat.induct)
  case (1 n)
  show ?case
  proof (cases "n < 10")
    case True
    have "(char_of (48 + n) :: char) \<noteq> CHR ''0''"
    proof
      assume "char_of (48 + n) = CHR ''0''"
      then have "(of_char (char_of (48 + n) :: char) :: nat) = of_char (CHR ''0'')" by (simp only:)
      then show False using True 1(2) by simp
    qed
    then show ?thesis using True by (subst dec_nat.simps) simp
  next
    case False
    then have "hd (dec_nat (n div 10)) \<noteq> CHR ''0''" using 1 by simp
    moreover have "dec_nat (n div 10) \<noteq> []" by (subst dec_nat.simps) simp
    ultimately show ?thesis using False by (subst dec_nat.simps) simp
  qed
qed

lemma legacy_text:
  assumes "1 \<le> n"
  shows "legacy_turn_limit ctx (anti_loop_text ctx n)"
proof -
  let ?ds = "dec_nat (nat n)" and ?tail = "'' turns. Start a new context or increase A2A_MAX_PINGPONG_TURNS.''"
  have ds: "dec_int n = ?ds" using assms by (simp add: dec_int_def)
  have digits: "list_all is_digit ?ds" by (rule dec_nat_digits)
  have run: "takeWhile is_digit (?ds @ ?tail) = ?ds"
    using digits by (subst takeWhile_append2) (auto simp: list_all_iff is_digit_def)
  have "?ds \<noteq> []" by (subst dec_nat.simps) simp
  then have "?ds \<noteq> [] \<and> hd ?ds \<noteq> CHR ''0''" using dec_nat_head [of "nat n"] assms by simp
  moreover have "anti_loop_text ctx n = (''Anti-loop protection: context '' @ ctx @ '' exceeded '') @ ?ds @ ?tail" by (simp add: anti_loop_text_def ds)
  moreover have "drop (length p) (p @ r) = r" "starts_with p (p @ r)" for p r :: string by (simp_all add: starts_with_def)
  ultimately show ?thesis unfolding legacy_turn_limit_def Let_def by (simp only: run simp_thms)
qed


lemma prepare_over_limit:
  assumes "extract_text params = Inr t0" "extract_context_id params = ctx" "ctx \<noteq> []" "int (fst (track (q_now q) ctx (ad_turns s))) > e_max_turns env"
  shows "\<exists>s'. prepare_task env q params peer a s =
    (Inr (Ended (build_task (q_drawn q) (q_task_id q) ctx STATE_REJECTED (anti_loop_text ctx (e_max_turns env)))), s')"
  using assms
  by (simp add: prepare_task_def end_task_def bind_p_def lift_a_def get_a_def do_a_def on_tasks_def count_metric_def Let_def new_rec_def)

lemma rejected_details:
  assumes "1 \<le> n" "py_len (anti_loop_text ctx n) \<le> 1024" "task_state t = ''rejected''" "context_id t = ctx" "task_text t = anti_loop_text ctx n"
    "jget (jget (raw t) ''metadata'') DIAGNOSTICS_URI = JNull"
  shows "jget (peer_error_details t) ''reason'' = JStr ''context_turn_limit''"
  using assms legacy_text [OF assms(1), of ctx] by (simp add: peer_error_details_def default_details_def Let_def)

text \<open>A refused turn is told apart from other refusals: when a context has had its turns, the adapter's stream for the next message is read by the
  broker's peer as one rejected task, and the diagnostics the broker derives from it name the turn limit of the context as the
  reason.\<close>

theorem turn_limit_recognised:
  assumes "extract_text params = Inr t0" "extract_context_id params \<noteq> []"
    "int (fst (track (q_now q) (extract_context_id params) (ad_turns s))) > e_max_turns env" "1 \<le> e_max_turns env" "q_task_id q \<noteq> []"
    "plain rid" "plain (q_task_id q)" "plain (anti_loop_text (extract_context_id params) (e_max_turns env))" "plain (extract_context_id params)" "plain_drawn (q_drawn q)"
    "py_len (anti_loop_text (extract_context_id params) (e_max_turns env)) \<le> 1024"
    "snapshot_size [] (anti_loop_text (extract_context_id params) (e_max_turns env)) \<le> bound"
  shows "\<exists>frames t. fst (handle env q (JStr rid) params peer a MStream v1 s) = Inr (StreamOut frames) \<and> peer_reads bound fb rid frames = ([t], None) \<and>
    task_state t = ''rejected'' \<and> jget (peer_error_details t) ''reason'' = JStr ''context_turn_limit''"
proof -
  define ctx where "ctx = extract_context_id params"
  define t where "t = anti_loop_text ctx (e_max_turns env)"
  let ?tid = "q_task_id q" and ?ev = "status_update (q_drawn q) (q_task_id q) ctx STATE_REJECTED t"
  have t: "t \<noteq> []" "py_strip t = t" using framed_strip(1) [OF anti_loop_framed] by (simp_all add: t_def anti_loop_text_def)
  have ctx: "ctx \<noteq> []" using assms(2) by (simp add: ctx_def)
  have "extract_text (text_message m role t ctx) = Inr t" for m role
    using t by (simp add: extract_text_def text_message_def text_part_def part_chunk_def map_filter_def)
  moreover have "text_message m role t ctx \<noteq> JNull \<and> truthy (text_message m role t ctx)" for m role by (simp add: text_message_def)
  ultimately have ended: "ended_frames q (JStr rid) (build_task (q_drawn q) ?tid ctx STATE_REJECTED t) = Inr (concat (map (sse_data (Some (JStr rid))) [?ev]) @ sse_done)"
    using t by (simp add: ended_frames_def build_task_def terminal_frames_def Let_def py_or_def state_defs)
  define s1 where "s1 = s\<lparr>ad_metrics := (ad_metrics s)\<lparr>m_streams_started := m_streams_started (ad_metrics s) + 1\<rparr>\<rparr>"
  have "ad_turns s1 = ad_turns s" by (simp add: s1_def)
  then obtain s' where prep: "prepare_task env q params peer a s1 = (Inr (Ended (build_task (q_drawn q) ?tid ctx STATE_REJECTED t)), s')"
    using prepare_over_limit [where s = s1 and env = env and q = q and peer = peer and a = a, OF assms(1) refl assms(2)] assms(3) unfolding t_def ctx_def by auto
  have out: "fst (handle env q (JStr rid) params peer a MStream v1 s) = Inr (StreamOut (concat (map (sse_data (Some (JStr rid))) [?ev]) @ sse_done))"
    using ended prep by (simp add: handle_def rpc_message_stream_def bind_p_def count_metric_def do_a_def s1_def lift_a_def)
  have ok: "list_all (\<lambda>j. plain_json j \<and> json_ok j \<and> is_obj j) [?ev]"
    using events_plain(2) events_ok plain_ascii_literals assms(7-10) unfolding t_def ctx_def by simp
  have "STATE_REJECTED \<noteq> []" by (simp add: state_defs)
  from peer_status_event [OF assms(5) ctx this, of "[]" t bound None "[]" "[]" fb "q_drawn q"] have
    ev: "peer_event bound fb ?ev ([], None) = Inr (([], Some ?tid), Some \<lparr>task_id = ?tid, context_id = ctx, task_state = ''rejected'', task_text = t, artifacts = [],
      raw = status_task (jget ?ev ''statusUpdate'')\<rparr>)"
    using t assms(12) by (simp add: state_names t_def ctx_def)
  define r where "r = \<lparr>task_id = ?tid, context_id = ctx, task_state = ''rejected'', task_text = t, artifacts = [], raw = status_task (jget ?ev ''statusUpdate'')\<rparr>"
  have "peer_reads bound fb rid (concat (map (sse_data (Some (JStr rid))) [?ev]) @ sse_done) = ([r], None)"
    unfolding peer_reads_events [OF assms(6) ok] by (simp add: ev r_def)
  moreover have "jget (peer_error_details r) ''reason'' = JStr ''context_turn_limit''"
    by (rule rejected_details [OF assms(4), of ctx]) (use assms(11) in \<open>simp_all add: r_def t_def ctx_def status_update_def status_task_def\<close>)
  ultimately show ?thesis using out by (auto simp: r_def)
qed


definition worn_adapter :: adapter where
  "worn_adapter = new_adapter\<lparr>ad_turns := [(''c'', (5, 9))]\<rparr>"

theorem turn_limit_recognised_witness:
  "\<exists>frames t. fst (handle demo_env demo_q (JStr ''r1'') demo_params ''peer'' demo_agent MStream True worn_adapter) = Inr (StreamOut frames) \<and>
    peer_reads 1000 ''c'' ''r1'' frames = ([t], None) \<and> task_state t = ''rejected'' \<and> jget (peer_error_details t) ''reason'' = JStr ''context_turn_limit''"
proof -
  have "extract_text demo_params = Inr ''hi''" "extract_context_id demo_params = ''c''" by code_simp+
  moreover have "int (fst (track (q_now demo_q) ''c'' (ad_turns worn_adapter))) = 6"
    by (simp add: demo_q_def demo_draws_def worn_adapter_def track_def Let_def)
  moreover have "e_max_turns demo_env = 5" "q_task_id demo_q = ''t1''" "q_drawn demo_q = demo_drawn"
    by (simp_all add: demo_env_def demo_q_def demo_draws_def demo_drawn_def)
  moreover have "plain ''r1''" "plain ''t1''" "plain ''c''" "plain (anti_loop_text ''c'' 5)" "plain_drawn demo_drawn"
    "py_len (anti_loop_text ''c'' 5) \<le> 1024" "snapshot_size [] (anti_loop_text ''c'' 5) \<le> 1000"
    by code_simp+
  ultimately show ?thesis
    by (intro turn_limit_recognised [of demo_params "''hi''"]) simp_all
qed

theorem poll_tells_store_witness:
  "fst (get_task (Inr ()) (\<lambda>_. HttpBody (rpc_tasks_get demo_q (JStr ''r'') (JObj [(''id'', JStr ''t2'')]) demo_agent
     (store_run [Create 0 ''i'' ''t1'' ''c'' ''p'' [] []] new_task_store)))) = Inl (A2AError ''a2a_task_not_found'' ''task not found: t2'' False (JInt (- 32001)))"
proof -
  let ?ts = "store_run [Create 0 ''i'' ''t1'' ''c'' ''p'' [] []] new_task_store"
  have "list_all (\<lambda>(_, r). r_task_id r \<noteq> [] \<and> r_context_id r \<noteq> [] \<and> r_state r \<noteq> []) (ts_tasks ?ts)"
    "scoped (a_slug demo_agent) (a_tenant demo_agent) ''t2'' ?ts = None"
    by (simp_all add: example_eval demo_agent_def)
  then show ?thesis using poll_tells_store [of "''t2''" ?ts demo_q "JStr ''r''" demo_agent] by simp
qed

text \<open>But the reason is only in the answer to the request itself: the store keeps an empty reply, so a broker that lost the stream and polls
  the task learns of a rejection and not of its reason.\<close>

lemma rejected_reason_lost:
  "map_option (\<lambda>r. (r_state r, r_reply r))
     (map_of (ts_tasks (ad_tasks (snd (prepare_task demo_env demo_q demo_params ''peer'' demo_agent worn_adapter)))) ''t1'') = Some (STATE_REJECTED, [])"
  by code_simp

end
