(* ===== verification/Ssh_Processes.thy ===== *)
theory Ssh_Processes
  imports Ssh_Tunnel "HOL-Library.AList"
begin

text \<open>
  The processes of the tunnel (\<open>ssh_tunnel.py\<close>): starting one, following its children, signaling and reaping
  them. What the operating system and \<open>psutil\<close> answer is a parameter that is asked anew at every call, so nothing is
  assumed about processes that end, are adopted or reuse a process number in between.

  A handle of \<open>psutil\<close> names a process by number and creation time. Time is counted in microseconds; it passes at
  every call by any amount, and at a sleep by at least the time slept. A task that is canceled ends at its next \<open>await\<close>.
\<close>

section \<open>The system\<close>

datatype handle = Handle (h_pid: int) (h_created: int)

datatype signum = SIGTERM | SIGKILL

datatype sent = ToProcess handle signum | ToGroup int signum

datatype ps_error = NoSuchProcess | AccessDenied

text \<open>The answers of the system to its \<open>n\<close>-th call. \<open>killed\<close> is the error of \<open>killpg\<close>, if any; \<open>waited\<close> and \<open>drained\<close>
  tell whether the process ended and its standard error was closed within three seconds.\<close>

record system =
  getpid :: int
  darwin :: bool
  spawn_pid :: "nat \<Rightarrow> int option"
  exited :: "nat \<Rightarrow> bool"
  process_of :: "nat \<Rightarrow> int \<Rightarrow> ps_error + handle"
  parent_of :: "nat \<Rightarrow> handle \<Rightarrow> ps_error + int"
  children_of :: "nat \<Rightarrow> handle \<Rightarrow> ps_error + handle list"
  is_running :: "nat \<Rightarrow> handle \<Rightarrow> ps_error + bool"
  is_zombie :: "nat \<Rightarrow> handle \<Rightarrow> ps_error + bool"
  killed :: "nat \<Rightarrow> int \<Rightarrow> ps_error option"
  waited :: "nat \<Rightarrow> bool"
  drained :: "nat \<Rightarrow> bool"
  canceled :: "nat \<Rightarrow> bool"
  lag :: "nat \<Rightarrow> nat"

text \<open>The part of \<open>SSHTunnel\<close> that owns processes, the number of calls and the time so far, and the signals sent with their times.\<close>

record owner =
  ow_calls :: nat
  ow_clock :: nat
  ow_sent :: "(nat \<times> sent) list"
  ow_ready :: bool
  ow_process :: "int option"
  ow_root :: "handle option"
  ow_children :: "(int \<times> handle) list"
  ow_tracker :: bool
  ow_reader :: bool

definition new_owner :: owner where
  "new_owner = \<lparr>ow_calls = 0, ow_clock = 0, ow_sent = [], ow_ready = False, ow_process = None, ow_root = None, ow_children = [],
     ow_tracker = False, ow_reader = False\<rparr>"

type_synonym 'a oprog = "('a, owner) coroutine"

definition ask :: "system \<Rightarrow> (nat \<Rightarrow> 'a) \<Rightarrow> 'a oprog" where
  "ask sys f = (\<lambda>w. (Inr (f (ow_calls w)), w\<lparr>ow_calls := Suc (ow_calls w), ow_clock := ow_clock w + lag sys (ow_calls w)\<rparr>))"

definition modify :: "(owner \<Rightarrow> owner) \<Rightarrow> unit oprog" where
  "modify f = (\<lambda>w. (Inr (), f w))"

definition read :: "(owner \<Rightarrow> 'a) \<Rightarrow> 'a oprog" where
  "read f = (\<lambda>w. (Inr (f w), w))"

text \<open>An \<open>await\<close> of at least \<open>d\<close> microseconds.\<close>

definition sleep :: "system \<Rightarrow> nat \<Rightarrow> unit oprog" where
  "sleep sys d = bind_p (modify (\<lambda>w. w\<lparr>ow_clock := ow_clock w + d\<rparr>)) (\<lambda>_. bind_p (ask sys (canceled sys)) (\<lambda>c.
     if c then raise_p CancelledError else return_p ()))"

section \<open>Starting a process\<close>

definition own_root :: "system \<Rightarrow> handle \<Rightarrow> int \<Rightarrow> unit oprog" where
  "own_root sys h p =
     (if p = getpid sys \<and> h_pid h \<noteq> getpid sys then modify (\<lambda>w. w\<lparr>ow_root := Some h, ow_tracker := True\<rparr>) else return_p ())"

text \<open>\<open>NoSuchProcess\<close> is suppressed, any other error of \<open>psutil\<close> is raised.\<close>

definition suppress_missing :: "ps_error + 'a \<Rightarrow> ('a \<Rightarrow> unit oprog) \<Rightarrow> unit oprog" where
  "suppress_missing r f = (case r of Inl NoSuchProcess \<Rightarrow> return_p () | Inl AccessDenied \<Rightarrow> raise_p (RuntimeError ''AccessDenied'') | Inr x \<Rightarrow> f x)"

definition capture_owned_root :: "system \<Rightarrow> unit oprog" where
  "capture_owned_root sys =
     bind_p (modify (\<lambda>w. w\<lparr>ow_root := None, ow_children := []\<rparr>)) (\<lambda>_.
     bind_p (read ow_process) (\<lambda>proc.
       case proc of
         None \<Rightarrow> return_p ()
       | Some p \<Rightarrow>
           if \<not> darwin sys then return_p ()
           else bind_p (ask sys (exited sys)) (\<lambda>over.
             if over then return_p ()
             else bind_p (ask sys (\<lambda>n. process_of sys n p)) (\<lambda>r. suppress_missing r (\<lambda>h.
               bind_p (ask sys (\<lambda>n. parent_of sys n h)) (\<lambda>q. suppress_missing q (own_root sys h)))))))"

text \<open>A cancellation while the process starts takes ownership all the same.\<close>

definition spawn :: "system \<Rightarrow> unit oprog" where
  "spawn sys =
     bind_p (ask sys (spawn_pid sys)) (\<lambda>r.
       case r of
         None \<Rightarrow> raise_p OSError
       | Some p \<Rightarrow>
           bind_p (ask sys (canceled sys)) (\<lambda>c.
           bind_p (modify (\<lambda>w. w\<lparr>ow_process := Some p\<rparr>)) (\<lambda>_.
           bind_p (capture_owned_root sys) (\<lambda>_.
             if c then raise_p CancelledError else return_p ()))))"

section \<open>Following children\<close>

definition capture_owned_children :: "system \<Rightarrow> unit oprog" where
  "capture_owned_children sys =
     bind_p (read ow_root) (\<lambda>proc.
       case proc of
         None \<Rightarrow> return_p ()
       | Some h \<Rightarrow>
           bind_p (ask sys (\<lambda>n. children_of sys n h)) (\<lambda>r.
             case r of
               Inl _ \<Rightarrow> return_p ()
             | Inr hs \<Rightarrow> modify (\<lambda>w. w\<lparr>ow_children := fold (\<lambda>c. AList.update (h_pid c) c) hs (ow_children w)\<rparr>)))"

text \<open>One turn of the tracker, without the sleep after it.\<close>

definition track_owned_children :: "system \<Rightarrow> unit oprog" where
  "track_owned_children sys =
     bind_p (read ow_process) (\<lambda>proc.
       if proc = None then return_p ()
       else bind_p (ask sys (exited sys)) (\<lambda>over. if over then return_p () else capture_owned_children sys))"

section \<open>Signals\<close>

text \<open>Both errors of \<open>psutil\<close> are suppressed, so what becomes of a signal does not matter here.\<close>

definition signal_process :: "system \<Rightarrow> signum \<Rightarrow> handle option \<Rightarrow> unit oprog" where
  "signal_process sys s proc =
     (case proc of
        Some h \<Rightarrow> if h_pid h \<noteq> getpid sys then modify (\<lambda>w. w\<lparr>ow_sent := ow_sent w @ [(ow_clock w, ToProcess h s)]\<rparr>) else return_p ()
      | None \<Rightarrow> return_p ())"

definition signal_group :: "system \<Rightarrow> signum \<Rightarrow> int \<Rightarrow> unit oprog" where
  "signal_group sys s p =
     bind_p (modify (\<lambda>w. w\<lparr>ow_sent := ow_sent w @ [(ow_clock w, ToGroup p s)]\<rparr>)) (\<lambda>_.
     bind_p (ask sys (\<lambda>n. killed sys n p)) (\<lambda>r. if r = Some AccessDenied then raise_p OSError else return_p ()))"

definition signal_owned_group :: "system \<Rightarrow> signum \<Rightarrow> unit oprog" where
  "signal_owned_group sys s =
     (if darwin sys then
        bind_p (capture_owned_children sys) (\<lambda>_.
        bind_p (read (\<lambda>w. map Some (map snd (ow_children w)) @ [ow_root w])) (\<lambda>procs.
          each_p (signal_process sys s) procs))
      else
        bind_p (read ow_process) (\<lambda>proc. case proc of Some p \<Rightarrow> signal_group sys s p | None \<Rightarrow> return_p ()))"

fun any_alive :: "system \<Rightarrow> handle list \<Rightarrow> bool oprog" where
  "any_alive sys [] = return_p False"
| "any_alive sys (h # hs) =
     bind_p (ask sys (\<lambda>n. is_running sys n h)) (\<lambda>r.
       if r \<noteq> Inr True then any_alive sys hs
       else bind_p (ask sys (\<lambda>n. is_zombie sys n h)) (\<lambda>z.
         if z = Inr False then return_p True else any_alive sys hs))"

definition children_alive :: "system \<Rightarrow> bool oprog" where
  "children_alive sys = bind_p (read (\<lambda>w. map snd (ow_children w))) (any_alive sys)"

section \<open>Cleaning up\<close>

text \<open>Time never runs backwards.\<close>

definition forward :: "'a oprog \<Rightarrow> bool" where
  "forward p \<longleftrightarrow> (\<forall>w. ow_clock w \<le> ow_clock (snd (p w)))"

lemma forward_bind: "forward p \<Longrightarrow> (\<And>x. forward (f x)) \<Longrightarrow> forward (bind_p p f)"
  unfolding forward_def bind_p_def by (auto split: prod.split sum.split) (metis order_trans snd_conv)+

lemma forward_basic [simp]: "forward (ask sys f)" "forward (read g)" "forward (return_p x)" "forward (raise_p e)" "forward (Pair r)"
  by (auto simp: forward_def ask_def read_def)

lemma forward_any_alive: "forward (any_alive sys hs)"
  by (induction hs) (auto intro!: forward_bind)

lemma forward_children_alive: "forward (children_alive sys)"
  by (auto simp: children_alive_def intro!: forward_bind forward_any_alive)

lemma children_alive_clock: "(r, w1) = children_alive sys w \<Longrightarrow> ow_clock w \<le> ow_clock w1"
  using forward_children_alive[of sys] unfolding forward_def by (metis snd_conv)

lemma sleep_clock: "ow_clock (snd (sleep sys d w)) \<ge> ow_clock w + d"
  by (simp add: sleep_def bind_p_def modify_def ask_def)

lemma slept_clock: "(r, w1) = sleep sys d w \<Longrightarrow> ow_clock w + d \<le> ow_clock w1"
  using sleep_clock[of w d sys] by (metis snd_conv)

text \<open>\<open>while self._children_alive() and time.monotonic() < deadline: await asyncio.sleep(0.02)\<close>.\<close>

function wait_children :: "system \<Rightarrow> nat \<Rightarrow> unit oprog" where
  "wait_children sys deadline w =
     (case children_alive sys w of
        (Inl e, w1) \<Rightarrow> (Inl e, w1)
      | (Inr alive, w1) \<Rightarrow>
          if \<not> alive \<or> ow_clock w1 \<ge> deadline then (Inr (), w1)
          else case sleep sys 20000 w1 of
              (Inl e, w2) \<Rightarrow> (Inl e, w2)
            | (Inr _, w2) \<Rightarrow> wait_children sys deadline w2)"
  by pat_completeness auto
termination
  by (relation "measure (\<lambda>(_, deadline, w). deadline - ow_clock w)")
    (auto dest!: children_alive_clock slept_clock)

declare wait_children.simps [simp del]

text \<open>Three seconds of grace.\<close>

definition grace :: nat where
  "grace = 3000000"

text \<open>\<open>asyncio.wait_for(..., 3)\<close>: whether it ended in time.\<close>

definition wait_for :: "system \<Rightarrow> (nat \<Rightarrow> bool) \<Rightarrow> bool oprog" where
  "wait_for sys ended =
     bind_p (ask sys ended) (\<lambda>x. bind_p (sleep sys (if x then 0 else grace)) (\<lambda>_. return_p x))"

definition stop_tracker :: "system \<Rightarrow> unit oprog" where
  "stop_tracker sys =
     bind_p (read ow_tracker) (\<lambda>tracked.
       if tracked then bind_p (sleep sys 0) (\<lambda>_. modify (\<lambda>w. w\<lparr>ow_tracker := False\<rparr>)) else return_p ())"

definition reap_process :: "system \<Rightarrow> unit oprog" where
  "reap_process sys =
     bind_p (read ow_process) (\<lambda>proc.
       if proc = None then return_p ()
       else bind_p (wait_for sys (waited sys)) (\<lambda>ended.
         if ended then return_p ()
         else bind_p (signal_owned_group sys SIGKILL) (\<lambda>_. sleep sys 0)))"

definition reap_children :: "system \<Rightarrow> nat \<Rightarrow> unit oprog" where
  "reap_children sys deadline =
     (if darwin sys then
        bind_p (wait_children sys deadline) (\<lambda>_.
        bind_p (children_alive sys) (\<lambda>alive. if alive then signal_owned_group sys SIGKILL else return_p ()))
      else return_p ())"

definition stop_reader :: "system \<Rightarrow> unit oprog" where
  "stop_reader sys =
     bind_p (read ow_reader) (\<lambda>reading.
       if \<not> reading then return_p ()
       else bind_p (wait_for sys (drained sys)) (\<lambda>ended.
         bind_p (if ended then return_p () else bind_p (signal_owned_group sys SIGKILL) (\<lambda>_. sleep sys 0)) (\<lambda>_.
           modify (\<lambda>w. w\<lparr>ow_reader := False\<rparr>))))"

text \<open>The two halves of \<open>_cleanup\<close>: up to the first signal, with the time at which the grace ends, and the reaping after it.\<close>

definition term_phase :: "system \<Rightarrow> nat oprog" where
  "term_phase sys =
     bind_p (modify (\<lambda>w. w\<lparr>ow_ready := False\<rparr>)) (\<lambda>_.
     bind_p (stop_tracker sys) (\<lambda>_.
     bind_p (read (\<lambda>w. ow_clock w + grace)) (\<lambda>deadline.
     bind_p (signal_owned_group sys SIGTERM) (\<lambda>_.
       return_p deadline))))"

definition kill_phase :: "system \<Rightarrow> nat \<Rightarrow> unit oprog" where
  "kill_phase sys deadline =
     bind_p (reap_process sys) (\<lambda>_.
     bind_p (reap_children sys deadline) (\<lambda>_.
       stop_reader sys))"

definition cleanup_owned :: "system \<Rightarrow> unit oprog" where
  "cleanup_owned sys =
     bind_p (term_phase sys) (\<lambda>deadline.
     bind_p (kill_phase sys deadline) (\<lambda>_.
       modify (\<lambda>w. w\<lparr>ow_process := None, ow_root := None, ow_children := []\<rparr>)))"

end
