(* ===== verification/Process_Properties.thy ===== *)
theory Process_Properties
  imports Ssh_Processes
begin

text \<open>
  What the tunnel does to processes: whom it signals, when it kills, and what is left when it has cleaned up.
\<close>

section \<open>Whom the tunnel signals\<close>

text \<open>What the owner of processes does over its life, in any order; every call may be cut short by a cancellation.\<close>

datatype life = Spawn | StartReader | SetReady | Track | Cleanup

fun perform :: "system \<Rightarrow> life \<Rightarrow> unit oprog" where
  "perform sys Spawn = spawn sys"
| "perform sys StartReader = modify (\<lambda>w. w\<lparr>ow_reader := True\<rparr>)"
| "perform sys SetReady = modify (\<lambda>w. w\<lparr>ow_ready := True\<rparr>)"
| "perform sys Track = track_owned_children sys"
| "perform sys Cleanup = cleanup_owned sys"

definition life_step :: "system \<Rightarrow> owner \<Rightarrow> life \<Rightarrow> owner \<Rightarrow> bool" where
  "life_step sys w l w1 \<longleftrightarrow> w1 = snd (perform sys l w)"

text \<open>A process the tunnel started, and a process \<open>psutil\<close> reported under the tunnel's own process number as its parent.\<close>

definition started :: "system \<Rightarrow> int \<Rightarrow> bool" where
  "started sys p \<longleftrightarrow> (\<exists>n. spawn_pid sys n = Some p)"

definition own_child :: "system \<Rightarrow> handle \<Rightarrow> bool" where
  "own_child sys h \<longleftrightarrow> h_pid h \<noteq> getpid sys \<and> (\<exists>p n. started sys p \<and> process_of sys n p = Inr h) \<and> (\<exists>n. parent_of sys n h = Inr (getpid sys))"

definition descendant :: "system \<Rightarrow> handle \<Rightarrow> bool" where
  "descendant sys h \<longleftrightarrow> (\<exists>n r hs. own_child sys r \<and> children_of sys n r = Inr hs \<and> h \<in> set hs)"

fun allowed :: "system \<Rightarrow> sent \<Rightarrow> bool" where
  "allowed sys (ToProcess h s) \<longleftrightarrow> darwin sys \<and> h_pid h \<noteq> getpid sys \<and> (own_child sys h \<or> descendant sys h)"
| "allowed sys (ToGroup p s) \<longleftrightarrow> \<not> darwin sys \<and> started sys p"

definition owner_ok :: "system \<Rightarrow> owner \<Rightarrow> bool" where
  "owner_ok sys w \<longleftrightarrow>
     (\<forall>p. ow_process w = Some p \<longrightarrow> started sys p) \<and> (\<forall>h. ow_root w = Some h \<longrightarrow> own_child sys h)
   \<and> (\<forall>(k, h) \<in> set (ow_children w). h_pid h = k \<and> descendant sys h) \<and> (\<forall>(t, x) \<in> set (ow_sent w). allowed sys x)"

text \<open>A program keeps an invariant and returns values that satisfy \<open>Q\<close>.\<close>

definition holds :: "('w \<Rightarrow> bool) \<Rightarrow> ('a, 'w) coroutine \<Rightarrow> ('a \<Rightarrow> bool) \<Rightarrow> bool" where
  "holds P p Q \<longleftrightarrow> (\<forall>w r w1. P w \<longrightarrow> p w = (r, w1) \<longrightarrow> P w1 \<and> (\<forall>x. r = Inr x \<longrightarrow> Q x))"

lemma holdsI: "(\<And>w r w1. P w \<Longrightarrow> p w = (r, w1) \<Longrightarrow> P w1 \<and> (\<forall>x. r = Inr x \<longrightarrow> Q x)) \<Longrightarrow> holds P p Q"
  by (simp add: holds_def)

lemma holdsD: "holds P p Q \<Longrightarrow> P w \<Longrightarrow> p w = (r, w1) \<Longrightarrow> P w1 \<and> (\<forall>x. r = Inr x \<longrightarrow> Q x)"
  by (simp add: holds_def)

lemma holds_bind:
  assumes p: "holds P p Q" and f: "\<And>x. Q x \<Longrightarrow> holds P (f x) R"
  shows "holds P (bind_p p f) R"
proof (rule holdsI)
  fix w r w2 assume w: "P w" "bind_p p f w = (r, w2)"
  obtain v w1 where v: "p w = (v, w1)" by (cases "p w")
  with w show "P w2 \<and> (\<forall>x. r = Inr x \<longrightarrow> R x)"
    using holdsD[OF p w(1) v] holdsD[OF f] by (cases v) (auto simp: bind_p_def)
qed

lemma holds_pure: "Q x \<Longrightarrow> holds P (return_p x) Q" "holds P (raise_p e) Q" "Q x \<Longrightarrow> holds P (Pair (Inr x)) Q"
  by (auto simp: holds_def)

lemma holds_read: "(\<And>w. P w \<Longrightarrow> Q (f w)) \<Longrightarrow> holds P (read f) Q"
  by (auto simp: holds_def read_def)

lemma holds_modify: "(\<And>w. P w \<Longrightarrow> P (f w)) \<Longrightarrow> holds P (modify f) (\<lambda>_. True)"
  by (auto simp: holds_def modify_def)

lemma holds_each: "(\<And>x. x \<in> set xs \<Longrightarrow> holds P (body x) (\<lambda>_. True)) \<Longrightarrow> holds P (each_p body xs) (\<lambda>_. True)"
  by (induction xs) (auto intro!: holds_pure holds_bind)

lemma holds_ask: "holds (owner_ok sys) (ask sys f) (\<lambda>x. \<exists>n. x = f n)"
  by (auto simp: holds_def ask_def owner_ok_def)

lemma holds_weaken: "holds P p Q \<Longrightarrow> holds P p (\<lambda>_. True)"
  by (auto simp: holds_def)

lemmas holds_ask_any = holds_ask[THEN holds_weaken]

lemma sleep_ok: "holds (owner_ok sys) (sleep sys d) (\<lambda>_. True)"
  unfolding sleep_def
  by (rule holds_bind[OF holds_modify], simp add: owner_ok_def, rule holds_bind[OF holds_ask]) (auto intro: holds_pure)

lemma capture_root_ok: "holds (owner_ok sys) (capture_owned_root sys) (\<lambda>_. True)"
proof -
  have "holds (owner_ok sys) (own_root sys h q) (\<lambda>_. True)"
    if "\<exists>p n. started sys p \<and> process_of sys n p = Inr h" "\<exists>n. parent_of sys n h = Inr q" for h q
  proof (cases "q = getpid sys \<and> h_pid h \<noteq> getpid sys")
    case True
    then have "own_child sys h" using that by (simp add: own_child_def)
    then show ?thesis using True by (auto intro!: holds_modify simp: own_root_def owner_ok_def)
  qed (auto simp: own_root_def intro: holds_pure)
  then show ?thesis
    unfolding capture_owned_root_def suppress_missing_def
    apply (intro holds_bind[OF holds_modify] holds_bind[OF holds_read[where Q = "\<lambda>q. \<forall>p. q = Some p \<longrightarrow> started sys p"]])
      apply (simp_all add: owner_ok_def)
    apply (auto split: option.split sum.split ps_error.split intro!: holds_pure holds_bind[OF holds_ask])
    by metis
qed

lemma update_subset: "set (AList.update k v m) \<subseteq> insert (k, v) (set m)"
  by (induction m) auto

lemma updated_children:
  "\<forall>(k, h) \<in> set m. h_pid h = k \<and> P h \<Longrightarrow> \<forall>h \<in> set hs. P h \<Longrightarrow>
     \<forall>(k, h) \<in> set (fold (\<lambda>c. AList.update (h_pid c) c) hs m). h_pid h = k \<and> P h"
proof (induction hs arbitrary: m)
  case (Cons h hs)
  have "\<forall>(k, c) \<in> set (AList.update (h_pid h) h m). h_pid c = k \<and> P c"
    using Cons.prems update_subset[of "h_pid h" h m] by auto
  then show ?case using Cons by simp
qed simp

lemma capture_children_ok: "holds (owner_ok sys) (capture_owned_children sys) (\<lambda>_. True)"
proof -
  have m: "holds (owner_ok sys) (modify (\<lambda>w. w\<lparr>ow_children := fold (\<lambda>c. AList.update (h_pid c) c) hs (ow_children w)\<rparr>)) (\<lambda>_. True)"
    if "own_child sys r" "children_of sys n r = Inr hs" for n r hs
  proof (rule holds_modify)
    fix w assume w: "owner_ok sys w"
    have "\<forall>h \<in> set hs. descendant sys h" using that by (auto simp: descendant_def)
    then show "owner_ok sys (w\<lparr>ow_children := fold (\<lambda>c. AList.update (h_pid c) c) hs (ow_children w)\<rparr>)"
      using w updated_children[of "ow_children w" "descendant sys" hs] by (simp add: owner_ok_def)
  qed
  show ?thesis
    unfolding capture_owned_children_def
  proof (rule holds_bind[OF holds_read[where Q = "\<lambda>q. \<forall>h. q = Some h \<longrightarrow> own_child sys h"]])
    fix q assume "\<forall>h. q = Some h \<longrightarrow> own_child sys h"
    then show "holds (owner_ok sys) (case q of None \<Rightarrow> return_p () | Some h \<Rightarrow> bind_p (ask sys (\<lambda>n. children_of sys n h)) (\<lambda>r. case r of Inl _ \<Rightarrow> return_p ()
        | Inr hs \<Rightarrow> modify (\<lambda>w. w\<lparr>ow_children := fold (\<lambda>c. AList.update (h_pid c) c) hs (ow_children w)\<rparr>))) (\<lambda>_. True)"
      by (auto split: option.split sum.split intro!: holds_pure holds_bind[OF holds_ask] intro: m)
  qed (simp add: owner_ok_def)
qed

lemma holds_askI: "(\<And>n. holds (owner_ok sys) (f (g n)) R) \<Longrightarrow> holds (owner_ok sys) (bind_p (ask sys g) f) R"
  by (rule holds_bind[OF holds_ask]) auto

lemma holds_then: "holds P p (\<lambda>_. True) \<Longrightarrow> (\<And>x. holds P (f x) R) \<Longrightarrow> holds P (bind_p p f) R"
  by (rule holds_bind)

lemma holds_readI: "(\<And>w. P w \<Longrightarrow> holds P (f (g w)) R) \<Longrightarrow> holds P (bind_p (read g) f) R"
  by (rule holds_bind[OF holds_read[where Q = "\<lambda>x. \<exists>w. P w \<and> x = g w"]]) auto

lemma track_ok: "holds (owner_ok sys) (track_owned_children sys) (\<lambda>_. True)"
  unfolding track_owned_children_def by (auto intro!: holds_readI holds_askI holds_pure capture_children_ok)

lemma spawn_ok: "holds (owner_ok sys) (spawn sys) (\<lambda>_. True)"
proof -
  have m: "holds (owner_ok sys) (bind_p (modify (\<lambda>w. w\<lparr>ow_process := Some p\<rparr>)) f) (\<lambda>_. True)"
    if "spawn_pid sys n = Some p" "\<And>u. holds (owner_ok sys) (f u) (\<lambda>_. True)" for n p and f :: "unit \<Rightarrow> unit oprog"
    using that by (auto intro!: holds_then[OF holds_modify] simp: owner_ok_def started_def)
  show ?thesis
    unfolding spawn_def by (auto intro!: m holds_askI holds_then[OF capture_root_ok] holds_pure split: option.split)
qed

lemma signal_ok: "holds (owner_ok sys) (signal_owned_group sys s) (\<lambda>_. True)"
proof -
  have one: "holds (owner_ok sys) (signal_process sys s q) (\<lambda>_. True)"
    if "darwin sys" "\<And>h. q = Some h \<Longrightarrow> own_child sys h \<or> descendant sys h" for q
    using that by (auto simp: signal_process_def owner_ok_def split: option.split intro!: holds_pure holds_modify)
  have "holds (owner_ok sys) (each_p (signal_process sys s) (map Some (map snd (ow_children w)) @ [ow_root w])) (\<lambda>_. True)"
    if "darwin sys" "owner_ok sys w" for w
    by (rule holds_each, rule one) (use that in \<open>auto simp: owner_ok_def\<close>)
  moreover have "holds (owner_ok sys) (signal_group sys s p) (\<lambda>_. True)" if "\<not> darwin sys" "started sys p" for p
    unfolding signal_group_def using that
    by (intro holds_then[OF holds_modify] holds_askI) (auto simp: owner_ok_def intro: holds_pure)
  ultimately show ?thesis
    unfolding signal_owned_group_def
    by (auto intro!: holds_then[OF capture_children_ok] holds_readI holds_pure split: option.split) (simp_all add: owner_ok_def)
qed

lemma any_alive_ok: "holds (owner_ok sys) (any_alive sys hs) (\<lambda>_. True)"
  by (induction hs) (auto intro!: holds_askI holds_pure)

lemma children_alive_ok: "holds (owner_ok sys) (children_alive sys) (\<lambda>_. True)"
  unfolding children_alive_def by (auto intro!: holds_readI any_alive_ok)

text \<open>The loop over the children ends when none is alive, at its deadline, or when it is canceled while it sleeps.\<close>

lemma wait_children_cases [consumes 1, case_names over cut turn]:
  assumes "wait_children sys deadline w = (r, w')"
    and over: "\<And>w v w1. children_alive sys w = (v, w1) \<Longrightarrow> v = Inr True \<longrightarrow> deadline \<le> ow_clock w1 \<Longrightarrow> P w (map_sum id (\<lambda>_. ()) v) w1"
    and cut: "\<And>w w1 e w2. children_alive sys w = (Inr True, w1) \<Longrightarrow> sleep sys 20000 w1 = (Inl e, w2) \<Longrightarrow> P w (Inl e) w2"
    and turn: "\<And>w w1 w2 r w3. children_alive sys w = (Inr True, w1) \<Longrightarrow> sleep sys 20000 w1 = (Inr (), w2) \<Longrightarrow> P w2 r w3 \<Longrightarrow> P w r w3"
  shows "P w r w'"
  using assms(1)
proof (induction "deadline - ow_clock w" arbitrary: w rule: less_induct)
  case less
  obtain v w1 where v: "children_alive sys w = (v, w1)" by (cases "children_alive sys w")
  note loop = less.prems[unfolded wait_children.simps[of sys deadline w] v prod.case]
  show ?case
  proof (cases "v = Inr True \<and> ow_clock w1 < deadline")
    case True
    obtain u w2 where u: "sleep sys 20000 w1 = (u, w2)" by (cases "sleep sys 20000 w1")
    have "deadline - ow_clock w2 < deadline - ow_clock w"
      using True children_alive_clock[OF v[symmetric]] slept_clock[OF u[symmetric]] by linarith
    then show ?thesis using True v u loop less.hyps[of w2] cut[of w w1 _ w2] turn[of w w1 w2 r w'] by (cases u) auto
  next
    case False
    then show ?thesis using over[OF v] loop by (cases v) (auto split: if_splits)
  qed
qed

lemma wait_children_ok: "holds (owner_ok sys) (wait_children sys deadline) (\<lambda>_. True)"
proof (rule holdsI, goal_cases)
  case (1 w r w1)
  from 1(2,1) show ?case
    by (induction rule: wait_children_cases) (auto dest: holdsD[OF children_alive_ok] holdsD[OF sleep_ok])
qed

lemma wait_for_ok: "holds (owner_ok sys) (wait_for sys f) (\<lambda>_. True)"
  unfolding wait_for_def by (auto intro!: holds_askI holds_then[OF sleep_ok] holds_pure)

lemma reap_process_ok: "holds (owner_ok sys) (reap_process sys) (\<lambda>_. True)"
  unfolding reap_process_def
  by (auto intro!: holds_readI holds_then[OF wait_for_ok] holds_then[OF signal_ok] sleep_ok holds_pure)

lemma reap_children_ok: "holds (owner_ok sys) (reap_children sys deadline) (\<lambda>_. True)"
  unfolding reap_children_def
  by (auto intro!: holds_then[OF wait_children_ok] holds_then[OF children_alive_ok] signal_ok holds_pure)

lemma term_phase_ok: "holds (owner_ok sys) (term_phase sys) (\<lambda>_. True)"
proof -
  have m: "holds (owner_ok sys) (modify (\<lambda>w. w\<lparr>ow_ready := False\<rparr>)) (\<lambda>_. True)" "holds (owner_ok sys) (modify (\<lambda>w. w\<lparr>ow_tracker := False\<rparr>)) (\<lambda>_. True)"
    by (auto intro!: holds_modify simp: owner_ok_def)
  then have "holds (owner_ok sys) (stop_tracker sys) (\<lambda>_. True)"
    unfolding stop_tracker_def by (auto intro!: holds_readI holds_then[OF sleep_ok] holds_pure)
  then show ?thesis unfolding term_phase_def by (intro holds_then[OF m(1)] holds_then holds_readI signal_ok holds_pure) auto
qed

lemma cleanup_ok: "holds (owner_ok sys) (cleanup_owned sys) (\<lambda>_. True)"
proof -
  have m: "holds (owner_ok sys) (modify (\<lambda>w. w\<lparr>ow_reader := False\<rparr>)) (\<lambda>_. True)"
    "holds (owner_ok sys) (modify (\<lambda>w. w\<lparr>ow_process := None, ow_root := None, ow_children := []\<rparr>)) (\<lambda>_. True)"
    by (auto intro!: holds_modify simp: owner_ok_def)
  have "holds (owner_ok sys) (stop_reader sys) (\<lambda>_. True)"
    unfolding stop_reader_def
    by (auto intro!: holds_readI holds_then[OF wait_for_ok] holds_then[OF holds_then[OF signal_ok sleep_ok]] holds_then[OF holds_pure(1)] m holds_pure)
  then show ?thesis
    unfolding cleanup_owned_def kill_phase_def by (intro holds_then m term_phase_ok reap_process_ok reap_children_ok)
qed

interpretation life: invariant_system "life_step sys" "owner_ok sys" for sys
proof
  fix w l w1 assume a: "owner_ok sys w" "life_step sys w l w1"
  have "holds (owner_ok sys) (perform sys l) (\<lambda>_. True)"
    by (cases l) (auto simp: spawn_ok track_ok cleanup_ok owner_ok_def intro!: holds_modify)
  then show "owner_ok sys w1" using a unfolding life_step_def holds_def by (metis prod.collapse)
qed

text \<open>C34: Over the whole life of a tunnel, cancellations included, and however processes end, are adopted or reuse numbers: on
  macOS a signal goes only to a single process, never to the daemon itself, which \<open>psutil\<close> reported as a process the
  tunnel had started with the daemon as its parent or as a descendant of such a process; elsewhere a signal goes only to
  the group of a process the tunnel had started in a session of its own.\<close>

theorem signals_only_owned:
  assumes "run (life_step sys) new_owner ls w" and "(t, x) \<in> set (ow_sent w)"
  shows "allowed sys x"
proof -
  have "owner_ok sys new_owner" by (simp add: owner_ok_def new_owner_def)
  from life.run_good[OF assms(1) this] show ?thesis using assms(2) by (auto simp: owner_ok_def)
qed

section \<open>When it kills\<close>

text \<open>A program that only lets calls and time pass.\<close>

definition passed :: "owner \<Rightarrow> owner \<Rightarrow> bool" where
  "passed w w1 \<longleftrightarrow> ow_calls w \<le> ow_calls w1 \<and> ow_clock w \<le> ow_clock w1 \<and> w1 = w\<lparr>ow_calls := ow_calls w1, ow_clock := ow_clock w1\<rparr>"

lemma passed_trans: "passed w w1 \<Longrightarrow> passed w1 w2 \<Longrightarrow> passed w w2"
  by (cases w; cases w1; cases w2) (auto simp: passed_def)

definition quiet :: "'a oprog \<Rightarrow> bool" where
  "quiet p \<longleftrightarrow> (\<forall>w r w1. p w = (r, w1) \<longrightarrow> passed w w1)"

lemma quietD: "quiet p \<Longrightarrow> p w = (r, w1) \<Longrightarrow> passed w w1"
  unfolding quiet_def by blast

lemma quiet_bind: assumes p: "quiet p" and f: "\<And>x. quiet (f x)" shows "quiet (bind_p p f)"
  unfolding quiet_def
proof (intro allI impI)
  fix w u w2 assume u: "bind_p p f w = (u, w2)"
  obtain v w1 where v: "p w = (v, w1)" by (cases "p w")
  from u v show "passed w w2"
    using quietD[OF p v] quietD[OF f] passed_trans by (cases v) (auto simp: bind_p_def)
qed

lemma quiet_basic: "quiet (ask sys f)" "quiet (read g)" "quiet (return_p x)" "quiet (raise_p e)" "quiet (Pair q)"
  by (auto simp: quiet_def passed_def ask_def read_def)

lemma quiet_sleep: "quiet (sleep sys d)"
  by (auto simp: quiet_def passed_def sleep_def modify_def bind_p_def ask_def)

lemma quiet_any_alive: "quiet (any_alive sys hs)"
  by (induction hs) (auto intro!: quiet_bind quiet_basic)

lemma quiet_children_alive: "quiet (children_alive sys)"
  unfolding children_alive_def by (intro quiet_bind quiet_basic quiet_any_alive)

lemma quiet_wait_for: "quiet (wait_for sys f)"
  unfolding wait_for_def by (intro quiet_bind quiet_basic quiet_sleep)

lemma quiet_wait_children: "quiet (wait_children sys deadline)"
  unfolding quiet_def
proof (intro allI impI)
  fix w r w1 assume "wait_children sys deadline w = (r, w1)"
  then show "passed w w1"
    by (induction rule: wait_children_cases) (blast dest: quietD[OF quiet_children_alive] quietD[OF quiet_sleep] intro: passed_trans)+
qed

fun signal_of :: "sent \<Rightarrow> signum" where
  "signal_of (ToProcess h s) = s"
| "signal_of (ToGroup p s) = s"

text \<open>Between two states time passed, no captured process number was forgotten, no task was started, and only the signal \<open>s\<close> was sent, not before \<open>t\<close>.\<close>

definition emits :: "signum \<Rightarrow> nat \<Rightarrow> owner \<Rightarrow> owner \<Rightarrow> bool" where
  "emits s t w w1 \<longleftrightarrow> ow_clock w \<le> ow_clock w1 \<and> ow_calls w \<le> ow_calls w1 \<and> fst ` set (ow_children w) \<subseteq> fst ` set (ow_children w1)
   \<and> (ow_tracker w1 \<longrightarrow> ow_tracker w) \<and> (ow_ready w1 \<longrightarrow> ow_ready w) \<and> (ow_reader w1 \<longrightarrow> ow_reader w)
   \<and> (\<exists>xs. ow_sent w1 = ow_sent w @ xs \<and> (\<forall>(k, x) \<in> set xs. t \<le> k \<and> signal_of x = s))"

lemma emits_trans: "emits s t w w1 \<Longrightarrow> emits s t w1 w2 \<Longrightarrow> emits s t w w2"
  unfolding emits_def by (elim conjE exE) (intro conjI, linarith, linarith, blast, blast, blast, blast, auto)

lemma emits_refl [simp]: "emits s t w w"
  by (simp add: emits_def)

lemma quiet_emits: "quiet p \<Longrightarrow> p w = (r, w1) \<Longrightarrow> emits s t w w1"
  using quietD[of p w r w1] by (cases w; cases w1) (auto simp: emits_def passed_def)

text \<open>A program started at a time from which three seconds reach \<open>t\<close> sends only \<open>s\<close>, and not before \<open>t\<close>.\<close>

definition late :: "signum \<Rightarrow> nat \<Rightarrow> nat \<Rightarrow> 'a oprog \<Rightarrow> bool" where
  "late s d t p \<longleftrightarrow> (\<forall>w r w1. t \<le> ow_clock w + d \<longrightarrow> p w = (r, w1) \<longrightarrow> emits s t w w1)"

lemma lateD: "late s d t p \<Longrightarrow> t \<le> ow_clock w + d \<Longrightarrow> p w = (r, w1) \<Longrightarrow> emits s t w w1"
  by (auto simp: late_def)

lemma late_bind: assumes p: "late s d t p" and f: "\<And>x. late s d t (f x)" shows "late s d t (bind_p p f)"
  unfolding late_def
proof (intro allI impI)
  fix w r w2 assume t: "t \<le> ow_clock w + d" and b: "bind_p p f w = (r, w2)"
  obtain v w1 where v: "p w = (v, w1)" by (cases "p w")
  have e: "emits s t w w1" by (rule lateD[OF p t v])
  then have "t \<le> ow_clock w1 + d" using t by (simp add: emits_def)
  with e b v show "emits s t w w2" using lateD[OF f] emits_trans by (cases v) (auto simp: bind_p_def)
qed

lemma late_quiet: "quiet p \<Longrightarrow> late s d t p"
  by (auto simp: late_def quiet_emits)

lemmas late_basic = quiet_basic[THEN late_quiet]

lemma late_modify: "(\<And>w. emits s t w (f w)) \<Longrightarrow> late s d t (modify f)"
  by (auto simp: late_def modify_def)

lemma late_each: "(\<And>x. late s d t (body x)) \<Longrightarrow> late s d t (each_p body xs)"
  by (induction xs) (auto intro!: late_bind late_basic)

lemma updated_keys: "fst ` set m \<subseteq> fst ` set (fold (\<lambda>c. AList.update (h_pid c) c) hs m)"
proof (induction hs arbitrary: m)
  case (Cons h hs)
  show ?case using Cons[of "AList.update (h_pid h) h m"] by (auto simp: dom_update)
qed simp

lemma late_capture: "late s d t (capture_owned_children sys)"
  unfolding capture_owned_children_def
  by (auto intro!: late_bind late_basic late_modify
      split: option.split sum.split simp: emits_def updated_keys)

lemma late_signal: "late s 0 t (signal_owned_group sys s)"
proof -
  have m: "late s 0 t (modify (\<lambda>w. w\<lparr>ow_sent := ow_sent w @ [(ow_clock w, x)]\<rparr>))" if "signal_of x = s" for x
    using that by (auto simp: late_def modify_def emits_def)
  show ?thesis
    unfolding signal_owned_group_def signal_process_def signal_group_def
    by (auto intro!: late_bind late_capture late_each m late_basic split: option.split)
qed

text \<open>A child was seen dead between two calls, and what was seen lasts: a process that is gone or a zombie stays so.\<close>

definition seen_dead :: "system \<Rightarrow> nat \<Rightarrow> nat \<Rightarrow> handle \<Rightarrow> bool" where
  "seen_dead sys a b h \<longleftrightarrow> (\<exists>n. a \<le> n \<and> n < b \<and> (is_running sys n h \<noteq> Inr True \<or> is_zombie sys n h \<noteq> Inr False))"

definition lasting :: "system \<Rightarrow> bool" where
  "lasting sys \<longleftrightarrow> (\<forall>h n m. n \<le> m \<longrightarrow> (is_running sys n h \<noteq> Inr True \<longrightarrow> is_running sys m h \<noteq> Inr True)
     \<and> (is_zombie sys n h \<noteq> Inr False \<longrightarrow> is_zombie sys m h \<noteq> Inr False))"

lemma seen_dead_mono: "seen_dead sys a b h \<Longrightarrow> a' \<le> a \<Longrightarrow> b \<le> b' \<Longrightarrow> seen_dead sys a' b' h"
  unfolding seen_dead_def by (meson le_trans less_le_trans)

lemma any_alive_False: "any_alive sys hs w = (Inr False, w1) \<Longrightarrow> \<forall>h \<in> set hs. seen_dead sys (ow_calls w) (ow_calls w1) h"
proof (induction hs arbitrary: w)
  case (Cons h hs)
  define n where "n = ow_calls w"
  obtain w2 where w2: "any_alive sys hs w2 = (Inr False, w1)" "n < ow_calls w2"
    "is_running sys n h \<noteq> Inr True \<or> (is_zombie sys (Suc n) h \<noteq> Inr False \<and> Suc n < ow_calls w2)"
    using Cons.prems by (auto simp: bind_p_def ask_def n_def split: if_splits)
  have "ow_calls w2 \<le> ow_calls w1" using quietD[OF quiet_any_alive w2(1)] by (simp add: passed_def)
  moreover have "seen_dead sys n (ow_calls w2) h" using w2(2,3) unfolding seen_dead_def by (metis le_refl le_Suc_eq)
  ultimately show ?case using Cons.IH[OF w2(1)] w2(2) by (auto simp: n_def[symmetric] intro: seen_dead_mono)
qed simp

lemma any_alive_dead: "lasting sys \<Longrightarrow> \<forall>h \<in> set hs. seen_dead sys a (ow_calls w) h \<Longrightarrow> fst (any_alive sys hs w) = Inr False"
proof (induction hs arbitrary: w)
  case (Cons h hs)
  obtain n where n: "n < ow_calls w" "is_running sys n h \<noteq> Inr True \<or> is_zombie sys n h \<noteq> Inr False"
    using Cons.prems(2) by (auto simp: seen_dead_def)
  have "is_running sys (ow_calls w) h \<noteq> Inr True \<or> is_zombie sys (Suc (ow_calls w)) h \<noteq> Inr False"
    using n Cons.prems(1) unfolding lasting_def by (meson less_imp_le less_SucI)
  moreover have "fst (any_alive sys hs w2) = Inr False" if "ow_calls w \<le> ow_calls w2" for w2
    by (rule Cons.IH[OF Cons.prems(1)]) (use Cons.prems(2) that in \<open>auto intro: seen_dead_mono\<close>)
  ultimately show ?case by (auto simp: bind_p_def ask_def)
qed simp

lemma children_alive_False: "children_alive sys w = (Inr False, w1) \<Longrightarrow> h \<in> snd ` set (ow_children w) \<Longrightarrow> seen_dead sys (ow_calls w) (ow_calls w1) h"
  using any_alive_False[of sys "map snd (ow_children w)" w w1] by (auto simp: children_alive_def bind_p_def read_def)

lemma children_stay_dead:
  assumes l: "lasting sys" and d: "children_alive sys w = (Inr False, w1)"
  shows "fst (children_alive sys w1) = Inr False"
proof -
  have "ow_children w1 = ow_children w" using quietD[OF quiet_children_alive d] by (cases w; cases w1) (simp add: passed_def)
  then show ?thesis using any_alive_dead[OF l, of "map snd (ow_children w1)" "ow_calls w" w1] children_alive_False[OF d]
    by (auto simp: children_alive_def bind_p_def read_def)
qed

lemma children_alive_returns: "\<exists>b. fst (children_alive sys w) = Inr b"
proof -
  have "\<exists>b. fst (any_alive sys hs w) = Inr b" for hs w by (induction hs arbitrary: w) (auto simp: bind_p_def ask_def)
  then show ?thesis by (auto simp: children_alive_def bind_p_def read_def)
qed

lemma wait_children_end:
  "wait_children sys deadline w = (r, w1) \<Longrightarrow> r = Inr () \<Longrightarrow> deadline \<le> ow_clock w1 \<or> (\<exists>w0. children_alive sys w0 = (Inr False, w1))"
proof (induction rule: wait_children_cases)
  case (over w v w1)
  then show ?case by (cases v) (auto simp del: split_paired_Ex)
qed auto

lemma wait_for_timeout: "wait_for sys f w = (Inr False, w1) \<Longrightarrow> ow_clock w + grace \<le> ow_clock w1"
  by (auto simp: wait_for_def bind_p_def ask_def sleep_def modify_def split: if_splits)

lemma late_timeout:
  assumes g: "late s grace t (g True)" "late s 0 t (g False)"
  shows "late s grace t (bind_p (wait_for sys f) g)"
  unfolding late_def
proof (intro allI impI)
  fix w r w2 assume t: "t \<le> ow_clock w + grace" and b: "bind_p (wait_for sys f) g w = (r, w2)"
  obtain v w1 where v: "wait_for sys f w = (v, w1)" by (cases "wait_for sys f w")
  have e: "emits s t w w1" by (rule quiet_emits[OF quiet_wait_for v])
  show "emits s t w w2"
  proof (cases v)
    case (Inr ended)
    have "emits s t w1 w2"
    proof (cases ended)
      case True
      have "t \<le> ow_clock w1 + grace" using t e by (simp add: emits_def)
      then show ?thesis using g(1) b v Inr True by (auto simp: bind_p_def intro: lateD)
    next
      case False
      have "t \<le> ow_clock w1" using t v Inr False wait_for_timeout[of sys f w w1] by simp
      then show ?thesis using lateD[OF g(2)] b v Inr False by (auto simp: bind_p_def)
    qed
    with e show ?thesis by (rule emits_trans)
  qed (use e b v in \<open>simp add: bind_p_def\<close>)
qed

lemmas late_sleep = late_quiet[OF quiet_sleep]

lemma late_reap_process: "late SIGKILL grace t (reap_process sys)"
  unfolding reap_process_def by (auto intro!: late_bind[OF late_basic(2)] late_timeout late_bind[OF late_signal] late_sleep late_basic)

lemma late_stop_reader: "late SIGKILL grace t (stop_reader sys)"
proof -
  have m: "late SIGKILL d t (modify (\<lambda>w. w\<lparr>ow_reader := False\<rparr>))" for d by (rule late_modify) (simp add: emits_def)
  show ?thesis
    unfolding stop_reader_def
    by (auto intro!: late_bind[OF late_basic(2)] late_timeout late_bind[OF late_basic(3)] late_bind[OF late_bind[OF late_signal late_sleep]] m late_basic)
qed

lemma late_reap_children:
  assumes l: "lasting sys" shows "late SIGKILL d t (reap_children sys t)"
proof -
  have "emits SIGKILL t w w2"
    if b: "bind_p (wait_children sys t) (\<lambda>_. bind_p (children_alive sys) (\<lambda>alive. if alive then signal_owned_group sys SIGKILL else return_p ())) w = (r, w2)"
    for w w2 r
  proof -
    obtain v w1 where v: "wait_children sys t w = (v, w1)" by (cases "wait_children sys t w")
    have e: "emits SIGKILL t w w1" by (rule quiet_emits[OF quiet_wait_children v])
    obtain u w3 where u: "children_alive sys w1 = (u, w3)" by (cases "children_alive sys w1")
    have e3: "emits SIGKILL t w1 w3" by (rule quiet_emits[OF quiet_children_alive u])
    show ?thesis
    proof (cases "v = Inr () \<and> u = Inr True")
      case True
      then have "t \<le> ow_clock w1"
        using wait_children_end[OF v] u by (auto dest!: children_stay_dead[OF l])
      then have "emits SIGKILL t w3 w2"
        using lateD[OF late_signal, of t w3 sys SIGKILL r w2] e3 b v u True by (auto simp: bind_p_def emits_def)
      then show ?thesis using e e3 emits_trans by blast
    next
      case False
      then have "w2 = w1 \<or> w2 = w3" using b v u by (cases v; cases u) (auto simp: bind_p_def split: if_splits)
      then show ?thesis using e e3 emits_trans by blast
    qed
  qed
  then show ?thesis by (auto simp: reap_children_def late_def)
qed

lemma late_kill_phase: "lasting sys \<Longrightarrow> late SIGKILL grace t (kill_phase sys t)"
  unfolding kill_phase_def by (intro late_bind late_reap_process late_reap_children late_stop_reader)

lemma late_stop_tracker: "late s d t (stop_tracker sys)"
  unfolding stop_tracker_def by (auto intro!: late_bind late_basic late_sleep late_modify simp: emits_def)

lemma late_term_phase: "late SIGTERM 0 0 (term_phase sys)"
  unfolding term_phase_def
  by (intro late_bind late_modify late_basic late_signal late_stop_tracker) (simp add: emits_def)

lemma term_phase_clock:
  assumes "term_phase sys w = (Inr deadline, w1)"
  shows "ow_clock w + grace \<le> deadline \<and> deadline \<le> ow_clock w1 + grace"
proof -
  obtain wa wb where a: "stop_tracker sys (w\<lparr>ow_ready := False\<rparr>) = (Inr (), wa)" and b: "signal_owned_group sys SIGTERM wa = (Inr (), wb)"
    and d: "deadline = ow_clock wa + grace" "w1 = wb"
    using assms by (auto simp: term_phase_def bind_p_Inr modify_def read_def)
  show ?thesis
    using lateD[OF late_stop_tracker[of SIGTERM 0 0] _ a] lateD[OF late_signal[of SIGTERM 0] _ b] d by (simp add: emits_def)
qed

lemma cleanup_phases:
  assumes "cleanup_owned sys w = (r, w2)"
  obtains (termed) e where "term_phase sys w = (Inl e, w2)" "r = Inl e"
  | (killing) e deadline w1 where "term_phase sys w = (Inr deadline, w1)" "kill_phase sys deadline w1 = (Inl e, w2)" "r = Inl e"
  | (full) deadline w1 w3 where "term_phase sys w = (Inr deadline, w1)" "kill_phase sys deadline w1 = (Inr (), w3)" "r = Inr ()"
      "w2 = w3\<lparr>ow_process := None, ow_root := None, ow_children := []\<rparr>"
proof -
  obtain v w1 where v: "term_phase sys w = (v, w1)" by (cases "term_phase sys w")
  show thesis
  proof (cases v)
    case (Inl e)
    then show thesis using assms v termed by (simp add: cleanup_owned_def bind_p_def)
  next
    case (Inr d)
    obtain u w3 where u: "kill_phase sys d w1 = (u, w3)" by (cases "kill_phase sys d w1")
    show thesis
    proof (cases u)
      case (Inl e)
      have "r = Inl e" "w2 = w3" using assms Inl v u \<open>v = Inr d\<close> by (auto simp: cleanup_owned_def bind_p_def)
      with Inl v u \<open>v = Inr d\<close> show thesis by (intro killing) simp_all
    next
      case (Inr x)
      have "r = Inr ()" "w2 = w3\<lparr>ow_process := None, ow_root := None, ow_children := []\<rparr>"
        using assms Inr v u \<open>v = Inr d\<close> by (auto simp: cleanup_owned_def bind_p_def modify_def)
      with Inr v u \<open>v = Inr d\<close> show thesis by (intro full) simp_all
    qed
  qed
qed

text \<open>Cleaning up sends \<open>SIGTERM\<close> first, to everything it signals at all, and \<open>SIGKILL\<close> only three seconds or more after it began, whether
  or not it is cut short - if a process that is gone stays gone.\<close>

theorem kill_after_grace:
  assumes l: "lasting sys" and c: "cleanup_owned sys w = (r, w2)"
  shows "\<exists>terms kills. ow_sent w2 = ow_sent w @ terms @ kills \<and> (\<forall>(t, x) \<in> set terms. signal_of x = SIGTERM)
     \<and> (\<forall>(t, x) \<in> set kills. signal_of x = SIGKILL \<and> ow_clock w + grace \<le> t)"
proof -
  have t: "\<exists>terms. ow_sent w1 = ow_sent w @ terms \<and> (\<forall>(t, x) \<in> set terms. signal_of x = SIGTERM)" if "term_phase sys w = (v, w1)" for v w1
    using lateD[OF late_term_phase _ that] by (auto simp: emits_def)
  have k: "\<exists>kills. ow_sent w3 = ow_sent w1 @ kills \<and> (\<forall>(t, x) \<in> set kills. signal_of x = SIGKILL \<and> ow_clock w + grace \<le> t)"
    if "term_phase sys w = (Inr deadline, w1)" "kill_phase sys deadline w1 = (v, w3)" for deadline w1 v w3
    using lateD[OF late_kill_phase[OF l] _ that(2)] term_phase_clock[OF that(1)] by (fastforce simp: emits_def)
  show ?thesis
    using c
  proof (cases rule: cleanup_phases)
    case (termed e)
    then show ?thesis using t[OF termed(1)] by force
  next
    case (killing e deadline w1)
    then show ?thesis using t[OF killing(1)] k[OF killing(1,2)] by fastforce
  next
    case (full deadline w1 w3)
    then show ?thesis using t[OF full(1)] k[OF full(1,2)] by fastforce
  qed
qed

section \<open>What is left\<close>

definition sent_since :: "owner \<Rightarrow> owner \<Rightarrow> sent \<Rightarrow> bool" where
  "sent_since w w1 x \<longleftrightarrow> (\<exists>t. (t, x) \<in> set (drop (length (ow_sent w)) (ow_sent w1)))"

lemma sent_since_later: "emits s t w1 w2 \<Longrightarrow> sent_since w w1 x \<Longrightarrow> sent_since w w2 x"
  unfolding sent_since_def emits_def by (auto simp: drop_append)

lemma sent_since_earlier: "emits s t w0 w \<Longrightarrow> sent_since w w1 x \<Longrightarrow> sent_since w0 w1 x"
  unfolding sent_since_def emits_def by (metis length_append le_add1 set_drop_subset_set_drop subsetD)

lemma each_signal:
  "each_p (signal_process sys s) qs w =
     (Inr (), w\<lparr>ow_sent := ow_sent w @ map (\<lambda>h. (ow_clock w, ToProcess h s)) (filter (\<lambda>h. h_pid h \<noteq> getpid sys) (List.map_filter id qs))\<rparr>)"
  by (induction qs arbitrary: w) (auto simp: signal_process_def bind_p_def modify_def map_filter_simps split: option.split)

lemma signal_reaches:
  assumes d: "darwin sys" and w: "signal_owned_group sys s w = (r, w1)"
  shows "\<forall>h \<in> snd ` set (ow_children w1). h_pid h \<noteq> getpid sys \<longrightarrow> sent_since w w1 (ToProcess h s)"
proof -
  obtain v w0 where v: "capture_owned_children sys w = (v, w0)" by (cases "capture_owned_children sys w")
  have e: "emits s 0 w w0" by (rule lateD[OF late_capture[of s 0 0] _ v]) simp
  have "v = Inr ()" using v by (auto simp: capture_owned_children_def bind_p_def read_def ask_def modify_def split: option.splits sum.splits prod.splits)
  then have w1: "ow_children w1 = ow_children w0"
    "ow_sent w1 = ow_sent w0 @ map (\<lambda>h. (ow_clock w0, ToProcess h s)) (filter (\<lambda>h. h_pid h \<noteq> getpid sys) (List.map_filter id (map Some (map snd (ow_children w0)) @ [ow_root w0])))"
    using w d v by (auto simp: signal_owned_group_def bind_p_def read_def each_signal)
  have "sent_since w0 w1 (ToProcess h s)" if "h \<in> snd ` set (ow_children w1)" "h_pid h \<noteq> getpid sys" for h
    using that unfolding sent_since_def w1 by (auto simp: map_filter_def)
  then show ?thesis using e sent_since_earlier by blast
qed

lemma reap_children_full:
  assumes d: "darwin sys" and r: "reap_children sys t w = (Inr (), w1)"
  shows "\<forall>k \<in> fst ` set (ow_children w). \<exists>h. (k, h) \<in> set (ow_children w1)
     \<and> (seen_dead sys (ow_calls w) (ow_calls w1) h \<or> h_pid h = getpid sys \<or> sent_since w w1 (ToProcess h SIGKILL))"
proof -
  obtain wa where a: "wait_children sys t w = (Inr (), wa)" and r': "bind_p (children_alive sys) (\<lambda>alive. if alive then signal_owned_group sys SIGKILL else return_p ()) wa = (Inr (), w1)"
    using r d by (auto simp: reap_children_def bind_p_Inr)
  obtain b wb where b: "children_alive sys wa = (Inr b, wb)" and r2: "(if b then signal_owned_group sys SIGKILL else return_p ()) wb = (Inr (), w1)"
    using r' by (auto simp only: bind_p_Inr)
  have q: "passed w wa" "passed wa wb" using quietD[OF quiet_wait_children a] quietD[OF quiet_children_alive b] by auto
  then have same: "ow_children wb = ow_children wa" "ow_children wa = ow_children w" "ow_calls w \<le> ow_calls wa" "ow_sent wb = ow_sent w"
    by (cases w; cases wa; cases wb; simp add: passed_def)+
  show ?thesis
  proof (cases b)
    case False
    then have "w1 = wb" using r2 by simp
    then show ?thesis using children_alive_False[of sys wa wb] b False same by (fastforce intro: seen_dead_mono)
  next
    case True
    then have s: "signal_owned_group sys SIGKILL wb = (Inr (), w1)" using r2 by simp
    have "emits SIGKILL 0 wb w1" by (rule lateD[OF late_signal _ s]) simp
    then have "fst ` set (ow_children w) \<subseteq> fst ` set (ow_children w1)" using same by (simp add: emits_def)
    moreover have "\<forall>h \<in> snd ` set (ow_children w1). h_pid h \<noteq> getpid sys \<longrightarrow> sent_since w w1 (ToProcess h SIGKILL)"
      using signal_reaches[OF d s] same by (simp add: sent_since_def)
    ultimately show ?thesis by fastforce
  qed
qed

lemma late_reap_children_any: "late SIGKILL 0 0 (reap_children sys t)"
  unfolding reap_children_def
  by (auto intro!: late_bind late_signal late_basic late_quiet[OF quiet_wait_children] late_quiet[OF quiet_children_alive])

lemma term_phase_flags:
  assumes "term_phase sys w = (Inr t, w1)" shows "\<not> ow_tracker w1" "\<not> ow_ready w1"
proof -
  obtain wa where a: "stop_tracker sys (w\<lparr>ow_ready := False\<rparr>) = (Inr (), wa)" and b: "signal_owned_group sys SIGTERM wa = (Inr (), w1)"
    using assms by (auto simp: term_phase_def bind_p_Inr modify_def read_def)
  have "\<not> ow_tracker wa" using a by (auto simp: stop_tracker_def bind_p_Inr read_def modify_def split: if_splits)
  moreover have "\<not> ow_ready wa" using lateD[OF late_stop_tracker[of SIGTERM 0 0] _ a] by (simp add: emits_def)
  ultimately show "\<not> ow_tracker w1" "\<not> ow_ready w1" using lateD[OF late_signal[of SIGTERM 0] _ b] by (auto simp: emits_def)
qed

lemma stop_reader_flag: "stop_reader sys w = (Inr (), w1) \<Longrightarrow> \<not> ow_reader w1"
  by (auto simp: stop_reader_def bind_p_Inr read_def modify_def split: if_splits)

text \<open>C35: When cleaning up has run to its end, the tunnel owns no process, follows none and is not ready, and on macOS every
  process it had captured as a helper of the one it had started was seen to be gone during the cleanup or was sent \<open>SIGKILL\<close> (where a
  number was taken by another helper meanwhile, that one).\<close>

theorem cleanup_complete:
  assumes l: "run (life_step sys) new_owner ls w" and c: "cleanup_owned sys w = (Inr (), w2)"
  shows "ow_process w2 = None \<and> ow_root w2 = None \<and> ow_children w2 = [] \<and> \<not> ow_ready w2 \<and> \<not> ow_tracker w2 \<and> \<not> ow_reader w2
    \<and> (\<forall>h. darwin sys \<longrightarrow> h \<in> snd ` set (ow_children w) \<longrightarrow> h_pid h \<noteq> getpid sys \<longrightarrow>
         (\<exists>h'. h_pid h' = h_pid h \<and> (seen_dead sys (ow_calls w) (ow_calls w2) h' \<or> sent_since w w2 (ToProcess h' SIGKILL))))"
proof -
  have ok: "owner_ok sys w" using life.run_good[OF l] by (simp add: owner_ok_def new_owner_def)
  from c obtain t w1 w3 where t: "term_phase sys w = (Inr t, w1)" and k: "kill_phase sys t w1 = (Inr (), w3)"
    and w2: "w2 = w3\<lparr>ow_process := None, ow_root := None, ow_children := []\<rparr>"
    by (cases rule: cleanup_phases) auto
  obtain wa wb where a: "reap_process sys w1 = (Inr (), wa)" and b: "reap_children sys t wa = (Inr (), wb)" and e: "stop_reader sys wb = (Inr (), w3)"
    using k by (auto simp: kill_phase_def bind_p_Inr)
  have e1: "emits SIGTERM 0 w w1" by (rule lateD[OF late_term_phase _ t]) simp
  have ea: "emits SIGKILL 0 w1 wa" by (rule lateD[OF late_reap_process _ a]) simp
  have eb: "emits SIGKILL 0 wa wb" by (rule lateD[OF late_reap_children_any _ b]) simp
  have ee: "emits SIGKILL 0 wb w3" by (rule lateD[OF late_stop_reader _ e]) simp
  have okb: "owner_ok sys wb"
    using holdsD[OF term_phase_ok ok t] holdsD[OF reap_process_ok _ a] holdsD[OF reap_children_ok _ b] by blast
  have flags: "\<not> ow_tracker w1" "\<not> ow_ready w1" "\<not> ow_reader w3"
    using term_phase_flags[OF t] stop_reader_flag[OF e] by auto
  have "\<exists>h'. h_pid h' = h_pid h \<and> (seen_dead sys (ow_calls w) (ow_calls w2) h' \<or> sent_since w w2 (ToProcess h' SIGKILL))"
    if d: "darwin sys" and h: "h \<in> snd ` set (ow_children w)" "h_pid h \<noteq> getpid sys" for h
  proof -
    have "(h_pid h, h) \<in> set (ow_children w)" using h(1) ok by (auto simp: owner_ok_def)
    moreover have "fst ` set (ow_children w) \<subseteq> fst ` set (ow_children wa)" using e1 ea by (auto simp: emits_def)
    ultimately have "h_pid h \<in> fst ` set (ow_children wa)" by force
    then obtain h' where h': "(h_pid h, h') \<in> set (ow_children wb)"
      "seen_dead sys (ow_calls wa) (ow_calls wb) h' \<or> h_pid h' = getpid sys \<or> sent_since wa wb (ToProcess h' SIGKILL)"
      using reap_children_full[OF d b] by blast
    have p: "h_pid h' = h_pid h" using okb h'(1) by (auto simp: owner_ok_def)
    have calls: "ow_calls w \<le> ow_calls wa" "ow_calls wb \<le> ow_calls w2" using e1 ea ee w2 by (auto simp: emits_def)
    have since: "sent_since w w2 x" if "sent_since wa wb x" for x
      using sent_since_later[OF ee sent_since_earlier[OF e1 sent_since_earlier[OF ea that]]] w2 by (simp add: sent_since_def)
    show ?thesis using h'(2) h(2) p since[of "ToProcess h' SIGKILL"] seen_dead_mono[OF _ calls, of sys h'] by (intro exI[of _ h']) auto
  qed
  then show ?thesis using flags ea eb ee w2 by (simp add: emits_def)
qed

section \<open>An example\<close>

text \<open>On macOS a process with one helper that does not end: the helper is still alive when the grace is over.\<close>

definition demo_system :: system where
  "demo_system = \<lparr>getpid = 1, darwin = True, spawn_pid = (\<lambda>_. Some 7), exited = (\<lambda>_. False), process_of = (\<lambda>_ p. Inr (Handle p 100)),
     parent_of = (\<lambda>_ h. Inr 1), children_of = (\<lambda>_ h. Inr [Handle 8 101]), is_running = (\<lambda>_ h. Inr True), is_zombie = (\<lambda>_ h. Inr False),
     killed = (\<lambda>_ _. None), waited = (\<lambda>_. True), drained = (\<lambda>_. True), canceled = (\<lambda>_. False), lag = (\<lambda>_. 1000000)\<rparr>"

definition demo_owner :: owner where
  "demo_owner = snd (perform demo_system Track (snd (perform demo_system Spawn new_owner)))"

definition demo_cleaned :: owner where
  "demo_cleaned = snd (cleanup_owned demo_system demo_owner)"

lemmas demo_eval = demo_owner_def demo_cleaned_def demo_system_def new_owner_def spawn_def capture_owned_root_def own_root_def suppress_missing_def
  track_owned_children_def capture_owned_children_def cleanup_owned_def term_phase_def kill_phase_def stop_tracker_def reap_process_def
  reap_children_def stop_reader_def signal_owned_group_def signal_process_def wait_for_def children_alive_def wait_children.simps
  sleep_def bind_p_def modify_def read_def ask_def grace_def

lemma demo_life: "run (life_step demo_system) new_owner [Spawn, Track] demo_owner"
  by (auto simp: demo_owner_def life_step_def intro!: run_Cons run_Nil)

lemma demo_children: "ow_children demo_owner = [(8, Handle 8 101)]"
  by (simp add: demo_eval)

lemma demo_cleanup: "cleanup_owned demo_system demo_owner = (Inr (), demo_cleaned)"
  by (simp add: demo_eval)

lemma demo_sent: "map snd (ow_sent demo_cleaned) = [ToProcess (Handle 8 101) SIGTERM, ToProcess (Handle 7 100) SIGTERM,
    ToProcess (Handle 8 101) SIGKILL, ToProcess (Handle 7 100) SIGKILL]"
  by (simp add: demo_eval)

lemma demo_life_cleaned: "run (life_step demo_system) new_owner [Spawn, Track, Cleanup] demo_cleaned"
proof -
  have "life_step demo_system demo_owner Cleanup demo_cleaned" by (simp add: life_step_def demo_cleaned_def)
  then have "run (life_step demo_system) demo_owner [Cleanup] demo_cleaned" by (rule run_Cons) (rule run_Nil)
  from run_append[OF demo_life this] show ?thesis by simp
qed

lemma demo_killed: "\<exists>t. (t, ToProcess (Handle 8 101) SIGKILL) \<in> set (ow_sent demo_cleaned)"
proof -
  have "ToProcess (Handle 8 101) SIGKILL \<in> snd ` set (ow_sent demo_cleaned)" unfolding set_map[symmetric] demo_sent by simp
  then show ?thesis by (auto simp only: image_iff) (metis prod.collapse)
qed

lemma demo_lasting: "lasting demo_system"
  by (simp add: lasting_def demo_system_def)

theorem signals_only_owned_witness:
  "(\<exists>t. (t, ToProcess (Handle 8 101) SIGKILL) \<in> set (ow_sent demo_cleaned)) \<and> allowed demo_system (ToProcess (Handle 8 101) SIGKILL)"
  using demo_killed signals_only_owned[OF demo_life_cleaned] by blast

theorem kill_after_grace_witness:
  "\<exists>terms kills. ow_sent demo_cleaned = ow_sent demo_owner @ terms @ kills \<and> (\<forall>(t, x) \<in> set terms. signal_of x = SIGTERM)
     \<and> (\<forall>(t, x) \<in> set kills. signal_of x = SIGKILL \<and> ow_clock demo_owner + grace \<le> t)"
  using kill_after_grace[OF demo_lasting demo_cleanup] .

theorem cleanup_complete_witness:
  "ow_process demo_cleaned = None \<and> (\<exists>h. h_pid h = 8
     \<and> (seen_dead demo_system (ow_calls demo_owner) (ow_calls demo_cleaned) h \<or> sent_since demo_owner demo_cleaned (ToProcess h SIGKILL)))"
  using cleanup_complete[OF demo_life demo_cleanup] by (force simp: demo_children demo_system_def)

end
