(* ===== verification/Hermes_Log.thy ===== *)
theory Hermes_Log
  imports Hermes_Messages Py_Lines
begin

text \<open>
  The conversation log read back (\<open>load_conversation\<close> and \<open>list_conversations\<close> of \<open>compat/hermes/upstream/protocol.py\<close>): what was persisted for a
  context comes back in order, and where it does not.
\<close>

section \<open>Reading\<close>

text \<open>\<open>xs[-n:]\<close>; for zero this is the whole list.\<close>

definition slice_last :: "int \<Rightarrow> 'a list \<Rightarrow> 'a list" where
  "slice_last n xs = (if n = 0 then xs else if n < 0 then drop (nat (- n)) xs else drop (length xs - nat n) xs)"

fun entries :: "string list \<Rightarrow> json list" where
  "entries [] = []"
| "entries (l # ls) =
     (if py_strip l = [] then entries ls
      else case json_loads l of
        Some (JObj kvs) \<Rightarrow> JObj kvs # entries ls
      | _ \<Rightarrow> entries ls)"

definition load_conversation :: "(string \<Rightarrow> bool) \<Rightarrow> string \<Rightarrow> int \<Rightarrow> (string \<times> string) list \<Rightarrow> json list" where
  "load_conversation isalnum ctx limit files =
     (case map_of files (conv_name isalnum ctx) of
        None \<Rightarrow> []
      | Some b \<Rightarrow> if \<not> utf8_valid b then [] else slice_last limit (entries (splitlines b)))"

text \<open>The names without their suffix (a name that is only a suffix keeps it), sorted by code points, which is the order of their bytes.\<close>

definition list_conversations :: "(string \<times> string) list \<Rightarrow> string list" where
  "list_conversations files =
     sort (map (\<lambda>(n, _). if n = ''.jsonl'' then n else take (length n - 6) n) (filter (\<lambda>(n, _). 6 \<le> length n \<and> drop (length n - 6) n = ''.jsonl'') files))"

section \<open>Round trip\<close>

lemma utf8_valid_append: "utf8_valid a \<Longrightarrow> utf8_valid (a @ b) = utf8_valid b"
  by (induction a rule: utf8_valid.induct) (auto simp: Let_def split: if_splits list.splits)

lemma utf8_valid_concat: "list_all utf8_valid xs \<Longrightarrow> utf8_valid (concat xs)"
  by (induction xs) (auto simp: utf8_valid_append)

definition entry :: "json \<Rightarrow> string \<Rightarrow> string \<Rightarrow> string \<Rightarrow> json" where
  "entry ts role t tid = JObj [(''ts'', ts), (''role'', JStr role), (''text'', JStr t), (''task_id'', JStr tid)]"

type_synonym record_args = "json \<times> string \<times> string \<times> string \<times> string"

fun persist :: "(string \<Rightarrow> bool) \<Rightarrow> record_args \<Rightarrow> (string \<times> string) list \<Rightarrow> (string \<times> string) list" where
  "persist isalnum (ts, ctx, role, t, tid) = persist_message isalnum ts ctx role t tid"

fun file_of :: "(string \<Rightarrow> bool) \<Rightarrow> record_args \<Rightarrow> string" where
  "file_of isalnum (ts, ctx, role, t, tid) = conv_name isalnum ctx"

fun entry_of :: "record_args \<Rightarrow> json" where
  "entry_of (ts, ctx, role, t, tid) = entry ts role t tid"

abbreviation line_of :: "json \<Rightarrow> string" where
  "line_of e \<equiv> json_dumps '', '' '': '' e @ [CHR 0x0A]"

text \<open>A message that can be encoded, with a finite time stamp and without the line separators beyond ASCII.\<close>

definition loggable :: "record_args \<Rightarrow> bool" where
  "loggable m \<longleftrightarrow> json_ok (entry_of m) \<and> plain_json (entry_of m) \<and> utf8_valid (line_of (entry_of m))"

lemma persist_once:
  assumes "loggable m"
  shows "map_of (persist isalnum m files) n =
    (if file_of isalnum m = n then Some ((case map_of files n of None \<Rightarrow> [] | Some s \<Rightarrow> s) @ line_of (entry_of m)) else map_of files n)"
  using assms by (cases m) (auto simp: persist_message_def Let_def update_conv loggable_def log_line_def entry_def)

lemma persisted_file:
  "list_all loggable ms \<Longrightarrow> map_of (fold (persist isalnum) ms files) n =
     (let own = filter (\<lambda>m. file_of isalnum m = n) ms
      in if own = [] then map_of files n else Some ((case map_of files n of None \<Rightarrow> [] | Some s \<Rightarrow> s) @ concat (map (line_of \<circ> entry_of) own)))"
  by (induction ms arbitrary: files) (auto simp: persist_once Let_def)

lemma strip_object: "py_strip (CHR ''{'' # CHR 0x22 # r) \<noteq> []"
proof -
  define xs where "xs = code_points (CHR 0x22 # r)"
  have c: "code_points (CHR ''{'' # CHR 0x22 # r) = ''{'' # xs" by (simp add: xs_def cont_byte_def)
  have nb: "\<not> py_blank ''{''" by (simp add: is_space_def)
  have "''{'' \<in> set (dropWhile py_blank (rev (''{'' # xs)))" using nb by (induction xs rule: rev_induct) auto
  moreover have "dropWhile py_blank (''{'' # xs) = ''{'' # xs" using nb by simp
  ultimately show ?thesis unfolding py_strip_def c by (auto simp del: rev.simps)
qed

lemma entries_lines:
  "list_all loggable ms \<Longrightarrow> entries (splitlines (concat (map (line_of \<circ> entry_of) ms))) = map entry_of ms"
proof (induction ms)
  case (Cons m ms)
  obtain ts ctx role t tid where m: "m = (ts, ctx, role, t, tid)" by (cases m)
  have ok: "json_ok (entry_of m)" "one_line (json_dumps '', '' '': '' (entry_of m))"
    using Cons.prems by (auto simp: loggable_def one_line_dumps)
  have lines: "splitlines (concat (map (line_of \<circ> entry_of) (m # ms))) = json_dumps '', '' '': '' (entry_of m) # splitlines (concat (map (line_of \<circ> entry_of) ms))"
    using ok(2) split_lines_piece[of "json_dumps '', '' '': '' (entry_of m)" "[]"] by (simp add: splitlines_def one_line_def)
  obtain r where "json_dumps '', '' '': '' (entry_of m) = CHR ''{'' # CHR 0x22 # r" by (simp add: m entry_def quote_def)
  then have "py_strip (json_dumps '', '' '': '' (entry_of m)) \<noteq> []" using strip_object by simp
  moreover have "json_loads (json_dumps '', '' '': '' (entry_of m)) = Some (entry_of m)" by (rule spaced.loads_printed[OF ok(1)])
  moreover obtain kvs where "entry_of m = JObj kvs" by (simp add: m entry_def)
  ultimately show ?case unfolding lines using Cons by (simp add: comp_def)
qed (simp add: splitlines_def)

text \<open>C40: What was persisted under the file name of a context, which had no file before, is loaded again, message by message and in order, cut to
  the asked number of messages, however messages under other file names come in between - for messages without U+0085,
  U+2028 and U+2029, at which \<open>str.splitlines\<close> breaks a line (see \<open>separator_loses_message\<close>). Contexts are told apart by the name of their
  file alone: those that share one are loaded together (see \<open>contexts_share_log\<close>).\<close>

theorem log_read_back:
  assumes "list_all loggable ms" and "map_of files (conv_name isalnum ctx) = None"
  shows "load_conversation isalnum ctx limit (fold (persist isalnum) ms files) =
    slice_last limit (map entry_of (filter (\<lambda>m. file_of isalnum m = conv_name isalnum ctx) ms))"
proof -
  define own where "own = filter (\<lambda>m. file_of isalnum m = conv_name isalnum ctx) ms"
  have ok: "list_all loggable own" using assms(1) by (auto simp: own_def list_all_iff)
  then have "utf8_valid (concat (map (line_of \<circ> entry_of) own))" by (intro utf8_valid_concat) (auto simp: list_all_iff loggable_def)
  then show ?thesis
    using persisted_file[OF assms(1), of isalnum files "conv_name isalnum ctx"] entries_lines[OF ok] assms(2)
    by (auto simp: load_conversation_def own_def[symmetric] Let_def slice_last_def)
qed

definition demo_alnum :: "string \<Rightarrow> bool" where
  "demo_alnum c \<longleftrightarrow> c \<in> {''a'', ''b'', ''c''}"

definition demo_log :: "record_args list" where
  "demo_log = [(JFloat ''1.5'', ''a'', ''user'', ''hello'', ''t1''), (JFloat ''2.5'', ''b'', ''user'', ''other'', ''t2''),
     (JFloat ''3.25'', ''a'', ''agent'', ''hi there'', ''t1'')]"

theorem log_read_back_witness:
  "load_conversation demo_alnum ''a'' 1 (fold (persist demo_alnum) demo_log []) = [entry (JFloat ''3.25'') ''agent'' ''hi there'' ''t1'']"
proof -
  have "list_all loggable demo_log" by code_simp
  from log_read_back[OF this, of "[]" demo_alnum "''a''" 1] show ?thesis
    by (simp add: demo_log_def conv_name_def demo_alnum_def slice_last_def cont_byte_def)
qed

text \<open>The condition on separators is needed: JSON leaves \<open>U+2028\<close> as it is, the reader breaks the line there, and the message is lost.\<close>

lemma separator_loses_message:
  "load_conversation demo_alnum ''a'' 50
     (persist demo_alnum (JFloat ''1.5'', ''a'', ''user'', [CHR ''a'', CHR 0xE2, CHR 0x80, CHR 0xA8, CHR ''b''], ''t1'') []) = []"
  by code_simp

text \<open>Contexts whose identifiers differ only in characters that are dropped share a log.\<close>

lemma contexts_share_log:
  "load_conversation demo_alnum ''a/b'' 50 (persist demo_alnum (JFloat ''1.5'', ''ab'', ''user'', ''hello'', ''t1'') []) \<noteq> []"
  by code_simp

end
