(* ===== verification/Hermes_Cards.thy ===== *)
theory Hermes_Cards
  imports Hermes_Adapter Gateway_Settings
begin

text \<open>
  The vendored adapter seen from outside before any message (\<open>compat/hermes/upstream/adapter.py\<close>): its construction, connecting, the agent
  cards and their URLs, and GET requests. \<open>urllib.parse.urljoin\<close> is that of Python 3.11. What the agent's own modules return - secrets of a profile,
  the registry of tools, the name of the host - is an argument; an \<open>Inl\<close> is an exception they raise.
\<close>

section \<open>Joining URLs\<close>

definition uses_relative :: "string list" where
  "uses_relative = [[], ''ftp'', ''http'', ''gopher'', ''nntp'', ''imap'', ''wais'', ''file'', ''https'', ''shttp'', ''mms'', ''prospero'', ''rtsp'', ''rtsps'',
     ''rtspu'', ''sftp'', ''svn'', ''svn+ssh'', ''ws'', ''wss'']"

definition uses_netloc :: "string list" where
  "uses_netloc = [[], ''ftp'', ''http'', ''gopher'', ''nntp'', ''telnet'', ''imap'', ''wais'', ''file'', ''mms'', ''https'', ''shttp'', ''snews'', ''prospero'',
     ''rtsp'', ''rtsps'', ''rtspu'', ''rsync'', ''svn'', ''svn+ssh'', ''sftp'', ''nfs'', ''git'', ''git+ssh'', ''ws'', ''wss'']"

text \<open>The parameters that \<open>without_params\<close> cuts off.\<close>

definition params_of :: "string \<Rightarrow> string" where
  "params_of p = drop 1 (dropWhile (\<lambda>c. c \<noteq> CHR '';'') (rev (takeWhile (\<lambda>c. c \<noteq> CHR ''/'') (rev p))))"

definition parse_url :: "(string \<Rightarrow> bool) \<Rightarrow> string \<Rightarrow> string \<Rightarrow> exn + split_url \<times> string" where
  "parse_url nfkc scheme url =
     bind_r (urlsplit nfkc url) (\<lambda>u0.
       let u = (if u_scheme u0 = [] then u0\<lparr>u_scheme := scheme\<rparr> else u0) in
       Inr (if u_scheme u \<in> set uses_params then (u\<lparr>u_path := without_params (u_path u)\<rparr>, params_of (u_path u)) else (u, [])))"

definition urlunparse :: "split_url \<Rightarrow> string \<Rightarrow> string" where
  "urlunparse u params =
     (let p = u_path u @ (if params = [] then [] else CHR '';'' # params);
          p1 = (if u_netloc u \<noteq> [] \<or> u_scheme u \<noteq> [] \<and> u_scheme u \<in> set uses_netloc \<or> starts_with ''//'' p
                then ''//'' @ u_netloc u @ (if p \<noteq> [] \<and> hd p \<noteq> CHR ''/'' then CHR ''/'' # p else p) else p)
      in (if u_scheme u = [] then [] else u_scheme u @ '':'') @ p1
         @ (if u_query u = [] then [] else CHR ''?'' # u_query u) @ (if u_fragment u = [] then [] else CHR ''#'' # u_fragment u))"

text \<open>\<open>segments[1:-1] = filter(None, segments[1:-1])\<close>.\<close>

definition inner_nonempty :: "string list \<Rightarrow> string list" where
  "inner_nonempty xs = take 1 xs @ filter (\<lambda>x. x \<noteq> []) (butlast (drop 1 xs)) @ drop (max 1 (length xs - 1)) xs"

definition merge_paths :: "string \<Rightarrow> string \<Rightarrow> string list" where
  "merge_paths bpath path =
     (if starts_with ''/'' path then split_on (CHR ''/'') path
      else let parts = split_on (CHR ''/'') bpath
           in inner_nonempty ((if last parts \<noteq> [] then butlast parts else parts) @ split_on (CHR ''/'') path))"

definition resolve_dots :: "string list \<Rightarrow> string list" where
  "resolve_dots segs =
     foldl (\<lambda>acc s. if s = ''..'' then butlast acc else if s = ''.'' then acc else acc @ [s]) [] segs
     @ (if last segs \<in> {''.'', ''..''} then [[]] else [])"

definition urljoin :: "(string \<Rightarrow> bool) \<Rightarrow> string \<Rightarrow> string \<Rightarrow> exn + string" where
  "urljoin nfkc base url =
     (if base = [] then Inr url else if url = [] then Inr base
      else
        bind_r (parse_url nfkc [] base) (\<lambda>(b, bparams).
        bind_r (parse_url nfkc (u_scheme b) url) (\<lambda>(u0, params).
          if u_scheme u0 \<noteq> u_scheme b \<or> u_scheme u0 \<notin> set uses_relative then Inr url
          else if u_scheme u0 \<in> set uses_netloc \<and> u_netloc u0 \<noteq> [] then Inr (urlunparse u0 params)
          else
            let u = (if u_scheme u0 \<in> set uses_netloc then u0\<lparr>u_netloc := u_netloc b\<rparr> else u0) in
            if u_path u = [] \<and> params = []
            then Inr (urlunparse (u\<lparr>u_path := u_path b, u_query := (if u_query u = [] then u_query b else u_query u)\<rparr>) bparams)
            else
              let joined = join ''/'' (resolve_dots (merge_paths (u_path b) (u_path u)))
              in Inr (urlunparse (u\<lparr>u_path := (if joined = [] then ''/'' else joined)\<rparr>) params))))"

lemma urljoin_examples:
  "urljoin (\<lambda>_. True) ''http://a:9/b/c'' ''d/'' = Inr ''http://a:9/b/d/''" "urljoin (\<lambda>_. True) ''http://a/b/'' ''../x?y#z'' = Inr ''http://a/x?y#z''"
  "urljoin (\<lambda>_. True) ''http://a/b/'' ''mail:x/'' = Inr ''mail:x/''" "urljoin (\<lambda>_. True) ''http://a/b;p/c'' ''.'' = Inr ''http://a/b;p/''"
  "urljoin (\<lambda>_. True) ''http://a/b//c/'' ''d//e/'' = Inr ''http://a/b/c/d/e/''" "urljoin (\<lambda>_. True) ''/x/'' ''y;q'' = Inr ''/x/y;q''"
  by code_simp+

definition join_url :: "(string \<Rightarrow> bool) \<Rightarrow> string \<Rightarrow> string \<Rightarrow> exn + string" where
  "join_url nfkc base prefix =
     (let b = (if py_strip base = [] then ''/'' else py_strip base); b1 = (if last b = CHR ''/'' then b else b @ ''/''); p = strip_of {CHR ''/''} prefix
      in if p = [] then Inr b1 else urljoin nfkc b1 (p @ ''/''))"

section \<open>Construction\<close>

text \<open>\<open>float_of\<close> is the value of a text as a float, \<open>None\<close> where it is none; infinite values are left out.\<close>

definition reply_timeout :: "(string \<Rightarrow> rat option) \<Rightarrow> (string \<Rightarrow> string option) \<Rightarrow> rat" where
  "reply_timeout float_of getenv =
     (case float_of (case getenv ''A2A_REPLY_TIMEOUT'' of Some t \<Rightarrow> t | None \<Rightarrow> ''300'') of Some x \<Rightarrow> max 1 x | None \<Rightarrow> 300)"

definition default_agent_name :: "(string \<Rightarrow> string option) \<Rightarrow> exn + string \<Rightarrow> string" where
  "default_agent_name secret gethostname =
     (let name = py_strip (case secret ''A2A_AGENT_NAME'' of Some v \<Rightarrow> v | None \<Rightarrow> []) in
      if name \<noteq> [] then name else case gethostname of Inr h \<Rightarrow> ''hermes-'' @ h | Inl _ \<Rightarrow> ''hermes-agent'')"

definition active_profile_name :: "exn + string \<Rightarrow> (string \<Rightarrow> string option) \<Rightarrow> string" where
  "active_profile_name active getenv =
     (let name = (case active of Inr n \<Rightarrow> n | Inl _ \<Rightarrow> (case getenv ''HERMES_PROFILE'' of Some v \<Rightarrow> v | None \<Rightarrow> ''default''))
      in if name = [] then ''default'' else name)"

definition profile_home :: "(string \<Rightarrow> exn + string) \<Rightarrow> (string \<Rightarrow> string) \<Rightarrow> exn + string \<Rightarrow> string \<Rightarrow> string option" where
  "profile_home profile_dir expanduser hermes_home profile =
     (case profile_dir profile of
        Inr d \<Rightarrow> Some d
      | Inl _ \<Rightarrow>
          if profile \<notin> {[], ''default''} then Some (expanduser (''~/.hermes/profiles/'' @ profile))
          else case hermes_home of Inr d \<Rightarrow> Some d | Inl _ \<Rightarrow> None)"

record adapter_config =
  c_security :: security_context
  c_port :: int
  c_host :: string
  c_name :: string
  c_toolsets :: "string list"
  c_profile :: string
  c_public_url :: string
  c_agents :: "(string \<times> agent) list"

text \<open>\<open>int(v)\<close> of a configured value; a float literal is the argument's business.\<close>

definition int_of :: "(string \<Rightarrow> rat option) \<Rightarrow> json \<Rightarrow> exn + int" where
  "int_of float_of v =
     (case v of
        JInt n \<Rightarrow> Inr n
      | JBool b \<Rightarrow> Inr (if b then 1 else 0)
      | JStr t \<Rightarrow> (case py_int t of Some n \<Rightarrow> Inr n | None \<Rightarrow> Inl (ValueError ''int''))
      | JFloat t \<Rightarrow> (case float_of t of Some x \<Rightarrow> Inr (if x < 0 then - \<lfloor>- x\<rfloor> else \<lfloor>x\<rfloor>) | None \<Rightarrow> Inl (ValueError ''int''))
      | _ \<Rightarrow> Inl TypeError)"

fun strip_toolset :: "json \<Rightarrow> exn + string" where
  "strip_toolset (JStr t) = Inr (py_strip t)"
| "strip_toolset _ = Inl AttributeError"

definition configured_toolsets :: "json \<Rightarrow> (string \<Rightarrow> string option) \<Rightarrow> exn + string list" where
  "configured_toolsets extra secret =
     bind_r (py_iter (py_or (jget extra ''advertised_toolsets'') (JList []))) (\<lambda>xs.
       let ys = (if xs \<noteq> [] then xs else map JStr (split_on (CHR '','') (case secret ''A2A_ADVERTISED_TOOLSETS'' of Some v \<Rightarrow> v | None \<Rightarrow> [])))
       in map_r strip_toolset (filter (\<lambda>v. py_strip (py_str v) \<noteq> []) ys))"

text \<open>The em dash of the default description in UTF-8.\<close>

definition default_description :: string where
  "default_description = ''Hermes Agent '' @ [CHR 0xE2, CHR 0x80, CHR 0x94] @ '' a general-purpose agent reachable over A2A.''"

definition default_port :: int where "default_port = 9900"

definition root_agent :: "string \<Rightarrow> string \<Rightarrow> string list \<Rightarrow> (string \<Rightarrow> string option) \<Rightarrow> agent" where
  "root_agent profile name toolsets secret =
     \<lparr>a_slug = [], a_path = [], a_tenant = [], a_profile = profile, a_local = True, a_name = name,
      a_description = (case secret ''A2A_AGENT_DESCRIPTION'' of Some d \<Rightarrow> d | None \<Rightarrow> default_description), a_toolsets = map JStr toolsets\<rparr>"

text \<open>\<open>extra\<close> is the adapter's part of the configuration, \<open>secret\<close> reads a setting in the scope of the profile.\<close>

definition init_adapter :: "(string \<Rightarrow> rat option) \<Rightarrow> json \<Rightarrow> (string \<Rightarrow> string option) \<Rightarrow> (string \<Rightarrow> string option) \<Rightarrow> (string \<Rightarrow> string) \<Rightarrow> exn + json
    \<Rightarrow> exn + string \<Rightarrow> exn + string \<Rightarrow> exn + adapter_config" where
  "init_adapter float_of extra secret getenv startup load_config gethostname active =
     (let sec = capture startup load_config; name = default_agent_name secret gethostname; profile = active_profile_name active getenv;
          port = (case secret ''A2A_PORT'' of Some p \<Rightarrow> if p = [] then None else Some (JStr p) | None \<Rightarrow> None) in
      bind_r (int_of float_of (case port of Some v \<Rightarrow> v | None \<Rightarrow> if jhas extra ''port'' then jget extra ''port'' else JInt default_port)) (\<lambda>n.
      bind_r (configured_toolsets extra secret) (\<lambda>toolsets.
      bind_r (load_served_agents profile (root_agent profile name toolsets secret) extra load_config) (\<lambda>agents.
        Inr \<lparr>c_security = sec, c_port = n, c_host = resolve_bind_host sec, c_name = name, c_toolsets = toolsets, c_profile = profile,
             c_public_url = py_strip (case secret ''A2A_PUBLIC_URL'' of Some v \<Rightarrow> v | None \<Rightarrow> []), c_agents = agents\<rparr>))))"

section \<open>Connecting and the watchdog\<close>

record server =
  sv_serving :: bool
  sv_stopped :: bool
  sv_connected :: bool
  sv_fatal :: "(string \<times> bool) option"

text \<open>\<open>bound\<close> tells whether the socket could be bound; the error is the adapter's to retry.\<close>

definition connect_server :: "bool \<Rightarrow> server \<Rightarrow> bool \<times> server" where
  "connect_server bound sv =
     (if \<not> bound then (False, sv\<lparr>sv_fatal := Some (''bind_failed'', True)\<rparr>)
      else (True, sv\<lparr>sv_serving := True, sv_stopped := False, sv_connected := True\<rparr>))"

definition disconnect_server :: "server \<Rightarrow> waiting \<Rightarrow> server \<times> waiting" where
  "disconnect_server sv w = (sv\<lparr>sv_connected := False, sv_stopped := True, sv_serving := False\<rparr>, disconnect w)"

text \<open>A turn of the watchdog: what others did meanwhile, and the time it reads. It ends when \<open>wait\<close> tells that it was stopped.\<close>

fun watchdog_loop :: "rat \<Rightarrow> (bool \<times> (adapter \<Rightarrow> adapter) \<times> draws) list \<Rightarrow> adapter \<Rightarrow> adapter" where
  "watchdog_loop reply [] s = s"
| "watchdog_loop reply ((stopped, others, q) # turns) s =
     (if stopped then others s else watchdog_loop reply turns (snd (fail_orphans_once reply q (others s))))"

section \<open>Cards\<close>

record card_env =
  ce_org :: "string option"
  ce_provider :: "string option"
  ce_registry :: "exn + (string \<times> string list) list"
  ce_nfkc :: "string \<Rightarrow> bool"

definition base_url :: "adapter_config \<Rightarrow> string option \<Rightarrow> string" where
  "base_url c public_url =
     (let p = py_strip (case public_url of Some v \<Rightarrow> v | None \<Rightarrow> []) in
      if p \<noteq> [] then p else ''http://'' @ c_host c @ '':'' @ dec_int (c_port c) @ ''/'')"

text \<open>Toolsets are configured by name; an entry that is not a text is not covered and raises here.\<close>

fun toolset_name :: "json \<Rightarrow> exn + string" where
  "toolset_name (JStr t) = Inr t"
| "toolset_name _ = Inl TypeError"

definition advertised_skills :: "card_env \<Rightarrow> json list \<Rightarrow> exn + json list" where
  "advertised_skills env configured =
     bind_r (map_r toolset_name configured) (\<lambda>names.
       let listed = (case ce_registry env of
             Inr reg \<Rightarrow> filter (\<lambda>(n, _). names = [] \<or> n \<in> set names) reg
           | Inl _ \<Rightarrow> [])
       in Inr (skills_from_toolsets (if listed \<noteq> [] then listed else toolset_names names)))"

definition build_card :: "card_env \<Rightarrow> adapter_config \<Rightarrow> string option \<Rightarrow> agent \<Rightarrow> exn + json" where
  "build_card env c public_url a =
     bind_r (join_url (ce_nfkc env) (base_url c public_url) (a_path a)) (\<lambda>url.
     bind_r (advertised_skills env (a_toolsets a)) (\<lambda>skills.
       Inr (build_agent_card (ce_org env) (ce_provider env) (if a_name a = [] then c_name c else a_name a) url
         (if a_description a = [] then default_description else a_description a) skills (a_local a) True (\<not> localhost_only (c_security c)) (a_tenant a))))"

definition summary_of :: "card_env \<Rightarrow> string \<Rightarrow> agent \<Rightarrow> exn + json" where
  "summary_of env base a =
     bind_r (join_url (ce_nfkc env) base (a_path a)) (\<lambda>url.
       Inr (JObj [(''slug'', JStr (if a_slug a = [] then ''default'' else a_slug a)), (''name'', JStr (a_name a)), (''url'', JStr url),
         (''tenant'', if a_tenant a = [] then JNull else JStr (a_tenant a)), (''profile'', JStr (a_profile a)), (''local'', JBool (a_local a))]))"

definition served_agent_summary :: "card_env \<Rightarrow> adapter_config \<Rightarrow> string option \<Rightarrow> exn + json" where
  "served_agent_summary env c public_url =
     bind_r (map_r (summary_of env (base_url c public_url)) (map snd (c_agents c))) (\<lambda>xs. Inr (JList xs))"

section \<open>GET requests\<close>

record get_request =
  g_path :: string
  g_client_ip :: string
  g_authorization :: "string option"
  g_host :: "string option"
  g_forwarded_host :: "string option"
  g_forwarded_proto :: "string option"

definition header_or :: "string option \<Rightarrow> string \<Rightarrow> string" where
  "header_or h d = (case h of Some v \<Rightarrow> if v = [] then d else v | None \<Rightarrow> d)"

definition request_public_url :: "adapter_config \<Rightarrow> get_request \<Rightarrow> string" where
  "request_public_url c rq =
     (if c_public_url c \<noteq> [] then c_public_url c
      else
        let host = py_strip (hd (split_on (CHR '','') (header_or (g_forwarded_host rq) (header_or (g_host rq) []))));
            scheme = py_strip (hd (split_on (CHR '','') (header_or (g_forwarded_proto rq) ''http'')))
        in if host = [] then [] else scheme @ ''://'' @ host @ ''/'')"

text \<open>Seconds and milliseconds rounded to tenths, as printed.\<close>

definition tenths :: "rat \<Rightarrow> json" where
  "tenths x =
     (let y = x * 10; n = \<lfloor>y\<rfloor>; d = y - of_int n; k = (if d < 1 / 2 \<or> d = 1 / 2 \<and> even n then n else n + 1)
      in JFloat (dec_int (k div 10) @ ''.'' @ dec_int (k mod 10)))"

definition metrics_snapshot :: "rat \<Rightarrow> metrics \<Rightarrow> json" where
  "metrics_snapshot uptime m =
     JObj ([(''uptime_seconds'', tenths uptime)] @ map (\<lambda>(k, n). (k, JInt (int n)))
       [(''inbound_total'', m_inbound_total m), (''outbound_total'', m_outbound_total m), (''streams_started'', m_streams_started m),
        (''push_sent'', m_push_sent m), (''push_failed'', m_push_failed m), (''tasks_completed'', m_tasks_completed m), (''tasks_failed'', m_tasks_failed m),
        (''anti_loop_triggers'', m_anti_loop_triggers m), (''rate_limit_triggers'', m_rate_limit_triggers m)]
       @ [(''avg_latency_ms'', tenths (avg_latency m * 1000))])"

definition card_paths :: "string set" where
  "card_paths = {''/.well-known/agent.json'', ''/.well-known/agent-card.json''}"

definition do_GET :: "card_env \<Rightarrow> adapter_config \<Rightarrow> rat \<Rightarrow> metrics \<Rightarrow> get_request \<Rightarrow> exn + int \<times> json" where
  "do_GET env c uptime m rq =
     bind_r (route_for_path (ce_nfkc env) (c_agents c) (g_path rq)) (\<lambda>(a, sub0).
       let sub = (if rstrip_slash sub0 = [] then ''/'' else rstrip_slash sub0); url = request_public_url c rq; public_url = (if url = [] then None else Some url) in
       if sub \<in> card_paths then bind_r (build_card env c public_url a) (\<lambda>card. Inr (200, card))
       else if sub = ''/metrics'' then Inr (200, metrics_snapshot uptime m)
       else if sub \<notin> {''/'', ''/health''} then Inr (404, JObj [(''error'', JStr ''not found'')])
       else
         let payload = [(''status'', JStr ''ok''), (''agent'', JStr (if a_name a = [] then c_name c else a_name a))] in
         bind_r (if localhost_only (c_security c) then Inr True
                 else bind_r (authenticate (c_security c) (g_authorization rq) (g_client_ip rq)) (\<lambda>p. Inr (p \<noteq> None))) (\<lambda>known.
           if \<not> known then Inr (200, JObj payload)
           else bind_r (served_agent_summary env c public_url) (\<lambda>agents. Inr (200, JObj (payload @ [(''served_agents'', agents)])))))"

end
