(* ===== verification/Card_Contract.thy ===== *)
theory Card_Contract
  imports Hermes_Cards Py_Lines
begin

text \<open>
  The agent cards of the adapter and the broker's discovery together: a request to the address a card advertises reaches the agent of the card.
  And what a GET request tells to whom.
\<close>

section \<open>Addresses on the loopback interface\<close>

text \<open>The characters of names that URLs leave alone, and paths made of them.\<close>

definition simple_char :: "char \<Rightarrow> bool" where
  "simple_char c \<longleftrightarrow> alnum c \<or> c \<in> {CHR ''_'', CHR ''-''}"

definition path_char :: "char \<Rightarrow> bool" where
  "path_char c \<longleftrightarrow> simple_char c \<or> c \<in> {CHR ''/'', CHR ''.''}"

definition simple_path :: "string \<Rightarrow> bool" where
  "simple_path p \<longleftrightarrow> list_all path_char p \<and> (p = [] \<or> hd p = CHR ''/'')"

definition port_text :: "string \<Rightarrow> bool" where
  "port_text ds \<longleftrightarrow> ds \<noteq> [] \<and> list_all is_digit ds \<and> decimal ds \<le> 65535"

definition netloc :: "string \<Rightarrow> string" where
  "netloc ds = ''127.0.0.1:'' @ ds"

definition local_url :: "string \<Rightarrow> string \<Rightarrow> string" where
  "local_url ds p = ''http://'' @ netloc ds @ p"

definition parts_url :: "string \<Rightarrow> string \<Rightarrow> split_url" where
  "parts_url n p = \<lparr>u_scheme = ''http'', u_netloc = n, u_path = p, u_query = [], u_fragment = []\<rparr>"

lemma parts_url_simps [simp]: "u_scheme (parts_url n p) = ''http''" "u_netloc (parts_url n p) = n" "u_path (parts_url n p) = p" "u_query (parts_url n p) = []"
  "u_fragment (parts_url n p) = []" "parts_url n p\<lparr>u_path := p'\<rparr> = parts_url n p'" "parts_url n p\<lparr>u_netloc := n'\<rparr> = parts_url n' p"
  by (simp_all add: parts_url_def)

lemma simple_char_code: "simple_char c \<Longrightarrow> 45 \<le> (of_char c :: nat) \<and> of_char c \<le> (122 :: nat) \<and> of_char c \<notin> {46, 47, 58, 59, 60, 61, 62, 63, 64, 91, 92, 93, 94, 96 :: nat}"
  by (auto simp: simple_char_def alnum_def is_alpha_def is_digit_def Let_def)

lemma path_char_code: "path_char c \<Longrightarrow> 45 \<le> (of_char c :: nat) \<and> of_char c \<le> (122 :: nat) \<and> of_char c \<notin> {58, 59, 60, 61, 62, 63, 64, 91, 92, 93 :: nat}"
  using simple_char_code [of c] by (auto simp: path_char_def)

lemma simple_char_not: "simple_char c \<Longrightarrow> c \<notin> {CHR ''/'', CHR ''.'', CHR '':'', CHR ''?'', CHR ''#'', CHR '';''}"
  using simple_char_code [of c] by auto

lemma path_char_not: "path_char c \<Longrightarrow> c \<notin> {CHR 0x09, CHR 0x0D, CHR 0x0A, CHR ''?'', CHR ''#'', CHR '';'', CHR '':''}"
  using path_char_code [of c] by auto

lemma digit_not: "is_digit c \<Longrightarrow> c \<notin> {CHR 0x09, CHR 0x0D, CHR 0x0A, CHR ''?'', CHR ''#'', CHR ''/'', CHR ''['', CHR '']'', CHR ''@'', CHR ''%'', CHR '','', CHR '':''} \<and> (of_char c :: nat) < 128"
  by (auto simp: is_digit_def)

lemma digits_absent: "list_all is_digit ds \<Longrightarrow> c \<in> {CHR ''/'', CHR ''['', CHR ''@'', CHR ''%'', CHR '','', CHR '':''} \<Longrightarrow> c \<notin> set ds"
proof
  assume "list_all is_digit ds" "c \<in> set ds"
  then have "is_digit c" by (simp add: list_all_iff)
  moreover assume "c \<in> {CHR ''/'', CHR ''['', CHR ''@'', CHR ''%'', CHR '','', CHR '':''}"
  ultimately show False by (auto simp: is_digit_def)
qed

lemma takeWhile_all: "list_all P xs \<Longrightarrow> takeWhile P (xs @ ys) = xs @ takeWhile P ys" "list_all P xs \<Longrightarrow> dropWhile P (xs @ ys) = dropWhile P ys"
  by (induction xs) auto

lemma partition_absent: "c \<notin> set s \<Longrightarrow> partition_at c s = (s, False, [])"
proof -
  assume c: "c \<notin> set s"
  have t: "takeWhile (\<lambda>x. x \<noteq> c) s = s" using c by (induction s) auto
  have d: "dropWhile (\<lambda>x. x \<noteq> c) s = []" using c by (induction s) auto
  show ?thesis unfolding partition_at_def t d using c by simp
qed

lemma urlsplit_local:
  assumes ds: "list_all is_digit ds" and p: "simple_path p"
  shows "urlsplit nfkc (local_url ds p) = Inr (parts_url (netloc ds) p)"
proof -
  let ?d = "\<lambda>c. c \<notin> {CHR ''/'', CHR ''?'', CHR ''#''}"
  have clean: "filter (\<lambda>c. c \<notin> {CHR 0x09, CHR 0x0D, CHR 0x0A}) (ds @ p) = ds @ p"
    using assms path_char_not digit_not by (auto simp: simple_path_def list_all_iff intro!: filter_True)
  have d: "list_all ?d ds" using ds digit_not by (auto simp: list_all_iff)
  have hd: "takeWhile ?d p = []" "dropWhile ?d p = p" using p by (cases p; simp add: simple_path_def)+
  have part: "partition_at (CHR ''#'') p = (p, False, [])" "partition_at (CHR ''?'') p = (p, False, [])"
    using p path_char_not by (auto simp: simple_path_def list_all_iff intro!: partition_absent)
  have ok: "netloc_ok nfkc (netloc ds)" using ds digit_not by (auto simp: netloc_ok_def netloc_def list_all_iff)
  have "urlsplit nfkc (''http://'' @ netloc ds @ p) = (let nl = ''127.0.0.1:'' @ takeWhile ?d (ds @ p); r = dropWhile ?d (ds @ p);
      (url4, _, fragment) = partition_at (CHR ''#'') r; (path, _, query) = partition_at (CHR ''?'') url4
     in if netloc_ok nfkc nl then Inr \<lparr>u_scheme = ''http'', u_netloc = nl, u_path = path, u_query = query, u_fragment = fragment\<rparr> else Inl (ValueError ''url''))"
    using clean by (simp add: urlsplit_def netloc_def split_scheme_def partition_at_def is_alpha_def scheme_char_def lower_def lower_char_def starts_with_def)
  also have "\<dots> = Inr \<lparr>u_scheme = ''http'', u_netloc = netloc ds, u_path = p, u_query = [], u_fragment = []\<rparr>"
    using d hd part ok by (simp add: takeWhile_all netloc_def)
  finally show ?thesis by (simp add: local_url_def parts_url_def)
qed

lemma split_absent: "c \<notin> set s \<Longrightarrow> split_on c s = [s]" "c \<notin> set s \<Longrightarrow> split_on c (s @ [c]) = [s, []]"
  by (induction s) auto

definition segment :: "string \<Rightarrow> bool" where
  "segment s \<longleftrightarrow> s \<noteq> [] \<and> list_all simple_char s"

lemma segment_not: "segment s \<Longrightarrow> c \<in> {CHR ''/'', CHR ''.'', CHR '':'', CHR ''?'', CHR ''#'', CHR '';''} \<Longrightarrow> c \<notin> set s"
  using simple_char_not by (auto simp: segment_def list_all_iff)

lemma urlsplit_segment:
  assumes s: "segment s"
  shows "urlsplit nfkc (s @ ''/'') = Inr \<lparr>u_scheme = [], u_netloc = [], u_path = s @ ''/'', u_query = [], u_fragment = []\<rparr>"
proof -
  obtain x xs where x: "s = x # xs" "simple_char x" using s by (cases s) (auto simp: segment_def)
  have ctl: "dropWhile (\<lambda>c. (of_char c :: nat) \<le> 32) (s @ ''/'') = s @ ''/''" using x simple_char_code [OF x(2)] by simp
  have clean: "filter (\<lambda>c. c \<notin> {CHR 0x09, CHR 0x0D, CHR 0x0A}) (s @ ''/'') = s @ ''/''"
    using s path_char_not by (auto simp: segment_def list_all_iff path_char_def intro!: filter_True)
  have part: "partition_at c (s @ ''/'') = (s @ ''/'', False, [])" if "c \<in> {CHR '':'', CHR ''?'', CHR ''#''}" for c
    using segment_not [OF s, of c] that by (intro partition_absent) auto
  have "\<not> starts_with ''//'' (s @ ''/'')" using x segment_not [OF s, of "CHR ''/''"] by (auto simp: starts_with_def)
  then show ?thesis
    unfolding urlsplit_def ctl clean split_scheme_def by (simp add: part netloc_ok_def)
qed

lemma without_params_absent: "CHR '';'' \<notin> set p \<Longrightarrow> without_params p = p \<and> params_of p = []"
proof -
  assume p: "CHR '';'' \<notin> set p"
  define seg where "seg = rev (takeWhile (\<lambda>c. c \<noteq> CHR ''/'') (rev p))"
  have sub: "set seg \<subseteq> set p" by (auto simp: seg_def dest: set_takeWhileD)
  have whole: "take (length p - length seg) p @ seg = p"
  proof -
    have "p = rev (dropWhile (\<lambda>c. c \<noteq> CHR ''/'') (rev p)) @ seg" unfolding seg_def by (metis rev_append rev_rev_ident takeWhile_dropWhile_id)
    then show ?thesis by (metis append_eq_conv_conj length_append add_diff_cancel_right')
  qed
  have "CHR '';'' \<notin> set seg" using sub p by auto
  from partition_absent [OF this] have c: "takeWhile (\<lambda>c. c \<noteq> CHR '';'') seg = seg" "drop 1 (dropWhile (\<lambda>c. c \<noteq> CHR '';'') seg) = []"
    by (simp_all add: partition_at_def)
  show ?thesis unfolding without_params_def params_of_def seg_def [symmetric] Let_def c whole by simp
qed

lemma http_uses: "''http'' \<in> set uses_params" "''http'' \<in> set uses_relative" "''http'' \<in> set uses_netloc"
  by (simp_all add: uses_params_def uses_relative_def uses_netloc_def)

lemma parse_local:
  assumes "list_all is_digit ds" "simple_path p"
  shows "parse_url nfkc sch (local_url ds p) = Inr (parts_url (netloc ds) p, [])" "urlparse nfkc (local_url ds p) = Inr (parts_url (netloc ds) p)"
proof -
  have "CHR '';'' \<notin> set p" using assms(2) path_char_not by (auto simp: simple_path_def list_all_iff)
  note w = without_params_absent [OF this]
  show "parse_url nfkc sch (local_url ds p) = Inr (parts_url (netloc ds) p, [])"
    unfolding parse_url_def urlsplit_local [OF assms] by (simp add: w http_uses(1))
  show "urlparse nfkc (local_url ds p) = Inr (parts_url (netloc ds) p)"
    unfolding urlparse_def urlsplit_local [OF assms] by (simp add: w http_uses(1))
qed

lemma parse_segment:
  assumes "segment s"
  shows "parse_url nfkc ''http'' (s @ ''/'') = Inr (parts_url [] (s @ ''/''), [])"
proof -
  have "CHR '';'' \<notin> set (s @ ''/'')" using segment_not [OF assms, of "CHR '';''"] by simp
  note w = without_params_absent [OF this]
  show ?thesis unfolding parse_url_def urlsplit_segment [OF assms] by (simp add: w http_uses(1) parts_url_def)
qed

text \<open>The address of a served agent.\<close>

lemma join_local:
  assumes ds: "list_all is_digit ds" and s: "segment s"
  shows "urljoin nfkc (local_url ds ''/'') (s @ ''/'') = Inr (local_url ds (''/'' @ s @ ''/''))"
proof -
  have root: "simple_path ''/''" by (simp add: simple_path_def path_char_def)
  have "split_on (CHR ''/'') (s @ ''/'') = [s, []]" using segment_not [OF s, of "CHR ''/''"] by (intro split_absent) auto
  moreover have "\<not> starts_with ''/'' (s @ ''/'')" using s segment_not [OF s, of "CHR ''/''"] by (cases s) (auto simp: starts_with_def segment_def)
  moreover have ne: "s \<noteq> []" "s \<noteq> ''.''" "s \<noteq> ''..''" using s segment_not [OF s, of "CHR ''.''"] by (auto simp: segment_def)
  ultimately have j: "join ''/'' (resolve_dots (merge_paths ''/'' (s @ ''/''))) = ''/'' @ s @ ''/''"
    by (simp add: merge_paths_def inner_nonempty_def resolve_dots_def)
  have "local_url ds ''/'' \<noteq> []" by (simp add: local_url_def)
  then have "urljoin nfkc (local_url ds ''/'') (s @ ''/'') = Inr (urlunparse (parts_url (netloc ds) (''/'' @ s @ ''/'')) [])"
    unfolding urljoin_def parse_local(1) [OF ds root] by (simp add: parse_segment [OF s] http_uses j [simplified])
  also have "urlunparse (parts_url (netloc ds) (''/'' @ s @ ''/'')) [] = local_url ds (''/'' @ s @ ''/'')"
    by (simp add: urlunparse_def netloc_def local_url_def)
  finally show ?thesis .
qed

lemma solid_local: "list_all is_digit ds \<Longrightarrow> list_all path_char p \<Longrightarrow> solid (local_url ds p)"
proof -
  assume ds: "list_all is_digit ds" and p: "list_all path_char p"
  have "solid p" using p path_char_code by (fastforce simp: solid_def list_all_iff ascii_def is_space_def)
  moreover have "solid ds" using ds by (rule digits_solid)
  moreover have "solid ''http://127.0.0.1:''" by (simp add: solid_def ascii_def is_space_def)
  ultimately show ?thesis by (simp add: solid_def local_url_def netloc_def)
qed

lemma drop_none: "\<forall>x \<in> set xs. \<not> P x \<Longrightarrow> dropWhile P xs = xs"
  by (cases xs) auto

lemma join_url_local:
  assumes ds: "list_all is_digit ds" and s: "prefix = [] \<or> (\<exists>s. prefix = ''/'' @ s \<and> segment s)"
  shows "join_url nfkc (local_url ds ''/'') prefix = Inr (local_url ds (prefix @ ''/''))"
proof -
  have strip: "py_strip (local_url ds ''/'') = local_url ds ''/''" using ds by (intro solid_strip solid_local) (simp_all add: path_char_def)
  have ne: "local_url ds ''/'' \<noteq> []" "last (local_url ds ''/'') = CHR ''/''" by (simp_all add: local_url_def)
  have slash: "strip_of {CHR ''/''} (''/'' @ s) = s" if "segment s" for s
  proof -
    have "CHR ''/'' \<notin> set s" using segment_not [OF that, of "CHR ''/''"] by simp
    then have "dropWhile (\<lambda>c. c \<in> {CHR ''/''}) s = s" "dropWhile (\<lambda>c. c \<in> {CHR ''/''}) (rev s) = rev s"
      by (auto intro!: drop_none)
    then show ?thesis by (simp add: strip_of_def rstrip_chars_def)
  qed
  show ?thesis
    using s
  proof (elim disjE exE conjE)
    fix s assume p: "prefix = ''/'' @ s" and s: "segment s"
    have "s \<noteq> []" using s by (simp add: segment_def)
    then show ?thesis unfolding p join_url_def strip slash [OF s] using ne join_local [OF ds s] by simp
  qed (use strip ne in \<open>simp add: join_url_def strip_of_def rstrip_chars_def\<close>)
qed

section \<open>Routing\<close>

text \<open>What loading the configuration makes sure of: the root agent, and one segment for each other.\<close>

definition served_ok :: "string \<times> agent \<Rightarrow> bool" where
  "served_ok = (\<lambda>(k, a). a_slug a = k \<and> (if k = [] then a_path a = [] \<and> a_tenant a = []
     else \<exists>s. a_path a = ''/'' @ s \<and> s \<noteq> [] \<and> CHR ''/'' \<notin> set s \<and> s \<notin> reserved_paths))"

lemma split_on_no_sep: "x \<in> set (split_on c s) \<Longrightarrow> c \<notin> set x"
proof (induction s arbitrary: x)
  case (Cons y s)
  then show ?case by (cases "split_on c s") (auto split: if_splits)
qed simp

lemma split_on_nonempty [simp]: "split_on c s \<noteq> []"
  by (cases s) (auto split: list.splits)

lemma clean_slug_segment: "CHR ''/'' \<notin> set (clean_slug v)"
  using split_on_no_sep [OF hd_in_set [OF split_on_nonempty], of "CHR ''/''"] by (simp add: clean_slug_def Let_def)

lemma load_agent_ok:
  assumes "load_agent active e (agents, tenants) = Inr (agents1, tenants1)" "list_all served_ok agents" "map_of agents [] = Some r"
  shows "list_all served_ok agents1 \<and> map_of agents1 [] = Some r"
proof -
  obtain key val where e: "e = (key, val)" by (cases e)
  define slug where "slug = clean_slug (py_str (py_or (jget val ''slug'') (py_or (jget val ''id'') (JStr key))))"
  define seg where "seg = clean_slug (text_or (jget val ''path'') slug)"
  consider "agents1 = agents"
    | a where "agents1 = AList.update slug a agents" "slug \<noteq> []" "seg \<noteq> []" "seg \<notin> reserved_paths" "a_slug a = slug" "a_path a = CHR ''/'' # seg"
    using assms(1) unfolding e load_agent_def Let_def prod.case slug_def [symmetric] seg_def [symmetric] by (auto split: if_splits)
  then show ?thesis
  proof cases
    case (2 a)
    have "served_ok (slug, a)" using 2 clean_slug_segment by (simp add: served_ok_def seg_def)
    moreover have "set (AList.update slug a m) \<subseteq> insert (slug, a) (set m)" for m by (induction m) auto
    ultimately have "list_all served_ok agents1" using assms(2) unfolding 2(1) list_all_iff by blast
    then show ?thesis using assms(3) 2(1,2) by (simp add: update_conv)
  qed (use assms in simp)
qed

lemma load_agents_ok:
  "load_agents active es (agents, tenants) = Inr (agents1, tenants1) \<Longrightarrow> list_all served_ok agents \<Longrightarrow> map_of agents [] = Some r \<Longrightarrow>
     list_all served_ok agents1 \<and> map_of agents1 [] = Some r"
proof (induction es arbitrary: agents tenants)
  case (Cons e es)
  then obtain agents2 tenants2 where "load_agent active e (agents, tenants) = Inr (agents2, tenants2)" "load_agents active es (agents2, tenants2) = Inr (agents1, tenants1)"
    by auto
  then show ?case using load_agent_ok Cons by blast
qed simp

lemma load_served_ok:
  assumes "load_served_agents active r extra cfg = Inr agents" "a_slug r = []" "a_path r = []" "a_tenant r = []"
  shows "list_all served_ok agents" "map_of agents [] = Some r"
proof -
  obtain es tenants where "load_agents active es ([([], r)], []) = Inr (agents, tenants)"
    using assms(1) by (auto simp: load_served_agents_def)
  from load_agents_ok [OF this, of r] assms(2-4) show "list_all served_ok agents" "map_of agents [] = Some r" by (simp_all add: served_ok_def)
qed

text \<open>A path below an agent's own is routed to it.\<close>

lemma prefix_first_segment:
  assumes "a_path b = CHR ''/'' # sb" "CHR ''/'' \<notin> set sb" "prefix_of (CHR ''/'' # p) b"
  shows "takeWhile (\<lambda>c. c \<noteq> CHR ''/'') p = sb"
proof -
  have "p = sb \<or> (\<exists>r. p = sb @ CHR ''/'' # r)" using assms(1,3) by (auto simp: prefix_of_def starts_with_iff)
  then show ?thesis using assms(2) by (auto simp: takeWhile_append takeWhile_eq_all_conv)
qed

lemma urlsplit_path:
  assumes "simple_path p" "p \<noteq> []" "\<not> starts_with ''//'' p"
  shows "\<exists>u. urlsplit nfkc p = Inr u \<and> u_path u = p"
proof -
  obtain q where q: "p = CHR ''/'' # q" using assms(1,2) by (cases p) (auto simp: simple_path_def)
  have ctl: "dropWhile (\<lambda>c. (of_char c :: nat) \<le> 32) p = p" by (simp add: q)
  have clean: "filter (\<lambda>c. c \<notin> {CHR 0x09, CHR 0x0D, CHR 0x0A}) p = p"
    using assms(1) path_char_not by (auto simp: simple_path_def list_all_iff intro!: filter_True)
  have part: "partition_at c p = (p, False, [])" if "c \<in> {CHR '':'', CHR ''?'', CHR ''#''}" for c
    using assms(1) path_char_not that by (intro partition_absent) (auto simp: simple_path_def list_all_iff)
  show ?thesis using assms(3) unfolding urlsplit_def ctl clean split_scheme_def by (simp add: part netloc_ok_def)
qed

lemma route_own:
  assumes ok: "list_all served_ok agents" and dist: "distinct (map (a_path \<circ> snd) agents)" and root: "map_of agents [] = Some r" and a: "(k, a) \<in> set agents"
    and sub: "simple_path (a_path a @ sub)" "hd sub = CHR ''/''" "sub \<noteq> []" "\<not> starts_with ''//'' (a_path a @ sub)"
    and res: "k = [] \<Longrightarrow> takeWhile (\<lambda>c. c \<noteq> CHR ''/'') (tl sub) \<in> insert [] reserved_paths"
  shows "route_for_path nfkc agents (a_path a @ sub) = Inr (a, sub)"
proof -
  define path where "path = a_path a @ sub"
  have path: "simple_path path" "path \<noteq> []" "\<not> starts_with ''//'' path" using sub by (auto simp: path_def)
  obtain u where u: "urlsplit nfkc path = Inr u" "u_path u = path" using urlsplit_path [OF path] by blast
  define L where "L = filter (prefix_of path) (sort_key (\<lambda>a. - int (py_len (a_path a))) (map snd agents))"
  have same: "b = a" if "(k', b) \<in> set agents" "a_path b = a_path a" for k' b
  proof -
    have "inj_on (a_path \<circ> snd) (set agents)" using dist by (simp add: distinct_map)
    from inj_onD [OF this _ that(1) a] that(2) show ?thesis by simp
  qed
  have own: "\<exists>k' sb. (k', b) \<in> set agents \<and> a_path b = CHR ''/'' # sb \<and> sb \<noteq> [] \<and> sb \<notin> reserved_paths \<and> takeWhile (\<lambda>c. c \<noteq> CHR ''/'') (tl path) = sb"
    if "b \<in> set L" for b
  proof -
    from that obtain k' where b: "(k', b) \<in> set agents" "prefix_of path b" by (auto simp: L_def)
    have "k' \<noteq> []" using b ok by (fastforce simp: served_ok_def list_all_iff prefix_of_def)
    then obtain sb where sb: "a_path b = CHR ''/'' # sb" "sb \<noteq> []" "CHR ''/'' \<notin> set sb" "sb \<notin> reserved_paths"
      using b(1) ok by (fastforce simp: served_ok_def list_all_iff)
    moreover obtain q where "path = CHR ''/'' # q" using path(1,2) by (cases path) (auto simp: simple_path_def)
    ultimately show ?thesis using prefix_first_segment [of b sb q] b by auto
  qed
  have route: "route_for_path nfkc agents path = (case L of b # _ \<Rightarrow> (let q = drop (length (a_path b)) path in Inr (b, if q = [] then ''/'' else q))
      | [] \<Rightarrow> (case map_of agents [] of Some b \<Rightarrow> Inr (b, path) | None \<Rightarrow> Inl (KeyError [])))"
    unfolding route_for_path_def using u path(2) by (simp add: L_def Let_def) (simp only: u(2))
  show ?thesis
  proof (cases "k = []")
    case True
    then have "a_path a = []" using ok a by (fastforce simp: served_ok_def list_all_iff)
    moreover have "a = r" using root same [of "[]" r] ok \<open>a_path a = []\<close> map_of_SomeD [OF root] by (fastforce simp: served_ok_def list_all_iff)
    moreover have "L = []" using own res [OF True] \<open>a_path a = []\<close> by (cases L) (auto simp: path_def)
    ultimately show ?thesis using route root by (simp add: path_def)
  next
    case False
    then obtain s where s: "a_path a = CHR ''/'' # s" "s \<noteq> []" "CHR ''/'' \<notin> set s" using ok a by (fastforce simp: served_ok_def list_all_iff)
    have first: "takeWhile (\<lambda>c. c \<noteq> CHR ''/'') (tl path) = s"
      using s sub(2,3) by (cases sub) (auto simp: path_def takeWhile_append takeWhile_eq_all_conv)
    have "prefix_of path a" using s sub(2,3) by (cases sub) (auto simp: prefix_of_def path_def starts_with_def)
    then have "a \<in> set L" using a by (force simp: L_def)
    moreover have "b = a" if "b \<in> set L" for b using own [OF that] first s(1) same by auto
    ultimately obtain bs where "L = a # bs" by (cases L) auto
    then show ?thesis using route sub(3) by (simp add: path_def)
  qed
qed

section \<open>Discovery\<close>

lemma local_host:
  assumes ds: "port_text ds" and p: "simple_path p"
  shows "hostname (parts_url (netloc ds) p) = ''127.0.0.1''" "is_loopback_url nfkc (local_url ds p)"
proof -
  have d: "c \<notin> set ds" if "c \<in> {CHR ''@'', CHR ''['', CHR '':'', CHR ''%''}" for c
    using ds that by (intro digits_absent) (auto simp: port_text_def)
  have "CHR ''@'' \<notin> set (netloc ds)" "CHR ''['' \<notin> set (netloc ds)" using d [of "CHR ''@''"] d [of "CHR ''[''"] by (simp_all add: netloc_def)
  then have at: "rpartition_at (CHR ''@'') (netloc ds) = ([], False, netloc ds)" and br: "partition_at (CHR ''['') (netloc ds) = (netloc ds, False, [])"
    by (auto simp: rpartition_at_def intro: partition_absent)
  have col: "partition_at (CHR '':'') (netloc ds) = (''127.0.0.1'', True, ds)" by (simp add: partition_at_def netloc_def)
  have hi: "hostinfo (parts_url (netloc ds) p) = (''127.0.0.1'', ds)" by (simp add: hostinfo_def at br col)
  show h: "hostname (parts_url (netloc ds) p) = ''127.0.0.1''"
    by (simp add: hostname_def hi partition_at_def lower_def lower_char_def)
  have "ip_address ''127.0.0.1'' = Some (IPv4Address 2130706433)" by code_simp
  moreover have "\<not> has_credentials (parts_url (netloc ds) p)" by (simp add: has_credentials_def userinfo_def at partition_at_def)
  moreover have "url_port (parts_url (netloc ds) p) = Inr (Some (decimal ds))" using ds by (simp add: url_port_def hi port_text_def)
  ultimately show "is_loopback_url nfkc (local_url ds p)"
    using parse_local(2) [OF _ p, of ds nfkc] ds h by (simp add: is_loopback_url_def port_text_def)
qed

lemma rstrip_one: "w \<noteq> [] \<Longrightarrow> last w \<noteq> CHR ''/'' \<Longrightarrow> rstrip_slash (w @ ''/'') = w"
  by (cases w rule: rev_cases) (auto simp: rstrip_slash_def rstrip_chars_def)

lemma select_card:
  assumes ds: "port_text ds" and p: "simple_path p" "p = q @ ''/''" "q = [] \<or> last q \<noteq> CHR ''/''" and e: "urlparse nfkc endpoint = Inr ex"
  shows "\<exists>link. select_link nfkc endpoint (build_agent_card org provider name (local_url ds p) desc skills st push auth tenant) = Inr link
     \<and> l_rpc_url link = local_url ds p \<and> l_tenant link = tenant"
proof -
  have dig: "list_all is_digit ds" "ds \<noteq> []" using ds by (auto simp: port_text_def)
  have strip: "py_strip (local_url ds p) = local_url ds p" using dig p(1) by (intro solid_strip solid_local) (simp_all add: simple_path_def)
  have ne: "local_url ds p \<noteq> []" by (simp add: local_url_def)
  have digit_last: "last ds \<noteq> CHR ''/''" using last_in_set [OF dig(2)] digits_absent [OF dig(1), of "CHR ''/''"] by auto
  have "rstrip_slash (local_url ds p) @ ''/'' = local_url ds p"
  proof -
    have "last (''http://'' @ netloc ds @ q) \<noteq> CHR ''/''" using p(3) digit_last dig(2) by (cases "q = []") (simp_all add: netloc_def)
    from rstrip_one [OF _ this] have "rstrip_slash (''http://'' @ netloc ds @ q @ ''/'') = ''http://'' @ netloc ds @ q" by simp
    then show ?thesis by (simp add: local_url_def p(2))
  qed
  moreover have "hostname (parts_url (netloc ds) p) = ''127.0.0.1''" "is_loopback_url nfkc (local_url ds p)" using local_host [OF ds p(1)] by auto
  ultimately show ?thesis
    using parse_local(2) [OF dig(1) p(1), of nfkc] e ne strip
    by (cases "tenant = []") (simp_all add: select_link_def build_agent_card_def Let_def py_or_def)
qed

text \<open>The request for a card over the loopback interface, without a proxy in between.\<close>

definition card_request :: "string \<Rightarrow> string \<Rightarrow> get_request" where
  "card_request ds path = \<lparr>g_path = path @ ''/.well-known/agent-card.json'', g_client_ip = ''127.0.0.1'', g_authorization = None,
     g_host = Some (netloc ds), g_forwarded_host = None, g_forwarded_proto = None\<rparr>"

lemma request_public_local:
  assumes ds: "list_all is_digit ds" and c: "c_public_url c = []"
  shows "request_public_url c (card_request ds path) = local_url ds ''/''"
proof -
  have "CHR '','' \<notin> set (netloc ds)" using digits_absent [OF ds, of "CHR '',''"] by (simp add: netloc_def)
  moreover have "py_strip (netloc ds) = netloc ds" "py_strip ''http'' = ''http''"
    using digits_solid [OF ds] by (auto intro!: solid_strip simp: netloc_def solid_def ascii_def is_space_def)
  ultimately show ?thesis
    using c by (simp add: request_public_url_def card_request_def header_or_def split_absent local_url_def netloc_def)
qed

lemma card_of_local:
  assumes ds: "port_text ds" and p: "a_path a = [] \<or> (\<exists>s. a_path a = ''/'' @ s \<and> segment s)" and sk: "advertised_skills env (a_toolsets a) = Inr skills"
  shows "build_card env c (Some (local_url ds ''/'')) a = Inr (build_agent_card (ce_org env) (ce_provider env) (if a_name a = [] then c_name c else a_name a)
     (local_url ds (a_path a @ ''/'')) (if a_description a = [] then default_description else a_description a) skills (a_local a) True (\<not> localhost_only (c_security c)) (a_tenant a))"
proof -
  have dig: "list_all is_digit ds" using ds by (simp add: port_text_def)
  have "py_strip (local_url ds ''/'') = local_url ds ''/''" using dig by (intro solid_strip solid_local) (simp_all add: path_char_def)
  then have "base_url c (Some (local_url ds ''/'')) = local_url ds ''/''" by (simp add: base_url_def local_url_def)
  then show ?thesis using join_url_local [OF dig p, of "ce_nfkc env"] sk by (simp add: build_card_def)
qed

text \<open>Below a plain path, every path that does not start with two slashes is plain as well.\<close>

lemma plain_paths:
  assumes p: "path = [] \<or> (\<exists>s. path = ''/'' @ s \<and> segment s)"
    and sub: "list_all path_char sub" "hd sub = CHR ''/''" "sub \<noteq> []" "hd (tl sub) \<noteq> CHR ''/'' \<or> tl sub = []"
  shows "simple_path (path @ sub)" "\<not> starts_with ''//'' (path @ sub)"
proof -
  have "list_all path_char path" using p by (auto simp: segment_def list_all_iff path_char_def)
  then show "simple_path (path @ sub)" using sub p by (auto simp: simple_path_def)
  have "\<exists>y ys. s = y # ys \<and> y \<noteq> CHR ''/''" if "segment s" for s
    using that segment_not [OF that, of "CHR ''/''"] by (cases s) (auto simp: segment_def)
  then show "\<not> starts_with ''//'' (path @ sub)" using p sub by (cases sub; cases "tl sub") (fastforce simp: starts_with_def)+
qed

text \<open>C37: The card the adapter serves for one of its agents, asked directly at 127.0.0.1 with no public URL configured, is accepted by the
  broker's discovery, and a request the broker then sends to the advertised address, with the advertised tenant, is routed to that very
  agent - if the paths of the served agents are distinct (see \<open>same_path_unreachable\<close> for when they are not) and the agent's path is empty
  or a single plain name.\<close>

theorem card_reaches_agent:
  assumes load: "load_served_agents profile r extra cfg = Inr (c_agents c)" and r: "a_slug r = []" "a_path r = []" "a_tenant r = []"
    and dist: "distinct (map (a_path \<circ> snd) (c_agents c))" and a: "(k, a) \<in> set (c_agents c)" "a_path a = [] \<or> segment (tl (a_path a))"
    and ds: "port_text ds" and pub: "c_public_url c = []" and sk: "advertised_skills env (a_toolsets a) = Inr skills"
    and e: "urlparse (ce_nfkc env) endpoint = Inr ex" and params: "is_obj params" "\<not> jhas params ''tenant''"
  shows "\<exists>card link u. do_GET env c uptime m (card_request ds (a_path a)) = Inr (200, card) \<and> select_link (ce_nfkc env) endpoint card = Inr link
    \<and> urlsplit (ce_nfkc env) (l_rpc_url link) = Inr u
    \<and> route_for_request (ce_nfkc env) (c_agents c) (u_path u) (jget (rpc_body (l_tenant link) rid method params) ''params'') = Inr (Routed a ''/'')"
proof -
  note ok = load_served_ok [OF load r]
  have sa: "served_ok (k, a)" using ok(1) a(1) by (auto simp: list_all_iff)
  have p: "a_path a = [] \<or> (\<exists>s. a_path a = ''/'' @ s \<and> segment s)"
    using sa a(2) by (cases "a_path a") (auto simp: served_ok_def split: if_splits)
  note paths = plain_paths [OF p]
  have route: "route_for_path (ce_nfkc env) (c_agents c) (a_path a @ sub) = Inr (a, sub)" if "sub \<in> {''/'', ''/.well-known/agent-card.json''}" for sub
  proof (rule route_own [OF ok(1) dist ok(2) a(1)])
    show "simple_path (a_path a @ sub)" "\<not> starts_with ''//'' (a_path a @ sub)"
      using that paths [of sub] by (auto simp: path_char_def simple_char_def alnum_def is_alpha_def)
  qed (use that in \<open>auto simp: reserved_paths_def\<close>)
  define card where "card = build_agent_card (ce_org env) (ce_provider env) (if a_name a = [] then c_name c else a_name a) (local_url ds (a_path a @ ''/''))
    (if a_description a = [] then default_description else a_description a) skills (a_local a) True (\<not> localhost_only (c_security c)) (a_tenant a)"
  have dig: "list_all is_digit ds" using ds by (simp add: port_text_def)
  have get: "do_GET env c uptime m (card_request ds (a_path a)) = Inr (200, card)"
  proof -
    have g: "g_path (card_request ds (a_path a)) = a_path a @ ''/.well-known/agent-card.json''" by (simp add: card_request_def)
    have "rstrip_slash ''/.well-known/agent-card.json'' = ''/.well-known/agent-card.json''" by (simp add: rstrip_slash_def rstrip_chars_def)
    moreover have "local_url ds ''/'' \<noteq> []" by (simp add: local_url_def)
    ultimately show ?thesis
      unfolding do_GET_def g route [OF insertI2 [OF singletonI]] request_public_local [OF dig pub]
      using card_of_local [OF ds p sk, of c] by (simp add: card_paths_def card_def)
  qed
  have sp: "simple_path (a_path a @ ''/'')" by (rule paths) (simp_all add: path_char_def)
  have "a_path a = [] \<or> last (a_path a) \<noteq> CHR ''/''"
    using p segment_not [of _ "CHR ''/''"] by (auto simp: segment_def) (metis last_in_set insertI1)
  from select_card [OF ds sp refl this e] obtain link where link: "select_link (ce_nfkc env) endpoint card = Inr link"
    "l_rpc_url link = local_url ds (a_path a @ ''/'')" "l_tenant link = a_tenant a"
    unfolding card_def by blast
  have t: "text_or (jget (jget (rpc_body (a_tenant a) rid method params) ''params'') ''tenant'') [] = a_tenant a"
    using params by (cases params) (auto simp: rpc_body_def text_or_def py_or_def update_conv)
  have "route_for_request (ce_nfkc env) (c_agents c) (a_path a @ ''/'') (jget (rpc_body (a_tenant a) rid method params) ''params'') = Inr (Routed a ''/'')"
    unfolding route_for_request_def route [OF insertI1] bind_r_simps prod.case t Let_def using sa by (auto simp: served_ok_def split: if_splits)
  then show ?thesis using get link urlsplit_local [OF dig sp, of "ce_nfkc env"] by auto
qed

definition demo_extra :: json where
  "demo_extra = JObj [(''agents'', JObj [(''coder'', JObj [(''name'', JStr ''Coder'')]), (''writer'', JObj [(''path'', JStr ''/docs/''), (''tenant'', JStr ''w'')])])]"

definition demo_root :: agent where
  "demo_root = root_agent ''default'' ''Hermes'' [] (\<lambda>_. None)"

definition demo_agents :: "(string \<times> agent) list" where
  "demo_agents = projr (load_served_agents ''default'' demo_root demo_extra (Inl OSError))"

definition demo_writer :: agent where
  "demo_writer = the (map_of demo_agents ''writer'')"

definition demo_security :: "string \<Rightarrow> security_context" where
  "demo_security token = \<lparr>sc_bearer_token = token, sc_peer_tokens = [], sc_trusted_peers = {}, sc_allow_all_users = False, sc_requested_host = ''127.0.0.1'',
     sc_push_secret = []\<rparr>"

definition demo_config :: adapter_config where
  "demo_config = \<lparr>c_security = demo_security [], c_port = 9900, c_host = ''127.0.0.1'', c_name = ''Hermes'', c_toolsets = [], c_profile = ''default'',
     c_public_url = [], c_agents = demo_agents\<rparr>"

definition demo_cards :: card_env where
  "demo_cards = \<lparr>ce_org = None, ce_provider = None, ce_registry = Inl OSError, ce_nfkc = (\<lambda>_. True)\<rparr>"

lemma demo_agents_facts:
  "load_served_agents ''default'' demo_root demo_extra (Inl OSError) = Inr demo_agents" "distinct (map (a_path \<circ> snd) demo_agents)"
  "(''writer'', demo_writer) \<in> set demo_agents" "a_path demo_writer = ''/docs''" "a_tenant demo_writer = ''w''"
  by code_simp+

theorem card_reaches_agent_witness:
  "\<exists>card link u. do_GET demo_cards demo_config 0 new_metrics (card_request ''9900'' ''/docs'') = Inr (200, card)
    \<and> select_link (\<lambda>_. True) ''http://127.0.0.1:9900/docs'' card = Inr link \<and> urlsplit (\<lambda>_. True) (l_rpc_url link) = Inr u
    \<and> route_for_request (\<lambda>_. True) demo_agents (u_path u) (jget (rpc_body (l_tenant link) ''1'' ''GetTask'' (JObj [(''id'', JStr ''t'')])) ''params'') =
        Inr (Routed demo_writer ''/'')"
proof -
  have "\<not> isl (advertised_skills demo_cards (a_toolsets demo_writer))" "\<not> isl (urlparse (ce_nfkc demo_cards) ''http://127.0.0.1:9900/docs'')" by code_simp+
  then obtain skills ex where s: "advertised_skills demo_cards (a_toolsets demo_writer) = Inr skills" and e: "urlparse (ce_nfkc demo_cards) ''http://127.0.0.1:9900/docs'' = Inr ex"
    by (metis isl_def sum.exhaust)
  have r: "a_slug demo_root = []" "a_path demo_root = []" "a_tenant demo_root = []" by (simp_all add: demo_root_def root_agent_def)
  have c: "c_agents demo_config = demo_agents" "c_public_url demo_config = []" by (simp_all add: demo_config_def)
  have p: "a_path demo_writer = [] \<or> segment (tl (a_path demo_writer))" "port_text ''9900''" by code_simp+
  note loaded = demo_agents_facts(1-3) [folded c(1)]
  show ?thesis
    using card_reaches_agent [OF loaded(1) r loaded(2,3) p c(2) s e, of "JObj [(''id'', JStr ''t'')]" 0 new_metrics "''1''" "''GetTask''"]
    by (simp add: demo_agents_facts(4) c(1) demo_cards_def)
qed

section \<open>What a GET request tells\<close>

text \<open>To a caller without a credential, once the adapter serves others than the local host, the answer to a GET request depends on the agent it is routed to alone: two
  adapters that differ in any other served agent, tenant or profile answer alike.\<close>

theorem topology_hidden:
  assumes remote: "\<not> localhost_only (c_security c)" and anon: "authenticate (c_security c) (g_authorization rq) (g_client_ip rq) = Inr None"
    and same: "route_for_path (ce_nfkc env) agents (g_path rq) = route_for_path (ce_nfkc env) (c_agents c) (g_path rq)"
  shows "do_GET env (c\<lparr>c_agents := agents\<rparr>) uptime m rq = do_GET env c uptime m rq"
proof -
  have "base_url (c\<lparr>c_agents := agents\<rparr>) url = base_url c url" for url by (simp add: base_url_def Let_def)
  then have "build_card env (c\<lparr>c_agents := agents\<rparr>) url a = build_card env c url a" for url a by (simp add: build_card_def)
  moreover have "request_public_url (c\<lparr>c_agents := agents\<rparr>) rq = request_public_url c rq" by (simp add: request_public_url_def)
  ultimately show ?thesis
    using remote anon same by (cases "route_for_path (ce_nfkc env) (c_agents c) (g_path rq)") (auto simp: do_GET_def Let_def split: prod.splits)
qed

theorem topology_hidden_witness:
  "do_GET demo_cards (demo_config\<lparr>c_security := demo_security ''secret''\<rparr>\<lparr>c_agents := [([], demo_root)]\<rparr>) 0 new_metrics
     ((card_request ''9900'' [])\<lparr>g_path := ''/health''\<rparr>) =
   Inr (200, JObj [(''status'', JStr ''ok''), (''agent'', JStr ''Hermes'')])"
proof -
  let ?c = "demo_config\<lparr>c_security := demo_security ''secret''\<rparr>" and ?rq = "(card_request ''9900'' [])\<lparr>g_path := ''/health''\<rparr>"
  have a: "\<not> localhost_only (c_security ?c)" "authenticate (c_security ?c) (g_authorization ?rq) (g_client_ip ?rq) = Inr None"
    "route_for_path (ce_nfkc demo_cards) [([], demo_root)] (g_path ?rq) = route_for_path (ce_nfkc demo_cards) (c_agents ?c) (g_path ?rq)"
    by code_simp+
  have "do_GET demo_cards ?c 0 new_metrics ?rq = Inr (200, JObj [(''status'', JStr ''ok''), (''agent'', JStr ''Hermes'')])" by code_simp
  then show ?thesis using topology_hidden [OF a] by simp
qed

text \<open>Agents with the same path are both loaded; requests to the path reach the first, and the second's own tenant is refused there.\<close>

definition demo_twins :: json where
  "demo_twins = JObj [(''agents'', JObj [(''one'', JObj [(''path'', JStr ''same'')]), (''two'', JObj [(''path'', JStr ''same'')])])]"

lemma same_path_unreachable:
  "case load_served_agents ''default'' demo_root demo_twins (Inl OSError) of
     Inr agents \<Rightarrow> map fst agents = [[], ''one'', ''two''] \<and>
       (case route_for_request (\<lambda>_. True) agents ''/same/'' (JObj [(''tenant'', JStr ''two'')]) of Inr (Mismatch _) \<Rightarrow> True | _ \<Rightarrow> False)
   | Inl _ \<Rightarrow> False"
  by code_simp

end
