(* ===== verification/Gateway_Startup.thy ===== *)
theory Gateway_Startup
  imports Gateway_Settings Client_Command Dispatcher_Properties Mcp_Front
begin

text \<open>
  How the processes of the gateway start: settings read from the environment (\<open>client_settings.py\<close>, \<open>broker_settings.py\<close>), the entry points
  (\<open>cli.py\<close>, \<open>run_broker\<close>, \<open>run_client\<close>), the life of the broker's application, and the native command of \<open>native_delivery.py\<close>. The environment
  is a function from names to texts. \<open>float_of\<close> reads a text as a float, with \<open>Some None\<close> for one that is not finite; pydantic's validation is an
  argument, as is \<open>pathlib\<close>'s joining of paths.
\<close>

section \<open>The client's settings\<close>

record client_start = client_config +
  st_state_dir :: string
  st_ca_file :: "string option"
  st_codex_command :: string
  st_native_delivery :: bool

definition client_prefix :: string where "client_prefix = ''HERMES_A2A_GATEWAY_CLIENT_''"

definition setting :: "(string \<Rightarrow> string option) \<Rightarrow> string \<Rightarrow> string \<Rightarrow> string" where
  "setting env name d = (case env (client_prefix @ name) of Some v \<Rightarrow> v | None \<Rightarrow> d)"

definition setting_opt :: "(string \<Rightarrow> string option) \<Rightarrow> string \<Rightarrow> string option" where
  "setting_opt env name = (let v = setting env name [] in if v = [] then None else Some v)"

definition int_setting :: "string \<Rightarrow> exn + int" where
  "int_setting t = (case py_int t of Some n \<Rightarrow> Inr n | None \<Rightarrow> Inl (ValueError ''int''))"

definition float_setting :: "(string \<Rightarrow> rat option option) \<Rightarrow> string \<Rightarrow> exn + rat option" where
  "float_setting float_of t = (case float_of t of Some x \<Rightarrow> Inr x | None \<Rightarrow> Inl (ValueError ''float''))"

definition default_state_dir :: "(string \<Rightarrow> string \<Rightarrow> string) \<Rightarrow> string \<Rightarrow> string" where
  "default_state_dir joinpath home = joinpath home ''.local/state/hermes-a2a-gateway/client''"

text \<open>\<open>from_env\<close> up to the checks, in the order in which the arguments are read.\<close>

definition read_client_env :: "(string \<Rightarrow> rat option option) \<Rightarrow> (string \<Rightarrow> string \<Rightarrow> string) \<Rightarrow> string \<Rightarrow> (string \<Rightarrow> string option) \<Rightarrow> exn + client_start" where
  "read_client_env float_of joinpath home env =
     (let get = setting env in
      bind_r (float_setting float_of (get ''INLINE_WAIT_SECONDS'' ''15'')) (\<lambda>inline.
      bind_r (float_setting float_of (get ''REQUEST_TIMEOUT_SECONDS'' ''20'')) (\<lambda>timeout.
      bind_r (int_setting (get ''MAX_UPLOAD_BYTES'' ''8388608'')) (\<lambda>upload.
      bind_r (float_setting float_of (get ''RETENTION_SECONDS'' ''604800'')) (\<lambda>retention.
      bind_r (float_setting float_of (get ''PAYLOAD_TTL_SECONDS'' ''86400'')) (\<lambda>ttl.
      bind_r (int_setting (get ''MAX_PENDING'' ''256'')) (\<lambda>pending.
      bind_r (case setting_opt env ''SSH_PORT'' of Some t \<Rightarrow> map_sum id Some (int_setting t) | None \<Rightarrow> Inr None) (\<lambda>ssh_port.
      bind_r (int_setting (get ''SSH_LOCAL_PORT'' ''18790'')) (\<lambda>local_port.
      bind_r (int_setting (get ''SSH_REMOTE_PORT'' ''443'')) (\<lambda>remote_port.
      bind_r (int_setting (get ''SSH_CONNECT_TIMEOUT_SECONDS'' ''10'')) (\<lambda>connect_timeout.
        Inr \<lparr>k_broker_url = get ''BROKER_URL'' [], k_token = get ''TOKEN'' [], k_payload_key = get ''PAYLOAD_KEY'' [],
             k_allow_loopback_http = (lower (get ''ALLOW_LOOPBACK_HTTP'' ''false'') = ''true''),
             k_inline_wait_seconds = inline, k_request_timeout_seconds = timeout, k_retention_seconds = retention, k_payload_ttl_seconds = ttl,
             k_max_upload_bytes = upload, k_max_pending = pending, k_transport_mode = get ''TRANSPORT_MODE'' ''direct'',
             k_ssh_host = setting_opt env ''SSH_HOST'', k_ssh_user = setting_opt env ''SSH_USER'', k_ssh_port = ssh_port,
             k_ssh_identity_file = setting_opt env ''SSH_IDENTITY_FILE'', k_ssh_command = get ''SSH_COMMAND'' ''ssh'', k_ssh_local_port = local_port,
             k_ssh_remote_host = get ''SSH_REMOTE_HOST'' ''127.0.0.1'', k_ssh_remote_port = remote_port,
             k_ssh_tls_server_name = setting_opt env ''SSH_TLS_SERVER_NAME'', k_ssh_connect_timeout_seconds = connect_timeout,
             st_state_dir = get ''STATE_DIR'' (default_state_dir joinpath home), st_ca_file = setting_opt env ''CA_FILE'',
             st_codex_command = get ''CODEX_COMMAND'' ''codex'', st_native_delivery = (lower (get ''NATIVE_DELIVERY'' ''true'') = ''true'')\<rparr>)))))))))))"

definition client_from_env :: "(string \<Rightarrow> bool) \<Rightarrow> (string \<Rightarrow> bool) \<Rightarrow> (string \<Rightarrow> rat option option) \<Rightarrow> (string \<Rightarrow> string \<Rightarrow> string) \<Rightarrow> string
    \<Rightarrow> (string \<Rightarrow> string option) \<Rightarrow> exn + client_start" where
  "client_from_env nfkc fernet_key float_of joinpath home env =
     bind_r (read_client_env float_of joinpath home env) (\<lambda>k. bind_r (check_client nfkc fernet_key (client_config.truncate k)) (\<lambda>_. Inr k))"

definition socket_path :: "(string \<Rightarrow> string \<Rightarrow> string) \<Rightarrow> client_start \<Rightarrow> string" where
  "socket_path joinpath k = joinpath (st_state_dir k) ''client.sock''"

text \<open>The path the MCP front end takes from the environment by itself.\<close>

definition client_socket_path :: "(string \<Rightarrow> string \<Rightarrow> string) \<Rightarrow> string \<Rightarrow> (string \<Rightarrow> string option) \<Rightarrow> string" where
  "client_socket_path joinpath home env = joinpath (setting env ''STATE_DIR'' (default_state_dir joinpath home)) ''client.sock''"

section \<open>The broker's settings\<close>

definition broker_fields :: "string list" where
  "broker_fields = [''database_url'', ''device_tokens'', ''encryption_key'', ''public_url'', ''host'', ''port'', ''allow_loopback_http'', ''payload_ttl_seconds'',
     ''artifact_ttl_seconds'', ''event_ttl_seconds'', ''result_ttl_seconds'', ''max_artifact_bytes'', ''device_quota_bytes'', ''max_pending_per_device'',
     ''max_request_bytes'', ''max_result_bytes'', ''poll_seconds'', ''max_concurrent_streams'', ''peer_timeout_seconds'']"

text \<open>\<open>name.upper()\<close> of the names above.\<close>

definition upper :: "string \<Rightarrow> string" where
  "upper = map (\<lambda>c. if 97 \<le> (of_char c :: nat) \<and> of_char c \<le> (122 :: nat) then char_of (of_char c - 32 :: nat) else c)"

fun broker_values :: "(string \<Rightarrow> string option) \<Rightarrow> string list \<Rightarrow> exn + (string \<times> json) list" where
  "broker_values env [] = Inr []"
| "broker_values env (name # names) =
     (case env (''HERMES_A2A_GATEWAY_BROKER_'' @ upper name) of
        None \<Rightarrow> broker_values env names
      | Some given \<Rightarrow>
          bind_r (if name = ''device_tokens''
                  then (case json_loads given of Some j \<Rightarrow> Inr j | None \<Rightarrow> Inl (ValueError ''DEVICE_TOKENS must be a JSON device-to-token object''))
                  else Inr (JStr given)) (\<lambda>v. bind_r (broker_values env names) (\<lambda>vs. Inr ((name, v) # vs))))"

definition broker_from_env :: "((string \<times> json) list \<Rightarrow> exn + 'c) \<Rightarrow> (string \<Rightarrow> string option) \<Rightarrow> exn + 'c" where
  "broker_from_env model_validate env = bind_r (broker_values env broker_fields) model_validate"

section \<open>The broker's process\<close>

datatype broker_start = Refused string | Serving string int

definition run_broker :: "exn + string \<times> int \<Rightarrow> broker_start" where
  "run_broker loaded =
     (case loaded of
        Inl _ \<Rightarrow> Refused ''Invalid broker configuration; check HERMES_A2A_GATEWAY_BROKER_* environment variables''
      | Inr (host, port) \<Rightarrow> Serving host port)"

text \<open>The life of the application: the ledger is opened (or was given), and with \<open>dispatch\<close> the dispatcher runs until the server stops. What its
  worker raises is suppressed, as is its cancellation; a failure to take the lock or to recover is raised before anything is served. At
  most \<open>n\<close> turns are run.\<close>

definition broker_lifespan :: "broker_env \<Rightarrow> schedule \<Rightarrow> (nat \<Rightarrow> dispatcher \<Rightarrow> dispatcher) \<Rightarrow> bool \<Rightarrow> (nat \<Rightarrow> string) \<Rightarrow> bool \<Rightarrow> bool \<Rightarrow> nat \<Rightarrow> world
    \<Rightarrow> ((exn + unit) \<times> world) option" where
  "broker_lifespan env sc settle lock uuid4 opened dispatch n w =
     (if \<not> opened then Some (Inl (RuntimeError ''broker ledger initialization failed''), w)
      else if \<not> dispatch then Some (Inr (), w)
      else case start_p env sc lock uuid4 w of
        (Inl e, w1) \<Rightarrow> Some (Inl e, w1)
      | (Inr _, w1) \<Rightarrow>
          (case dispatch_turns env sc settle n new_dispatcher w1 of
             None \<Rightarrow> None
           | Some (r, d1, w2) \<Rightarrow> (case aclose env sc d1 w2 of (_, _, w3) \<Rightarrow> Some (Inr (), w3))))"

section \<open>The client's process\<close>

datatype listen_action = UnlinkPath | BindPath | ChmodPath nat | Listen nat | ServeApp | CloseListener | CloseStore

text \<open>The \<open>finally\<close> of \<open>run_client\<close>: a socket at the path is removed, whoever made it.\<close>

definition release_path :: "listen_action list \<Rightarrow> path_entry \<Rightarrow> listen_action list \<times> path_entry" where
  "release_path acts en =
     (if en \<noteq> NoEntry \<and> e_socket en then (acts @ [CloseListener, UnlinkPath, CloseStore], NoEntry) else (acts @ [CloseListener, CloseStore], en))"

text \<open>What is at the path, whether it can be bound, and how the server ended.\<close>

definition run_client :: "path_entry \<Rightarrow> bool \<Rightarrow> exn + unit \<Rightarrow> (exn + unit) \<times> listen_action list \<times> path_entry" where
  "run_client en bound served =
     (case claim_path en of
        Inl e \<Rightarrow> (Inl e, release_path [] en)
      | Inr _ \<Rightarrow>
          let acts = (if en = NoEntry then [] else [UnlinkPath]) in
          if \<not> bound then (Inl OSError, release_path acts NoEntry)
          else (served, release_path (acts @ [BindPath, ChmodPath 384, Listen 128, ServeApp]) (Entry True True)))"

datatype client_mode = RunClient | PrintDoctor | ClientUsage

definition client_main :: "string list \<Rightarrow> client_mode" where
  "client_main args = (if args = [''doctor''] then PrintDoctor else if args = [] then RunClient else ClientUsage)"

section \<open>The command line\<close>

text \<open>The command as \<open>argparse\<close> returns it; the doctor prints its report and exits with its verdict.\<close>

datatype cli_action = StartBroker | StartClient | StartClientMcp | Report json int

definition cli_main :: "json \<Rightarrow> string \<Rightarrow> cli_action option" where
  "cli_main doctor_report cmd =
     (if cmd = ''broker'' then Some StartBroker
      else if cmd = ''client'' then Some StartClient
      else if cmd = ''client-mcp'' then Some StartClientMcp
      else if cmd = ''client-doctor'' then Some (Report doctor_report (if truthy (jget doctor_report ''ok'') then 0 else 1))
      else None)"

section \<open>The native command\<close>

definition native_environment :: "(string \<times> string) list \<Rightarrow> (string \<times> string) list" where
  "native_environment env =
     filter (\<lambda>(k, _). \<not> list_ex (\<lambda>p. starts_with p k) [''CODEX_A2A_GATEWAY_'', ''HERMES_A2A_GATEWAY_'', ''CODEX_BRIDGE_'', ''HERMES_BRIDGE_'']
       \<and> k \<notin> {''HERMES_A2A_TOKEN'', ''A2A_GATEWAY_TOKEN''}) env"

text \<open>What becomes of the process: it is not started, does not end in time (and is killed), or ends with a code and its output.\<close>

datatype command_obs = NotStarted | TooSlow | Ended int bytes

datatype command_result = Output bytes | Failed exn | TimedOutKilled

definition native_command :: "command_obs \<Rightarrow> command_result" where
  "native_command ob =
     (case ob of
        NotStarted \<Rightarrow> Failed OSError
      | TooSlow \<Rightarrow> TimedOutKilled
      | Ended rc out \<Rightarrow> if rc \<noteq> 0 then Failed NativeUnsupported else Output out)"

section \<open>Properties\<close>

text \<open>Front end and daemon agree on the socket.\<close>

lemma socket_agreed:
  assumes "client_from_env nfkc fernet_key float_of joinpath home env = Inr k"
  shows "client_socket_path joinpath home env = socket_path joinpath k"
proof -
  have "read_client_env float_of joinpath home env = Inr k" using assms by (auto simp: client_from_env_def)
  then have "st_state_dir k = setting env ''STATE_DIR'' (default_state_dir joinpath home)" by (auto simp: read_client_env_def Let_def)
  then show ?thesis by (simp add: client_socket_path_def socket_path_def)
qed

text \<open>The native client does not see the secrets of the gateway in its environment.\<close>

lemma secrets_withheld:
  "(k, v) \<in> set (native_environment env) \<Longrightarrow> \<not> starts_with client_prefix k \<and> \<not> starts_with ''HERMES_A2A_GATEWAY_BROKER_'' k \<and> k \<noteq> ''HERMES_A2A_TOKEN''"
  by (auto simp: native_environment_def client_prefix_def starts_with_iff)

text \<open>The socket is private before anyone can connect to it.\<close>

lemma private_before_listening:
  "(r, acts, en1) = run_client en bound served \<Longrightarrow> Listen n \<in> set acts \<Longrightarrow> \<exists>a b. acts = a @ [BindPath, ChmodPath 384, Listen 128, ServeApp] @ b \<and> Listen n \<notin> set a"
  by (auto simp: run_client_def release_path_def Let_def intro: exI [of _ "[]"] exI [of _ "[UnlinkPath]"] split: sum.splits if_splits)

text \<open>Serving the application with its dispatcher changes the ledger as a run of the dispatcher does.\<close>

lemma lifespan_runs_dispatcher:
  assumes "broker_lifespan env sc settle lock uuid4 True True n w = Some (r, w1)"
  shows "\<exists>r' d. dispatcher_run env sc settle lock uuid4 n w = Some (r', d, w1)"
  using assms by (auto simp: broker_lifespan_def dispatcher_run_def split: prod.splits sum.splits option.splits)

text \<open>A foreign socket that the client refuses to replace is removed all the same on the way out.\<close>

lemma refused_socket_removed:
  "run_client (Entry True False) bound served = (Inl (ValueError ''refusing to replace a non-socket client path''), [CloseListener, UnlinkPath, CloseStore], NoEntry)"
  by (simp add: run_client_def claim_path_def release_path_def)

end
