(* ===== verification/Hermes_Compat.thy ===== *)
theory Hermes_Compat
  imports Hermes_Cards
begin

text \<open>
  The functions of the vendored modules that other plugins call (the blocks marked for compatibility in \<open>compat/hermes/upstream/security.py\<close> and
  \<open>protocol.py\<close>), which read the settings anew at every call, the identifiers and time stamps of \<open>protocol.py\<close>, and a stream whose
  client went away. \<open>env\<close> is \<open>_startup_env\<close>, \<open>cfg\<close> the outcome of \<open>load_config\<close>.
\<close>

section \<open>Security, outside the adapter\<close>

definition localhost_only_now :: "(string \<Rightarrow> string) \<Rightarrow> exn + json \<Rightarrow> bool" where
  "localhost_only_now env cfg = localhost_only (capture env cfg)"

definition authenticate_now :: "(string \<Rightarrow> string) \<Rightarrow> exn + json \<Rightarrow> string option \<Rightarrow> string \<Rightarrow> exn + string option" where
  "authenticate_now env cfg auth_header client_ip = authenticate (capture env cfg) auth_header client_ip"

definition get_bearer_token :: "(string \<Rightarrow> string) \<Rightarrow> string" where
  "get_bearer_token env = env ''A2A_BEARER_TOKEN''"

definition get_peer_tokens :: "(string \<Rightarrow> string) \<Rightarrow> (string \<times> string) list" where
  "get_peer_tokens env = parse_peer_tokens (env ''A2A_PEER_TOKENS'')"

definition get_push_secret :: "(string \<Rightarrow> string) \<Rightarrow> exn + json \<Rightarrow> string" where
  "get_push_secret env cfg = sc_push_secret (capture env cfg)"

definition get_trusted_peers :: "(string \<Rightarrow> string) \<Rightarrow> exn + json \<Rightarrow> string set" where
  "get_trusted_peers env cfg = configured_trusted_peers (env ''A2A_TRUSTED_PEERS'') cfg"

definition is_trusted_peer_now :: "(string \<Rightarrow> string) \<Rightarrow> exn + json \<Rightarrow> string \<Rightarrow> bool" where
  "is_trusted_peer_now env cfg identity = is_trusted_peer (capture env cfg) identity"

definition resolve_bind_host_now :: "(string \<Rightarrow> string) \<Rightarrow> exn + json \<Rightarrow> string" where
  "resolve_bind_host_now env cfg = resolve_bind_host (capture env cfg)"

definition sign_push_payload_now :: "(bytes \<Rightarrow> bytes \<Rightarrow> string) \<Rightarrow> (string \<Rightarrow> string) \<Rightarrow> exn + json \<Rightarrow> json \<Rightarrow> string" where
  "sign_push_payload_now hmac_hex env cfg payload =
     (let secret = get_push_secret env cfg in
      if secret = [] then [] else hmac_hex secret (json_dumps '', '' '': '' (jsort payload)))"

text \<open>They decide as a context captured at that moment does.\<close>

lemma compat_agrees:
  "sc_bearer_token (capture env cfg) = get_bearer_token env" "sc_peer_tokens (capture env cfg) = get_peer_tokens env"
  "sc_trusted_peers (capture env cfg) = get_trusted_peers env cfg" "sign_push_payload hmac_hex (capture env cfg) payload = sign_push_payload_now hmac_hex env cfg payload"
  by (simp_all add: capture_def get_bearer_token_def get_peer_tokens_def get_trusted_peers_def sign_push_payload_now_def get_push_secret_def sign_push_payload_def Let_def)

section \<open>Parts and messages\<close>

definition ERR_PUSH_NOT_SUPPORTED :: int where "ERR_PUSH_NOT_SUPPORTED = - 32003"

definition STATE_AUTH_REQUIRED :: string where "STATE_AUTH_REQUIRED = ''TASK_STATE_AUTH_REQUIRED''"

definition data_part :: "json \<Rightarrow> string \<Rightarrow> json" where
  "data_part data mtype = JObj [(''data'', data), (''mediaType'', JStr mtype)]"

definition file_part :: "string \<Rightarrow> string \<Rightarrow> string \<Rightarrow> string \<Rightarrow> json" where
  "file_part url given filename mtype =
     JObj ([(''mediaType'', JStr mtype)] @ (if filename = [] then [] else [(''filename'', JStr filename)])
       @ (if url \<noteq> [] then [(''url'', JStr url)] else if given \<noteq> [] then [(''raw'', JStr given)] else []))"

definition message_with_parts :: "string \<Rightarrow> string \<Rightarrow> json list \<Rightarrow> string \<Rightarrow> json" where
  "message_with_parts hex role parts ctx =
     JObj ([(''role'', JStr role), (''parts'', JList parts), (''messageId'', JStr hex)] @ (if ctx = [] then [] else [(''contextId'', JStr ctx)]))"

definition stream_message :: "json \<Rightarrow> json" where
  "stream_message msg = JObj [(''message'', msg)]"

text \<open>Identifiers from the 32 hexadecimal digits of a fresh UUID.\<close>

definition new_task_id :: "string \<Rightarrow> string" where "new_task_id hex = ''task-'' @ take 16 hex"

definition new_context_id :: "string \<Rightarrow> string" where "new_context_id hex = ''ctx-'' @ take 16 hex"

text \<open>A reader that knows parts by the members they have takes a data part for data and a file part for a file.\<close>

lemma parts_discriminated:
  "jhas (data_part d m) ''data''" "\<not> jhas (data_part d m) ''url''" "\<not> jhas (data_part d m) ''raw''" "\<not> jhas (file_part u r f m) ''data''"
  "u \<noteq> [] \<Longrightarrow> jget (file_part u r f m) ''url'' = JStr u \<and> \<not> jhas (file_part u r f m) ''raw''"
  "u = [] \<Longrightarrow> r \<noteq> [] \<Longrightarrow> jget (file_part u r f m) ''raw'' = JStr r \<and> \<not> jhas (file_part u r f m) ''url''"
  by (simp_all add: data_part_def file_part_def)

section \<open>A client that goes away\<close>

text \<open>The stream of a message breaks while its task waits: the task ends as failed, whatever the agent is doing.\<close>

definition stream_broken :: "adapter_env \<Rightarrow> draws \<Rightarrow> pending option \<Rightarrow> unit aprog" where
  "stream_broken env q pending =
     (case pending of
        None \<Rightarrow> return_p ()
      | Some p \<Rightarrow> bind_p (finalize_task env q p (STATE_FAILED, ''[client disconnected]'')) (\<lambda>_. return_p ()))"

end
