(* ===== verification/Release_Files.thy ===== *)
theory Release_Files
  imports Py_Net Json_Codec
begin

text \<open>
  The scripts that prepare a release: \<open>write_sha256sums.py\<close>, \<open>stage_compat_assets.py\<close>, \<open>check_dist.py\<close> and
  \<open>check_app_server_schema.py\<close> under \<open>src/scripts\<close>. A directory is an association list from the names of its entries
  to their contents, \<open>None\<close> for an entry that is no regular file. SHA-256 and the reading of archives are parameters.
\<close>

type_synonym directory = "(string \<times> bytes option) list"

definition ends_with :: "string \<Rightarrow> string \<Rightarrow> bool" where
  "ends_with suf s \<longleftrightarrow> starts_with (rev suf) (rev s)"

lemma ends_with_iff: "ends_with suf s \<longleftrightarrow> (\<exists>p. s = p @ suf)"
  by (simp add: ends_with_def starts_with_iff) (metis rev_append rev_rev_ident)

definition read_bytes :: "directory \<Rightarrow> string \<Rightarrow> exn + bytes" where
  "read_bytes dir name = (case map_of dir name of Some (Some b) \<Rightarrow> Inr b | _ \<Rightarrow> Inl OSError)"

definition is_file :: "directory \<Rightarrow> string \<Rightarrow> bool" where
  "is_file dir name \<longleftrightarrow> (\<exists>b. map_of dir name = Some (Some b))"

lemma is_file_code [code]: "is_file dir name = (case map_of dir name of Some (Some b) \<Rightarrow> True | _ \<Rightarrow> False)"
  by (auto simp: is_file_def split: option.splits)

section \<open>Paths\<close>

text \<open>\<open>Path(name).parts\<close>, and \<open>Path(name).suffix\<close> of a name without slashes.\<close>

definition path_parts :: "string \<Rightarrow> string list" where
  "path_parts name = (if starts_with ''/'' name then [if starts_with ''//'' name \<and> \<not> starts_with ''///'' name then ''//'' else ''/''] else [])
     @ filter (\<lambda>p. p \<noteq> [] \<and> p \<noteq> ''.'') (split_on CHR ''/'' name)"

definition path_name :: "string \<Rightarrow> string" where
  "path_name name = (case filter (\<lambda>p. p \<noteq> [] \<and> p \<noteq> ''.'') (split_on CHR ''/'' name) of [] \<Rightarrow> [] | ps \<Rightarrow> last ps)"

definition suffix_of :: "string \<Rightarrow> string" where
  "suffix_of leaf =
     (let (stem, found, ext) = rpartition_at CHR ''.'' leaf in if found \<and> stem \<noteq> [] \<and> ext \<noteq> [] then CHR ''.'' # ext else [])"

section \<open>Checksums\<close>

definition extra_assets :: "string list" where
  "extra_assets = [''hermes-a2a-compat.patch'', ''hermes-a2a-compat.json'', ''hermes_patch.py'']"

definition distributions :: "directory \<Rightarrow> exn + string list" where
  "distributions dir =
     (let names = map fst dir; items = sort (filter (ends_with ''.whl'') names @ filter (ends_with ''.tar.gz'') names) in
      if length (filter (\<lambda>n. suffix_of n = ''.whl'') items) \<noteq> 1 \<or> length (filter (ends_with ''.tar.gz'') items) \<noteq> 1
      then Inl (ValueError ''expected exactly one wheel and one source distribution'')
      else if list_ex (\<lambda>n. n \<in> set names) extra_assets then
        if \<not> list_all (is_file dir) extra_assets then Inl (ValueError ''incomplete Hermes compatibility asset set'')
        else Inr (sort (items @ extra_assets))
      else Inr (sort items))"

definition sum_line :: "(bytes \<Rightarrow> string) \<Rightarrow> string \<Rightarrow> bytes \<Rightarrow> string" where
  "sum_line sha256 name content = sha256 content @ ''  '' @ name @ [CHR 0x0A]"

definition manifest_text :: "(bytes \<Rightarrow> string) \<Rightarrow> directory \<Rightarrow> string list \<Rightarrow> exn + string" where
  "manifest_text sha256 dir items = bind_r (map_r (\<lambda>n. bind_r (read_bytes dir n) (\<lambda>b. Inr (sum_line sha256 n b))) items) (\<lambda>ls. Inr (concat ls))"

text \<open>\<open>read_text\<close> translates the ends of lines.\<close>

fun universal_newlines :: "string \<Rightarrow> string" where
  "universal_newlines [] = []"
| "universal_newlines [c] = [if c = CHR 0x0D then CHR 0x0A else c]"
| "universal_newlines (c # d # s) =
     (if c = CHR 0x0D then CHR 0x0A # (if d = CHR 0x0A then universal_newlines s else universal_newlines (d # s))
      else c # universal_newlines (d # s))"

definition sums_expected :: "(bytes \<Rightarrow> string) \<Rightarrow> directory \<Rightarrow> exn + string" where
  "sums_expected sha256 dir = bind_r (distributions dir) (manifest_text sha256 dir)"

text \<open>\<open>main\<close>: the exit code, where an exception exits with 1 as well, and the directory afterwards.\<close>

definition check_sums :: "(bytes \<Rightarrow> string) \<Rightarrow> directory \<Rightarrow> exn + bool" where
  "check_sums sha256 dir =
     bind_r (sums_expected sha256 dir) (\<lambda>expected.
       if \<not> is_file dir ''SHA256SUMS'' then Inr False
       else bind_r (read_bytes dir ''SHA256SUMS'') (\<lambda>b.
         if \<not> utf8_valid b then Inl (ValueError ''utf-8'') else Inr (universal_newlines b = expected)))"

definition sums_main :: "(bytes \<Rightarrow> string) \<Rightarrow> bool \<Rightarrow> directory \<Rightarrow> int \<times> directory" where
  "sums_main sha256 check dir =
     (if check then (case check_sums sha256 dir of Inr True \<Rightarrow> (0, dir) | _ \<Rightarrow> (1, dir))
      else case sums_expected sha256 dir of
        Inl _ \<Rightarrow> (1, dir)
      | Inr text \<Rightarrow>
          (case map_of dir ''SHA256SUMS'' of
             Some None \<Rightarrow> (1, dir)
           | _ \<Rightarrow> (0, AList.update ''SHA256SUMS'' (Some text) dir)))"

section \<open>Staging\<close>

definition staged_sources :: "(string \<times> string) list" where
  "staged_sources = [(''hermes-a2a-compat.patch'', ''compat/hermes/hermes-a2a-compat.patch''),
     (''hermes-a2a-compat.json'', ''compat/hermes/hermes-a2a-compat.json''), (''hermes_patch.py'', ''scripts/hermes_patch.py'')]"

fun stage_each :: "directory \<Rightarrow> (string \<times> string) list \<Rightarrow> directory \<Rightarrow> (exn + unit) \<times> directory" where
  "stage_each base [] dir = (Inr (), dir)"
| "stage_each base ((name, source) # rest) dir =
     (case read_bytes base source of
        Inl e \<Rightarrow> (Inl e, dir)
      | Inr content \<Rightarrow>
          (case map_of dir name of
             None \<Rightarrow> stage_each base rest (AList.update name (Some content) dir)
           | Some None \<Rightarrow> (Inl OSError, dir)
           | Some (Some old) \<Rightarrow>
               if old \<noteq> content then (Inl (ValueError (''refusing to overwrite different compatibility asset: '' @ name)), dir)
               else stage_each base rest (AList.update name (Some content) dir)))"

definition jitem :: "json \<Rightarrow> string \<Rightarrow> exn + json" where
  "jitem j k = (case j of JObj kvs \<Rightarrow> (case map_of kvs k of Some v \<Rightarrow> Inr v | None \<Rightarrow> Inl (KeyError k)) | _ \<Rightarrow> Inl TypeError)"

definition stage :: "(bytes \<Rightarrow> string) \<Rightarrow> directory \<Rightarrow> directory \<Rightarrow> (exn + unit) \<times> directory" where
  "stage sha256 base dir =
     (case bind_r (read_bytes base ''compat/hermes/hermes-a2a-compat.json'') (\<lambda>m.
             bind_r (case json_loads (universal_newlines m) of Some j \<Rightarrow> Inr j | None \<Rightarrow> Inl (ValueError ''json'')) (\<lambda>j.
             bind_r (read_bytes base ''compat/hermes/hermes-a2a-compat.patch'') (\<lambda>p.
             bind_r (jitem j ''patch_sha256'') (\<lambda>v. Inr (v = JStr (sha256 p)))))) of
        Inl e \<Rightarrow> (Inl e, dir)
      | Inr False \<Rightarrow> (Inl (ValueError ''Hermes patch does not match compatibility manifest''), dir)
      | Inr True \<Rightarrow> stage_each base staged_sources dir)"

section \<open>Contents of the distributions\<close>

definition forbidden_names :: "string set" where
  "forbidden_names = {''.coverage'', ''.ds_store'', ''.env''}"

definition forbidden_parts :: "string set" where
  "forbidden_parts = {''.git'', ''.mypy_cache'', ''.pytest_cache'', ''.ruff_cache'', ''.venv'', ''__pycache__''}"

definition forbidden_suffixes :: "string set" where
  "forbidden_suffixes = {''.bak'', ''.db'', ''.log'', ''.pem'', ''.pyc'', ''.sqlite'', ''.sqlite3''}"

definition unsafe_member :: "string \<Rightarrow> bool" where
  "unsafe_member name \<longleftrightarrow> (\<exists>p \<in> set (path_parts name). lower p \<in> forbidden_parts) \<or>
     lower (path_name name) \<in> forbidden_names \<or> suffix_of (lower (path_name name)) \<in> forbidden_suffixes"

definition required_modules :: "string list" where
  "required_modules = [''__init__.py'', ''cli.py'', ''broker.py'', ''client.py'', ''client_mcp.py'', ''ssh_tunnel.py'']"

definition legacy_parts :: "string set" where
  "legacy_parts = {''codex_a2a_gateway'', ''hermes_plugin'', ''skills''}"

text \<open>One distribution, given the names of its members.\<close>

definition member_checks :: "string list \<Rightarrow> bool" where
  "member_checks names \<longleftrightarrow> list_all (\<lambda>m. list_ex (ends_with (''hermes_a2a_gateway/'' @ m)) names) required_modules \<and>
     \<not> list_ex (\<lambda>n. \<exists>p \<in> set (path_parts n). p \<in> legacy_parts) names"

text \<open>\<open>members\<close> reads a wheel or a source distribution (\<open>archive\<close>, a parameter); the exit code of \<open>main\<close>.\<close>

definition members :: "(string \<Rightarrow> exn + string list) \<Rightarrow> string \<Rightarrow> exn + string list" where
  "members archive name =
     (if suffix_of name = ''.whl'' \<or> ends_with ''.tar.gz'' name then archive name else Inl (ValueError ''unsupported distribution''))"

definition check_dist :: "(string \<Rightarrow> exn + string list) \<Rightarrow> directory \<Rightarrow> int" where
  "check_dist archive dir =
     (let names = map fst dir; ds = sort (filter (ends_with ''.whl'') names @ filter (ends_with ''.tar.gz'') names) in
      if ds = [] then 2
      else case map_r (members archive) ds of
        Inl _ \<Rightarrow> 1
      | Inr ms \<Rightarrow> if list_ex (list_ex unsafe_member) ms \<or> \<not> list_all member_checks ms then 1 else 0)"

section \<open>Schemas of the native transport\<close>

text \<open>The generated schemas: the text of each file by its relative path, in the order \<open>rglob\<close> finds them.\<close>

definition load_schema :: "directory \<Rightarrow> string \<Rightarrow> exn + json" where
  "load_schema base rel = bind_r (read_bytes base rel) (\<lambda>b.
     if \<not> utf8_valid b then Inl (ValueError ''utf-8'')
     else case json_loads (universal_newlines b) of
       None \<Rightarrow> Inl (ValueError ''json'')
     | Some v \<Rightarrow> if is_obj v then Inr v else Inl (RuntimeError (''schema is not an object: '' @ path_name rel)))"

definition require_fields :: "directory \<Rightarrow> string \<Rightarrow> string list \<Rightarrow> exn + unit" where
  "require_fields base rel expected =
     bind_r (load_schema base rel) (\<lambda>schema.
       let props = jget schema ''properties'' in
       if \<not> is_obj props then Inl (RuntimeError (''schema has no properties: '' @ rel))
       else let missing = filter (\<lambda>f. \<not> jhas props f) expected in
         raise_if (missing \<noteq> []) (RuntimeError (rel @ '' is missing fields: '' @ join '', '' (sort missing))))"

fun require_method :: "directory \<Rightarrow> string \<Rightarrow> exn + unit" where
  "require_method [] m = Inl (RuntimeError (''generated schemas do not contain request method: '' @ m))"
| "require_method ((rel, content) # rest) m =
     (if ends_with ''.json'' (path_name rel) then
        (case content of
           None \<Rightarrow> Inl OSError
         | Some b \<Rightarrow> if \<not> utf8_valid b then Inl (ValueError ''utf-8'') else if contains (CHR 0x22 # m @ [CHR 0x22]) b then Inr () else require_method rest m)
      else require_method rest m)"

definition check_app_server_schema :: "directory \<Rightarrow> exn + unit" where
  "check_app_server_schema base =
     bind_r (require_fields base ''v1/InitializeParams.json'' [''clientInfo'']) (\<lambda>_.
     bind_r (require_fields base ''v2/ThreadQueueAddParams.json'' [''threadId'', ''clientUserMessageId'', ''input'']) (\<lambda>_.
     bind_r (require_fields base ''v2/ThreadQueueListParams.json'' [''threadId'', ''cursor'', ''limit'']) (\<lambda>_.
     bind_r (require_method base ''thread/queue/add'') (\<lambda>_.
     require_method base ''thread/queue/list''))))"

end
