(* ===== verification/Release_Checks.thy ===== *)
theory Release_Checks
  imports Release_Files
begin

text \<open>
  Theorems of the scripts that prepare a release: a list of checksums pins the distributions it was written for, and staging never
  overwrites an asset with a different one.
\<close>

section \<open>Checksums\<close>

lemma lines_inject:
  assumes "concat (map (\<lambda>l. l @ [c]) xs) = concat (map (\<lambda>l. l @ [c]) ys)" "list_all (\<lambda>l. c \<notin> set l) xs" "list_all (\<lambda>l. c \<notin> set l) ys"
  shows "xs = ys"
  using assms
proof (induction xs arbitrary: ys)
  case Nil
  then show ?case by (cases ys) auto
next
  case (Cons x xs)
  then obtain y zs where ys: "ys = y # zs" by (cases ys) auto
  have "takeWhile (\<lambda>d. d \<noteq> c) (x @ c # concat (map (\<lambda>l. l @ [c]) xs)) = takeWhile (\<lambda>d. d \<noteq> c) (y @ c # concat (map (\<lambda>l. l @ [c]) zs))"
    using Cons.prems(1) ys by simp
  moreover have "takeWhile (\<lambda>d. d \<noteq> c) (l @ c # r) = l" if "c \<notin> set l" for l r using that by (induction l) auto
  moreover have "c \<notin> set x" "c \<notin> set y" using Cons.prems ys by simp_all
  ultimately have "x = y" by metis
  then show ?case using Cons ys by simp
qed

text \<open>The lines without their ends.\<close>

definition sum_of :: "(bytes \<Rightarrow> string) \<Rightarrow> directory \<Rightarrow> string \<Rightarrow> string" where
  "sum_of sha256 dir name = sha256 (the (the (map_of dir name))) @ ''  '' @ name"

lemma manifest_lines:
  assumes "manifest_text sha256 dir items = Inr text"
  shows "text = concat (map (\<lambda>l. l @ [CHR 0x0A]) (map (sum_of sha256 dir) items))" "list_all (is_file dir) items"
proof -
  obtain ls where ls: "list_all2 (\<lambda>n l. bind_r (read_bytes dir n) (\<lambda>b. Inr (sum_line sha256 n b)) = Inr l) items ls" "text = concat ls"
    using assms by (auto simp: manifest_text_def map_r_Inr_iff)
  then have "list_all2 (\<lambda>n l. is_file dir n \<and> l = sum_of sha256 dir n @ [CHR 0x0A]) items ls"
    by (elim list_all2_mono) (auto simp: read_bytes_def is_file_def sum_of_def sum_line_def split: option.splits)
  then have "ls = map (\<lambda>n. sum_of sha256 dir n @ [CHR 0x0A]) items \<and> list_all (is_file dir) items"
    by (induction rule: list_all2_induct) auto
  then show "text = concat (map (\<lambda>l. l @ [CHR 0x0A]) (map (sum_of sha256 dir) items))" "list_all (is_file dir) items"
    using ls(2) by (simp_all add: comp_def)
qed

lemma distributions_subset: "distributions dir = Inr items \<Longrightarrow> set items \<subseteq> set (map fst dir)"
  by (auto simp: distributions_def Let_def list_all_iff is_file_def dest!: map_of_SomeD bspec split: if_splits intro: rev_image_eqI)

lemma expected_pins:
  assumes "sums_expected sha256 dir = Inr text" "sums_expected sha256 dir' = Inr text"
    and "\<forall>b. length (sha256 b) = 64 \<and> CHR 0x0A \<notin> set (sha256 b)" "list_all (\<lambda>(n, _). CHR 0x0A \<notin> set n) (dir @ dir')"
  shows "\<exists>items. distributions dir = Inr items \<and> distributions dir' = Inr items \<and>
    list_all (\<lambda>n. sha256 (the (the (map_of dir n))) = sha256 (the (the (map_of dir' n)))) items"
proof -
  obtain items items' where i: "distributions dir = Inr items" "manifest_text sha256 dir items = Inr text"
    "distributions dir' = Inr items'" "manifest_text sha256 dir' items' = Inr text" using assms(1,2) by (auto simp: sums_expected_def)
  have "set items \<union> set items' \<subseteq> fst ` set (dir @ dir')" using distributions_subset i(1,3) by fastforce
  then have "list_all (\<lambda>n. CHR 0x0A \<notin> set n) (items @ items')" using assms(4) by (fastforce simp: list_all_iff)
  then have "list_all (\<lambda>l. CHR 0x0A \<notin> set l) (map (sum_of sha256 dir) items)" "list_all (\<lambda>l. CHR 0x0A \<notin> set l) (map (sum_of sha256 dir') items')"
    using assms(3) by (auto simp: list_all_iff sum_of_def)
  then have "map (sum_of sha256 dir) items = map (sum_of sha256 dir') items'"
    using lines_inject [OF _] manifest_lines(1) [OF i(2)] manifest_lines(1) [OF i(4)] by metis
  then have "list_all2 (\<lambda>n m. sum_of sha256 dir n = sum_of sha256 dir' m) items items'"
    by (simp add: list_all2_conv_all_nth list_eq_iff_nth_eq)
  then have "list_all2 (\<lambda>n m. n = m \<and> sha256 (the (the (map_of dir n))) = sha256 (the (the (map_of dir' m)))) items items'"
    using assms(3) by (elim list_all2_mono) (simp add: sum_of_def append_eq_append_conv)
  then have "items = items' \<and> list_all (\<lambda>n. sha256 (the (the (map_of dir n))) = sha256 (the (the (map_of dir' n)))) items"
    by (induction rule: list_all2_induct) auto
  with i show ?thesis by blast
qed

lemma universal_newlines_id: "CHR 0x0D \<notin> set s \<Longrightarrow> universal_newlines s = s"
  by (induction s rule: universal_newlines.induct) auto

lemma sums_name: "\<not> ends_with ''.whl'' ''SHA256SUMS''" "\<not> ends_with ''.tar.gz'' ''SHA256SUMS''" "''SHA256SUMS'' \<notin> set extra_assets"
  by (simp_all add: ends_with_def starts_with_def extra_assets_def)

text \<open>The list itself is none of the files it lists.\<close>

lemma written_keeps:
  shows "distributions (AList.update ''SHA256SUMS'' v dir) = distributions dir"
    and "distributions dir = Inr items \<Longrightarrow> manifest_text sha256 (AList.update ''SHA256SUMS'' v dir) items = manifest_text sha256 dir items"
proof -
  let ?d = "AList.update ''SHA256SUMS'' v dir"
  have "filter p (map fst ?d) = filter p (map fst dir)" if "\<not> p ''SHA256SUMS''" for p using that by (auto simp: update_keys)
  then have "filter (ends_with ''.whl'') (map fst ?d) = filter (ends_with ''.whl'') (map fst dir)"
    "filter (ends_with ''.tar.gz'') (map fst ?d) = filter (ends_with ''.tar.gz'') (map fst dir)" using sums_name by blast+
  moreover have "list_all (is_file ?d) extra_assets = list_all (is_file dir) extra_assets"
    using sums_name(3) by (intro list.pred_cong) (auto simp: is_file_def update_conv')
  moreover have "list_ex (\<lambda>n. n \<in> set (map fst ?d)) extra_assets = list_ex (\<lambda>n. n \<in> set (map fst dir)) extra_assets"
    using sums_name(3) by (auto simp: list_ex_iff update_keys simp del: set_map)
  ultimately show "distributions ?d = distributions dir" by (simp add: distributions_def Let_def)
  assume items: "distributions dir = Inr items"
  then have "set items \<subseteq> {n. ends_with ''.whl'' n \<or> ends_with ''.tar.gz'' n} \<union> set extra_assets"
    by (auto simp: distributions_def Let_def split: if_splits)
  then have "n \<noteq> ''SHA256SUMS''" if "n \<in> set items" for n using that sums_name by blast
  then have "map_r (\<lambda>n. bind_r (read_bytes ?d n) (\<lambda>b. Inr (sum_line sha256 n b))) items = map_r (\<lambda>n. bind_r (read_bytes dir n) (\<lambda>b. Inr (sum_line sha256 n b))) items"
    by (induction items) (simp_all add: read_bytes_def update_conv')
  then show "manifest_text sha256 ?d items = manifest_text sha256 dir items" by (simp add: manifest_text_def)
qed

text \<open>C39: Checksums pin the distributions: a list that was written for a directory verifies there, and any directory that verifies against the same
  list holds the same distributions and compatibility assets, by name, each with the same SHA-256.\<close>

theorem checksums_pin:
  assumes "sums_main sha256 False dir = (0, dir1)" "map_of dir1 ''SHA256SUMS'' = Some (Some text)" "utf8_valid text" "CHR 0x0D \<notin> set text"
    and "\<forall>b. length (sha256 b) = 64 \<and> CHR 0x0A \<notin> set (sha256 b)" "list_all (\<lambda>(n, _). CHR 0x0A \<notin> set n) (dir1 @ dir2)"
    and "map_of dir2 ''SHA256SUMS'' = Some (Some text)" "sums_main sha256 True dir2 = (0, dir3)"
  shows "sums_main sha256 True dir1 = (0, dir1) \<and> dir3 = dir2 \<and>
    (\<exists>items. distributions dir1 = Inr items \<and> distributions dir2 = Inr items \<and>
      list_all (\<lambda>n. sha256 (the (the (map_of dir1 n))) = sha256 (the (the (map_of dir2 n)))) items)"
proof -
  have dir1: "sums_expected sha256 dir = Inr text" "dir1 = AList.update ''SHA256SUMS'' (Some text) dir"
    using assms(1,2) by (auto simp: sums_main_def update_conv split: sum.splits option.splits)
  then have e1: "sums_expected sha256 dir1 = Inr text"
    using written_keeps by (auto simp: sums_expected_def)
  have read: "universal_newlines text = text" by (rule universal_newlines_id [OF assms(4)])
  then have "sums_main sha256 True dir1 = (0, dir1)"
    using e1 assms(2,3) by (simp add: sums_main_def check_sums_def is_file_def read_bytes_def)
  moreover have "sums_expected sha256 dir2 = Inr text" "dir3 = dir2"
    using assms(3,7,8) read by (auto simp: sums_main_def check_sums_def is_file_def read_bytes_def split: sum.splits bool.splits)
  ultimately show ?thesis using expected_pins [OF e1 _ assms(5,6)] by blast
qed

text \<open>The theorem at two directories that list their entries in different orders.\<close>

definition demo_sha256 :: "bytes \<Rightarrow> string" where
  "demo_sha256 b = replicate 64 (if b = ''1'' then CHR ''1'' else CHR ''2'')"

definition demo_dir :: directory where
  "demo_dir = [(''a.whl'', Some ''1''), (''a.tar.gz'', Some ''2'')]"

definition demo_sums :: string where
  "demo_sums = replicate 64 (CHR ''2'') @ ''  a.tar.gz'' @ [CHR 0x0A] @ replicate 64 (CHR ''1'') @ ''  a.whl'' @ [CHR 0x0A]"

theorem checksums_pin_witness:
  "\<exists>items. distributions (demo_dir @ [(''SHA256SUMS'', Some demo_sums)]) = Inr items \<and>
    distributions ((''SHA256SUMS'', Some demo_sums) # rev demo_dir) = Inr items"
proof -
  have f: "sums_main demo_sha256 False demo_dir = (0, demo_dir @ [(''SHA256SUMS'', Some demo_sums)])"
    "sums_main demo_sha256 True ((''SHA256SUMS'', Some demo_sums) # rev demo_dir) = (0, (''SHA256SUMS'', Some demo_sums) # rev demo_dir)"
    "map_of (demo_dir @ [(''SHA256SUMS'', Some demo_sums)]) ''SHA256SUMS'' = Some (Some demo_sums)"
    "map_of ((''SHA256SUMS'', Some demo_sums) # rev demo_dir) ''SHA256SUMS'' = Some (Some demo_sums)"
    "utf8_valid demo_sums" "CHR 0x0D \<notin> set demo_sums"
    "list_all (\<lambda>(n, _). CHR 0x0A \<notin> set n) ((demo_dir @ [(''SHA256SUMS'', Some demo_sums)]) @ (''SHA256SUMS'', Some demo_sums) # rev demo_dir)"
    by code_simp+
  have "\<forall>b. length (demo_sha256 b) = 64 \<and> CHR 0x0A \<notin> set (demo_sha256 b)" by (simp add: demo_sha256_def)
  from checksums_pin [OF f(1,3,5,6) this f(7,4,2)] show ?thesis by blast
qed

section \<open>Staging\<close>

text \<open>Staging never overwrites an asset with a different one, also when it stops half way; when it succeeds, each asset is the one of the
  repository.\<close>

lemma stage_each_keeps: "map_of dir name = Some v \<Longrightarrow> map_of (snd (stage_each base sources dir)) name = Some v"
proof (induction sources arbitrary: dir)
  case (Cons s rest)
  have "map_of (snd (stage_each base rest (AList.update n (Some b) dir))) name = Some v" if "map_of dir n = None \<or> map_of dir n = Some (Some b)" for n b
    using that Cons by (intro Cons.IH) (auto simp: update_conv')
  then show ?case using Cons.prems by (cases s) (auto split: sum.split option.split)
qed simp

theorem staging_keeps:
  assumes "stage sha256 base dir = (res, dir1)"
  shows "(map_of dir name = Some v \<longrightarrow> map_of dir1 name = Some v) \<and>
    (res = Inr () \<longrightarrow> (name, source) \<in> set staged_sources \<longrightarrow> (\<exists>b. map_of base source = Some (Some b) \<and> map_of dir1 name = Some (Some b)))"
proof -
  have staged: "\<exists>b. map_of base source = Some (Some b) \<and> map_of d1 name = Some (Some b)"
    if "stage_each base sources d = (Inr (), d1)" "(name, source) \<in> set sources" for sources d d1
    using that
  proof (induction base sources d arbitrary: d1 rule: stage_each.induct)
    case (2 base n src rest d)
    obtain b where b: "map_of base src = Some (Some b)" "stage_each base rest (AList.update n (Some b) d) = (Inr (), d1)"
      using 2(3) by (auto simp: read_bytes_def split: sum.splits option.splits if_splits)
    have "map_of d1 n = Some (Some b)" using stage_each_keeps [of "AList.update n (Some b) d" n "Some b" base rest] b(2) by (simp add: update_conv')
    moreover have ?case if "(name, source) \<in> set rest"
      using 2 b that by (auto simp: read_bytes_def split: sum.splits option.splits if_splits)
    ultimately show ?case using 2(4) b(1) by auto
  qed simp
  have "dir1 = dir \<and> res \<noteq> Inr () \<or> stage_each base staged_sources dir = (res, dir1)"
    using assms by (auto simp: stage_def split: sum.splits bool.splits)
  then show ?thesis using staged stage_each_keeps [of dir name v base staged_sources] by auto
qed

end
