(* ===== verification/Release_Publish.thy ===== *)
theory Release_Publish
  imports Release_Files "HOL-Library.Sublist"
begin

text \<open>
  \<open>src/scripts/publish_release.py\<close>. The script acts on GitHub through the command \<open>gh\<close> alone. It is a coroutine on
  the list of calls it has made so far; what the service answers may depend on the number of calls before and
  is a parameter, and so are the checkout, the archives' formats and the clock. A call of the API is given by its path and, when it
  posts, by its data; the directory a download goes to is a fresh one and left out.
\<close>

datatype call = Api string "json option" | Gh "string list" | Sleep nat

type_synonym 'a rprog = "('a, call list) coroutine"

record release_env =
  re_environ :: "string \<Rightarrow> string option"
  re_event :: "exn + bytes"
  re_checkout :: string
  re_version :: string
  re_project :: "exn + json"
  re_runtime_version :: string
  re_dist :: directory
  re_sha256 :: "bytes \<Rightarrow> string"
  re_clock :: "nat \<Rightarrow> int"
  re_api :: "nat \<Rightarrow> string \<Rightarrow> json option \<Rightarrow> string + string"
  re_gh :: "nat \<Rightarrow> string list \<Rightarrow> bool"
  re_download :: "nat \<Rightarrow> directory option"
  re_wheel :: "bytes \<Rightarrow> exn + (string \<times> bytes) list"
  re_metadata :: "bytes \<Rightarrow> string \<Rightarrow> string option"
  re_sdist :: "bytes \<Rightarrow> exn + (string \<times> bytes option) list"
  re_toml :: "bytes \<Rightarrow> exn + json"

definition prerelease :: "string \<Rightarrow> bool" where
  "prerelease version =
     (let v = (if version \<noteq> [] \<and> last version = CHR 0x0A then butlast version else version); stem = rstrip_chars is_digit v
      in stem \<noteq> v \<and> list_ex (\<lambda>m. ends_with m stem) [''a'', ''b'', ''rc''])"

definition TAG :: "release_env \<Rightarrow> string" where
  "TAG env = CHR ''v'' # re_version env"

definition REPOSITORY :: string where
  "REPOSITORY = ''phamviet86/hermes-a2a-gateway''"

definition ASSETS :: "string \<Rightarrow> string list" where
  "ASSETS version = [''hermes_a2a_gateway-'' @ version @ ''-py3-none-any.whl'', ''hermes_a2a_gateway-'' @ version @ ''.tar.gz'',
     ''hermes-a2a-compat.patch'', ''hermes-a2a-compat.json'', ''hermes_patch.py'', ''SHA256SUMS'']"

abbreviation assets :: "release_env \<Rightarrow> string list" where
  "assets env \<equiv> ASSETS (re_version env)"

section \<open>Calls\<close>

definition lift_p :: "exn + 'a \<Rightarrow> 'a rprog" where
  "lift_p r = (\<lambda>w. (r, w))"

definition require :: "bool \<Rightarrow> string \<Rightarrow> unit rprog" where
  "require c m = lift_p (raise_if (\<not> c) (RuntimeError m))"

definition gh :: "release_env \<Rightarrow> string list \<Rightarrow> unit rprog" where
  "gh env args = (\<lambda>w. (if re_gh env (length w) args then Inr () else Inl (RuntimeError ''CalledProcessError''), w @ [Gh args]))"

definition download :: "release_env \<Rightarrow> directory rprog" where
  "download env = (\<lambda>w. (case re_download env (length w) of Some d \<Rightarrow> Inr d | None \<Rightarrow> Inl (RuntimeError ''CalledProcessError''),
     w @ [Gh [''release'', ''download'', TAG env]]))"

text \<open>\<open>None\<close> and a \<open>null\<close> of the service are the same value.\<close>

definition api_result :: "bool \<Rightarrow> string \<Rightarrow> string + string \<Rightarrow> exn + json" where
  "api_result optional path reply = (case reply of
     Inl err \<Rightarrow> if optional \<and> contains ''(HTTP 404)'' err then Inr JNull else Inl (RuntimeError (''GitHub API failed for '' @ path @ '': '' @ err))
   | Inr out \<Rightarrow> (case json_loads out of Some j \<Rightarrow> Inr j | None \<Rightarrow> Inl (ValueError ''json'')))"

definition api :: "release_env \<Rightarrow> string \<Rightarrow> json option \<Rightarrow> bool \<Rightarrow> json rprog" where
  "api env path data optional = (\<lambda>w. (api_result optional path (re_api env (length w) path data), w @ [Api path data]))"

abbreviation api_get :: "release_env \<Rightarrow> string \<Rightarrow> json rprog" where
  "api_get env path \<equiv> api env path None False"

section \<open>Checks\<close>

text \<open>\<open>marker in message\<close>.\<close>

definition occurs_in :: "string \<Rightarrow> json \<Rightarrow> exn + bool" where
  "occurs_in m j = (case j of JStr s \<Rightarrow> Inr (contains m s) | JList xs \<Rightarrow> Inr (JStr m \<in> set xs) | JObj kvs \<Rightarrow> Inr (m \<in> fst ` set kvs) | _ \<Rightarrow> Inl TypeError)"

definition hex40 :: "string \<Rightarrow> bool" where
  "hex40 s \<longleftrightarrow> length s = 40 \<and> list_all (\<lambda>c. c \<in> set ''0123456789abcdef'') s"

definition validate_run :: "release_env \<Rightarrow> string \<Rightarrow> string \<Rightarrow> json \<Rightarrow> exn + unit" where
  "validate_run env repo sha job =
     bind_r (raise_if (repo \<noteq> REPOSITORY) (RuntimeError ''unexpected repository'')) (\<lambda>_.
     bind_r (raise_if (\<not> hex40 sha) (RuntimeError ''invalid release SHA'')) (\<lambda>_.
     bind_r (raise_if (\<not> is_obj job) AttributeError) (\<lambda>_.
     bind_r (raise_if (jget job ''name'' \<noteq> JStr ''CI'') (RuntimeError ''unexpected source workflow'')) (\<lambda>_.
     bind_r (raise_if (jget job ''status'' \<noteq> JStr ''completed'' \<or> jget job ''conclusion'' \<noteq> JStr ''success'') (RuntimeError ''CI did not pass'')) (\<lambda>_.
     bind_r (raise_if (jget job ''event'' \<noteq> JStr ''push'' \<or> jget job ''head_branch'' \<noteq> JStr ''main'') (RuntimeError ''CI is not a main push'')) (\<lambda>_.
     bind_r (bind_r (get_default job ''head_repository'' (JObj [])) (\<lambda>h. get_default h ''full_name'' JNull)) (\<lambda>name.
     bind_r (raise_if (name \<noteq> JStr repo) (RuntimeError ''foreign source repository'')) (\<lambda>_.
     bind_r (raise_if (jget job ''head_sha'' \<noteq> JStr sha) (RuntimeError ''CI SHA does not match release SHA'')) (\<lambda>_.
     bind_r (bind_r (get_default job ''head_commit'' (JObj [])) (\<lambda>c. bind_r (get_default c ''message'' (JStr [])) (occurs_in (''[release '' @ TAG env @ '']'')))) (\<lambda>marked.
     raise_if (\<not> marked) (RuntimeError ''release marker absent'')))))))))))"

fun find_pages :: "release_env \<Rightarrow> string \<Rightarrow> nat list \<Rightarrow> json option rprog" where
  "find_pages env base [] = raise_p (RuntimeError ''release listing incomplete; refusing a duplicate'')"
| "find_pages env base (page # pages) =
     bind_p (\<lambda>w. api_get env (base @ ''/releases?per_page=100&page='' @ dec_nat page @ ''&cache='' @ dec_int (re_clock env (length w))) w) (\<lambda>releases.
     bind_p (lift_p (bind_r (py_iter releases) (\<lambda>rs. bind_r (map_r (\<lambda>r. jitem r ''tag_name'') rs) (\<lambda>tags. Inr (zip rs tags))))) (\<lambda>rs.
       case filter (\<lambda>(_, t). t = JStr (TAG env)) rs of
         (r, _) # others \<Rightarrow> bind_p (require (others = []) ''multiple releases for the same tag'') (\<lambda>_. return_p (Some r))
       | [] \<Rightarrow> if length rs < 100 then return_p None else find_pages env base pages))"

definition find_release :: "release_env \<Rightarrow> string \<Rightarrow> json option rprog" where
  "find_release env base = find_pages env base [1..<101]"

fun wait_for_created_release :: "release_env \<Rightarrow> string \<Rightarrow> nat list \<Rightarrow> json option rprog" where
  "wait_for_created_release env base [] = return_p None"
| "wait_for_created_release env base (delay # delays) =
     bind_p (\<lambda>w. (Inr (), if delay = 0 then w else w @ [Sleep delay])) (\<lambda>_.
     bind_p (find_release env base) (\<lambda>found. case found of
       Some r \<Rightarrow> return_p (Some r)
     | None \<Rightarrow> wait_for_created_release env base delays))"

definition verify_tag :: "release_env \<Rightarrow> string \<Rightarrow> string \<Rightarrow> unit rprog" where
  "verify_tag env base sha =
     bind_p (api_get env (base @ ''/git/ref/tags/'' @ TAG env)) (\<lambda>ref.
     bind_p (lift_p (bind_r (jitem ref ''object'') (\<lambda>ob. bind_r (jitem ob ''type'') (\<lambda>ty. Inr (ob, ty))))) (\<lambda>(ob, ty).
     bind_p (require (ty = JStr ''tag'') ''expected annotated tag'') (\<lambda>_.
     bind_p (lift_p (jitem ob ''sha'')) (\<lambda>tag_sha.
     bind_p (api_get env (base @ ''/git/tags/'' @ py_str tag_sha)) (\<lambda>tag.
     bind_p (lift_p (bind_r (jitem tag ''object'') (\<lambda>target. bind_r (jitem target ''type'') (\<lambda>kind.
               if kind \<noteq> JStr ''commit'' then Inr False else bind_r (jitem target ''sha'') (\<lambda>s. Inr (s = JStr sha)))))) (\<lambda>ok.
     require ok ''tag target differs from tested SHA''))))))"

definition head_is :: "release_env \<Rightarrow> string \<Rightarrow> string \<Rightarrow> string \<Rightarrow> unit rprog" where
  "head_is env base sha msg =
     bind_p (api_get env (base @ ''/git/ref/heads/main'')) (\<lambda>j.
     bind_p (lift_p (bind_r (jitem j ''object'') (\<lambda>ob. jitem ob ''sha''))) (\<lambda>s. require (s = JStr sha) msg))"

definition sums_checked :: "release_env \<Rightarrow> directory \<Rightarrow> unit rprog" where
  "sums_checked env dir = require (fst (sums_main (re_sha256 env) True dir) = 0) ''CalledProcessError''"

text \<open>\<open>verify_download\<close> with the metadata of the two distributions.\<close>

definition wheel_ok :: "release_env \<Rightarrow> directory \<Rightarrow> exn + bool" where
  "wheel_ok env dir =
     bind_r (read_bytes dir (assets env ! 0)) (\<lambda>b. bind_r (re_wheel env b) (\<lambda>ms.
       case filter (\<lambda>(n, _). ends_with ''.dist-info/METADATA'' n) ms of
         [(_, m)] \<Rightarrow> Inr (re_metadata env m ''Name'' = Some ''hermes-a2a-gateway'' \<and> re_metadata env m ''Version'' = Some (re_version env))
       | _ \<Rightarrow> Inl (RuntimeError ''wheel metadata missing or ambiguous'')))"

definition sdist_ok :: "release_env \<Rightarrow> directory \<Rightarrow> exn + bool" where
  "sdist_ok env dir =
     bind_r (read_bytes dir (assets env ! 1)) (\<lambda>b. bind_r (re_sdist env b) (\<lambda>ms.
       case filter (\<lambda>(n, _). ends_with ''/pyproject.toml'' n) ms of
         [(_, Some src)] \<Rightarrow>
           bind_r (re_toml env src) (\<lambda>t. bind_r (jitem t ''project'') (\<lambda>p. bind_r (jitem p ''name'') (\<lambda>n.
             if n \<noteq> JStr ''hermes-a2a-gateway'' then Inr False else bind_r (jitem p ''version'') (\<lambda>v. Inr (v = JStr (re_version env))))))
       | _ \<Rightarrow> Inl (RuntimeError ''sdist project metadata missing or ambiguous'')))"

definition verify_download :: "release_env \<Rightarrow> directory \<Rightarrow> unit rprog" where
  "verify_download env dir =
     bind_p (require (set (map fst dir) = set (assets env)) ''download asset set mismatch'') (\<lambda>_.
     bind_p (sums_checked env dir) (\<lambda>_.
     bind_p (lift_p (wheel_ok env dir)) (\<lambda>ok.
     bind_p (require ok ''wheel version mismatch'') (\<lambda>_.
     bind_p (lift_p (sdist_ok env dir)) (\<lambda>ok.
     require ok ''sdist version mismatch'')))))"

section \<open>Publishing\<close>

definition env_var :: "release_env \<Rightarrow> string \<Rightarrow> exn + string" where
  "env_var env k = (case re_environ env k of Some v \<Rightarrow> Inr v | None \<Rightarrow> Inl (KeyError k))"

text \<open>What holds before anything is changed; the result is the prefix of the repository's paths and the commit.\<close>

definition preflight :: "release_env \<Rightarrow> (string \<times> string) rprog" where
  "preflight env =
     bind_p (lift_p (env_var env ''GH_REPO'')) (\<lambda>repo.
     bind_p (lift_p (env_var env ''RELEASE_SHA'')) (\<lambda>sha.
     bind_p (lift_p (env_var env ''GITHUB_EVENT_NAME'')) (\<lambda>event.
     bind_p (require (event = ''workflow_run'') ''requires workflow_run event'') (\<lambda>_.
     bind_p (lift_p (bind_r (re_event env) (\<lambda>b. bind_r (case json_loads b of Some j \<Rightarrow> Inr j | None \<Rightarrow> Inl (ValueError ''json'')) (\<lambda>j. jitem j ''workflow_run'')))) (\<lambda>job.
     bind_p (lift_p (validate_run env repo sha job)) (\<lambda>_.
     bind_p (require (re_checkout env = sha) ''checkout SHA differs'') (\<lambda>_.
     bind_p (lift_p (bind_r (re_project env) (\<lambda>t. bind_r (jitem t ''project'') (\<lambda>p. jitem p ''version'')))) (\<lambda>version.
     bind_p (require (version = JStr (re_version env)) ''source version mismatch'') (\<lambda>_.
     bind_p (require (re_runtime_version env = re_version env) ''installed runtime version mismatch'') (\<lambda>_.
     let base = ''repos/'' @ repo in
     bind_p (lift_p (jitem job ''id'')) (\<lambda>run_id.
     bind_p (api_get env (base @ ''/actions/runs/'' @ py_str run_id)) (\<lambda>again.
     bind_p (lift_p (validate_run env repo sha again)) (\<lambda>_.
     bind_p (head_is env base sha ''main moved'') (\<lambda>_.
     bind_p (sums_checked env (re_dist env)) (\<lambda>_.
     bind_p (require (set (map fst (re_dist env)) = set (assets env)) ''unexpected local release assets'') (\<lambda>_.
     return_p (base, sha)))))))))))))))))"

definition ensure_tag :: "release_env \<Rightarrow> string \<Rightarrow> string \<Rightarrow> unit rprog" where
  "ensure_tag env base sha =
     bind_p (api env (base @ ''/git/ref/tags/'' @ TAG env) None True) (\<lambda>ref.
     if ref = JNull then
       bind_p (api env (base @ ''/git/tags'') (Some (JObj [(''tag'', JStr (TAG env)),
         (''message'', JStr (TAG env @ '' Hermes durable conversations and diagnostics'')), (''object'', JStr sha), (''type'', JStr ''commit'')])) False) (\<lambda>tag.
       bind_p (lift_p (jitem tag ''sha'')) (\<lambda>tag_sha.
       bind_p (api env (base @ ''/git/refs'') (Some (JObj [(''ref'', JStr (''refs/tags/'' @ TAG env)), (''sha'', tag_sha)])) False) (\<lambda>_.
       return_p ())))
     else return_p ())"

definition create_args :: "release_env \<Rightarrow> string list" where
  "create_args env = [''release'', ''create'', TAG env, ''--verify-tag'', ''--draft'', ''--prerelease'', ''--title'',
     TAG env @ [CHR 0x20, CHR 0xE2, CHR 0x80, CHR 0x94] @ '' Hermes durable conversations and diagnostics'', ''--notes-file'', ''docs/release-notes.md'']"

definition ensure_release :: "release_env \<Rightarrow> string \<Rightarrow> json rprog" where
  "ensure_release env base =
     bind_p (find_release env base) (\<lambda>found. case found of
       Some r \<Rightarrow> return_p r
     | None \<Rightarrow>
         bind_p (gh env (create_args env)) (\<lambda>_.
         bind_p (wait_for_created_release env base [0, 1, 2, 4, 8, 15]) (\<lambda>made. case made of
           Some r \<Rightarrow> return_p r
         | None \<Rightarrow> raise_p (RuntimeError ''draft not visible after bounded read retries; resume this job later''))))"

text \<open>The assets of a release by name; a name that is a list or an object cannot be a key.\<close>

definition asset_names :: "json \<Rightarrow> exn + (json \<times> json) list" where
  "asset_names release =
     bind_r (jitem release ''assets'') (\<lambda>as. bind_r (py_iter as) (\<lambda>xs. bind_r (map_r (\<lambda>a. bind_r (jitem a ''name'') (\<lambda>n.
       case n of JList _ \<Rightarrow> Inl TypeError | JObj _ \<Rightarrow> Inl TypeError | _ \<Rightarrow> Inr (n, a))) xs) Inr))"

definition confirm_published :: "release_env \<Rightarrow> string \<Rightarrow> string \<Rightarrow> json \<Rightarrow> json rprog" where
  "confirm_published env base sha release =
     bind_p (lift_p (jitem release ''prerelease'')) (\<lambda>pre.
     bind_p (require (py_eq pre (JBool (prerelease (re_version env)))) ''existing release maturity differs'') (\<lambda>_.
     bind_p (lift_p (asset_names release)) (\<lambda>as.
     bind_p (require (set (map fst as) = JStr ` set (assets env)) ''published asset set mismatch'') (\<lambda>_.
     bind_p (download env) (\<lambda>dir.
     bind_p (verify_download env dir) (\<lambda>_.
     bind_p (verify_tag env base sha) (\<lambda>_.
     bind_p (head_is env base sha ''main moved before verification'') (\<lambda>_.
     lift_p (jitem release ''html_url'')))))))))"

definition asset_upload_args :: "release_env \<Rightarrow> string \<Rightarrow> string list" where
  "asset_upload_args env name = [''release'', ''upload'', TAG env, ''dist/'' @ name]"

fun upload_each :: "release_env \<Rightarrow> bool \<Rightarrow> (json \<times> json) list \<Rightarrow> string list \<Rightarrow> unit rprog" where
  "upload_each env draft existing [] = return_p ()"
| "upload_each env draft existing (name # names) =
     bind_p (case map_of (rev existing) (JStr name) of
         Some a \<Rightarrow> bind_p (lift_p (read_bytes (re_dist env) name)) (\<lambda>b.
           require (jget a ''digest'' = JStr (''sha256:'' @ re_sha256 env b)) (''existing asset differs: '' @ name))
       | None \<Rightarrow> bind_p (require draft ''never modify published release assets'') (\<lambda>_. gh env (asset_upload_args env name))) (\<lambda>_.
     upload_each env draft existing names)"

definition same_digests :: "release_env \<Rightarrow> directory \<Rightarrow> exn + unit" where
  "same_digests env dir =
     bind_r (map_r (\<lambda>name. bind_r (read_bytes dir name) (\<lambda>a. bind_r (read_bytes (re_dist env) name) (\<lambda>b.
       raise_if (re_sha256 env a \<noteq> re_sha256 env b) (RuntimeError (''download differs: '' @ name))))) (assets env)) (\<lambda>_. Inr ())"

definition complete_draft :: "release_env \<Rightarrow> json \<Rightarrow> unit rprog" where
  "complete_draft env release =
     bind_p (lift_p (asset_names release)) (\<lambda>existing.
     bind_p (require (set (map fst existing) \<subseteq> JStr ` set (assets env)) ''unexpected remote assets'') (\<lambda>_.
     bind_p (upload_each env (truthy (jget release ''draft'')) existing (assets env)) (\<lambda>_.
     bind_p (download env) (\<lambda>dir.
     bind_p (require (set (map fst dir) = set (assets env)) ''download asset set mismatch'') (\<lambda>_.
     bind_p (lift_p (same_digests env dir)) (\<lambda>_.
     sums_checked env dir))))))"

definition bool_text :: "bool \<Rightarrow> string" where
  "bool_text b = (if b then ''true'' else ''false'')"

definition edit_args :: "release_env \<Rightarrow> string list" where
  "edit_args env = [''release'', ''edit'', TAG env, ''--draft=false'', ''--prerelease='' @ bool_text (prerelease (re_version env)),
     ''--latest='' @ bool_text (\<not> prerelease (re_version env)), ''--verify-tag'']"

definition make_public :: "release_env \<Rightarrow> string \<Rightarrow> string \<Rightarrow> json \<Rightarrow> json rprog" where
  "make_public env base sha release =
     bind_p (verify_tag env base sha) (\<lambda>_.
     bind_p (head_is env base sha ''main moved before publication'') (\<lambda>_.
     bind_p (if truthy (jget release ''draft'') then gh env (edit_args env) else return_p ()) (\<lambda>_.
     bind_p (api_get env (base @ ''/releases/tags/'' @ TAG env)) (\<lambda>published.
     bind_p (lift_p (bind_r (jitem published ''draft'') (\<lambda>d. if truthy d then Inr False
         else bind_r (jitem published ''prerelease'') (\<lambda>p. Inr (py_eq p (JBool (prerelease (re_version env)))))))) (\<lambda>ok.
     bind_p (require ok ''release is not published'') (\<lambda>_.
     bind_p (lift_p (asset_names published)) (\<lambda>as.
     bind_p (require (set (map fst as) = JStr ` set (assets env)) ''published asset set mismatch'') (\<lambda>_.
     bind_p (verify_tag env base sha) (\<lambda>_.
     lift_p (jitem published ''html_url''))))))))))"

text \<open>The rest once there is a release: a public one is only confirmed.\<close>

definition settle_release :: "release_env \<Rightarrow> string \<Rightarrow> string \<Rightarrow> json \<Rightarrow> json rprog" where
  "settle_release env base sha release =
     bind_p (lift_p (jitem release ''draft'')) (\<lambda>draft.
     if \<not> truthy draft then confirm_published env base sha release
     else bind_p (complete_draft env release) (\<lambda>_. make_public env base sha release))"

definition publish :: "release_env \<Rightarrow> json rprog" where
  "publish env =
     bind_p (preflight env) (\<lambda>(base, sha).
     bind_p (ensure_tag env base sha) (\<lambda>_.
     bind_p (verify_tag env base sha) (\<lambda>_.
     bind_p (ensure_release env base) (settle_release env base sha))))"

end
