(* ===== verification/Release_Properties.thy ===== *)
theory Release_Properties
  imports Release_Publish
begin

text \<open>
  Theorems of the release scripts: what \<open>publish\<close> changes at most and in which order, what it has seen before it makes a release
  public, and what a checked list of checksums pins.
\<close>

section \<open>What a program changes\<close>

fun mutating :: "call \<Rightarrow> bool" where
  "mutating (Api path data) = (data \<noteq> None)"
| "mutating (Gh args) = (take 2 args \<noteq> [''release'', ''download''])"
| "mutating (Sleep d) = False"

fun label :: "call \<Rightarrow> string list" where
  "label (Api path data) = [''POST'', path]"
| "label (Gh args) = args"
| "label (Sleep d) = []"

text \<open>A program keeps to a plan when, wherever it stops, it has only added calls, and those that change something are a
  subsequence of the plan.\<close>

definition keeps_to :: "'a rprog \<Rightarrow> string list list \<Rightarrow> bool" where
  "keeps_to p plan \<longleftrightarrow> (\<forall>w. \<exists>cs. snd (p w) = w @ cs \<and> subseq (map label (filter mutating cs)) plan)"

lemma keepsI: "(\<And>w. \<exists>cs. snd (p w) = w @ cs \<and> subseq (map label (filter mutating cs)) plan) \<Longrightarrow> keeps_to p plan"
  by (simp add: keeps_to_def)

lemma keepsD: "keeps_to p plan \<Longrightarrow> p w = (r, w1) \<Longrightarrow> \<exists>cs. w1 = w @ cs \<and> subseq (map label (filter mutating cs)) plan"
  unfolding keeps_to_def by (metis snd_conv)

lemma keeps_quiet [intro, simp]: "keeps_to (Pair r) []" "keeps_to (return_p x) []" "keeps_to (raise_p e) []" "keeps_to (lift_p r) []" "keeps_to (require c m) []"
  "keeps_to (api env path None opt) []" "keeps_to (download env) []" "keeps_to (sums_checked env dir) []"
  by (auto simp: keeps_to_def return_p_def raise_p_def lift_p_def require_def api_def download_def sums_checked_def)

lemma keeps_gh: "take 2 args \<noteq> [''release'', ''download''] \<Longrightarrow> keeps_to (gh env args) [args]"
  by (simp add: keeps_to_def gh_def)

lemma keeps_post: "keeps_to (api env path (Some d) opt) [[''POST'', path]]"
  by (simp add: keeps_to_def api_def)

lemma keeps_bind:
  assumes "keeps_to p A" "\<And>x. keeps_to (f x) B"
  shows "keeps_to (bind_p p f) (A @ B)"
proof (rule keepsI)
  fix w
  obtain r w1 where p: "p w = (r, w1)" by (cases "p w")
  then obtain cs where cs: "w1 = w @ cs" "subseq (map label (filter mutating cs)) A" using keepsD [OF assms(1)] by blast
  show "\<exists>cs. snd (bind_p p f w) = w @ cs \<and> subseq (map label (filter mutating cs)) (A @ B)"
  proof (cases r)
    case Inl
    then show ?thesis using p cs subseq_rev_drop_many by (auto simp: bind_p_def)
  next
    case (Inr x)
    obtain ds where "snd (f x w1) = w1 @ ds" "subseq (map label (filter mutating ds)) B" using assms(2) unfolding keeps_to_def by blast
    then show ?thesis using p cs Inr list_emb_append_mono [OF cs(2)] by (intro exI [of _ "cs @ ds"]) (simp add: bind_p_def)
  qed
qed

lemma keeps_weaken: "keeps_to p A \<Longrightarrow> subseq A B \<Longrightarrow> keeps_to p B"
  unfolding keeps_to_def by (meson subseq_order.trans)

lemma keeps_bind_quiet: "keeps_to p [] \<Longrightarrow> (\<And>x. keeps_to (f x) B) \<Longrightarrow> keeps_to (bind_p p f) B"
  using keeps_bind [of p "[]" f B] by simp

lemma keeps_fun: "(\<And>w. keeps_to (\<lambda>v. p w v) A) \<Longrightarrow> keeps_to (\<lambda>w. p w w) A"
  unfolding keeps_to_def by blast

lemma keeps_nothing: "keeps_to p [] \<Longrightarrow> keeps_to p plan"
  using keeps_weaken [of p "[]" plan] by simp

lemma keeps_bind_Cons: "keeps_to p [a] \<Longrightarrow> (\<And>x. keeps_to (f x) B) \<Longrightarrow> keeps_to (bind_p p f) (a # B)"
  using keeps_bind [of p "[a]" f B] by simp

lemma keeps_if: "keeps_to p plan \<Longrightarrow> keeps_to q plan \<Longrightarrow> keeps_to (if c then p else q) plan"
  by simp

lemma keeps_option: "keeps_to p plan \<Longrightarrow> (\<And>x. keeps_to (q x) plan) \<Longrightarrow> keeps_to (case m of None \<Rightarrow> p | Some x \<Rightarrow> q x) plan"
  by (cases m) simp_all

lemma keeps_prod: "(\<And>x y. keeps_to (f x y) plan) \<Longrightarrow> keeps_to (case z of (x, y) \<Rightarrow> f x y) plan"
  by (cases z) simp

text \<open>Rules by the head of the program: steps that change nothing, and ends.\<close>

lemmas keeps_steps = keeps_quiet [THEN keeps_bind_quiet] keeps_if keeps_option keeps_prod

lemmas keeps_ends = keeps_quiet [THEN keeps_nothing]

section \<open>The plan\<close>

lemma find_pages_quiet: "keeps_to (find_pages env base pages) []"
proof (induction pages)
  case (Cons page pages)
  have "keeps_to (\<lambda>w. api_get env (base @ ''/releases?per_page=100&page='' @ dec_nat page @ ''&cache='' @ dec_int (re_clock env (length w))) w) []"
    by (rule keeps_fun) simp
  then show ?case using Cons by (auto intro!: keeps_bind_quiet split: list.split)
qed simp

lemma find_release_quiet: "keeps_to (find_release env base) []"
  by (simp add: find_release_def find_pages_quiet)

lemma wait_quiet: "keeps_to (wait_for_created_release env base delays) []"
proof (induction delays)
  case (Cons d ds)
  have "keeps_to (\<lambda>w. (Inr (), if d = 0 then w else w @ [Sleep d])) []" by (auto simp: keeps_to_def)
  then show ?case using Cons by (auto intro!: keeps_bind_quiet find_release_quiet split: option.split)
qed simp

lemma verify_tag_quiet: "keeps_to (verify_tag env base sha) []"
  unfolding verify_tag_def by (intro keeps_steps keeps_ends)

lemma head_is_quiet: "keeps_to (head_is env base sha msg) []"
  unfolding head_is_def by (intro keeps_steps keeps_ends)

lemmas checks_quiet = verify_tag_quiet head_is_quiet find_release_quiet wait_quiet

lemmas keeps_checks = checks_quiet [THEN keeps_bind_quiet]

lemma preflight_quiet: "keeps_to (preflight env) []"
  unfolding preflight_def Let_def by (intro keeps_steps keeps_checks keeps_ends)

lemma verify_download_quiet: "keeps_to (verify_download env dir) []"
  unfolding verify_download_def by (intro keeps_steps keeps_ends)

lemma confirm_quiet: "keeps_to (confirm_published env base sha release) []"
  unfolding confirm_published_def by (intro keeps_steps keeps_checks keeps_ends verify_download_quiet [THEN keeps_bind_quiet])

definition tag_plan :: "string \<Rightarrow> string list list" where
  "tag_plan base = [[''POST'', base @ ''/git/tags''], [''POST'', base @ ''/git/refs'']]"

definition release_plan :: "release_env \<Rightarrow> string list list" where
  "release_plan env = tag_plan (''repos/'' @ REPOSITORY) @ [create_args env] @ map (asset_upload_args env) (assets env) @ [edit_args env]"

lemma gh_keeps: "keeps_to (gh env (create_args env)) [create_args env]" "keeps_to (gh env (asset_upload_args env name)) [asset_upload_args env name]"
  "keeps_to (gh env (edit_args env)) [edit_args env]"
  by (auto intro!: keeps_gh simp: create_args_def asset_upload_args_def edit_args_def)

lemma ensure_tag_keeps: "keeps_to (ensure_tag env base sha) (tag_plan base)"
  unfolding ensure_tag_def tag_plan_def by (intro keeps_steps keeps_post [THEN keeps_bind_Cons] keeps_ends)

lemma ensure_release_keeps: "keeps_to (ensure_release env base) [create_args env]"
  unfolding ensure_release_def by (intro keeps_steps keeps_checks gh_keeps [THEN keeps_bind_Cons] keeps_ends)

lemma upload_each_keeps: "keeps_to (upload_each env draft existing names) (map (asset_upload_args env) names)"
proof (induction names)
  case (Cons name names)
  have "keeps_to (bind_p (case m of Some a \<Rightarrow> bind_p (lift_p r) (\<lambda>b. require (c a b) e)
      | None \<Rightarrow> bind_p (require draft e') (\<lambda>_. gh env (asset_upload_args env name))) (\<lambda>_. upload_each env draft existing names))
      (asset_upload_args env name # map (asset_upload_args env) names)" for m :: "json option" and r :: "exn + bytes" and c e e'
    by (intro keeps_bind_Cons keeps_steps gh_keeps keeps_ends Cons)
  then show ?case by simp
qed simp

lemma complete_draft_keeps: "keeps_to (complete_draft env release) (map (asset_upload_args env) (assets env))"
proof -
  have uploads: "keeps_to (bind_p (upload_each env d ex (assets env)) f) (map (asset_upload_args env) (assets env))" if "\<And>x. keeps_to (f x) []" for d ex f
    using keeps_bind [OF upload_each_keeps that] by simp
  show ?thesis unfolding complete_draft_def by (intro uploads keeps_steps keeps_ends)
qed

lemma make_public_keeps: "keeps_to (make_public env base sha release) [edit_args env]"
proof -
  have edits: "keeps_to (bind_p (if d then gh env (edit_args env) else return_p ()) f) [edit_args env]" if "\<And>x. keeps_to (f x) []" for d f
    by (intro keeps_bind_Cons keeps_if gh_keeps keeps_ends that)
  show ?thesis unfolding make_public_def by (intro edits keeps_steps keeps_checks keeps_ends)
qed

lemma keeps_bind_knowing:
  assumes "keeps_to p A" "\<And>x w w1. p w = (Inr x, w1) \<Longrightarrow> keeps_to (f x) B"
  shows "keeps_to (bind_p p f) (A @ B)"
proof -
  have "bind_p p f = bind_p p (\<lambda>x. if \<exists>w w1. p w = (Inr x, w1) then f x else return_p undefined)"
    by (auto simp: bind_p_def fun_eq_iff split: prod.split sum.split)
  moreover have "keeps_to (if \<exists>w w1. p w = (Inr x, w1) then f x else return_p undefined) B" for x
    using assms(2) keeps_ends(2) by (auto simp del: prog_simps)
  then have "keeps_to (bind_p p (\<lambda>x. if \<exists>w w1. p w = (Inr x, w1) then f x else return_p undefined)) (A @ B)"
    by (rule keeps_bind [OF assms(1)])
  ultimately show ?thesis by (simp only:)
qed

lemma lift_p_Inr [simp]: "lift_p r w = (Inr x, w1) \<longleftrightarrow> r = Inr x \<and> w1 = w"
  by (auto simp: lift_p_def)

lemma require_Inr [simp]: "require c m w = (Inr u, w1) \<longleftrightarrow> c \<and> w1 = w"
  by (auto simp: require_def)

lemma sums_checked_Inr [simp]: "sums_checked env dir w = (Inr u, w1) \<longleftrightarrow> check_sums (re_sha256 env) dir = Inr True \<and> w1 = w"
  by (auto simp: sums_checked_def sums_main_def split: sum.splits bool.splits)

lemma api_Inr [simp]: "api env path data opt w = (Inr j, w1) \<longleftrightarrow> api_result opt path (re_api env (length w) path data) = Inr j \<and> w1 = w @ [Api path data]"
  by (auto simp: api_def)

definition ready :: "release_env \<Rightarrow> string \<Rightarrow> bool" where
  "ready env sha \<longleftrightarrow> re_environ env ''RELEASE_SHA'' = Some sha \<and> re_checkout env = sha \<and> re_runtime_version env = re_version env \<and>
     (\<exists>b j. re_event env = Inr b \<and> json_loads b = Some j \<and> validate_run env REPOSITORY sha (jget j ''workflow_run'') = Inr ()) \<and>
     set (map fst (re_dist env)) = set (assets env) \<and> check_sums (re_sha256 env) (re_dist env) = Inr True"

lemma jitem_jget: "jitem j k = Inr v \<Longrightarrow> jget j k = v"
  by (auto simp: jitem_def split: json.splits option.splits)

lemma preflightD:
  assumes "preflight env w = (Inr (base, sha), w1)"
  shows "base = ''repos/'' @ REPOSITORY" "ready env sha"
proof -
  obtain repo job where job: "env_var env ''RELEASE_SHA'' = Inr sha" "base = ''repos/'' @ repo" "validate_run env repo sha job = Inr ()" "re_checkout env = sha"
    "re_runtime_version env = re_version env" "check_sums (re_sha256 env) (re_dist env) = Inr True" "set (map fst (re_dist env)) = set (assets env)"
    "bind_r (re_event env) (\<lambda>b. bind_r (case json_loads b of Some j \<Rightarrow> Inr j | None \<Rightarrow> Inl (ValueError ''json'')) (\<lambda>j. jitem j ''workflow_run'')) = Inr job"
    using assms unfolding preflight_def Let_def bind_p_Inr by (simp del: bind_r_Inr_iff) metis
  then have "repo = REPOSITORY" by (auto simp: validate_run_def)
  with job show "base = ''repos/'' @ REPOSITORY" by simp
  from job \<open>repo = REPOSITORY\<close> show "ready env sha"
    by (auto simp: ready_def env_var_def split: option.splits dest!: jitem_jget)
qed

lemma settle_keeps: "keeps_to (settle_release env base sha release) (map (asset_upload_args env) (assets env) @ [edit_args env])"
  unfolding settle_release_def
  by (intro keeps_steps confirm_quiet [THEN keeps_nothing] keeps_bind complete_draft_keeps make_public_keeps)

lemma publish_keeps: "keeps_to (publish env) (release_plan env)"
proof -
  have "keeps_to (case x of (base, sha) \<Rightarrow> bind_p (ensure_tag env base sha) (\<lambda>_. bind_p (verify_tag env base sha) (\<lambda>_.
      bind_p (ensure_release env base) (settle_release env base sha)))) (release_plan env)" if "preflight env w = (Inr x, w1)" for x w w1
    using that keeps_bind [OF ensure_tag_keeps keeps_bind_quiet [OF verify_tag_quiet keeps_bind [OF ensure_release_keeps settle_keeps]]]
    by (cases x) (auto simp: release_plan_def dest!: preflightD(1))
  from keeps_bind_knowing [OF preflight_quiet this] show ?thesis by (simp add: publish_def)
qed

text \<open>Whatever GitHub answers and wherever the script stops, what it changes is a subsequence of one fixed plan: the annotated tag, its
  reference, one draft, each missing asset once, one publication, in this order. So nothing is ever created or uploaded twice in a run, and
  nothing is changed after a release is public.\<close>

theorem publication_planned:
  "subseq (map label (filter mutating (snd (publish env [])))) (release_plan env)"
  using publish_keeps [of env] by (auto simp: keeps_to_def dest: spec [of _ "[]"])

section \<open>What was seen before publication\<close>

abbreviation answers :: "release_env \<Rightarrow> nat \<Rightarrow> string \<Rightarrow> json \<Rightarrow> bool" where
  "answers env n path j \<equiv> api_result False path (re_api env n path None) = Inr j"

text \<open>The service's answers to the calls from the \<open>n\<close>th on: the tag is annotated and names the commit, and \<open>main\<close> does.\<close>

definition tag_seen :: "release_env \<Rightarrow> nat \<Rightarrow> string \<Rightarrow> string \<Rightarrow> bool" where
  "tag_seen env n base sha \<longleftrightarrow> (\<exists>ref tag. answers env n (base @ ''/git/ref/tags/'' @ TAG env) ref \<and> jget (jget ref ''object'') ''type'' = JStr ''tag'' \<and>
     answers env (Suc n) (base @ ''/git/tags/'' @ py_str (jget (jget ref ''object'') ''sha'')) tag \<and>
     jget (jget tag ''object'') ''type'' = JStr ''commit'' \<and> jget (jget tag ''object'') ''sha'' = JStr sha)"

definition head_seen :: "release_env \<Rightarrow> nat \<Rightarrow> string \<Rightarrow> string \<Rightarrow> bool" where
  "head_seen env n base sha \<longleftrightarrow> (\<exists>j. answers env n (base @ ''/git/ref/heads/main'') j \<and> jget (jget j ''object'') ''sha'' = JStr sha)"

lemma verify_tagD:
  assumes "verify_tag env base sha w = (Inr u, w1)"
  shows "tag_seen env (length w) base sha \<and> length w1 = length w + 2 \<and> take (length w) w1 = w"
proof -
  obtain ref ob s tag target where "answers env (length w) (base @ ''/git/ref/tags/'' @ TAG env) ref" "jitem ref ''object'' = Inr ob" "jitem ob ''type'' = Inr (JStr ''tag'')"
    "jitem ob ''sha'' = Inr s" "answers env (Suc (length w)) (base @ ''/git/tags/'' @ py_str s) tag" "jitem tag ''object'' = Inr target"
    "jitem target ''type'' = Inr (JStr ''commit'')" "jitem target ''sha'' = Inr (JStr sha)"
    "w1 = w @ [Api (base @ ''/git/ref/tags/'' @ TAG env) None, Api (base @ ''/git/tags/'' @ py_str s) None]"
    using assms unfolding verify_tag_def by (auto simp: bind_p_Inr split: if_splits)
  then show ?thesis by (auto simp: tag_seen_def dest!: jitem_jget)
qed

lemma head_isD:
  assumes "head_is env base sha msg w = (Inr u, w1)"
  shows "head_seen env (length w) base sha \<and> length w1 = length w + 1 \<and> take (length w) w1 = w"
  using assms unfolding head_is_def head_seen_def by (auto simp: bind_p_Inr dest!: jitem_jget)

definition same_files :: "release_env \<Rightarrow> directory \<Rightarrow> bool" where
  "same_files env dir \<longleftrightarrow> set (map fst dir) = set (assets env) \<and>
     (\<forall>name \<in> set (assets env). \<exists>a b. map_of dir name = Some (Some a) \<and> map_of (re_dist env) name = Some (Some b) \<and> re_sha256 env a = re_sha256 env b)"

lemma read_bytes_Inr [simp]: "read_bytes dir name = Inr b \<longleftrightarrow> map_of dir name = Some (Some b)"
  by (auto simp: read_bytes_def split: option.splits)

lemma complete_draftD:
  assumes "complete_draft env release w = (Inr u, w1)"
  shows "\<exists>before dir. w1 = before @ [Gh [''release'', ''download'', TAG env]] \<and> re_download env (length before) = Some dir \<and> same_files env dir"
proof -
  obtain before dir where d: "download env before = (Inr dir, w1)" "set (map fst dir) = set (assets env)" "same_digests env dir = Inr ()"
    using assms unfolding complete_draft_def by (auto simp: bind_p_Inr)
  then have "same_files env dir" by (auto simp: same_files_def same_digests_def map_r_Inr_iff list_all2_conv_all_nth in_set_conv_nth)
  with d(1) show ?thesis by (auto simp: download_def split: option.splits)
qed

lemma keeps_spares:
  assumes "keeps_to p plan" "p w = (r, w1)" "args \<notin> set plan" "take 2 args \<noteq> [''release'', ''download'']" "Gh args \<notin> set w"
  shows "Gh args \<notin> set w1"
proof -
  obtain cs where cs: "w1 = w @ cs" "subseq (map label (filter mutating cs)) plan" using keepsD assms(1,2) by blast
  have "args \<in> set (map label (filter mutating cs))" if "Gh args \<in> set cs"
  proof -
    have "Gh args \<in> set (filter mutating cs)" using that assms(4) by simp
    then have "label (Gh args) \<in> label ` set (filter mutating cs)" by (rule imageI)
    then show ?thesis by simp
  qed
  then show ?thesis using cs assms(3,5) by (auto elim: list_emb_set)
qed

lemma make_public_edits:
  assumes "make_public env base sha release w = (r, calls)" "Gh (edit_args env) \<in> set calls" "Gh (edit_args env) \<notin> set w"
  shows "\<exists>a b c after. calls = w @ [a, b, c, Gh (edit_args env)] @ after \<and> tag_seen env (length w) base sha \<and> head_seen env (length w + 2) base sha"
proof -
  have quiet: "take 2 (edit_args env) \<noteq> [''release'', ''download'']" by (simp add: edit_args_def)
  obtain r1 w1 where v: "verify_tag env base sha w = (r1, w1)" by (cases "verify_tag env base sha w")
  then have 1: "Gh (edit_args env) \<notin> set w1" using keeps_spares [OF verify_tag_quiet v _ quiet assms(3)] by simp
  obtain u1 where r1: "r1 = Inr u1" using assms(1,2) v 1 by (cases r1) (auto simp: make_public_def bind_p_def)
  obtain r2 w2 where h: "head_is env base sha ''main moved before publication'' w1 = (r2, w2)" by (cases "head_is env base sha ''main moved before publication'' w1")
  then have 2: "Gh (edit_args env) \<notin> set w2" using keeps_spares [OF head_is_quiet h _ quiet 1] by simp
  obtain u2 where r2: "r2 = Inr u2" using assms(1,2) v r1 h 2 by (cases r2) (auto simp: make_public_def bind_p_def)
  note vt = verify_tagD [OF v [unfolded r1]] and hd = head_isD [OF h [unfolded r2]]
  have "\<exists>cs. w2 = w @ cs \<and> length cs = 3" using vt hd by (intro exI [of _ "drop (length w) w2"]) (metis append_take_drop_id length_drop add.assoc diff_add_inverse take_take min.absorb1 le_add1 numeral_plus_one semiring_norm(5))
  then obtain a b c where w2: "w2 = w @ [a, b, c]" by (auto simp: length_Suc_conv numeral_3_eq_3)
  define f where "f = (\<lambda>_ :: unit. bind_p (api_get env (base @ ''/releases/tags/'' @ TAG env)) (\<lambda>published.
     bind_p (lift_p (bind_r (jitem published ''draft'') (\<lambda>d. if truthy d then Inr False
         else bind_r (jitem published ''prerelease'') (\<lambda>p. Inr (py_eq p (JBool (prerelease (re_version env)))))))) (\<lambda>ok.
     bind_p (require ok ''release is not published'') (\<lambda>_.
     bind_p (lift_p (asset_names published)) (\<lambda>as.
     bind_p (require (set (map fst as) = JStr ` set (assets env)) ''published asset set mismatch'') (\<lambda>_.
     bind_p (verify_tag env base sha) (\<lambda>_.
     lift_p (jitem published ''html_url''))))))))"
  have f: "keeps_to (f u) []" for u unfolding f_def by (intro keeps_steps keeps_checks keeps_ends)
  have tail: "bind_p (if truthy (jget release ''draft'') then gh env (edit_args env) else return_p ()) f w2 = (r, calls)"
    using assms(1) v r1 h r2 unfolding make_public_def f_def by (simp add: bind_p_def)
  have "\<exists>after. calls = w2 @ [Gh (edit_args env)] @ after"
  proof (cases "truthy (jget release ''draft'')")
    case True
    then show ?thesis using tail keepsD [OF f] by (fastforce simp: bind_p_def gh_def split: if_splits)
  next
    case False
    then have "f () w2 = (r, calls)" using tail by (simp add: bind_p_def)
    then show ?thesis using keeps_spares [OF f _ _ quiet 2] assms(2) by fastforce
  qed
  then show ?thesis using w2 vt hd by auto
qed

lemma keeps_reach:
  assumes "bind_p p f w = (res, calls)" "keeps_to p plan" "args \<notin> set plan" "take 2 args \<noteq> [''release'', ''download'']" "Gh args \<notin> set w" "Gh args \<in> set calls"
  obtains x w1 where "p w = (Inr x, w1)" "f x w1 = (res, calls)" "Gh args \<notin> set w1"
proof -
  obtain r w1 where p: "p w = (r, w1)" by (cases "p w")
  then show thesis using that assms(1,6) keeps_spares [OF assms(2) p assms(3-5)] by (cases r) (auto simp: bind_p_def)
qed

lemma settle_edits:
  assumes "settle_release env base sha release w = (res, calls)" "Gh (edit_args env) \<in> set calls" "Gh (edit_args env) \<notin> set w"
  shows "\<exists>before dir a b c after. calls = before @ [Gh [''release'', ''download'', TAG env], a, b, c, Gh (edit_args env)] @ after \<and>
    re_download env (length before) = Some dir \<and> same_files env dir \<and> tag_seen env (Suc (length before)) base sha \<and> head_seen env (length before + 3) base sha"
proof -
  have quiet: "take 2 (edit_args env) \<noteq> [''release'', ''download'']" by (simp add: edit_args_def)
  have "edit_args env \<notin> set (map (asset_upload_args env) (assets env))" by (auto simp: edit_args_def asset_upload_args_def)
  moreover have "bind_p (complete_draft env release) (\<lambda>_. make_public env base sha release) w = (res, calls)"
    using assms keeps_spares [OF confirm_quiet _ _ quiet assms(3)] by (fastforce simp: settle_release_def bind_p_def lift_p_def split: sum.splits if_splits)
  ultimately obtain u w1 where "complete_draft env release w = (Inr u, w1)" "make_public env base sha release w1 = (res, calls)" "Gh (edit_args env) \<notin> set w1"
    using keeps_reach [OF _ complete_draft_keeps _ quiet assms(3,2)] by metis
  then show ?thesis using complete_draftD make_public_edits [OF _ assms(2)] by (fastforce simp: numeral_3_eq_3)
qed

text \<open>C36: A release is made public only after everything was seen to agree: when the script makes the call that publishes, it runs for a commit whose
  CI run passed on a push to \<open>main\<close> and carries the release marker, the checkout and the installed package are of that commit and version, the local
  assets are complete and match their checksums; and its last four calls before were the download of the draft, whose files are exactly the assets with
  the digests of the local ones, the tag, which is annotated and names the commit, and \<open>main\<close>, which is still at the commit.\<close>

theorem publication_verified:
  assumes "publish env [] = (res, calls)" "Gh (edit_args env) \<in> set calls"
  shows "\<exists>sha before dir a b c after. ready env sha \<and>
    calls = before @ [Gh [''release'', ''download'', TAG env], a, b, c, Gh (edit_args env)] @ after \<and>
    re_download env (length before) = Some dir \<and> same_files env dir \<and>
    tag_seen env (Suc (length before)) (''repos/'' @ REPOSITORY) sha \<and> head_seen env (length before + 3) (''repos/'' @ REPOSITORY) sha"
proof -
  have quiet: "take 2 (edit_args env) \<noteq> [''release'', ''download'']" by (simp add: edit_args_def)
  have other: "edit_args env \<notin> set (tag_plan base)" "edit_args env \<notin> set [create_args env]" for base
    by (auto simp: edit_args_def tag_plan_def create_args_def)
  obtain base sha w1 where 1: "preflight env [] = (Inr (base, sha), w1)" "Gh (edit_args env) \<notin> set w1"
    "bind_p (ensure_tag env base sha) (\<lambda>_. bind_p (verify_tag env base sha) (\<lambda>_. bind_p (ensure_release env base) (settle_release env base sha))) w1 = (res, calls)"
    by (rule keeps_reach [OF assms(1) [unfolded publish_def] preflight_quiet _ quiet _ assms(2)]) auto
  obtain w2 where 2: "bind_p (verify_tag env base sha) (\<lambda>_. bind_p (ensure_release env base) (settle_release env base sha)) w2 = (res, calls)"
      "Gh (edit_args env) \<notin> set w2"
    by (rule keeps_reach [OF 1(3) ensure_tag_keeps other(1) quiet 1(2) assms(2)])
  obtain w3 where 3: "bind_p (ensure_release env base) (settle_release env base sha) w3 = (res, calls)" "Gh (edit_args env) \<notin> set w3"
    by (rule keeps_reach [OF 2(1) verify_tag_quiet _ quiet 2(2) assms(2)]) auto
  obtain release w4 where 4: "settle_release env base sha release w4 = (res, calls)" "Gh (edit_args env) \<notin> set w4"
    by (rule keeps_reach [OF 3(1) ensure_release_keeps other(2) quiet 3(2) assms(2)])
  show ?thesis using settle_edits [OF 4(1) assms(2) 4(2)] preflightD [OF 1(1)] by metis
qed

text \<open>A service where the tag exists and the draft is empty.\<close>

definition demo_sha :: string where
  "demo_sha = replicate 40 CHR ''a''"

definition demo_job :: json where
  "demo_job = JObj [(''id'', JInt 7), (''name'', JStr ''CI''), (''status'', JStr ''completed''), (''conclusion'', JStr ''success''), (''event'', JStr ''push''),
     (''head_branch'', JStr ''main''), (''head_repository'', JObj [(''full_name'', JStr REPOSITORY)]), (''head_sha'', JStr demo_sha),
     (''head_commit'', JObj [(''message'', JStr ''[release v1]'')])]"

definition demo_release :: "bool \<Rightarrow> json" where
  "demo_release draft = JObj [(''tag_name'', JStr ''v1''), (''draft'', JBool draft), (''prerelease'', JBool False), (''html_url'', JStr ''u''),
     (''assets'', JList (if draft then [] else map (\<lambda>n. JObj [(''name'', JStr n)]) (ASSETS ''1'')))]"

definition demo_files :: directory where
  "demo_files = snd (sums_main (\<lambda>b. b) False (map (\<lambda>n. (n, Some ''x'')) (butlast (ASSETS ''1''))))"

definition demo_api :: "string \<Rightarrow> json" where
  "demo_api path =
     (if contains ''/actions/runs/'' path then demo_job
      else if contains ''/git/ref/heads/'' path then JObj [(''object'', JObj [(''sha'', JStr demo_sha)])]
      else if contains ''/git/ref/tags/'' path then JObj [(''object'', JObj [(''type'', JStr ''tag''), (''sha'', JStr ''t'')])]
      else if contains ''/git/tags/'' path then JObj [(''object'', JObj [(''type'', JStr ''commit''), (''sha'', JStr demo_sha)])]
      else if contains ''/releases?'' path then JList [demo_release True]
      else demo_release False)"

definition demo_env :: release_env where
  "demo_env = \<lparr>re_environ = map_of [(''GH_REPO'', REPOSITORY), (''RELEASE_SHA'', demo_sha), (''GITHUB_EVENT_NAME'', ''workflow_run'')],
     re_event = Inr (json_dumps '','' '':'' (JObj [(''workflow_run'', demo_job)])), re_checkout = demo_sha, re_version = ''1'',
     re_project = Inr (JObj [(''project'', JObj [(''version'', JStr ''1'')])]), re_runtime_version = ''1'', re_dist = demo_files, re_sha256 = (\<lambda>b. b),
     re_clock = (\<lambda>_. 0), re_api = (\<lambda>_ path _. Inr (json_dumps '','' '':'' (demo_api path))), re_gh = (\<lambda>_ _. True), re_download = (\<lambda>_. Some demo_files),
     re_wheel = (\<lambda>_. Inl OSError), re_metadata = (\<lambda>_ _. None), re_sdist = (\<lambda>_. Inl OSError), re_toml = (\<lambda>_. Inl OSError)\<rparr>"

definition demo_base :: string where
  "demo_base = ''repos/'' @ REPOSITORY"

lemma demo_ok: "json_ok (demo_api path)"
proof -
  have "json_ok demo_job" "json_ok (demo_release True)" "json_ok (demo_release False)" by code_simp+
  then show ?thesis by (simp add: demo_api_def demo_sha_def)
qed

lemma demo_release_get [simp]: "api demo_env path d opt w = (Inr (demo_api path), w @ [Api path d])"
  using demo_ok by (simp add: api_def api_result_def demo_env_def compact.loads_printed)

lemma demo_fields [simp]: "re_version demo_env = ''1''" "TAG demo_env = ''v1''" "re_dist demo_env = demo_files" "re_sha256 demo_env = (\<lambda>b. b)"
  "re_download demo_env n = Some demo_files" "re_gh demo_env n args" "re_clock demo_env n = 0"
  by (simp_all add: demo_env_def TAG_def)

lemma demo_release_run [simp]:
  "verify_tag demo_env demo_base demo_sha w = (Inr (), w @ [Api (demo_base @ ''/git/ref/tags/v1'') None, Api (demo_base @ ''/git/tags/t'') None])"
  "head_is demo_env demo_base demo_sha m w = (Inr (), w @ [Api (demo_base @ ''/git/ref/heads/main'') None])"
proof -
  have paths: "demo_api (demo_base @ ''/git/ref/tags/v1'') = JObj [(''object'', JObj [(''type'', JStr ''tag''), (''sha'', JStr ''t'')])]"
    "demo_api (demo_base @ ''/git/tags/t'') = JObj [(''object'', JObj [(''type'', JStr ''commit''), (''sha'', JStr demo_sha)])]"
    "demo_api (demo_base @ ''/git/ref/heads/main'') = JObj [(''object'', JObj [(''sha'', JStr demo_sha)])]" by code_simp+
  then show "head_is demo_env demo_base demo_sha m w = (Inr (), w @ [Api (demo_base @ ''/git/ref/heads/main'') None])"
    by (simp add: head_is_def bind_p_def lift_p_def jitem_def require_def del: append.simps)
  show "verify_tag demo_env demo_base demo_sha w = (Inr (), w @ [Api (demo_base @ ''/git/ref/tags/v1'') None, Api (demo_base @ ''/git/tags/t'') None])"
    using paths by (simp add: verify_tag_def bind_p_def lift_p_def jitem_def require_def)
qed

lemma demo_preflight: "\<exists>w1. preflight demo_env [] = (Inr (demo_base, demo_sha), w1)"
proof -
  have "json_ok (JObj [(''workflow_run'', demo_job)])" by code_simp
  then have "json_loads (json_dumps '','' '':'' (JObj [(''workflow_run'', demo_job)])) = Some (JObj [(''workflow_run'', demo_job)])"
    by (rule compact.loads_printed)
  then obtain b where event: "re_event demo_env = Inr b" "json_loads b = Some (JObj [(''workflow_run'', demo_job)])" by (simp add: demo_env_def del: json_dumps.simps)
  have fields: "env_var demo_env ''GH_REPO'' = Inr REPOSITORY" "env_var demo_env ''RELEASE_SHA'' = Inr demo_sha" "env_var demo_env ''GITHUB_EVENT_NAME'' = Inr ''workflow_run''"
    "re_checkout demo_env = demo_sha" "re_project demo_env = Inr (JObj [(''project'', JObj [(''version'', JStr ''1'')])])" "re_runtime_version demo_env = ''1''"
    by (simp_all add: env_var_def demo_env_def)
  have "validate_run demo_env REPOSITORY demo_sha demo_job = Inr ()" "demo_api (demo_base @ ''/actions/runs/7'') = demo_job" "jitem demo_job ''id'' = Inr (JInt 7)"
    "py_str (JInt 7) = ''7''" "set (map fst demo_files) = set (ASSETS ''1'')" "fst (sums_main (\<lambda>b. b) True demo_files) = 0"
    by code_simp+
  moreover have "jitem (JObj [(''workflow_run'', demo_job)]) ''workflow_run'' = Inr demo_job" by (simp add: jitem_def)
  moreover have "jitem (JObj [(''project'', p)]) ''project'' = Inr p" "jitem (JObj [(''version'', p)]) ''version'' = Inr p" for p by (simp_all add: jitem_def)
  ultimately show ?thesis
    by (simp add: preflight_def bind_p_def require_def lift_p_def Let_def event fields sums_checked_def demo_base_def [symmetric, simplified])
qed

lemma demo_draft: "\<exists>w1. ensure_release demo_env demo_base w = (Inr (demo_release True), w1)"
proof -
  have "demo_api (demo_base @ ''/releases?per_page=100&page=1&cache=0'') = JList [demo_release True]" "dec_nat (Suc 0) = ''1''" "dec_int 0 = ''0''" by code_simp+
  then show ?thesis
    by (simp add: ensure_release_def find_release_def upt_conv_Cons bind_p_def lift_p_def require_def jitem_def demo_release_def)
qed

lemma demo_complete: "\<exists>w1. complete_draft demo_env (demo_release True) w = (Inr (), w1)"
proof -
  have "same_digests demo_env demo_files = Inr ()" "set (map fst demo_files) = set (ASSETS ''1'')" "fst (sums_main (\<lambda>b. b) True demo_files) = 0"
    "asset_names (demo_release True) = Inr []" "truthy (jget (demo_release True) ''draft'')" by code_simp+
  then show ?thesis by (simp add: complete_draft_def bind_p_def lift_p_def require_def gh_def download_def sums_checked_def ASSETS_def)
qed

lemma demo_edit: "\<exists>r cs. make_public demo_env demo_base demo_sha (demo_release True) w = (r, cs) \<and> Gh (edit_args demo_env) \<in> set cs"
proof -
  have "demo_api (demo_base @ ''/releases/tags/v1'') = demo_release False" "asset_names (demo_release False) = Inr (map (\<lambda>n. (JStr n, JObj [(''name'', JStr n)])) (ASSETS ''1''))"
    "truthy (jget (demo_release True) ''draft'')" "jitem (demo_release False) ''draft'' = Inr (JBool False)" "jitem (demo_release False) ''html_url'' = Inr (JStr ''u'')"
    "jitem (demo_release False) ''prerelease'' = Inr (JBool False)" "\<not> prerelease ''1''" by code_simp+
  then show ?thesis by (simp add: make_public_def bind_p_def lift_p_def require_def gh_def image_image)
qed

lemma demo_published: "Gh (edit_args demo_env) \<in> set (snd (publish demo_env []))"
proof -
  obtain w1 where 1: "preflight demo_env [] = (Inr (demo_base, demo_sha), w1)" using demo_preflight by blast
  have "demo_api (demo_base @ ''/git/ref/tags/v1'') = JObj [(''object'', JObj [(''type'', JStr ''tag''), (''sha'', JStr ''t'')])]" by code_simp
  then obtain w2 where 2: "ensure_tag demo_env demo_base demo_sha w1 = (Inr (), w2)" by (simp add: ensure_tag_def bind_p_def)
  obtain w4 where 3: "ensure_release demo_env demo_base (snd (verify_tag demo_env demo_base demo_sha w2)) = (Inr (demo_release True), w4)" using demo_draft by blast
  obtain w5 where 4: "complete_draft demo_env (demo_release True) w4 = (Inr (), w5)" using demo_complete by blast
  have 5: "jitem (demo_release True) ''draft'' = Inr (JBool True)" by code_simp
  show ?thesis using 1 2 3 4 5 demo_edit [of w5] by (auto simp: publish_def settle_release_def bind_p_def lift_p_def)
qed

theorem publication_verified_witness:
  "\<exists>sha before dir a b c after. ready demo_env sha \<and>
    snd (publish demo_env []) = before @ [Gh [''release'', ''download'', TAG demo_env], a, b, c, Gh (edit_args demo_env)] @ after \<and>
    re_download demo_env (length before) = Some dir \<and> same_files demo_env dir \<and>
    tag_seen demo_env (Suc (length before)) (''repos/'' @ REPOSITORY) sha \<and> head_seen demo_env (length before + 3) (''repos/'' @ REPOSITORY) sha"
  by (rule publication_verified [OF prod.collapse [symmetric] demo_published])

end
