(* ===== verification/Hermes_Patch.thy ===== *)
theory Hermes_Patch
  imports Release_Files Py_Lines
begin

text \<open>
  \<open>src/scripts/hermes_patch.py\<close>: checking, applying and reverting the compatibility patch of the Hermes plugin. The
  state is the tree below the checkout, from relative paths to contents. What \<open>git\<close> answers is a parameter: the commit, the paths
  of the patch, whether one of the files has staged changes, and what \<open>git apply\<close> does to the tree.
\<close>

record git =
  g_head :: "string option"
  g_numstat :: "string option"
  g_staged :: "string option"
  g_check :: "bool \<Rightarrow> directory \<Rightarrow> bool"
  g_apply :: "bool \<Rightarrow> directory \<Rightarrow> bool \<times> directory"
  g_linked :: "string list \<Rightarrow> bool"

datatype patch_exn = PatchError string | Other exn

definition of_r :: "exn + 'a \<Rightarrow> patch_exn + 'a" where
  "of_r r = (case r of Inl e \<Rightarrow> Inl (Other e) | Inr x \<Rightarrow> Inr x)"

lemma of_r_Inr [simp]: "of_r r = Inr x \<longleftrightarrow> r = Inr x"
  by (simp add: of_r_def split: sum.split)

definition git_out :: "string option \<Rightarrow> patch_exn + string" where
  "git_out r = (case r of
     Some out \<Rightarrow> Inr (py_strip out)
   | None \<Rightarrow> Inl (PatchError ''Git precondition or patch operation failed; no conflicting source may be overwritten''))"

text \<open>The file below the checkout a relative path names.\<close>

definition tree_key :: "string \<Rightarrow> string" where
  "tree_key rel = join ''/'' (path_parts rel)"

definition tree_digest :: "(bytes \<Rightarrow> string) \<Rightarrow> directory \<Rightarrow> string \<Rightarrow> exn + string" where
  "tree_digest sha256 tree rel = bind_r (read_bytes tree (tree_key rel)) (\<lambda>b. Inr (sha256 b))"

fun file_state :: "(bytes \<Rightarrow> string) \<Rightarrow> git \<Rightarrow> directory \<Rightarrow> string \<times> json \<Rightarrow> patch_exn + string" where
  "file_state sha256 g tree (rel, hashes) =
     (if starts_with ''/'' rel \<or> ''..'' \<in> set (path_parts rel) then Inl (PatchError ''Unsafe manifest path'')
      else if list_ex (\<lambda>n. g_linked g (take n (path_parts rel))) [0..<Suc (length (path_parts rel))] then Inl (PatchError ''Symlink source is unsupported'')
      else bind_r (of_r (tree_digest sha256 tree rel)) (\<lambda>current.
        bind_r (of_r (jitem hashes ''original_sha256'')) (\<lambda>original.
        if JStr current = original then Inr ''original''
        else bind_r (of_r (jitem hashes ''patched_sha256'')) (\<lambda>patched.
          if JStr current = patched then Inr ''patched''
          else Inl (PatchError ''Conflicting Hermes source; preserve changes and resolve manually'')))))"

text \<open>The manifest's entries and their common state, with nothing staged.\<close>

fun common_state :: "(bytes \<Rightarrow> string) \<Rightarrow> git \<Rightarrow> directory \<Rightarrow> json \<Rightarrow> patch_exn + (string \<times> json) list \<times> string" where
  "common_state sha256 g tree (JObj entries) =
     bind_r (map_r (file_state sha256 g tree) entries) (\<lambda>states.
     bind_r (raise_if (card (set states) \<noteq> 1) (PatchError ''Mixed patch state; resolve manually'')) (\<lambda>_.
     bind_r (git_out (g_staged g)) (\<lambda>staged.
     bind_r (raise_if (staged \<noteq> []) (PatchError ''Target files have staged changes'')) (\<lambda>_.
     Inr (entries, hd states)))))"
| "common_state sha256 g tree files = Inl (Other AttributeError)"

text \<open>Everything up to the state of the files: the manifest's entries and their common state.\<close>

definition tree_state :: "(bytes \<Rightarrow> string) \<Rightarrow> git \<Rightarrow> exn + json \<Rightarrow> exn + bytes \<Rightarrow> directory \<Rightarrow> patch_exn + (string \<times> json) list \<times> string" where
  "tree_state sha256 g manifest patch tree =
     bind_r (of_r manifest) (\<lambda>m.
     bind_r (of_r patch) (\<lambda>p.
     bind_r (of_r (jitem m ''patch_sha256'')) (\<lambda>expected.
     bind_r (raise_if (JStr (sha256 p) \<noteq> expected) (PatchError ''Patch checksum mismatch'')) (\<lambda>_.
     bind_r (git_out (g_head g)) (\<lambda>head.
     bind_r (of_r (jitem m ''upstream_commit'')) (\<lambda>upstream.
     bind_r (raise_if (JStr head \<noteq> upstream) (PatchError ''Unsupported Hermes commit'')) (\<lambda>_.
     bind_r (of_r (jitem m ''files'')) (\<lambda>files.
     bind_r (of_r (py_iter files)) (\<lambda>paths.
     bind_r (raise_if (paths = []) (PatchError ''Empty manifest'')) (\<lambda>_.
     bind_r (git_out (g_numstat g)) (\<lambda>stat.
     bind_r (raise_if (list_ex (\<lambda>j. is_obj j \<or> (case j of JList _ \<Rightarrow> True | _ \<Rightarrow> False)) paths) (Other TypeError)) (\<lambda>_.
     bind_r (raise_if ((\<lambda>l. JStr (last (split_on (CHR 0x09) l))) ` set (splitlines stat) \<noteq> set paths) (PatchError ''Patch paths do not match manifest'')) (\<lambda>_.
     common_state sha256 g tree files)))))))))))))"

definition has_digests :: "(bytes \<Rightarrow> string) \<Rightarrow> string \<Rightarrow> (string \<times> json) list \<Rightarrow> directory \<Rightarrow> patch_exn + unit" where
  "has_digests sha256 state entries tree =
     bind_r (map_r (\<lambda>(rel, hashes). bind_r (of_r (tree_digest sha256 tree rel)) (\<lambda>current. bind_r (of_r (jitem hashes (state @ ''_sha256''))) (\<lambda>expected.
       raise_if (JStr current \<noteq> expected) (PatchError ''Post-apply checksum mismatch; stop before restarting Hermes'')))) entries) (\<lambda>_. Inr ())"

definition execute_patch :: "(bytes \<Rightarrow> string) \<Rightarrow> git \<Rightarrow> exn + json \<Rightarrow> exn + bytes \<Rightarrow> string \<Rightarrow> directory \<Rightarrow> (patch_exn + string) \<times> directory" where
  "execute_patch sha256 g manifest patch action tree =
     (case tree_state sha256 g manifest patch tree of
        Inl e \<Rightarrow> (Inl e, tree)
      | Inr (entries, state) \<Rightarrow>
          if action = ''check'' \<or> action = ''apply'' \<and> state = ''patched'' \<or> action = ''revert'' \<and> state = ''original'' then (Inr state, tree)
          else if action \<noteq> ''apply'' \<and> action \<noteq> ''revert'' then (Inl (PatchError ''Unsupported action''), tree)
          else
            let reverse = (action = ''revert''); expected = (if action = ''apply'' then ''patched'' else ''original'') in
            if \<not> g_check g reverse tree then (map_sum id (\<lambda>_. expected) (git_out None), tree)
            else case g_apply g reverse tree of
              (False, tree1) \<Rightarrow> (map_sum id (\<lambda>_. expected) (git_out None), tree1)
            | (True, tree1) \<Rightarrow> (map_sum id (\<lambda>_. expected) (has_digests sha256 expected entries tree1), tree1))"

text \<open>The exit code of \<open>main\<close>; an exception it does not handle ends Python with 1 as well.\<close>

definition patch_exit :: "patch_exn + string \<Rightarrow> int" where
  "patch_exit r = (case r of Inr _ \<Rightarrow> 0 | Inl _ \<Rightarrow> 1)"

section \<open>Exactness\<close>

definition in_state :: "(bytes \<Rightarrow> string) \<Rightarrow> string \<Rightarrow> (string \<times> json) list \<Rightarrow> directory \<Rightarrow> bool" where
  "in_state sha256 state entries tree \<longleftrightarrow>
     list_all (\<lambda>(rel, hashes). \<exists>b. map_of tree (tree_key rel) = Some (Some b) \<and> jget hashes (state @ ''_sha256'') = JStr (sha256 b)) entries"

lemma jitem_Inr: "jitem j k = Inr v \<Longrightarrow> jget j k = v"
  by (auto simp: jitem_def split: json.splits option.splits)

lemma tree_digest_Inr [simp]: "tree_digest sha256 tree rel = Inr d \<longleftrightarrow> (\<exists>b. map_of tree (tree_key rel) = Some (Some b) \<and> d = sha256 b)"
  by (auto simp: tree_digest_def read_bytes_def split: option.splits)

lemma file_state_Inr:
  assumes "file_state sha256 g tree (rel, hashes) = Inr st"
  shows "st \<in> {''original'', ''patched''}" "\<exists>b. map_of tree (tree_key rel) = Some (Some b) \<and> jget hashes (st @ ''_sha256'') = JStr (sha256 b)"
  using assms by (auto split: if_splits dest!: jitem_Inr)

lemma tree_state_Inr:
  assumes "tree_state sha256 g manifest patch tree = Inr (entries, state)"
  shows "in_state sha256 state entries tree" "state \<in> {''original'', ''patched''}"
proof -
  obtain files where "common_state sha256 g tree files = Inr (entries, state)" using assms unfolding tree_state_def by (simp only: bind_r_Inr_iff) blast
  then obtain states where st: "list_all2 (\<lambda>e st. file_state sha256 g tree e = Inr st) entries states" "card (set states) = 1" "state = hd states"
    by (cases files) (auto simp: map_r_Inr_iff)
  then have one: "set states = {state}" by (cases states) (auto simp: card_1_singleton_iff)
  then have all: "list_all (\<lambda>e. file_state sha256 g tree e = Inr state) entries"
    using st(1) by (force simp: list_all_length list_all2_conv_all_nth set_conv_nth)
  have "entries \<noteq> []" using st(1) one by (cases entries) auto
  then show "state \<in> {''original'', ''patched''}" using all file_state_Inr(1) by (cases entries) fastforce+
  show "in_state sha256 state entries tree"
    using all file_state_Inr(2) unfolding in_state_def by (fastforce simp: list_all_iff)
qed

lemma has_digests_Inr: "has_digests sha256 state entries tree = Inr u \<Longrightarrow> in_state sha256 state entries tree"
  by (induction entries) (auto simp: has_digests_def in_state_def dest!: jitem_Inr)


lemma jitem_JStr: "jget j k = JStr s \<Longrightarrow> jitem j k = Inr (JStr s)"
  by (cases j) (auto simp: jitem_def split: option.splits)

lemma file_state_patched:
  assumes "file_state sha256 g tree (rel, hashes) = Inr ''original''" "map_of tree1 (tree_key rel) = Some (Some b)"
    "jget hashes ''patched_sha256'' = JStr (sha256 b)" "jget hashes ''original_sha256'' \<noteq> jget hashes ''patched_sha256''"
  shows "file_state sha256 g tree1 (rel, hashes) = Inr ''patched''"
proof -
  have "of_r (tree_digest sha256 tree1 rel) = Inr (sha256 b)" using assms(2) by simp
  moreover obtain v where "jitem hashes ''original_sha256'' = Inr v" using assms(1) by (auto split: if_splits)
  moreover have "of_r (jitem hashes ''patched_sha256'') = Inr (JStr (sha256 b))" using jitem_JStr [OF assms(3)] by simp
  ultimately show ?thesis using assms(1,3,4) by (auto dest: jitem_Inr split: if_splits)
qed

text \<open>Reverting undoes applying: after the patch was applied to an original tree, reverting reports the original state and gives back the tree as it
  was, byte for byte, when \<open>git apply --reverse\<close> undoes \<open>git apply\<close> and each file of the manifest differs between the two states.\<close>

theorem patch_reverts:
  assumes "tree_state sha256 g manifest patch tree = Inr (entries, ''original'')"
    and "execute_patch sha256 g manifest patch ''apply'' tree = (Inr ''patched'', tree1)"
    and "g_check g True tree1" "g_apply g True tree1 = (True, tree)"
    and "list_all (\<lambda>(_, h). jget h ''original_sha256'' \<noteq> jget h ''patched_sha256'') entries"
  shows "execute_patch sha256 g manifest patch ''revert'' tree1 = (Inr ''original'', tree)"
proof -
  obtain files where f: "common_state sha256 g tree files = Inr (entries, ''original'')"
    and same: "\<And>t r. common_state sha256 g t files = Inr r \<Longrightarrow> tree_state sha256 g manifest patch t = Inr r"
    using assms(1) unfolding tree_state_def by (simp only: bind_r_Inr_iff) blast
  obtain states where files: "files = JObj entries" and st: "list_all2 (\<lambda>e st. file_state sha256 g tree e = Inr st) entries states" "card (set states) = 1"
    "''original'' = hd states" "git_out (g_staged g) = Inr []" using f by (cases files) (auto simp: map_r_Inr_iff)
  have ne: "entries \<noteq> []" using st(1,2) by (cases entries) auto
  have was: "in_state sha256 ''original'' entries tree" using tree_state_Inr(1) [OF assms(1)] .
  have new: "in_state sha256 ''patched'' entries tree1"
    using assms(1,2) by (auto simp: execute_patch_def Let_def map_sum_def git_out_def split: if_splits sum.splits prod.splits bool.splits dest: has_digests_Inr)
  have "set states = {''original''}" using st(2,3) by (cases states) (auto simp: card_1_singleton_iff)
  then have "list_all (\<lambda>e. file_state sha256 g tree e = Inr ''original'') entries"
    using st(1) by (force simp: list_all_length list_all2_conv_all_nth set_conv_nth)
  then have "list_all (\<lambda>e. file_state sha256 g tree1 e = Inr ''patched'') entries"
    using new assms(5) file_state_patched unfolding in_state_def by (fastforce simp: list_all_iff)
  then have "map_r (file_state sha256 g tree1) entries = Inr (map (\<lambda>_. ''patched'') entries)" by (induction entries) auto
  moreover have "set (map (\<lambda>_. ''patched'') entries) = {''patched''}" "hd (map (\<lambda>_. ''patched'') entries) = ''patched''" using ne by (cases entries, auto)+
  ultimately have "common_state sha256 g tree1 files = Inr (entries, ''patched'')" using files st(4) by (simp del: set_map)
  then have now: "tree_state sha256 g manifest patch tree1 = Inr (entries, ''patched'')" by (rule same)
  have "has_digests sha256 ''original'' entries tree = Inr ()"
    using was by (induction entries) (auto simp: has_digests_def in_state_def of_r_def tree_digest_def read_bytes_def dest!: jitem_JStr)
  then show ?thesis using now assms(3,4) by (simp add: execute_patch_def Let_def)
qed

text \<open>A patch of one file.\<close>

definition demo_git :: git where
  "demo_git = \<lparr>g_head = Some ''c'', g_numstat = Some (''1'' @ [CHR 0x09] @ ''1'' @ [CHR 0x09] @ ''p/a.py''), g_staged = Some [], g_check = (\<lambda>_ _. True),
     g_apply = (\<lambda>reverse t. (True, AList.update ''p/a.py'' (Some (if reverse then ''old'' else ''new'')) t)), g_linked = (\<lambda>_. False)\<rparr>"

definition demo_manifest :: json where
  "demo_manifest = JObj [(''patch_sha256'', JStr ''diff''), (''upstream_commit'', JStr ''c''),
     (''files'', JObj [(''p/a.py'', JObj [(''original_sha256'', JStr ''old''), (''patched_sha256'', JStr ''new'')])])]"

definition demo_tree :: "string \<Rightarrow> directory" where
  "demo_tree content = [(''p/a.py'', Some content), (''q'', Some ''x'')]"

lemma demo_patch:
  "execute_patch (\<lambda>b. b) demo_git (Inr demo_manifest) (Inr ''diff'') ''apply'' (demo_tree ''old'') = (Inr ''patched'', demo_tree ''new'')"
  "\<exists>h. tree_state (\<lambda>b. b) demo_git (Inr demo_manifest) (Inr ''diff'') (demo_tree ''old'') = Inr ([(''p/a.py'', h)], ''original'') \<and>
    jget h ''original_sha256'' \<noteq> jget h ''patched_sha256''"
proof -
  show "execute_patch (\<lambda>b. b) demo_git (Inr demo_manifest) (Inr ''diff'') ''apply'' (demo_tree ''old'') = (Inr ''patched'', demo_tree ''new'')" by code_simp
  have "tree_state (\<lambda>b. b) demo_git (Inr demo_manifest) (Inr ''diff'') (demo_tree ''old'') =
    Inr ([(''p/a.py'', JObj [(''original_sha256'', JStr ''old''), (''patched_sha256'', JStr ''new'')])], ''original'')" by code_simp
  then show "\<exists>h. tree_state (\<lambda>b. b) demo_git (Inr demo_manifest) (Inr ''diff'') (demo_tree ''old'') = Inr ([(''p/a.py'', h)], ''original'') \<and>
    jget h ''original_sha256'' \<noteq> jget h ''patched_sha256''" by simp
qed


theorem patch_reverts_witness:
  "execute_patch (\<lambda>b. b) demo_git (Inr demo_manifest) (Inr ''diff'') ''revert'' (demo_tree ''new'') = (Inr ''original'', demo_tree ''old'')"
proof -
  obtain h where h: "tree_state (\<lambda>b. b) demo_git (Inr demo_manifest) (Inr ''diff'') (demo_tree ''old'') = Inr ([(''p/a.py'', h)], ''original'')"
    "jget h ''original_sha256'' \<noteq> jget h ''patched_sha256''" using demo_patch(2) by blast
  have "g_check demo_git True (demo_tree ''new'')" "g_apply demo_git True (demo_tree ''new'') = (True, demo_tree ''old'')"
    by (simp_all add: demo_git_def demo_tree_def)
  from patch_reverts [OF h(1) demo_patch(1) this] h(2) show ?thesis by simp
qed

end
