(* ===== verification/Spec2Isabelle.thy ===== *)
theory Spec2Isabelle
  imports Dispatcher_Process Peer_Properties Event_Contract Tunnel_Properties Front_Properties Store_Properties Security_Properties
    Hermes_Contract Process_Properties Hermes_Log Card_Contract Gateway_Startup Hermes_Compat Release_Checks Release_Properties Hermes_Patch
begin

text \<open>
  Verification of the Hermes A2A gateway (\<open>src/src/hermes_a2a_gateway\<close>) and of the A2A plugin of the agent it talks to
  (\<open>src/compat/hermes/upstream\<close>), with the scripts that release and install them (\<open>src/scripts\<close>).

  \<^bold>\<open>The program.\<close> A native coding client submits operations to a remote agent (Hermes) through a gateway of two
  processes. The \<^emph>\<open>broker\<close> beside the agent accepts operations over HTTPS, keeps them in a PostgreSQL
  ledger, submits each to the agent once, observes the agent's task and publishes snapshots in a per-device
  event log. The \<^emph>\<open>client daemon\<close> beside the native client keeps a SQLite ledger of the operations its native
  tools submitted, sends them to the broker, follows the event stream, and hands definitive results back: to a
  tool call that waits, or once into the native queue. Both processes may stop at any point; the ledgers
  decide what may be done again. The native client reaches the daemon through an MCP front end over a Unix socket.
  On the agent's side the vendored \<^emph>\<open>A2A adapter\<close> takes the broker's messages over HTTP: it authenticates the
  peer, filters and frames the text, keeps a task per message, lets the HTTP thread wait for the agent's reply and
  answers with a task or a stream of events.

  \<^bold>\<open>Theories.\<close>
  \<^item> \<open>Gateway_Prelude\<close>: results, coroutines, tables (association lists with SQL's insert, update, delete and
    select), Python strings as UTF-8 bytes, JSON values, ISO times, labelled runs and the locales
    \<open>invariant_system\<close> and \<open>at_most_once\<close>. \<open>Json_Codec\<close>: \<open>json.dumps\<close>, \<open>json.loads\<close> and their round trip.
    \<open>Py_Text\<close>: \<open>str.strip\<close>, \<open>repr\<close>, \<open>int\<close>, \<open>base64\<close> and \<open>datetime.fromisoformat\<close>.
  \<^item> \<open>Broker_Store\<close> (\<open>broker_store.py\<close>): the tables as the record \<open>store\<close>, one definition per method of
    \<open>BrokerStore\<close>; a transaction returns an error or the new store. \<open>Broker_Ledger\<close> and \<open>Broker_Steps\<close>: the
    invariant, the moves a transaction is made of and the step relation \<open>broker_step\<close>.
    \<open>Broker_Properties\<close>: theorems over all runs of it.
  \<^item> \<open>A2A_Protocol\<close> (\<open>a2a.py\<close>, \<open>models.py\<close>, \<open>diagnostics.py\<close>) and \<open>Broker_Peer\<close> (\<open>broker_peer.py\<close>): JSON-RPC with its
    retries, the stream reader, task parsing, allowlisted diagnostics, merging of artifact chunks.
    \<open>Peer_Properties\<close>: their theorems.
  \<^item> \<open>Broker_Dispatcher\<close> (\<open>BrokerDispatcher\<close> in \<open>broker.py\<close>): its jobs and its turn as coroutines. A coroutine is a
    function on the world; every \<open>await\<close> takes from a \<open>schedule\<close> what others did to the ledger meanwhile, the
    time, a fresh identifier and possibly a fault. \<open>Dispatcher_Steps\<close>: the locale \<open>ledger_calls\<close> states what
    a coroutine relies on at its calls, and \<open>ledger_client\<close>, which extends it, that the others keep to the ledger's steps; in them all jobs are
    runs of \<open>broker_step\<close>. \<open>Broker_Http\<close> (the rest of
    \<open>broker.py\<close>): authentication, routes, the event stream; requests interpret \<open>ledger_client\<close>.
    \<open>Dispatcher_Properties\<close>: theorems of both. \<open>Dispatcher_Process\<close>: the whole process as a step relation on the ledger and a list of
    coroutines (the dispatcher and its jobs), each represented by what its calls have found so far; a step is one ledger call of one of
    them, a request, the start of a job, or the late landing of a statement whose call was cut short. It interprets \<open>ledger_calls\<close>.
  \<^item> \<open>Py_Net\<close>: \<open>ipaddress\<close> and \<open>urllib.parse\<close>. \<open>Gateway_Settings\<close> (\<open>settings.py\<close>, \<open>broker_settings.py\<close>, \<open>client_settings.py\<close> and
    \<open>A2AClient.discover\<close>): validation and discovery. \<open>Ssh_Tunnel\<close> (\<open>ssh_tunnel.py\<close>): the command line, the
    classification of failures and the supervisor as a function of what it observes, with the states it passes
    through. \<open>Tunnel_Properties\<close>: their theorems. \<open>Ssh_Processes\<close> (\<open>_spawn\<close>, \<open>_signal_owned_group\<close>, \<open>_cleanup\<close> and what they call): the
    processes the tunnel owns, every answer of \<open>psutil\<close> and of the operating system being asked for once per call; the
    supervisor uses their effect. \<open>Process_Properties\<close>: signals and cleanup over the life of a tunnel.
  \<^item> \<open>Gateway_Startup\<close> (\<open>from_env\<close> of both settings, \<open>cli.py\<close>, \<open>run_broker\<close>, \<open>run_client\<close>, the \<open>lifespan\<close> of the broker): how the
    processes start and end.
  \<^item> \<open>Native_Delivery\<close> (\<open>native_delivery.py\<close>): the native transport as a function of the lines it answers.
  \<^item> \<open>Client_Store\<close>, \<open>Client_Ledger\<close>, \<open>Client_Properties\<close> (\<open>client_store.py\<close>): as for the broker.
  \<^item> \<open>Client_Service\<close> (\<open>ClientService\<close> and the command endpoint in \<open>client.py\<close>): the worker, the event loop and the
    commands as coroutines. \<open>Service_Steps\<close>: the locales \<open>client_guest\<close> (events and commands, which may be
    interrupted by anything) and \<open>client_host\<close> (the worker, which alone delivers), interpreted on the daemon's
    own schedules. \<open>Service_Properties\<close>: the daemon over restarts, and waiting.
  \<^item> \<open>Client_Command\<close> (the rest of \<open>client.py\<close>, \<open>SSHTunnel.health\<close>): the command endpoint from the bytes of a request
    (\<open>json.loads\<close> of bytes included) to its answer, \<open>BrokerTransport\<close>, health, diagnostics and doctor, start and close.
    \<open>Mcp_Front\<close> (\<open>client_mcp.py\<close>): \<open>invoke\<close> and the tools. \<open>Front_Properties\<close>: theorems of front end and daemon together.
  \<^item> \<open>Py_Lines\<close> (\<open>str.splitlines\<close>), \<open>Event_Contract\<close>: broker and client together - the event stream is read back as
    written, and the broker's snapshots pass the client's validation.
  \<^item> \<open>Hermes_Store\<close> (\<open>TurnTracker\<close>, \<open>RateLimiter\<close>, \<open>Metrics\<close>, \<open>TaskStore\<close> of \<open>protocol.py\<close>): a future is a position in the
    list of futures. \<open>Store_Properties\<close>: limiter and tracker against reference definitions. \<open>Task_Runs\<close>: theorems over all
    sequences of store operations. \<open>Hermes_Messages\<close> (the rest of \<open>protocol.py\<close>): tasks, events and frames.
  \<^item> \<open>Py_Regex\<close>: the regular expressions used (sequences of classes, optional and repeated classes, alternatives), their
    matching and \<open>re.sub\<close>. \<open>Hermes_Security\<close> (\<open>security.py\<close>), \<open>Security_Properties\<close>: their theorems.
  \<^item> \<open>Hermes_Waiting\<close> (the pending requests of \<open>A2AAdapter\<close>): the step relation \<open>wait_step\<close> of the adapter's threads, an
    interpretation of \<open>invariant_system\<close>. \<open>Hermes_Adapter\<close> (the rest of \<open>adapter.py\<close>): served agents, routing, the methods
    and \<open>do_POST\<close>; a request that waits ends in an answer that says what it waits for, and its rest is a definition of
    its own (\<open>finish_send\<close>, \<open>finish_stream\<close>, \<open>finish_subscribe\<close>), so that others may act in between.
    \<open>Adapter_Properties\<close>: its theorems. \<open>Hermes_Contract\<close>: adapter and broker together - what the adapter writes is what
    the broker's A2A client reads. \<open>Hermes_Log\<close>: conversation logs written and read. \<open>Hermes_Cards\<close>: the configuration of the
    adapter, connecting and the watchdog, agent cards and \<open>do_GET\<close>; \<open>Card_Contract\<close>: the cards against the broker's discovery
    and the adapter's routing. \<open>Hermes_Compat\<close>: what other plugins call.
  \<^item> \<open>Release_Files\<close> (files, SHA-256 lists and JSON manifests as the scripts see them), \<open>Release_Checks\<close> (\<open>write_sha256sums.py\<close>, \<open>check_dist.py\<close>,
    \<open>stage_compat_assets.py\<close>, \<open>check_app_server_schema.py\<close>), \<open>Release_Publish\<close> (\<open>publish_release.py\<close>) as a program that logs its calls of \<open>gh\<close>,
    \<open>Release_Properties\<close>: what may be published. \<open>Hermes_Patch\<close> (\<open>hermes_patch.py\<close>): the patch tool on a tree of files.

  \<^bold>\<open>What is shown.\<close> Every reachable ledger is consistent; an operation is dispatched at most once and its flow is
  serialised; definitive outcomes never change; acceptance is idempotent; events come without holes; recovery and
  claiming make progress; devices are isolated; quotas hold; artifacts come back byte for byte. The dispatcher,
  all its jobs and the requests, interleaved call by call, refine the ledger's step relation, whatever the peer answers and wherever they are cut
  short, so the ledger's theorems hold of the process; submissions settle, jobs stay within their limit, closing leaves none
  running. Unauthenticated requests do not reach the ledger. Mutations go to the peer at most once. The client daemon
  refines its ledger, queues each result at most once over any number of restarts, and its waits end. Requests to the
  peer stay on the loopback interface; the tunnel is available only over its own confirmed process. A lost answer of the
  daemon is recovered without a second submission, uploads arrive byte for byte, and errors of the command socket are
  a fixed set. In the agent's adapter, outcomes are final, subscribers are answered, scopes confine, a reply reaches the
  oldest waiting request, waiting requests are not swept as orphans, no request passes without credential, rate limit and
  trust, the adapter is exposed only behind a token, and filters leave no marker and no e-mail address; streams and polls
  tell the broker the task's state and text, logs are read back as written, and the card of an agent leads back to it. The tunnel
  signals only processes it owns, kills only after a time of grace, and cleans up completely. A release is published
  only after its assets were downloaded and compared and tag and branch were seen at its commit; checksums pin the
  distributions; the patch tool touches the plugin only in one exact state and reports the other only when it is there. Some theorems prove where the code departs from what it documents
  (\<open>input_required_reported_orphaned\<close>, \<open>late_completion_forgotten\<close>, \<open>reply_contradicts_cancel\<close>, \<open>rejected_reason_lost\<close>,
  \<open>non_ascii_credential_raises\<close>, \<open>loopback_callback_accepted\<close>, \<open>separator_breaks_stream\<close>, \<open>media_type_leaves_unknown\<close>,
  \<open>separator_loses_message\<close>, \<open>contexts_share_log\<close>, \<open>same_path_unreachable\<close>, \<open>refused_socket_removed\<close>,
  \<open>clock_set_back_locks_out\<close>).

  \<^bold>\<open>Parameters.\<close> Fernet encryption and SHA-256 (\<open>broker_env\<close>, \<open>client_env\<close>; where a theorem needs decryption to invert
  encryption it says so), \<open>uuid4\<close>, \<open>uuid5\<close> and the clock, pydantic's decoding of request bodies (\<open>validators\<close>), the
  replies of peers, broker and native transport, float literals of JSON, NFKC normalization and Fernet key syntax;
  httpx's encoding of request bodies (\<open>wire\<close>); of the agent: \<open>coerce_int\<close>, \<open>load_config\<close>, \<open>redact_for_egress\<close>, its child
  processes and sessions, HMAC, the registry of tools and the answer of a push callback; the answers of \<open>psutil\<close> and the operating
  system about processes; \<open>pathlib\<close>, pydantic's validation of settings and float literals of the environment; of the scripts:
  SHA-256, the archive formats, \<open>git\<close> and the answers of GitHub.

  \<^bold>\<open>Bounds.\<close> The loops of the source that may not end take fuel: the filling loops of a turn get one unit more
  than the job limit, and are proved to end; a turn and a run of the dispatcher are proved to return; \<open>wait\<close>
  gets one unit per scheduler event in which the requested time passes, and is proved to return within three more. Integers are unbounded, as Python's are;
  \<open>BIGINT\<close> overflow of event sequence numbers is not modelled.

  \<^bold>\<open>Not modelled.\<close> The TLS handshake and connection pools of httpx, the declarations of MCP tools and of \<open>argparse\<close>, the servers
  (uvicorn, \<open>http.server\<close> with its threads), the identity of the native binary on disk, the state database in which the
  adapter looks up a profile's sessions, and \<open>check_wheel_install.py\<close>, which only runs other programs. Toolset names that are not text
  and reply timeouts that are not finite are left out. Of the Python library: \<open>lower\<close> and case folding outside ASCII where noted in the theories,
  \<open>repr\<close> of unprintable characters outside ASCII.
\<close>

end
